(* ===== verification/Prelude.thy ===== *)
theory Prelude
  imports Complex_Main
begin

section \<open>Prelude: tables, fallible transactions and their rules\<close>

text \<open>
  What every component shares.  A database table is a list of rows and a query is a
  \<^const>\<open>find\<close> or a \<^const>\<open>filter\<close> over it; an \<open>UPDATE ... WHERE\<close> is \<open>update_rows\<close>.
  A service call that may raise returns \<open>Inl\<close> of the exception or \<open>Inr\<close> of its result with
  the new state, and \<open>and_then\<close> sequences two calls.  The locale \<open>transactional\<close> is the
  contract of one request: it either commits its new state or is rolled back, and an
  invariant that every request keeps holds after any sequence of requests.
\<close>

named_theorems row_simps \<open>queries over updated tables\<close>
named_theorems returned \<open>rules that read a returned call backwards\<close>

subsection \<open>Rows of a table\<close>

definition update_rows :: "('a \<Rightarrow> bool) \<Rightarrow> ('a \<Rightarrow> 'a) \<Rightarrow> 'a list \<Rightarrow> 'a list" where
  "update_rows P f = map (\<lambda>x. if P x then f x else x)"

lemma update_rows_Nil [simp]: "update_rows P f [] = []"
  by (simp add: update_rows_def)

lemma update_rows_Cons [simp]:
  "update_rows P f (x # xs) = (if P x then f x else x) # update_rows P f xs"
  by (simp add: update_rows_def)

lemma length_update_rows [simp, row_simps]: "length (update_rows P f xs) = length xs"
  by (simp add: update_rows_def)

lemma set_update_rows:
  "y \<in> set (update_rows P f xs) \<longleftrightarrow> (\<exists>x\<in>set xs. y = (if P x then f x else x))"
  by (auto simp: update_rows_def)

lemma map_update_rows [row_simps]:
  "(\<And>x. P x \<Longrightarrow> g (f x) = g x) \<Longrightarrow> map g (update_rows P f xs) = map g xs"
  by (induction xs) auto

lemma find_update_rows:
  "(\<And>x. P x \<Longrightarrow> Q (f x) \<longleftrightarrow> Q x) \<Longrightarrow>
   find Q (update_rows P f xs) = map_option (\<lambda>x. if P x then f x else x) (find Q xs)"
  by (induction xs) auto

lemma find_update_rows_other [row_simps]:
  "(\<And>x. P x \<Longrightarrow> \<not> Q x \<and> \<not> Q (f x)) \<Longrightarrow> find Q (update_rows P f xs) = find Q xs"
  by (induction xs) auto

lemma update_rows_id: "(\<And>x. x \<in> set xs \<Longrightarrow> P x \<Longrightarrow> f x = x) \<Longrightarrow> update_rows P f xs = xs"
  by (induction xs) auto

lemma find_append: "find P (xs @ ys) = (case find P xs of None \<Rightarrow> find P ys | Some x \<Rightarrow> Some x)"
  by (induction xs) auto

lemma find_SomeD: "find P xs = Some x \<Longrightarrow> x \<in> set xs \<and> P x"
  by (induction xs) (auto split: if_splits)

lemma find_NoneD: "find P xs = None \<Longrightarrow> x \<in> set xs \<Longrightarrow> \<not> P x"
  by (induction xs) (auto split: if_splits)

lemma find_unique:
  assumes "x \<in> set xs" and "P x" and unique: "\<And>y. y \<in> set xs \<Longrightarrow> P y \<Longrightarrow> y = x"
  shows "find P xs = Some x"
proof (cases "find P xs")
  case None
  with assms(1,2) show ?thesis
    by (blast dest: find_NoneD)
next
  case (Some y)
  with unique show ?thesis
    by (blast dest: find_SomeD)
qed

lemma find_key:
  "distinct (map k xs) \<Longrightarrow> x \<in> set xs \<Longrightarrow> k x = i \<Longrightarrow> find (\<lambda>y. k y = i) xs = Some x"
  by (rule find_unique) (auto simp: distinct_map dest: inj_onD)

lemma find_cong_list:
  "(\<And>x. x \<in> set xs \<Longrightarrow> P x = Q x) \<Longrightarrow> find P xs = find Q xs"
  by (induction xs) auto

subsection \<open>Calls that may raise\<close>

definition and_then :: "'e + 'a \<times> 's \<Rightarrow> ('a \<Rightarrow> 's \<Rightarrow> 'e + 'b) \<Rightarrow> 'e + 'b" where
  "and_then r k = (case r of Inl e \<Rightarrow> Inl e | Inr p \<Rightarrow> k (fst p) (snd p))"

lemma and_then_Inl [simp]: "and_then (Inl e) k = Inl e"
  by (simp add: and_then_def)

lemma and_then_Inr [simp]: "and_then (Inr (x, s)) k = k x s"
  by (simp add: and_then_def)

lemma and_then_InrE:
  assumes "and_then r k = Inr y"
  obtains x s where "r = Inr (x, s)" and "k x s = Inr y"
  using assms by (cases r) (auto simp: and_then_def)

lemma and_then_InlE:
  assumes "and_then r k = Inl e"
  obtains "r = Inl e" | x s where "r = Inr (x, s)" and "k x s = Inl e"
  using assms by (cases r) (auto simp: and_then_def)

lemma and_then_eq_Inr:
  "and_then r k = Inr y \<longleftrightarrow> (\<exists>x s. r = Inr (x, s) \<and> k x s = Inr y)"
  by (cases r) (auto simp: and_then_def)

text \<open>
  Guards: a call that returned passed them.  Unlike case splits these rules leave the
  conditionals inside the arguments of the call alone.
\<close>

lemma if_eq_Inr [returned]:
  "(if b then l else r) = Inr p \<longleftrightarrow> (b \<and> l = Inr p) \<or> (\<not> b \<and> r = Inr p)"
  by simp

lemma option_eq_Inr [returned]:
  "(case x of None \<Rightarrow> l | Some y \<Rightarrow> f y) = Inr p \<longleftrightarrow>
     (x = None \<and> l = Inr p) \<or> (\<exists>y. x = Some y \<and> f y = Inr p)"
  by (cases x) auto

lemmas [returned] = and_then_eq_Inr

text \<open>The state a request leaves behind: the new one, or the old one after a rollback.\<close>

definition commit :: "('s \<Rightarrow> 'e + 'a \<times> 's) \<Rightarrow> 's \<Rightarrow> 's" where
  "commit f s = (case f s of Inl e \<Rightarrow> s | Inr p \<Rightarrow> snd p)"

lemma commit_Inl [simp]: "f s = Inl e \<Longrightarrow> commit f s = s"
  by (simp add: commit_def)

lemma commit_Inr [simp]: "f s = Inr (x, t) \<Longrightarrow> commit f s = t"
  by (simp add: commit_def)

definition run_requests :: "('o \<Rightarrow> 's \<Rightarrow> 'e + 'a \<times> 's) \<Rightarrow> 'o list \<Rightarrow> 's \<Rightarrow> 's" where
  "run_requests exec ops s = fold (\<lambda>r. commit (exec r)) ops s"

lemma run_requests_Nil [simp]: "run_requests exec [] s = s"
  by (simp add: run_requests_def)

lemma run_requests_Cons [simp]:
  "run_requests exec (r # ops) s = run_requests exec ops (commit (exec r) s)"
  by (simp add: run_requests_def)

subsection \<open>What a call that returns ensures\<close>

text \<open>
  \<open>ensures R s r\<close>: when the call \<open>r\<close> made in state \<open>s\<close> returns, \<open>R\<close> relates \<open>s\<close> to the state
  it leaves.  Its rules follow the control structure of the code, so a proof about an
  operation walks through its branches; the locale \<open>step_relation\<close> adds the rules that
  need \<open>R\<close> to be reflexive and transitive.
\<close>

named_theorems ensures_rules \<open>how ensures goes through the control structure\<close>

definition ensures :: "('s \<Rightarrow> 's \<Rightarrow> bool) \<Rightarrow> 's \<Rightarrow> 'e + 'a \<times> 's \<Rightarrow> bool" where
  "ensures R s r \<longleftrightarrow> (\<forall>x t. r = Inr (x, t) \<longrightarrow> R s t)"

lemma ensuresI: "(\<And>x t. r = Inr (x, t) \<Longrightarrow> R s t) \<Longrightarrow> ensures R s r"
  by (simp add: ensures_def)

lemma ensuresD: "ensures R s r \<Longrightarrow> r = Inr (x, t) \<Longrightarrow> R s t"
  by (simp add: ensures_def)

lemma ensures_Inl [ensures_rules]: "ensures R s (Inl e)"
  by (simp add: ensures_def)

lemma ensures_Inr: "R s t \<Longrightarrow> ensures R s (Inr (x, t))"
  by (simp add: ensures_def)

lemma ensures_if [ensures_rules]:
  "(b \<Longrightarrow> ensures R s l) \<Longrightarrow> (\<not> b \<Longrightarrow> ensures R s r) \<Longrightarrow> ensures R s (if b then l else r)"
  by simp

lemma ensures_option [ensures_rules]:
  "(x = None \<Longrightarrow> ensures R s l) \<Longrightarrow> (\<And>y. x = Some y \<Longrightarrow> ensures R s (f y)) \<Longrightarrow>
   ensures R s (case x of None \<Rightarrow> l | Some y \<Rightarrow> f y)"
  by (cases x) auto

lemma ensures_Let [ensures_rules]: "(\<And>y. y = x \<Longrightarrow> ensures R s (f y)) \<Longrightarrow> ensures R s (Let x f)"
  by (simp add: Let_def)

lemma ensures_mono: "ensures R s r \<Longrightarrow> (\<And>t. R s t \<Longrightarrow> Q s t) \<Longrightarrow> ensures Q s r"
  by (auto simp: ensures_def)

locale step_relation =
  fixes R :: "'s \<Rightarrow> 's \<Rightarrow> bool"
  assumes step_refl: "R s s"
    and step_trans: "R s t \<Longrightarrow> R t u \<Longrightarrow> R s u"
begin

lemma ensures_return: "ensures R s (Inr (x, s))"
  by (simp add: ensures_def step_refl)

lemma ensures_after: "R s t \<Longrightarrow> ensures R t r \<Longrightarrow> ensures R s r"
  by (auto simp: ensures_def intro: step_trans)

lemma ensures_and_then:
  assumes "ensures R s r" and "\<And>x t. r = Inr (x, t) \<Longrightarrow> ensures R t (k x t)"
  shows "ensures R s (and_then r k)"
proof (rule ensuresI)
  fix x t
  assume "and_then r k = Inr (x, t)"
  then obtain y u where "r = Inr (y, u)" and "k y u = Inr (x, t)"
    by (rule and_then_InrE)
  then show "R s t"
    using assms(1) assms(2) [of y u] by (auto simp: ensures_def intro: step_trans)
qed

text \<open>A step that cannot raise, given with its result.\<close>

lemma ensures_pair:
  assumes "R s (snd p)" and "\<And>a t. p = (a, t) \<Longrightarrow> ensures R t (f a t)"
  shows "ensures R s (case p of (a, t) \<Rightarrow> f a t)"
  using assms by (cases p) (auto intro: ensures_after)

end

subsection \<open>The transactional contract\<close>

locale transactional =
  fixes exec :: "'o \<Rightarrow> 's \<Rightarrow> 'e + 'a \<times> 's"
    and inv :: "'s \<Rightarrow> bool"
  assumes exec_inv: "inv s \<Longrightarrow> exec r s = Inr (x, t) \<Longrightarrow> inv t"
begin

lemma commit_inv: "inv s \<Longrightarrow> inv (commit (exec r) s)"
  by (cases "exec r s") (auto simp: commit_def intro: exec_inv)

lemma run_inv: "inv s \<Longrightarrow> inv (run_requests exec ops s)"
  by (induction ops arbitrary: s) (auto intro: commit_inv)

end

text \<open>
  An extension: a reading of the state that no request lowers (a version counter, a
  set of facts once recorded), with its consequence for runs.
\<close>

locale transactional_mono = transactional +
  fixes reading :: "'s \<Rightarrow> 'm :: order"
  assumes exec_mono: "inv s \<Longrightarrow> exec r s = Inr (x, t) \<Longrightarrow> reading s \<le> reading t"
begin

lemma commit_mono: "inv s \<Longrightarrow> reading s \<le> reading (commit (exec r) s)"
  by (cases "exec r s") (auto simp: commit_def intro: exec_mono)

lemma run_mono: "inv s \<Longrightarrow> reading s \<le> reading (run_requests exec ops s)"
proof (induction ops arbitrary: s)
  case (Cons r ops)
  have "reading s \<le> reading (commit (exec r) s)"
    using Cons.prems by (rule commit_mono)
  also have "\<dots> \<le> reading (run_requests exec ops (commit (exec r) s))"
    using Cons.prems by (intro Cons.IH commit_inv)
  finally show ?case by simp
qed simp

end

subsection \<open>Sums over lists\<close>

lemma sum_list_map_filter_le:
  fixes f :: "'a \<Rightarrow> 'b :: ordered_comm_monoid_add"
  shows "(\<And>x. x \<in> set xs \<Longrightarrow> 0 \<le> f x) \<Longrightarrow>
    sum_list (map f (filter P xs)) \<le> sum_list (map f xs)"
  by (induction xs) (auto intro: add_increasing add_left_mono)

lemma sum_list_map_filter_if:
  fixes f :: "'a \<Rightarrow> 'b :: comm_monoid_add"
  shows "sum_list (map f (filter P xs)) = sum_list (map (\<lambda>x. if P x then f x else 0) xs)"
  by (induction xs) auto

lemma sum_list_filter_split:
  fixes f :: "'a \<Rightarrow> 'b :: comm_monoid_add"
  shows "sum_list (map f xs) =
    sum_list (map f (filter P xs)) + sum_list (map f (filter (\<lambda>x. \<not> P x) xs))"
  by (induction xs) (auto simp: algebra_simps)

text \<open>
  Counting every \<open>y\<close> at the rows \<open>x\<close> it belongs to counts it at most once when it belongs
  to at most one row.
\<close>

lemma sum_list_if_const:
  fixes c :: "'b :: linordered_idom"
  shows "sum_list (map (\<lambda>x. if P x then c else 0) xs) = c * of_nat (length (filter P xs))"
  by (induction xs) (auto simp: algebra_simps)

lemma sum_list_attribution_le:
  fixes f :: "'y \<Rightarrow> 'b :: linordered_idom"
  assumes "\<And>y. y \<in> set ys \<Longrightarrow> 0 \<le> f y"
    and "\<And>y. y \<in> set ys \<Longrightarrow> length (filter (\<lambda>x. R x y) xs) \<le> 1"
  shows "sum_list (map (\<lambda>x. sum_list (map f (filter (R x) ys))) xs)
    \<le> sum_list (map f (filter (\<lambda>y. \<exists>x\<in>set xs. R x y) ys))"
  using assms
proof (induction ys)
  case (Cons y ys)
  let ?rest = "\<lambda>x. sum_list (map f (filter (R x) ys))"
  have split: "sum_list (map f (filter (R x) (y # ys))) = (if R x y then f y else 0) + ?rest x"
    for x by simp
  have one: "(if \<exists>x\<in>set xs. R x y then f y else 0) \<ge> f y * of_nat (length (filter (\<lambda>x. R x y) xs))"
  proof (cases "filter (\<lambda>x. R x y) xs = []")
    case True
    then show ?thesis
      using Cons.prems(1) [of y] by (auto simp: filter_empty_conv)
  next
    case False
    then have "length (filter (\<lambda>x. R x y) xs) = 1" and "\<exists>x\<in>set xs. R x y"
      using Cons.prems(2) [of y] by (auto simp: filter_empty_conv le_Suc_eq)
    then show ?thesis by simp
  qed
  have "sum_list (map (\<lambda>x. (if R x y then f y else 0) + ?rest x) xs)
      = f y * of_nat (length (filter (\<lambda>x. R x y) xs)) + sum_list (map ?rest xs)"
    by (simp add: sum_list_addf sum_list_if_const)
  also have "\<dots> \<le> (if \<exists>x\<in>set xs. R x y then f y else 0)
      + sum_list (map f (filter (\<lambda>y. \<exists>x\<in>set xs. R x y) ys))"
    using Cons by (intro add_mono one) auto
  finally show ?case
    unfolding split by (cases "\<exists>x\<in>set xs. R x y") simp_all
qed simp

lemma length_filter_unique:
  assumes "distinct xs" and unique: "\<And>x y. x \<in> set xs \<Longrightarrow> y \<in> set xs \<Longrightarrow> P x \<Longrightarrow> P y \<Longrightarrow> x = y"
  shows "length (filter P xs) \<le> 1"
proof -
  have "length (filter P xs) = card (set (filter P xs))"
    by (rule distinct_card [symmetric]) (simp add: assms(1))
  also have "\<dots> \<le> Suc 0"
    using unique by (subst card_le_Suc0_iff_eq) auto
  finally show ?thesis by simp
qed

lemma sum_list_nonneg_map:
  fixes f :: "'a \<Rightarrow> 'b :: ordered_comm_monoid_add"
  shows "(\<And>x. x \<in> set xs \<Longrightarrow> 0 \<le> f x) \<Longrightarrow> 0 \<le> sum_list (map f xs)"
  by (induction xs) auto

lemma sum_list_mono_map:
  fixes f g :: "'a \<Rightarrow> 'b :: ordered_comm_monoid_add"
  shows "(\<And>x. x \<in> set xs \<Longrightarrow> f x \<le> g x) \<Longrightarrow> sum_list (map f xs) \<le> sum_list (map g xs)"
  by (induction xs) (auto intro: add_mono)

lemma sum_list_member_le:
  fixes f :: "'a \<Rightarrow> 'b :: ordered_comm_monoid_add"
  shows "x \<in> set xs \<Longrightarrow> (\<And>y. y \<in> set xs \<Longrightarrow> 0 \<le> f y) \<Longrightarrow> f x \<le> sum_list (map f xs)"
  by (induction xs) (auto intro: add_increasing add_increasing2 sum_list_nonneg_map)

end
