(* ===== verification/PyData.thy ===== *)
theory PyData
  imports Prelude "HOL-Library.Log_Nat"
begin

section \<open>The values of the language: JSON, decimals, doubles and instants\<close>

text \<open>
  The parts of Python and of its standard library the services compute with.
  Money is an exact decimal, read as a rational; \<open>decimal\<close> adds the non-finite values a
  parsed amount may have.  \<open>quantize_down\<close> and \<open>quantize_half_up\<close> are
  \<open>Decimal.quantize(Decimal(1), ...)\<close>.  \<open>fl\<close> rounds an exact result to the nearest
  binary64 value, ties to even, which is what one float operation does (the
  exponent range is not bounded: no amount here comes near it).  An aware UTC instant
  is the number of microseconds since the epoch.
\<close>

type_synonym money = rat
type_synonym instant = int

datatype decimal = Finite rat | PosInf | NegInf | NaN

subsection \<open>JSON metadata\<close>

text \<open>
  \<open>JTime\<close> is the ISO string of an instant, \<open>JDec\<close> the text of a decimal and \<open>JFmt\<close> an
  f-string kept as its template and arguments.  A metadata column is a dict, so a map.
\<close>

datatype json =
    JNull
  | JBool bool
  | JInt int
  | JStr string
  | JDec money
  | JTime instant
  | JFmt string "json list"
  | JObj "(string \<times> json) list"
  | JArr "json list"

type_synonym meta = "string \<rightharpoonup> json"

fun truthy :: "json \<Rightarrow> bool" where
  "truthy JNull = False"
| "truthy (JBool b) = b"
| "truthy (JInt i) = (i \<noteq> 0)"
| "truthy (JStr s) = (s \<noteq> [])"
| "truthy (JDec d) = True"
| "truthy (JTime t) = True"
| "truthy (JFmt s js) = True"
| "truthy (JObj kvs) = (kvs \<noteq> [])"
| "truthy (JArr js) = (js \<noteq> [])"

definition meta_truthy :: "meta \<Rightarrow> string \<Rightarrow> bool" where
  "meta_truthy m k = (case m k of None \<Rightarrow> False | Some v \<Rightarrow> truthy v)"

lemma meta_truthy_upd [simp]:
  "meta_truthy (m(k \<mapsto> v)) k' = (if k' = k then truthy v else meta_truthy m k')"
  by (simp add: meta_truthy_def)

lemma meta_truthy_del [simp]:
  "meta_truthy (m(k := None)) k' = (k' \<noteq> k \<and> meta_truthy m k')"
  by (simp add: meta_truthy_def)

subsection \<open>Text\<close>

text \<open>\<open>str(n)\<close> of an integer.\<close>

fun nat_digits :: "nat \<Rightarrow> string" where
  "nat_digits n =
     (if n < 10 then [char_of (48 + n)] else nat_digits (n div 10) @ [char_of (48 + n mod 10)])"

declare nat_digits.simps [simp del]

definition str_int :: "int \<Rightarrow> string" where
  "str_int i = (if i < 0 then ''-'' @ nat_digits (nat (- i)) else nat_digits (nat i))"

text \<open>\<open>str.strip()\<close>, on the ASCII white space.\<close>

definition is_space :: "char \<Rightarrow> bool" where
  "is_space c \<longleftrightarrow> of_char c \<in> set [9, 10, 11, 12, 13, 28, 29, 30, 31, 32 :: nat]"

definition py_strip :: "string \<Rightarrow> string" where
  "py_strip s = rev (dropWhile is_space (rev (dropWhile is_space s)))"

text \<open>\<open>str.lower()\<close>, on ASCII.\<close>

definition lower_char :: "char \<Rightarrow> char" where
  "lower_char c = (let n = of_char c :: nat in
     if 65 \<le> n \<and> n \<le> 90 then char_of (n + 32) else c)"

definition py_lower :: "string \<Rightarrow> string" where
  "py_lower s = map lower_char s"

subsection \<open>Rounding of decimals\<close>

definition trunc_rat :: "rat \<Rightarrow> int" where
  "trunc_rat x = (if 0 \<le> x then \<lfloor>x\<rfloor> else \<lceil>x\<rceil>)"

text \<open>\<open>quantize(Decimal(1), rounding=ROUND_DOWN)\<close>: towards zero.\<close>

definition quantize_down :: "money \<Rightarrow> money" where
  "quantize_down x = of_int (trunc_rat x)"

text \<open>\<open>quantize(Decimal(1), rounding=ROUND_HALF_UP)\<close>: nearest, ties away from zero.\<close>

definition quantize_half_up :: "money \<Rightarrow> money" where
  "quantize_half_up x = of_int (if 0 \<le> x then \<lfloor>x + 1/2\<rfloor> else \<lceil>x - 1/2\<rceil>)"

definition is_whole :: "money \<Rightarrow> bool" where
  "is_whole x \<longleftrightarrow> x = of_int \<lfloor>x\<rfloor>"

lemma is_whole_of_int [simp]: "is_whole (of_int i)"
  by (simp add: is_whole_def)

lemma is_whole_iff: "is_whole x \<longleftrightarrow> (\<exists>i. x = of_int i)"
  by (auto simp: is_whole_def)

lemma is_whole_0 [simp]: "is_whole 0"
  by (simp add: is_whole_def)

lemma is_whole_add: "is_whole x \<Longrightarrow> is_whole y \<Longrightarrow> is_whole (x + y)"
  unfolding is_whole_iff by (metis of_int_add)

lemma is_whole_minus [simp]: "is_whole (- x) = is_whole x"
  unfolding is_whole_iff by (metis minus_minus of_int_minus)

lemma is_whole_diff: "is_whole x \<Longrightarrow> is_whole y \<Longrightarrow> is_whole (x - y)"
  using is_whole_add [of x "- y"] by simp

lemma is_whole_abs [simp]: "is_whole \<bar>x\<bar> = is_whole x"
  by (simp add: abs_if)

lemma is_whole_min: "is_whole x \<Longrightarrow> is_whole y \<Longrightarrow> is_whole (min x y)"
  by (simp add: min_def)

lemma is_whole_max: "is_whole x \<Longrightarrow> is_whole y \<Longrightarrow> is_whole (max x y)"
  by (simp add: max_def)

lemma is_whole_sum_list: "(\<And>x. x \<in> set xs \<Longrightarrow> is_whole (f x)) \<Longrightarrow> is_whole (sum_list (map f xs))"
  by (induction xs) (auto intro: is_whole_add)

lemma is_whole_quantize_down [simp]: "is_whole (quantize_down x)"
  by (simp add: quantize_down_def)

lemma is_whole_quantize_half_up [simp]: "is_whole (quantize_half_up x)"
  by (simp add: quantize_half_up_def)

lemma quantize_down_nonneg [simp]: "0 \<le> x \<Longrightarrow> 0 \<le> quantize_down x"
  by (simp add: quantize_down_def trunc_rat_def)

lemma quantize_down_le: "0 \<le> x \<Longrightarrow> quantize_down x \<le> x"
  by (simp add: quantize_down_def trunc_rat_def)

lemma quantize_down_mono: "0 \<le> x \<Longrightarrow> x \<le> y \<Longrightarrow> quantize_down x \<le> quantize_down y"
  by (simp add: quantize_down_def trunc_rat_def floor_mono)

lemma quantize_half_up_whole: "is_whole x \<Longrightarrow> quantize_half_up x = x"
proof -
  assume "is_whole x"
  then obtain i where x: "x = of_int i"
    by (auto simp: is_whole_iff)
  have up: "\<lfloor>of_int i + 1 / 2 :: rat\<rfloor> = i" and down: "\<lceil>of_int i - 1 / 2 :: rat\<rceil> = i"
    by linarith+
  show ?thesis
    using up down by (simp add: quantize_half_up_def x)
qed

subsection \<open>Binary64 arithmetic\<close>

definition round_half_even :: "rat \<Rightarrow> int" where
  "round_half_even x =
     (let f = \<lfloor>x\<rfloor>; d = x - of_int f in
      if d < 1/2 then f else if 1/2 < d then f + 1 else if even f then f else f + 1)"

definition pow2 :: "int \<Rightarrow> rat" where
  "pow2 e = (if 0 \<le> e then 2 ^ nat e else 1 / 2 ^ nat (- e))"

text \<open>The exponent of the last place of the 53-bit significand of \<open>x\<close>.\<close>

definition ulp_exp :: "rat \<Rightarrow> int" where
  "ulp_exp x =
     (let (p, q) = quotient_of \<bar>x\<bar>;
          e = int (floorlog 2 (nat p)) - int (floorlog 2 (nat q)) - 53 in
      if \<bar>x\<bar> < 2 ^ 53 * pow2 e then e else e + 1)"

definition fl :: "rat \<Rightarrow> rat" where
  "fl x = (if x = 0 then 0
           else of_int (round_half_even (x / pow2 (ulp_exp x))) * pow2 (ulp_exp x))"

lemma pow2_pos [simp]: "0 < pow2 e"
  by (simp add: pow2_def)

lemma round_half_even_nonneg: "0 \<le> x \<Longrightarrow> 0 \<le> round_half_even x"
  by (simp add: round_half_even_def Let_def)

lemma round_half_even_of_int [simp]: "round_half_even (of_int i) = i"
  by (simp add: round_half_even_def)

lemma round_half_even_mono:
  assumes "x \<le> y"
  shows "round_half_even x \<le> round_half_even y"
proof (cases "\<lfloor>x\<rfloor> = \<lfloor>y\<rfloor>")
  case True
  then show ?thesis
    using assms by (simp add: round_half_even_def Let_def)
next
  case False
  then have "\<lfloor>x\<rfloor> + 1 \<le> \<lfloor>y\<rfloor>"
    using assms floor_mono [of x y] by linarith
  then show ?thesis
    by (simp add: round_half_even_def Let_def)
qed

lemma round_half_even_error: "\<bar>of_int (round_half_even x) - x\<bar> \<le> 1 / 2"
proof -
  have "of_int \<lfloor>x\<rfloor> \<le> x" and "x < of_int \<lfloor>x\<rfloor> + 1"
    by linarith+
  then show ?thesis
    unfolding round_half_even_def Let_def abs_if
    by (simp split: if_split; linarith)
qed

lemma fl_0 [simp]: "fl 0 = 0"
  by (simp add: fl_def)

lemma fl_nonneg: "0 \<le> x \<Longrightarrow> 0 \<le> fl x"
proof -
  assume "0 \<le> x"
  then have "0 \<le> x / pow2 (ulp_exp x)"
    by (simp add: less_imp_le)
  then have "0 \<le> (of_int (round_half_even (x / pow2 (ulp_exp x))) :: rat)"
    by (simp add: round_half_even_nonneg)
  then show "0 \<le> fl x"
    by (simp add: fl_def less_imp_le)
qed

subsection \<open>Instants\<close>

definition usec_per_day :: int where "usec_per_day = 86400 * 1000000"

definition days_us :: "int \<Rightarrow> int" where "days_us d = d * usec_per_day"
definition hours_us :: "int \<Rightarrow> int" where "hours_us h = h * 3600 * 1000000"
definition minutes_us :: "int \<Rightarrow> int" where "minutes_us m = m * 60 * 1000000"

lemma days_us_nonneg: "0 \<le> d \<Longrightarrow> 0 \<le> days_us d"
  by (simp add: days_us_def usec_per_day_def)

lemma days_us_pos: "0 < d \<Longrightarrow> 0 < days_us d"
  by (simp add: days_us_def usec_per_day_def)

lemma days_us_add: "days_us (a + b) = days_us a + days_us b"
  by (simp add: days_us_def distrib_right)

lemma days_us_0 [simp]: "days_us 0 = 0"
  by (simp add: days_us_def)

lemma days_us_le [simp]: "days_us a \<le> days_us b \<longleftrightarrow> a \<le> b"
  by (simp add: days_us_def usec_per_day_def)

text \<open>\<open>timedelta.total_seconds()\<close>: the microseconds divided by a million, as a double.\<close>

definition total_seconds :: "int \<Rightarrow> rat" where
  "total_seconds us = fl (of_int us / 1000000)"

end
