(* ===== verification/Models.thy ===== *)
theory Models
  imports PyData
begin

section \<open>Enums, constants and tables\<close>

text \<open>
  \<open>config/enums.py\<close>, the constants of \<open>config/constants.py\<close> the services compute with
  (at their defaults where the environment may override them) and the tables of
  \<open>database/models.py\<close>: one record per table with every column, one
  \<open>ck_...\<close> predicate per check constraint, one \<open>uq_...\<close> predicate per unique index the
  services rely on.  The state \<open>db\<close> is the tables, their sequences and the background
  tasks queued for after the commit.  Foreign keys are not modelled.
\<close>

subsection \<open>config/enums.py\<close>

datatype PaymentProviderStatus =
    Prov_NOT_CREATED | Prov_CREATING | Prov_PENDING | Prov_WAITING_FOR_CAPTURE
  | Prov_SUCCEEDED | Prov_CANCELED | Prov_REFUNDED | Prov_UNKNOWN | Prov_MANUAL_REVIEW

datatype PaymentFulfillmentStatus =
    Ful_NOT_READY | Ful_PROCESSING | Ful_SUCCEEDED | Ful_FAILED | Ful_REVERSED
  | Ful_MANUAL_REVIEW

datatype PaymentCheckoutStatus = Checkout_ACTIVE | Checkout_ABANDONED

datatype PaymentReconciliationStatus = Rec_OK | Rec_REQUIRED | Rec_MISMATCH | Rec_MANUAL_REVIEW

datatype AccountLedgerEntryType =
    PAYMENT_CREDIT | PURCHASE_DEBIT | PURCHASE_REVERSAL | REFUND_DEBIT
  | CHARGEBACK_DEBIT | ADMIN_ADJUSTMENT

datatype ServerHealthState = ONLINE | WAITING_CONFIRMATION | PROBLEM | MANUAL_DISABLED

datatype ServerLifecycleStatus =
    Life_ACTIVE | Life_DECOMMISSIONING | Life_DECOMMISSIONED | Life_ARCHIVED

datatype WhiteInternetStatus = WI_PENDING | WI_ACTIVE | WI_EXHAUSTED | WI_EXPIRED | WI_DISABLED

datatype WhiteInternetProvisioningStatus =
    Node_PENDING_CREATE | Node_ACTIVE | Node_PENDING_UPDATE | Node_PENDING_DELETE
  | Node_SYNCED_INACTIVE | Node_FAILED

datatype OrderStatus = Order_PENDING | Order_PAID | Order_REFUNDED | Order_CANCELED

datatype OrderServiceType = STANDARD | WHITE_INTERNET | TOPUP | AWG

text \<open>The audit actions the modelled services write.\<close>

datatype AdminAuditAction =
    REFERRAL_ATTACHED | REFERRAL_BONUS_GRANTED | USER_REGISTER | USER_RESTORED | BAN_USER | UNBAN_USER
  | BROADCAST | MASS_BONUS_GRANTED | MASS_SUB_EXTEND | CLEANUP_DEVICE_DELETE

subsection \<open>config/constants.py\<close>

definition PERMANENT_SUBSCRIPTION_DAYS :: int where "PERMANENT_SUBSCRIPTION_DAYS = 36500"

text \<open>2100-01-01T00:00:00+00:00.\<close>

definition PERMANENT_END_DATE :: instant where "PERMANENT_END_DATE = 4102444800 * 1000000"
definition VPN_ACCESS_GRACE_HOURS :: int where "VPN_ACCESS_GRACE_HOURS = 4"

definition WHITE_INTERNET_BASE_PRICE_RUB :: money where "WHITE_INTERNET_BASE_PRICE_RUB = 250"
definition WHITE_INTERNET_BASE_DURATION_DAYS :: int where "WHITE_INTERNET_BASE_DURATION_DAYS = 30"
definition WHITE_INTERNET_BASE_TRAFFIC_BYTES :: int where
  "WHITE_INTERNET_BASE_TRAFFIC_BYTES = 53687091200"
definition WHITE_INTERNET_TRIAL_DURATION_DAYS :: int where "WHITE_INTERNET_TRIAL_DURATION_DAYS = 3"
definition WHITE_INTERNET_TRIAL_TRAFFIC_BYTES :: int where
  "WHITE_INTERNET_TRIAL_TRAFFIC_BYTES = 5 * 1024 * 1024 * 1024"
definition WHITE_INTERNET_EXTRA_DEVICE_PRICE_RUB :: money where
  "WHITE_INTERNET_EXTRA_DEVICE_PRICE_RUB = 200"
definition WHITE_INTERNET_EXTRA_DEVICE_TRAFFIC_BYTES :: int where
  "WHITE_INTERNET_EXTRA_DEVICE_TRAFFIC_BYTES = 53687091200"
definition WHITE_INTERNET_MAX_DEVICE_LIMIT :: int where
  "WHITE_INTERNET_MAX_DEVICE_LIMIT = min 3 (max 1 3)"
definition WHITE_INTERNET_HWID_TTL_HOURS :: int where "WHITE_INTERNET_HWID_TTL_HOURS = 48"
definition WHITE_INTERNET_MAX_EXPIRY_DAYS :: int where "WHITE_INTERNET_MAX_EXPIRY_DAYS = 60"
definition WHITE_INTERNET_DEVICE_RESET_COOLDOWN_SECONDS :: int where
  "WHITE_INTERNET_DEVICE_RESET_COOLDOWN_SECONDS = 900"
definition WHITE_INTERNET_MAX_QUOTA_BYTES :: int where
  "WHITE_INTERNET_MAX_QUOTA_BYTES = 161061273600"
definition WHITE_INTERNET_TOPUP_PACKS :: "(int \<times> money) list" where
  "WHITE_INTERNET_TOPUP_PACKS = [(10, 40), (25, 100), (50, 200)]"
definition WHITE_INTERNET_DEFAULT_DEVICE_LIMIT :: int where
  "WHITE_INTERNET_DEFAULT_DEVICE_LIMIT = 1"

definition REFERRAL_TIERS :: "(int \<times> rat \<times> string) list" where
  "REFERRAL_TIERS =
     [(0, 15/100, ''Standard''), (3, 20/100, ''Silver''), (7, 25/100, ''Gold''),
      (15, 30/100, ''Platinum'')]"
definition REFERRAL_DEFAULT_RATE :: rat where "REFERRAL_DEFAULT_RATE = 15/100"
definition REFERRAL_WELCOME_DISCOUNT_PERCENT :: rat where
  "REFERRAL_WELCOME_DISCOUNT_PERCENT = 25/100"
definition REFERRAL_ACTIVE_MIN_TOPUP_RUB :: money where "REFERRAL_ACTIVE_MIN_TOPUP_RUB = 68"

subsection \<open>database/models.py\<close>

text \<open>A primary key of type UUID is its canonical text.\<close>

type_synonym uuid = string

record user =
  u_id :: int
  telegram_id :: int
  username :: "string option"
  first_name :: "string option"
  subscription_end :: "instant option"
  last_trial_reset_at :: "instant option"
  u_device_limit :: int
  current_tariff_id :: "int option"
  referred_by :: "int option"
  last_payment_at :: "instant option"
  is_banned :: bool
  is_bot_blocked :: bool
  is_deleted :: bool
  deleted_at :: "instant option"
  financial_hold :: bool
  topup_blocked :: bool
  financial_block_reason :: "string option"
  notification_retry_count :: int
  last_notification_attempt :: "instant option"
  u_created_at :: instant
  u_notified_3d :: bool
  u_notified_1d :: bool
  u_notified_2h :: bool
  u_notified_expired :: bool
  u_notified_grace_12h :: bool
  device_creations_today :: int
  last_creation_date :: "int option"
  total_traffic_bytes :: int
  total_wi_traffic_bytes :: int
  monthly_vless_bytes :: int
  monthly_wi_bytes :: int
  traffic_cycle :: "string option"
  archived_device_traffic :: meta
  show_in_leaderboard :: bool

record server =
  s_id :: int
  s_name :: string
  country_flag :: "string option"
  api_url :: string
  api_key :: string
  protocol :: string
  max_clients :: int
  s_is_active :: bool
  disabled_reason :: "string option"
  disabled_at :: "instant option"
  last_successful_check :: "instant option"
  health_state :: ServerHealthState
  lifecycle_status :: ServerLifecycleStatus
  problem_started_at :: "instant option"
  next_check_at :: "instant option"
  consecutive_fails :: int
  consecutive_successes :: int
  last_alert_sent_state :: "string option"
  capabilities :: "string list"
  extra_data :: meta
  xray_instance_epoch :: "string option"
  xray_instance_boot_id :: "string option"
  xray_instance_starttime :: "int option"
  s_created_at :: instant

record tariff =
  t_id :: int
  t_name :: string
  t_description :: "string option"
  t_service_type :: OrderServiceType
  t_duration_days :: int
  t_device_limit :: int
  price_rub :: int
  t_is_active :: bool
  sort_order :: int
  t_created_at :: instant

text \<open>The legacy top-up payments.\<close>

record payment =
  p_id :: int
  p_user_id :: int
  p_amount :: money
  p_currency :: string
  public_order_id :: string
  provider_idempotency_key :: string
  provider_status :: PaymentProviderStatus
  fulfillment_status :: PaymentFulfillmentStatus
  reconciliation_status :: PaymentReconciliationStatus
  checkout_status :: PaymentCheckoutStatus
  ui_visible :: bool
  user_cancel_requested_at :: "instant option"
  manual_review_reason :: "string option"
  topup_context :: meta
  p_created_at :: instant
  p_updated_at :: instant
  p_paid_at :: "instant option"
  provider_confirmed_at :: "instant option"
  credited_at :: "instant option"
  credit_notified_at :: "instant option"
  payment_url_notified_at :: "instant option"
  fulfilled_at :: "instant option"
  reversed_at :: "instant option"
  last_reconciled_at :: "instant option"
  provider_last_error_code :: "string option"
  provider_last_error :: "string option"
  fulfillment_last_error_code :: "string option"
  fulfillment_last_error :: "string option"
  p_external_id :: "string option"
  p_payment_url :: "string option"
  p_payment_method :: "string option"

record order =
  o_id :: uuid
  o_user_id :: int
  service_type :: OrderServiceType
  tariff_id :: "int option"
  amount_rub :: money
  duration_days :: int
  traffic_bytes :: int
  o_device_limit :: "int option"
  payment_method :: string
  external_id :: "string option"
  payment_url :: "string option"
  o_status :: OrderStatus
  o_description :: "string option"
  o_metadata :: meta
  o_created_at :: instant
  paid_at :: "instant option"
  refunded_at :: "instant option"
  o_expires_at :: "instant option"

record ledger_entry =
  e_id :: int
  e_user_id :: int
  entry_type :: AccountLedgerEntryType
  amount :: money
  currency :: string
  payment_id :: "int option"
  quote_id :: "int option"
  order_id :: "uuid option"
  reversal_of_id :: "int option"
  idempotency_key :: string
  e_metadata :: meta
  e_created_at :: instant

record allocation =
  a_id :: int
  a_user_id :: int
  credit_entry_id :: int
  debit_entry_id :: int
  a_amount :: money
  a_idempotency_key :: string
  a_created_at :: instant

record wi_sub =
  w_id :: int
  w_user_id :: int
  origin_node_id :: "int option"
  w_token :: string
  w_uuid :: string
  w_status :: WhiteInternetStatus
  status_reason :: "string option"
  started_at :: instant
  expires_at :: instant
  base_traffic_bytes :: int
  extra_traffic_bytes :: int
  traffic_used_bytes :: int
  traffic_uplink_bytes :: int
  traffic_downlink_bytes :: int
  traffic_overage_bytes :: int
  last_uplink_snapshot :: int
  last_downlink_snapshot :: int
  traffic_stats_epoch :: "string option"
  w_active_hwids :: "(string \<times> json) list"
  w_device_limit :: int
  last_device_reset_at :: "instant option"
  is_trial :: bool
  provisioning_status :: WhiteInternetProvisioningStatus
  desired_version :: int
  actual_version :: int
  last_reconciled_node_epoch :: "string option"
  w_last_synced_at :: "instant option"
  last_sync_error :: "string option"
  pending_hard_delete :: bool
  notified_3d :: bool
  notified_1d :: bool
  notified_2h :: bool
  notified_expired :: bool
  notified_90p :: bool
  w_created_at :: instant

record orphan_cleanup =
  c_id :: int
  c_server_id :: "int option"
  client_uuid :: string
  c_desired_version :: int
  attempts :: int
  c_done :: bool
  last_error :: "string option"

record vless_sub =
  v_id :: int
  v_user_id :: int
  v_token :: string
  v_uuid :: string
  v_is_active :: bool
  version :: int
  v_active_hwids :: "(string \<times> json) list"
  pending_revoked_uuids :: "string list"
  traffic_down :: int
  traffic_up :: int
  node_traffic_snapshots :: meta
  v_last_synced_at :: "instant option"
  last_synced_version :: int
  v_created_at :: instant

record audit_log =
  admin_id :: int
  action :: AdminAuditAction
  target_type :: string
  target_id :: int
  details :: meta

text \<open>Tasks a session starts once its transaction has committed.\<close>

datatype bg_task =
    Deprovision int string int
  | Sync_vless int bool
  | Deprovision_vless string int int
  | Sync_node_vless int

record db =
  users :: "user list"
  tariffs :: "tariff list"
  orders :: "order list"
  payments :: "payment list"
  entries :: "ledger_entry list"
  allocs :: "allocation list"
  wi_subs :: "wi_sub list"
  vless_subs :: "vless_sub list"
  servers :: "server list"
  orphans :: "orphan_cleanup list"
  audit_logs :: "audit_log list"
  tasks :: "bg_task list"
  entry_seq :: int
  alloc_seq :: int
  user_seq :: int
  tariff_seq :: int
  wi_seq :: int
  orphan_seq :: int
  server_seq :: int

subsection \<open>Check constraints\<close>

definition ck_orders_amount_rub :: "order \<Rightarrow> bool" where
  "ck_orders_amount_rub ord \<longleftrightarrow> 0 \<le> amount_rub ord \<and> is_whole (amount_rub ord)"

definition ck_account_ledger_whole_nonzero_amount :: "ledger_entry \<Rightarrow> bool" where
  "ck_account_ledger_whole_nonzero_amount e \<longleftrightarrow> amount e \<noteq> 0 \<and> is_whole (amount e)"

definition ck_account_ledger_entry_shape :: "ledger_entry \<Rightarrow> bool" where
  "ck_account_ledger_entry_shape e \<longleftrightarrow>
     (case entry_type e of
        PAYMENT_CREDIT \<Rightarrow>
          0 < amount e \<and> (payment_id e \<noteq> None \<or> order_id e \<noteq> None) \<and> quote_id e = None
          \<and> reversal_of_id e = None
      | PURCHASE_DEBIT \<Rightarrow>
          amount e < 0 \<and> payment_id e = None \<and> (quote_id e \<noteq> None \<or> order_id e \<noteq> None)
          \<and> reversal_of_id e = None
      | PURCHASE_REVERSAL \<Rightarrow>
          0 < amount e \<and> payment_id e = None \<and> (quote_id e \<noteq> None \<or> order_id e \<noteq> None)
          \<and> reversal_of_id e \<noteq> None
      | ADMIN_ADJUSTMENT \<Rightarrow>
          payment_id e = None \<and> quote_id e = None \<and> reversal_of_id e = None
      | _ \<Rightarrow>
          amount e < 0 \<and> (payment_id e \<noteq> None \<or> order_id e \<noteq> None) \<and> quote_id e = None
          \<and> reversal_of_id e = None)"

definition ck_account_allocations_whole_positive_amount :: "allocation \<Rightarrow> bool" where
  "ck_account_allocations_whole_positive_amount a \<longleftrightarrow> 0 < a_amount a \<and> is_whole (a_amount a)"

definition ck_white_internet_subscriptions_traffic_nonnegative :: "wi_sub \<Rightarrow> bool" where
  "ck_white_internet_subscriptions_traffic_nonnegative w \<longleftrightarrow>
     0 \<le> base_traffic_bytes w \<and> 0 \<le> extra_traffic_bytes w \<and> 0 \<le> traffic_used_bytes w
     \<and> 0 \<le> traffic_uplink_bytes w \<and> 0 \<le> traffic_downlink_bytes w"

definition ck_white_internet_subscriptions_device_limit :: "wi_sub \<Rightarrow> bool" where
  "ck_white_internet_subscriptions_device_limit w \<longleftrightarrow>
     1 \<le> w_device_limit w \<and> w_device_limit w \<le> 3"

definition ck_payments_topup_money :: "payment \<Rightarrow> bool" where
  "ck_payments_topup_money p \<longleftrightarrow> p_currency p = ''RUB'' \<and> 0 < p_amount p \<and> is_whole (p_amount p)"

subsection \<open>Unique indexes of the ledger\<close>

text \<open>Whether a new entry clashes with a stored one in one of the unique indexes.\<close>

definition entry_conflict :: "ledger_entry \<Rightarrow> ledger_entry \<Rightarrow> bool" where
  "entry_conflict n e \<longleftrightarrow>
     idempotency_key e = idempotency_key n
   \<or> (entry_type e = PURCHASE_DEBIT \<and> entry_type n = PURCHASE_DEBIT
      \<and> order_id n \<noteq> None \<and> order_id e = order_id n)
   \<or> (entry_type e = PAYMENT_CREDIT \<and> entry_type n = PAYMENT_CREDIT
      \<and> order_id n \<noteq> None \<and> order_id e = order_id n)
   \<or> (entry_type e = PURCHASE_DEBIT \<and> entry_type n = PURCHASE_DEBIT
      \<and> quote_id n \<noteq> None \<and> quote_id e = quote_id n)
   \<or> (entry_type e = PAYMENT_CREDIT \<and> entry_type n = PAYMENT_CREDIT
      \<and> payment_id n \<noteq> None \<and> payment_id e = payment_id n)
   \<or> (entry_type e = PURCHASE_REVERSAL \<and> entry_type n = PURCHASE_REVERSAL
      \<and> reversal_of_id e = reversal_of_id n)"

subsection \<open>Exceptions\<close>

datatype pyerr =
    ValueError string
  | LookupError string
  | TypeError string
  | AttributeError string
  | RuntimeError string
  | InvalidOperation
  | IntegrityError
  | AccountLedgerConflictError string
  | InsufficientAccountBalanceError string
  | AccountLedgerInvariantError string
  | InsufficientBalanceError money money
  | AccountDebtBlockedError
  | FinancialHoldBlockedError
  | WhiteInternetQuotaCapExceededError
  | WhiteInternetDeviceLimitExceededError
  | WhiteInternetResetCooldownError int
  | WhiteInternetRenewalHorizonExceededError
  | WhiteInternetSubscriptionNotFoundError
  | WhiteInternetInactiveSubscriptionError
  | WhiteInternetTrialSubscriptionError
  | WhiteInternetError string
  | PaymentCreationAmbiguousError
  | GatewayError string

subsection \<open>Primary-key reads and row updates\<close>

definition get_user :: "db \<Rightarrow> int \<Rightarrow> user option" where
  "get_user s i = find (\<lambda>u. u_id u = i) (users s)"

definition get_tariff :: "db \<Rightarrow> int \<Rightarrow> tariff option" where
  "get_tariff s i = find (\<lambda>t. t_id t = i) (tariffs s)"

definition get_order :: "db \<Rightarrow> uuid \<Rightarrow> order option" where
  "get_order s i = find (\<lambda>ord. o_id ord = i) (orders s)"

definition get_server :: "db \<Rightarrow> int \<Rightarrow> server option" where
  "get_server s i = find (\<lambda>r. s_id r = i) (servers s)"

definition set_user :: "user \<Rightarrow> db \<Rightarrow> db" where
  "set_user u s = s\<lparr>users := update_rows (\<lambda>v. u_id v = u_id u) (\<lambda>_. u) (users s)\<rparr>"

definition set_order :: "order \<Rightarrow> db \<Rightarrow> db" where
  "set_order ord s = s\<lparr>orders := update_rows (\<lambda>v. o_id v = o_id ord) (\<lambda>_. ord) (orders s)\<rparr>"

definition set_wi_sub :: "wi_sub \<Rightarrow> db \<Rightarrow> db" where
  "set_wi_sub w s = s\<lparr>wi_subs := update_rows (\<lambda>v. w_id v = w_id w) (\<lambda>_. w) (wi_subs s)\<rparr>"

lemma get_order_set_order [simp]:
  "get_order (set_order ord s) i =
     (if i = o_id ord then map_option (\<lambda>_. ord) (get_order s i) else get_order s i)"
proof (cases "i = o_id ord")
  case True
  have "find (\<lambda>v. o_id v = o_id ord) (update_rows (\<lambda>v. o_id v = o_id ord) (\<lambda>_. ord) xs) =
      map_option (\<lambda>_. ord) (find (\<lambda>v. o_id v = o_id ord) xs)" for xs
    by (induction xs) auto
  then show ?thesis
    using True by (simp add: get_order_def set_order_def)
next
  case False
  then show ?thesis
    by (auto simp: get_order_def set_order_def intro!: find_update_rows_other)
qed

lemma get_user_set_user [simp]:
  "get_user (set_user u s) i =
     (if i = u_id u then map_option (\<lambda>_. u) (get_user s i) else get_user s i)"
proof (cases "i = u_id u")
  case True
  have "find (\<lambda>v. u_id v = u_id u) (update_rows (\<lambda>v. u_id v = u_id u) (\<lambda>_. u) xs) =
      map_option (\<lambda>_. u) (find (\<lambda>v. u_id v = u_id u) xs)" for xs
    by (induction xs) auto
  then show ?thesis
    using True by (simp add: get_user_def set_user_def)
next
  case False
  then show ?thesis
    by (auto simp: get_user_def set_user_def intro!: find_update_rows_other)
qed

lemma get_user_id: "get_user s i = Some u \<Longrightarrow> u_id u = i"
  by (auto simp: get_user_def dest: find_SomeD)

lemma get_order_id: "get_order s i = Some ord \<Longrightarrow> o_id ord = i"
  by (auto simp: get_order_def dest: find_SomeD)

lemma get_tariff_id: "get_tariff s i = Some t \<Longrightarrow> t_id t = i"
  by (auto simp: get_tariff_def dest: find_SomeD)

text \<open>Each setter leaves the other tables alone.\<close>

lemma set_user_frame [simp]:
  "orders (set_user u s) = orders s" "entries (set_user u s) = entries s"
  "allocs (set_user u s) = allocs s" "tariffs (set_user u s) = tariffs s"
  "payments (set_user u s) = payments s" "wi_subs (set_user u s) = wi_subs s"
  "vless_subs (set_user u s) = vless_subs s" "servers (set_user u s) = servers s"
  "entry_seq (set_user u s) = entry_seq s" "alloc_seq (set_user u s) = alloc_seq s"
  "wi_seq (set_user u s) = wi_seq s" "get_order (set_user u s) = get_order s"
  "get_tariff (set_user u s) = get_tariff s"
  by (simp_all add: set_user_def get_order_def get_tariff_def fun_eq_iff)

lemma set_order_frame [simp]:
  "users (set_order ord s) = users s" "entries (set_order ord s) = entries s"
  "allocs (set_order ord s) = allocs s" "tariffs (set_order ord s) = tariffs s"
  "payments (set_order ord s) = payments s" "wi_subs (set_order ord s) = wi_subs s"
  "vless_subs (set_order ord s) = vless_subs s" "servers (set_order ord s) = servers s"
  "entry_seq (set_order ord s) = entry_seq s" "alloc_seq (set_order ord s) = alloc_seq s"
  "wi_seq (set_order ord s) = wi_seq s" "get_user (set_order ord s) = get_user s"
  "get_tariff (set_order ord s) = get_tariff s"
  by (simp_all add: set_order_def get_user_def get_tariff_def fun_eq_iff)

lemma set_wi_sub_frame [simp]:
  "users (set_wi_sub w s) = users s" "orders (set_wi_sub w s) = orders s"
  "entries (set_wi_sub w s) = entries s" "allocs (set_wi_sub w s) = allocs s"
  "tariffs (set_wi_sub w s) = tariffs s" "payments (set_wi_sub w s) = payments s"
  "vless_subs (set_wi_sub w s) = vless_subs s" "servers (set_wi_sub w s) = servers s"
  "entry_seq (set_wi_sub w s) = entry_seq s" "alloc_seq (set_wi_sub w s) = alloc_seq s"
  "wi_seq (set_wi_sub w s) = wi_seq s" "get_user (set_wi_sub w s) = get_user s"
  "get_order (set_wi_sub w s) = get_order s" "get_tariff (set_wi_sub w s) = get_tariff s"
  by (simp_all add: set_wi_sub_def get_user_def get_order_def get_tariff_def fun_eq_iff)

end
