(* ===== verification/Datetime_Helpers.thy ===== *)
theory Datetime_Helpers
  imports Models
begin

section \<open>utils/datetime\_helpers.py\<close>

text \<open>
  The instants of the services are aware UTC datetimes, so the branches that attach a
  timezone to a naive value are the identity here.  The clock is the argument \<open>now\<close>.
\<close>

definition is_expired :: "instant option \<Rightarrow> instant \<Rightarrow> bool" where
  "is_expired dt now = (case dt of None \<Rightarrow> True | Some t \<Rightarrow> t < now)"

definition is_vpn_access_expired :: "instant option \<Rightarrow> int \<Rightarrow> instant \<Rightarrow> bool" where
  "is_vpn_access_expired dt grace_hours now =
     (case dt of None \<Rightarrow> True | Some t \<Rightarrow> t + hours_us grace_hours < now)"

text \<open>\<open>(dt - now).days\<close> floors; a year of 2100 or more is an instant from 2100-01-01 on.\<close>

definition is_permanent_subscription :: "instant option \<Rightarrow> instant \<Rightarrow> bool" where
  "is_permanent_subscription dt now =
     (case dt of None \<Rightarrow> False
      | Some t \<Rightarrow> PERMANENT_END_DATE \<le> t \<or> 36500 \<le> (t - now) div usec_per_day)"

definition calculate_extension_end :: "instant option \<Rightarrow> int \<Rightarrow> instant \<Rightarrow> instant" where
  "calculate_extension_end current_end days now =
     (if PERMANENT_SUBSCRIPTION_DAYS \<le> days then PERMANENT_END_DATE
      else let base_time = (case current_end of
                              Some t \<Rightarrow> if now < t then t else now
                            | None \<Rightarrow> now)
           in base_time + days_us days)"

lemma calculate_extension_end_future:
  assumes "0 \<le> days" and "now \<le> PERMANENT_END_DATE"
  shows "now \<le> calculate_extension_end e days now"
  using assms days_us_nonneg [OF assms(1)]
  by (auto simp: calculate_extension_end_def Let_def split: option.splits)

lemma calculate_extension_end_covers:
  assumes "days < PERMANENT_SUBSCRIPTION_DAYS" and "now < t"
  shows "calculate_extension_end (Some t) days now = t + days_us days"
  using assms by (simp add: calculate_extension_end_def)

lemma calculate_extension_end_split:
  assumes "0 < a" and "0 \<le> b" and "a + b < PERMANENT_SUBSCRIPTION_DAYS"
  shows "calculate_extension_end (Some (calculate_extension_end e a now)) b now =
    calculate_extension_end e (a + b) now"
  using assms days_us_pos [OF assms(1)]
  by (auto simp: calculate_extension_end_def days_us_add split: option.splits)

text \<open>The grace period only ever widens access.\<close>

lemma is_vpn_access_expired_mono:
  "a \<le> b \<Longrightarrow> is_vpn_access_expired t b now \<Longrightarrow> is_vpn_access_expired t a now"
  by (auto simp: is_vpn_access_expired_def hours_us_def split: option.splits)

lemma is_expired_if_vpn_access_expired:
  "0 \<le> g \<Longrightarrow> is_vpn_access_expired t g now \<Longrightarrow> is_expired t now"
  by (auto simp: is_vpn_access_expired_def is_expired_def hours_us_def split: option.splits)

end
