(* ===== verification/Ledger.thy ===== *)
theory Ledger
  imports Datetime_Helpers
begin

section \<open>database/repositories/account\_ledger\_repo.py: the money ledger\<close>

text \<open>
  The append-only account: credits and debits with their idempotency keys, the FIFO
  attribution of every spend to credit lots, and the balance read from both.
  A mutator returns the entry and whether it was created now, as the code does, or the
  exception it raises.
\<close>

subsection \<open>Amounts\<close>

text \<open>
  The money argument as \<open>whole_rubles\<close> sees it: a float, a value whose text is no decimal
  numeral, or one whose text is.
\<close>

datatype money_arg = FloatArg | BadArg | NumArg decimal

definition whole_rubles :: "money_arg \<Rightarrow> bool \<Rightarrow> pyerr + money" where
  "whole_rubles value allow_zero =
     (case value of
        FloatArg \<Rightarrow> Inl (ValueError ''float money is forbidden'')
      | BadArg \<Rightarrow> Inl (ValueError ''invalid money amount'')
      | NumArg (Finite x) \<Rightarrow>
          if \<not> is_whole x then Inl (ValueError ''amount must be whole rubles'')
          else if x < 0 \<or> (x = 0 \<and> \<not> allow_zero)
            then Inl (ValueError ''amount must be positive'')
          else Inr x
      | NumArg _ \<Rightarrow> Inl (ValueError ''amount must be whole rubles''))"

abbreviation rubles :: "money \<Rightarrow> money_arg" where
  "rubles x \<equiv> NumArg (Finite x)"

lemma whole_rubles_Inr:
  "whole_rubles v z = Inr x \<Longrightarrow> is_whole x \<and> 0 \<le> x \<and> (x = 0 \<longrightarrow> z) \<and> v = rubles x"
  by (auto simp: whole_rubles_def split: money_arg.splits decimal.splits if_splits)

lemma whole_rubles_rubles:
  "is_whole x \<Longrightarrow> 0 \<le> x \<Longrightarrow> x \<noteq> 0 \<or> z \<Longrightarrow> whole_rubles (rubles x) z = Inr x"
  by (auto simp: whole_rubles_def)

subsection \<open>Balances\<close>

record account_snapshot =
  accounting_position :: money
  available :: money
  debt :: money
  real_position :: money
  bonus_position :: money
  real_available :: money
  bonus_available :: money

definition lock_account_user :: "int \<Rightarrow> db \<Rightarrow> pyerr + user \<times> db" where
  "lock_account_user i s =
     (case get_user s i of
        None \<Rightarrow> Inl (LookupError ''account_user_not_found'')
      | Some u \<Rightarrow> Inr (u, s))"

definition position :: "db \<Rightarrow> int \<Rightarrow> money" where
  "position s i = sum_list (map amount (filter (\<lambda>e. e_user_id e = i) (entries s)))"

definition bonus_credited :: "db \<Rightarrow> int \<Rightarrow> money" where
  "bonus_credited s i = sum_list (map amount (filter (\<lambda>e.
     e_user_id e = i \<and> entry_type e = ADMIN_ADJUSTMENT \<and> 0 < amount e) (entries s)))"

definition bonus_spent :: "db \<Rightarrow> int \<Rightarrow> money" where
  "bonus_spent s i = sum_list (map a_amount (filter (\<lambda>a.
     a_user_id a = i \<and> (\<exists>e\<in>set (entries s). e_id e = credit_entry_id a
       \<and> entry_type e = ADMIN_ADJUSTMENT)) (allocs s)))"

definition balance_snapshot :: "db \<Rightarrow> int \<Rightarrow> account_snapshot" where
  "balance_snapshot s i =
     (let position = position s i; debt = max 0 (- position) in
      if position \<le> 0 then
        \<lparr>accounting_position = position, available = 0, debt = debt, real_position = 0,
         bonus_position = 0, real_available = 0, bonus_available = 0\<rparr>
      else if bonus_credited s i \<le> 0 then
        \<lparr>accounting_position = position, available = position, debt = debt,
         real_position = position, bonus_position = 0, real_available = position,
         bonus_available = 0\<rparr>
      else
        let unspent_bonus = max 0 (bonus_credited s i - bonus_spent s i);
            bonus_available = min position unspent_bonus;
            real_available = position - bonus_available in
        \<lparr>accounting_position = position, available = position, debt = debt,
         real_position = real_available, bonus_position = bonus_available,
         real_available = real_available, bonus_available = bonus_available\<rparr>)"

definition get_account_balance :: "int \<Rightarrow> bool \<Rightarrow> db \<Rightarrow> pyerr + account_snapshot \<times> db" where
  "get_account_balance i for_update s =
     (if for_update
      then and_then (lock_account_user i s) (\<lambda>_ s. Inr (balance_snapshot s i, s))
      else Inr (balance_snapshot s i, s))"

subsection \<open>Inserting an entry\<close>

text \<open>
  \<open>values\<close> is the new row without its key and creation time.  PostgreSQL checks the row's
  constraints first, then its unique indexes, where \<open>on_conflict_do_nothing\<close> inserts nothing.
\<close>

definition same_entry :: "ledger_entry \<Rightarrow> ledger_entry \<Rightarrow> bool" where
  "same_entry e v \<longleftrightarrow>
     e_user_id e = e_user_id v \<and> entry_type e = entry_type v \<and> amount e = amount v
   \<and> currency e = currency v \<and> payment_id e = payment_id v \<and> quote_id e = quote_id v
   \<and> order_id e = order_id v \<and> reversal_of_id e = reversal_of_id v
   \<and> idempotency_key e = idempotency_key v"

definition entry_checks :: "ledger_entry \<Rightarrow> bool" where
  "entry_checks v \<longleftrightarrow> ck_account_ledger_whole_nonzero_amount v
     \<and> ck_account_ledger_entry_shape v \<and> currency v = ''RUB''"

definition insert_or_get_entry ::
  "ledger_entry \<Rightarrow> (ledger_entry \<Rightarrow> bool) \<Rightarrow> instant \<Rightarrow> db \<Rightarrow> pyerr + (ledger_entry \<times> bool) \<times> db"
  where
  "insert_or_get_entry values economic_lookup now s =
     (if \<not> entry_checks values then Inl IntegrityError
      else if \<exists>e\<in>set (entries s). entry_conflict values e then
        (case find (\<lambda>e. idempotency_key e = idempotency_key values \<or> economic_lookup e)
                (entries s) of
           None \<Rightarrow> Inl (AccountLedgerConflictError ''account_ledger_idempotency_conflict'')
         | Some e \<Rightarrow>
             if same_entry e values then Inr ((e, False), s)
             else Inl (AccountLedgerConflictError ''account_ledger_idempotency_conflict''))
      else
        let e = values\<lparr>e_id := entry_seq s + 1, e_created_at := now\<rparr> in
        Inr ((e, True), s\<lparr>entries := entries s @ [e], entry_seq := entry_seq s + 1\<rparr>))"

definition entry_values ::
  "int \<Rightarrow> AccountLedgerEntryType \<Rightarrow> money \<Rightarrow> uuid option \<Rightarrow> string \<Rightarrow> meta \<Rightarrow> ledger_entry"
  where
  "entry_values uid ty amt oid key md =
     \<lparr>e_id = 0, e_user_id = uid, entry_type = ty, amount = amt, currency = ''RUB'',
      payment_id = None, quote_id = None, order_id = oid, reversal_of_id = None,
      idempotency_key = key, e_metadata = md, e_created_at = 0\<rparr>"

lemma entry_values_sel [simp]:
  "e_user_id (entry_values uid ty amt oid key md) = uid"
  "entry_type (entry_values uid ty amt oid key md) = ty"
  "amount (entry_values uid ty amt oid key md) = amt"
  "currency (entry_values uid ty amt oid key md) = ''RUB''"
  "payment_id (entry_values uid ty amt oid key md) = None"
  "quote_id (entry_values uid ty amt oid key md) = None"
  "order_id (entry_values uid ty amt oid key md) = oid"
  "reversal_of_id (entry_values uid ty amt oid key md) = None"
  "idempotency_key (entry_values uid ty amt oid key md) = key"
  "e_metadata (entry_values uid ty amt oid key md) = md"
  by (simp_all add: entry_values_def)

subsection \<open>FIFO attribution of a spend to credit lots\<close>

definition is_lot :: "ledger_entry \<Rightarrow> bool" where
  "is_lot e \<longleftrightarrow> 0 < amount e \<and> entry_type e \<in> {PAYMENT_CREDIT, ADMIN_ADJUSTMENT}"

definition is_refund :: "ledger_entry \<Rightarrow> bool" where
  "is_refund e \<longleftrightarrow> entry_type e \<in> {REFUND_DEBIT, CHARGEBACK_DEBIT}"

text \<open>The sort key of the lots: bonus lots first, then by age, then by key.\<close>

datatype lot_key = LotKey (lot_rank: nat) (lot_created: int) (lot_id: int)

instantiation lot_key :: linorder
begin

definition less_eq_lot_key :: "lot_key \<Rightarrow> lot_key \<Rightarrow> bool" where
  "a \<le> b \<longleftrightarrow> lot_rank a < lot_rank b \<or> (lot_rank a = lot_rank b \<and>
     (lot_created a < lot_created b \<or> (lot_created a = lot_created b \<and> lot_id a \<le> lot_id b)))"

definition less_lot_key :: "lot_key \<Rightarrow> lot_key \<Rightarrow> bool" where
  "(a :: lot_key) < b \<longleftrightarrow> a \<le> b \<and> \<not> b \<le> a"

instance
  by standard (auto simp: less_eq_lot_key_def less_lot_key_def intro: lot_key.expand)

end

definition lot_key_of :: "ledger_entry \<Rightarrow> lot_key" where
  "lot_key_of e =
     LotKey (if entry_type e = ADMIN_ADJUSTMENT then 0 else 1) (e_created_at e) (e_id e)"

definition credit_lots :: "db \<Rightarrow> int \<Rightarrow> ledger_entry list" where
  "credit_lots s i = sort_key lot_key_of (filter (\<lambda>e. e_user_id e = i \<and> is_lot e) (entries s))"

definition used_by_credit :: "db \<Rightarrow> int \<Rightarrow> money" where
  "used_by_credit s cid =
     sum_list (map a_amount (filter (\<lambda>a. credit_entry_id a = cid) (allocs s)))"

text \<open>
  The refunds and chargebacks booked against a lot's order and against its payment.  All
  amounts of a group are negative, so the absolute value of its sum is the sum here.
\<close>

definition refund_by_order :: "db \<Rightarrow> uuid \<Rightarrow> money" where
  "refund_by_order s oid =
     sum_list (map (\<lambda>e. \<bar>amount e\<bar>) (filter (\<lambda>e. is_refund e \<and> order_id e = Some oid) (entries s)))"

definition refund_by_payment :: "db \<Rightarrow> int \<Rightarrow> money" where
  "refund_by_payment s pid =
     sum_list (map (\<lambda>e. \<bar>amount e\<bar>) (filter (\<lambda>e. is_refund e \<and> payment_id e = Some pid) (entries s)))"

definition ext_debit :: "db \<Rightarrow> ledger_entry \<Rightarrow> money" where
  "ext_debit s c =
     (case order_id c of None \<Rightarrow> 0 | Some oid \<Rightarrow> refund_by_order s oid)
     + (case payment_id c of None \<Rightarrow> 0 | Some pid \<Rightarrow> refund_by_payment s pid)"

definition credit_capacity :: "db \<Rightarrow> ledger_entry \<Rightarrow> money" where
  "credit_capacity s c = amount c - used_by_credit s (e_id c) - ext_debit s c"

text \<open>The loop over the lots: what is taken from each, and what is left uncovered.\<close>

fun fifo_chunks :: "(ledger_entry \<times> money) list \<Rightarrow> money \<Rightarrow> (ledger_entry \<times> money) list \<times> money" where
  "fifo_chunks [] remaining = ([], remaining)"
| "fifo_chunks ((c, capacity) # cs) remaining =
     (let chunk = min (max 0 capacity) remaining in
      if chunk \<le> 0 then fifo_chunks cs remaining
      else if remaining - chunk = 0 then ([(c, chunk)], 0)
      else let (xs, rest) = fifo_chunks cs (remaining - chunk) in ((c, chunk) # xs, rest))"

fun mk_allocs :: "int \<Rightarrow> int \<Rightarrow> instant \<Rightarrow> int \<Rightarrow> (ledger_entry \<times> money) list \<Rightarrow> allocation list" where
  "mk_allocs uid did now next [] = []"
| "mk_allocs uid did now next ((c, chunk) # xs) =
     \<lparr>a_id = next, a_user_id = uid, credit_entry_id = e_id c, debit_entry_id = did,
      a_amount = chunk,
      a_idempotency_key = ''allocation:'' @ str_int did @ '':'' @ str_int (e_id c),
      a_created_at = now\<rparr> # mk_allocs uid did now (next + 1) xs"

definition allocate_fifo ::
  "int \<Rightarrow> ledger_entry \<Rightarrow> money \<Rightarrow> instant \<Rightarrow> db \<Rightarrow> pyerr + allocation list \<times> db" where
  "allocate_fifo uid debit amt now s =
     (let (chunks, remaining) =
            fifo_chunks (map (\<lambda>c. (c, credit_capacity s c)) (credit_lots s uid)) amt;
          created = mk_allocs uid (e_id debit) now (alloc_seq s + 1) chunks in
      if remaining \<noteq> 0
      then Inl (AccountLedgerInvariantError ''available_balance_has_no_credit_lots'')
      else Inr (created, s\<lparr>allocs := allocs s @ created,
                          alloc_seq := alloc_seq s + int (length created)\<rparr>))"

subsection \<open>The mutators\<close>

definition create_order_debit ::
  "int \<Rightarrow> money_arg \<Rightarrow> uuid \<Rightarrow> meta \<Rightarrow> instant \<Rightarrow> db \<Rightarrow> pyerr + (ledger_entry option \<times> bool) \<times> db"
  where
  "create_order_debit uid rub oid md now s =
     (case whole_rubles rub True of
        Inl err \<Rightarrow> Inl err
      | Inr x \<Rightarrow>
          let amt = - \<bar>x\<bar> in
          and_then (lock_account_user uid s) (\<lambda>u s.
            if amt = 0 then Inr ((None, False), s)
            else (case find (\<lambda>e. entry_type e = PURCHASE_DEBIT \<and> order_id e = Some oid) (entries s) of
                Some e \<Rightarrow>
                  if e_user_id e \<noteq> u_id u \<or> amount e \<noteq> amt
                  then Inl (AccountLedgerConflictError ''purchase_debit_conflict'')
                  else Inr ((Some e, False), s)
              | None \<Rightarrow>
                  and_then (get_account_balance (u_id u) False s) (\<lambda>snapshot s.
                    if available snapshot < - amt
                    then Inl (InsufficientAccountBalanceError ''insufficient_available_balance'')
                    else and_then
                      (insert_or_get_entry
                        (entry_values (u_id u) PURCHASE_DEBIT amt (Some oid) (''order_debit:'' @ oid) md)
                        (\<lambda>e. entry_type e = PURCHASE_DEBIT \<and> order_id e = Some oid) now s)
                      (\<lambda>(debit, created) s.
                        if created
                        then and_then (allocate_fifo (u_id u) debit (- amt) now s)
                               (\<lambda>_ s. Inr ((Some debit, created), s))
                        else Inr ((Some debit, created), s))))))"

definition create_order_credit ::
  "int \<Rightarrow> money_arg \<Rightarrow> uuid \<Rightarrow> meta \<Rightarrow> instant \<Rightarrow> db \<Rightarrow> pyerr + (ledger_entry \<times> bool) \<times> db" where
  "create_order_credit uid rub oid md now s =
     (case whole_rubles rub False of
        Inl err \<Rightarrow> Inl err
      | Inr x \<Rightarrow>
          insert_or_get_entry
            (entry_values uid PAYMENT_CREDIT \<bar>x\<bar> (Some oid) (''order_credit:'' @ oid) md)
            (\<lambda>e. entry_type e = PAYMENT_CREDIT \<and> order_id e = Some oid) now s)"

definition order_credit_total :: "db \<Rightarrow> uuid \<Rightarrow> money" where
  "order_credit_total s oid = sum_list (map amount (filter (\<lambda>e.
     order_id e = Some oid \<and> entry_type e = PAYMENT_CREDIT) (entries s)))"

definition order_debited_total :: "db \<Rightarrow> uuid \<Rightarrow> money" where
  "order_debited_total s oid = sum_list (map amount (filter (\<lambda>e.
     order_id e = Some oid \<and> is_refund e) (entries s)))"

definition create_order_refund_debit ::
  "int \<Rightarrow> money \<Rightarrow> uuid \<Rightarrow> string \<Rightarrow> meta \<Rightarrow> instant \<Rightarrow> db \<Rightarrow> pyerr + (ledger_entry \<times> bool) \<times> db"
  where
  "create_order_refund_debit uid rub oid refund_id md now s =
     (if py_strip refund_id = [] then Inl (ValueError ''refund_id must be a non-empty string'')
      else
        let quantized_amount = quantize_half_up rub in
        if quantized_amount \<le> 0
        then Inl (ValueError ''Refund debit amount must be at least 1 ruble'')
        else
          let amt = - \<bar>quantized_amount\<bar>;
              credit_total = order_credit_total s oid;
              debited_total = order_debited_total s oid in
          if 0 < credit_total \<and> credit_total < \<bar>debited_total\<bar> + \<bar>amt\<bar>
          then Inl (AccountLedgerInvariantError ''refund_debit_exceeds_credit'')
          else insert_or_get_entry
            (entry_values uid REFUND_DEBIT amt (Some oid)
               (''order_refund:'' @ oid @ '':'' @ py_strip refund_id) md)
            (\<lambda>_. False) now s)"

definition create_admin_adjustment ::
  "int \<Rightarrow> money_arg \<Rightarrow> string \<Rightarrow> meta \<Rightarrow> instant \<Rightarrow> db \<Rightarrow> pyerr + (ledger_entry \<times> bool) \<times> db" where
  "create_admin_adjustment uid signed_amount key md now s =
     and_then (lock_account_user uid s) (\<lambda>_ s.
       case signed_amount of
         BadArg \<Rightarrow> Inl InvalidOperation
       | NumArg (Finite x) \<Rightarrow>
           if x = 0 \<or> \<not> is_whole x
           then Inl (ValueError ''adjustment must be non-zero whole rubles'')
           else and_then
             (insert_or_get_entry (entry_values uid ADMIN_ADJUSTMENT x None key md)
                (\<lambda>e. idempotency_key e = key) now s)
             (\<lambda>(e, created) s.
               if created \<and> x < 0
               then and_then (allocate_fifo uid e \<bar>x\<bar> now s) (\<lambda>_ s. Inr ((e, created), s))
               else Inr ((e, created), s))
       | _ \<Rightarrow> Inl (ValueError ''adjustment must be non-zero whole rubles''))"

subsection \<open>History\<close>

definition get_account_history ::
  "int \<Rightarrow> int \<Rightarrow> int \<Rightarrow> db \<Rightarrow> pyerr + ledger_entry list" where
  "get_account_history uid limit offset s =
     (if limit < 1 \<or> 100 < limit then Inl (ValueError ''history limit must be 1..100'')
      else
        let rows = rev (sort_key (\<lambda>e. LotKey 0 (e_created_at e) (e_id e))
                     (filter (\<lambda>e. e_user_id e = uid) (entries s))) in
        Inr (take (nat limit) (if 0 < offset then drop (nat offset) rows else rows)))"

definition get_account_history_count :: "int \<Rightarrow> db \<Rightarrow> nat" where
  "get_account_history_count uid s = length (filter (\<lambda>e. e_user_id e = uid) (entries s))"

end
