(* ===== verification/Ledger_Props.thy ===== *)
theory Ledger_Props
  imports Ledger
begin

section \<open>The ledger is sound\<close>

text \<open>
  The invariant of the ledger and its preservation by every mutator; the FIFO attribution
  (what it takes, from whom, in which order) and solvency: a spend covered by the balance
  is always covered by credit lots.
\<close>

subsection \<open>The FIFO loop\<close>

lemma fifo_chunks_Cons:
  "fifo_chunks ((c, cap) # cs) r =
     (if r \<le> 0 \<or> cap \<le> 0 then fifo_chunks cs r
      else if r \<le> cap then ([(c, r)], 0)
      else ((c, cap) # fst (fifo_chunks cs (r - cap)), snd (fifo_chunks cs (r - cap))))"
  by (cases "fifo_chunks cs (r - cap)") (auto simp: Let_def min_def max_def)

lemmas fifo_simps = fifo_chunks.simps(1) fifo_chunks_Cons

declare fifo_chunks.simps(2) [simp del]

lemma fifo_chunks_nothing: "r \<le> 0 \<Longrightarrow> fifo_chunks cs r = ([], r)"
  by (induction cs) (auto simp: fifo_simps)

lemma fifo_chunks_sum:
  "0 \<le> r \<Longrightarrow> sum_list (map snd (fst (fifo_chunks cs r))) + snd (fifo_chunks cs r) = r"
proof (induction cs arbitrary: r)
  case (Cons p cs)
  then show ?case
    using Cons.IH [of r] Cons.IH [of "r - snd p"]
    by (cases p) (auto simp: fifo_simps add.assoc)
qed (simp add: fifo_simps)

lemma fifo_chunks_rest:
  "0 \<le> r \<Longrightarrow> snd (fifo_chunks cs r) = max 0 (r - sum_list (map (\<lambda>p. max 0 (snd p)) cs))"
proof (induction cs arbitrary: r)
  case (Cons p cs)
  have nn: "0 \<le> sum_list (map (\<lambda>p. max 0 (snd p)) cs)"
    by (rule sum_list_nonneg_map) simp
  obtain c cap where p: "p = (c, cap)"
    by (cases p)
  show ?case
    using Cons.IH [of r] Cons.IH [of "r - cap"] Cons.prems nn p
    by (auto simp: fifo_simps fifo_chunks_nothing max_def)
qed (simp add: fifo_simps)

lemma fifo_chunks_bound:
  "(c, ch) \<in> set (fst (fifo_chunks cs r)) \<Longrightarrow> 0 < ch \<and> (\<exists>cap. (c, cap) \<in> set cs \<and> ch \<le> cap)"
  by (induction cs arbitrary: r) (fastforce simp: fifo_simps split: if_splits)+

lemma fifo_chunks_ids:
  "(\<lambda>p. e_id (fst p)) ` set (fst (fifo_chunks cs r)) \<subseteq> (\<lambda>p. e_id (fst p)) ` set cs"
proof
  fix i
  assume "i \<in> (\<lambda>p. e_id (fst p)) ` set (fst (fifo_chunks cs r))"
  then obtain c ch where "(c, ch) \<in> set (fst (fifo_chunks cs r))" and "i = e_id c"
    by auto
  then show "i \<in> (\<lambda>p. e_id (fst p)) ` set cs"
    by (force dest: fifo_chunks_bound)
qed

lemma fifo_chunks_distinct:
  "distinct (map (\<lambda>p. e_id (fst p)) cs) \<Longrightarrow>
   distinct (map (\<lambda>p. e_id (fst p)) (fst (fifo_chunks cs r)))"
proof (induction cs arbitrary: r)
  case (Cons p cs)
  have "e_id (fst p) \<notin> (\<lambda>p. e_id (fst p)) ` set (fst (fifo_chunks cs (r - snd p)))"
    using Cons.prems fifo_chunks_ids [of cs "r - snd p"] by auto
  then show ?case
    using Cons by (cases p) (auto simp: fifo_simps)
qed (simp add: fifo_simps)

lemma fifo_chunks_whole:
  "(\<And>p. p \<in> set cs \<Longrightarrow> is_whole (snd p)) \<Longrightarrow> is_whole r \<Longrightarrow>
   p \<in> set (fst (fifo_chunks cs r)) \<Longrightarrow> is_whole (snd p)"
proof (induction cs arbitrary: r)
  case (Cons q cs)
  obtain c cap where q: "q = (c, cap)"
    by (cases q)
  with Cons.prems(1) [of q] have cap: "is_whole cap"
    by simp
  then show ?case
    using Cons.IH [of r] Cons.IH [of "r - cap"] Cons.prems q is_whole_diff [OF Cons.prems(2) cap]
    by (auto simp: fifo_simps split: if_splits)
qed (simp add: fifo_simps)

text \<open>Greedy: a lot is touched only when every earlier lot has been drained.\<close>

lemma fifo_chunks_greedy:
  "(c, ch) \<in> set (fst (fifo_chunks (pre @ post) r)) \<Longrightarrow> c \<notin> fst ` set pre \<Longrightarrow>
   (d, k) \<in> set pre \<Longrightarrow> 0 < k \<Longrightarrow> (d, k) \<in> set (fst (fifo_chunks (pre @ post) r))"
proof (induction pre arbitrary: r)
  case (Cons p pre)
  obtain d0 k0 where p: "p = (d0, k0)"
    by (cases p)
  have c: "c \<noteq> d0" "c \<notin> fst ` set pre"
    using Cons.prems(2) p by auto
  consider "r \<le> 0" | "0 < r" "k0 \<le> 0" | "0 < k0" "k0 < r" | "0 < r" "0 < k0" "r \<le> k0"
    by linarith
  then show ?case
    using Cons.IH [of r] Cons.IH [of "r - k0"] Cons.prems c p
    by cases (auto simp: fifo_simps fifo_chunks_nothing)
qed simp

subsection \<open>The rows an attribution appends\<close>

lemma mk_allocs_fields:
  "a \<in> set (mk_allocs uid did now n xs) \<Longrightarrow>
   a_user_id a = uid \<and> debit_entry_id a = did
   \<and> (\<exists>p\<in>set xs. credit_entry_id a = e_id (fst p) \<and> a_amount a = snd p)"
proof (induction xs arbitrary: n)
  case (Cons p xs)
  then show ?case
    by (cases p) auto
qed simp

lemma mk_allocs_sum:
  "sum_list (map a_amount (mk_allocs uid did now n xs)) = sum_list (map snd xs)"
  by (induction xs arbitrary: n) auto

lemma mk_allocs_used:
  "distinct (map (\<lambda>p. e_id (fst p)) xs) \<Longrightarrow>
   sum_list (map a_amount (filter (\<lambda>a. credit_entry_id a = cid) (mk_allocs uid did now n xs))) =
   (case find (\<lambda>p. e_id (fst p) = cid) xs of None \<Rightarrow> 0 | Some p \<Rightarrow> snd p)"
proof (induction xs arbitrary: n)
  case (Cons p xs)
  obtain c ch where p: "p = (c, ch)"
    by (cases p)
  have "e_id c = cid \<Longrightarrow> find (\<lambda>p. e_id (fst p) = cid) xs = None"
    using Cons.prems p by (force simp: find_None_iff)
  then show ?case
    using Cons p by auto
qed simp

subsection \<open>The invariant\<close>

definition entry_ok :: "db \<Rightarrow> ledger_entry \<Rightarrow> bool" where
  "entry_ok s e \<longleftrightarrow> entry_checks e \<and> e_id e \<le> entry_seq s
     \<and> (entry_type e = ADMIN_ADJUSTMENT \<longrightarrow> order_id e = None)
     \<and> (payment_id e = None \<or> order_id e = None)
     \<and> (\<forall>oid. order_id e = Some oid \<longrightarrow>
          (\<exists>ord. get_order s oid = Some ord \<and> o_user_id ord = e_user_id e))"

text \<open>The entries of one legacy payment belong to one user.\<close>

definition payers_ok :: "ledger_entry list \<Rightarrow> bool" where
  "payers_ok es \<longleftrightarrow> (\<forall>e\<in>set es. \<forall>e'\<in>set es. payment_id e \<noteq> None \<longrightarrow>
     payment_id e' = payment_id e \<longrightarrow> e_user_id e' = e_user_id e)"

definition entries_ok :: "db \<Rightarrow> bool" where
  "entries_ok s \<longleftrightarrow>
     (\<forall>e\<in>set (entries s). entry_ok s e) \<and> payers_ok (entries s)
   \<and> distinct (map e_id (entries s))
   \<and> sorted_wrt (\<lambda>e n. \<not> entry_conflict n e) (entries s)"

definition allocs_ok :: "db \<Rightarrow> bool" where
  "allocs_ok s \<longleftrightarrow>
     (\<forall>a\<in>set (allocs s). ck_account_allocations_whole_positive_amount a
        \<and> (\<exists>c\<in>set (entries s). is_lot c \<and> e_id c = credit_entry_id a \<and> e_user_id c = a_user_id a)
        \<and> (\<exists>d\<in>set (entries s). amount d < 0 \<and> e_id d = debit_entry_id a
             \<and> e_user_id d = a_user_id a))"

text \<open>No lot is attributed beyond its amount.\<close>

definition lots_ok :: "db \<Rightarrow> bool" where
  "lots_ok s \<longleftrightarrow>
     (\<forall>c\<in>set (entries s). is_lot c \<longrightarrow> used_by_credit s (e_id c) \<le> amount c)"

definition spend_sum :: "db \<Rightarrow> int \<Rightarrow> money" where
  "spend_sum s i = sum_list (map amount (filter (\<lambda>e.
     e_user_id e = i \<and> \<not> is_lot e \<and> \<not> is_refund e) (entries s)))"

definition alloc_sum :: "db \<Rightarrow> int \<Rightarrow> money" where
  "alloc_sum s i = sum_list (map a_amount (filter (\<lambda>a. a_user_id a = i) (allocs s)))"

text \<open>A user's attributions never exceed what the user has spent.\<close>

definition spends_ok :: "db \<Rightarrow> bool" where
  "spends_ok s \<longleftrightarrow> (\<forall>i. spend_sum s i + alloc_sum s i \<le> 0)"

text \<open>
  Every purchase is attributed in full.  What the attributions have to cover: the spends but for the
  adjustments attributed to no lot, which the reversal of a referral bonus makes.
\<close>

definition attributed :: "db \<Rightarrow> ledger_entry \<Rightarrow> bool" where
  "attributed s e \<longleftrightarrow> e_id e \<in> debit_entry_id ` set (allocs s)"

definition clawback :: "db \<Rightarrow> ledger_entry \<Rightarrow> bool" where
  "clawback s e \<longleftrightarrow> entry_type e = ADMIN_ADJUSTMENT \<and> amount e < 0 \<and> \<not> attributed s e"

definition debit_sum :: "db \<Rightarrow> int \<Rightarrow> money" where
  "debit_sum s i = sum_list (map amount (filter (\<lambda>e.
     e_user_id e = i \<and> \<not> is_lot e \<and> \<not> is_refund e \<and> \<not> clawback s e) (entries s)))"

definition debits_ok :: "db \<Rightarrow> bool" where
  "debits_ok s \<longleftrightarrow> (\<forall>i. 0 \<le> debit_sum s i + alloc_sum s i)"

definition ledger_inv :: "db \<Rightarrow> bool" where
  "ledger_inv s \<longleftrightarrow> entries_ok s \<and> allocs_ok s \<and> lots_ok s \<and> spends_ok s \<and> debits_ok s"

text \<open>The invariant reads the ledger tables and the owners of the orders only.\<close>

definition order_owner :: "db \<Rightarrow> uuid \<Rightarrow> int option" where
  "order_owner s oid = map_option o_user_id (get_order s oid)"

lemma ledger_inv_cong:
  assumes "entries t = entries s" and "allocs t = allocs s" and "entry_seq t = entry_seq s"
    and "\<And>oid i. order_owner s oid = Some i \<Longrightarrow> order_owner t oid = Some i"
  shows "ledger_inv s \<Longrightarrow> ledger_inv t"
proof -
  assume inv: "ledger_inv s"
  have own: "\<exists>ord'. get_order t oid = Some ord' \<and> o_user_id ord' = o_user_id ord"
    if "get_order s oid = Some ord" for oid ord
    using assms(4) [of oid "o_user_id ord"] that by (auto simp: order_owner_def)
  have "entry_ok t e" if "entry_ok s e" for e
    using that own assms(3) by (fastforce simp: entry_ok_def)
  then have "entries_ok t"
    using inv by (simp add: ledger_inv_def entries_ok_def assms(1))
  then show ?thesis
    using inv assms(1-3)
    by (simp add: ledger_inv_def allocs_ok_def lots_ok_def spends_ok_def spend_sum_def
        alloc_sum_def used_by_credit_def debits_ok_def debit_sum_def clawback_def [abs_def] attributed_def)
qed

lemma entries_okD:
  assumes "entries_ok s" and "e \<in> set (entries s)"
  shows "entry_checks e" and "e_id e \<le> entry_seq s"
    and "entry_type e = ADMIN_ADJUSTMENT \<Longrightarrow> order_id e = None"
    and "payment_id e = None \<or> order_id e = None"
    and "order_id e = Some oid \<Longrightarrow> order_owner s oid = Some (e_user_id e)"
  using assms by (auto simp: entries_ok_def entry_ok_def order_owner_def)

lemma same_entry_id:
  "entries_ok s \<Longrightarrow> x \<in> set (entries s) \<Longrightarrow> y \<in> set (entries s) \<Longrightarrow> e_id x = e_id y \<Longrightarrow> x = y"
  by (auto simp: entries_ok_def distinct_map dest: inj_onD)

lemma entry_checks_whole: "entry_checks e \<Longrightarrow> is_whole (amount e)"
  by (simp add: entry_checks_def ck_account_ledger_whole_nonzero_amount_def)

lemma entry_checks_refund_neg: "entry_checks e \<Longrightarrow> is_refund e \<Longrightarrow> amount e < 0"
  by (auto simp: entry_checks_def ck_account_ledger_entry_shape_def is_refund_def)

lemma lot_not_refund: "is_lot e \<Longrightarrow> \<not> is_refund e"
  by (auto simp: is_lot_def is_refund_def)

subsection \<open>Inserting an entry keeps it\<close>

lemma insert_or_get_entryE:
  assumes "insert_or_get_entry v lk now s = Inr ((e, created), t)"
  obtains (existing) "\<not> created" "t = s" "e \<in> set (entries s)" "same_entry e v"
  | (new) "created" "entry_checks v" "\<forall>x\<in>set (entries s). \<not> entry_conflict v x"
      "e = v\<lparr>e_id := entry_seq s + 1, e_created_at := now\<rparr>"
      "t = s\<lparr>entries := entries s @ [e], entry_seq := entry_seq s + 1\<rparr>"
proof (cases "\<exists>x\<in>set (entries s). entry_conflict v x")
  case True
  then obtain x where "find (\<lambda>e. idempotency_key e = idempotency_key v \<or> lk e) (entries s) = Some x"
    and "same_entry x v" and "e = x" and "\<not> created" and "t = s"
    using assms by (simp add: insert_or_get_entry_def split: if_split_asm option.split_asm)
  then show ?thesis
    by (auto intro: existing dest: find_SomeD)
next
  case False
  then show ?thesis
    using assms by (intro new) (auto simp: insert_or_get_entry_def Let_def split: if_split_asm)
qed

lemma entry_id_time_irrelevant [simp]:
  "entry_checks (e\<lparr>e_id := i, e_created_at := n\<rparr>) = entry_checks e"
  "entry_conflict (e\<lparr>e_id := i, e_created_at := n\<rparr>) x = entry_conflict e x"
  "is_lot (e\<lparr>e_id := i, e_created_at := n\<rparr>) = is_lot e"
  "is_refund (e\<lparr>e_id := i, e_created_at := n\<rparr>) = is_refund e"
  by (cases "entry_type e"; simp add: entry_checks_def entry_conflict_def is_lot_def is_refund_def
      ck_account_ledger_whole_nonzero_amount_def ck_account_ledger_entry_shape_def)+

lemma get_order_entries [simp]:
  "get_order (s\<lparr>entries := es, entry_seq := n\<rparr>) = get_order s"
  "get_order (s\<lparr>allocs := al, alloc_seq := n\<rparr>) = get_order s"
  by (simp_all add: get_order_def fun_eq_iff)

definition appended :: "ledger_entry \<Rightarrow> db \<Rightarrow> db" where
  "appended e s = s\<lparr>entries := entries s @ [e], entry_seq := entry_seq s + 1\<rparr>"

lemma appended_sel [simp]:
  "entries (appended e s) = entries s @ [e]" "entry_seq (appended e s) = entry_seq s + 1"
  "allocs (appended e s) = allocs s" "get_order (appended e s) = get_order s"
  "order_owner (appended e s) = order_owner s" "used_by_credit (appended e s) = used_by_credit s"
  "alloc_sum (appended e s) = alloc_sum s" "users (appended e s) = users s"
  by (simp_all add: appended_def order_owner_def used_by_credit_def alloc_sum_def fun_eq_iff)

lemma spend_sum_appended:
  "spend_sum (appended e s) i =
     spend_sum s i + (if e_user_id e = i \<and> \<not> is_lot e \<and> \<not> is_refund e then amount e else 0)"
  by (simp add: spend_sum_def)

lemma used_by_new_credit:
  assumes "entries_ok s" and "allocs_ok s" and "entry_seq s < cid"
  shows "used_by_credit s cid = 0"
proof -
  have "credit_entry_id a \<noteq> cid" if "a \<in> set (allocs s)" for a
    using assms(2,3) that entries_okD(2) [OF assms(1)] by (force simp: allocs_ok_def)
  then have "filter (\<lambda>a. credit_entry_id a = cid) (allocs s) = []"
    by (simp add: filter_empty_conv)
  then show ?thesis
    by (simp add: used_by_credit_def)
qed

lemma entries_ok_appended:
  assumes "entries_ok s" and "entry_checks e" and "\<forall>x\<in>set (entries s). \<not> entry_conflict e x"
    and "e_id e = entry_seq s + 1" and "payment_id e = None"
    and "entry_type e = ADMIN_ADJUSTMENT \<longrightarrow> order_id e = None"
    and "\<And>oid. order_id e = Some oid \<Longrightarrow> order_owner s oid = Some (e_user_id e)"
  shows "entries_ok (appended e s)"
proof -
  have old: "\<forall>x\<in>set (entries s). entry_ok s x" "distinct (map e_id (entries s))"
    "sorted_wrt (\<lambda>e n. \<not> entry_conflict n e) (entries s)" "payers_ok (entries s)"
    using assms(1) by (simp_all add: entries_ok_def)
  have id: "e_id e \<notin> e_id ` set (entries s)"
    using entries_okD(2) [OF assms(1)] assms(4) by force
  have "entry_ok s x \<Longrightarrow> entry_ok (appended e s) x" for x
    by (simp add: entry_ok_def)
  then have old': "\<forall>x\<in>set (entries s). entry_ok (appended e s) x"
    using old(1) by blast
  have new: "entry_ok (appended e s) e"
    using assms(2,4-7) by (auto simp: entry_ok_def order_owner_def)
  have payers: "payers_ok (entries s @ [e])"
  proof -
    have "x \<in> set (entries s)" if "x \<in> set (entries s @ [e])" "payment_id x \<noteq> None" for x
      using that assms(5) by auto
    then show ?thesis
      using old(4) unfolding payers_ok_def by metis
  qed
  show ?thesis
    unfolding entries_ok_def appended_sel
    using old(2,3) old' new payers id assms(3) by (simp add: sorted_wrt_append)
qed

lemma ledger_core_appended:
  assumes inv: "ledger_inv s" and e: "entry_checks e" "e_id e = entry_seq s + 1" "payment_id e = None"
    and "\<forall>x\<in>set (entries s). \<not> entry_conflict e x"
    and "entry_type e = ADMIN_ADJUSTMENT \<longrightarrow> order_id e = None"
    and "\<And>oid. order_id e = Some oid \<Longrightarrow> order_owner s oid = Some (e_user_id e)"
    and kind: "is_lot e \<or> is_refund e \<or> amount e < 0"
  shows "entries_ok (appended e s)" "allocs_ok (appended e s)" "lots_ok (appended e s)" "spends_ok (appended e s)"
proof -
  have ok: "entries_ok s" "allocs_ok s" "lots_ok s" "spends_ok s"
    using inv by (simp_all add: ledger_inv_def)
  have "entries_ok (appended e s)"
    using ok(1) assms by (intro entries_ok_appended) auto
  moreover have "allocs_ok (appended e s)"
    using ok(2) by (fastforce simp: allocs_ok_def)
  moreover have "lots_ok (appended e s)"
    using ok(3) used_by_new_credit [OF ok(1,2), of "e_id e"] e(2)
    by (auto simp: lots_ok_def is_lot_def)
  moreover have "spends_ok (appended e s)"
  proof -
    have "spend_sum s i + alloc_sum s i \<le> 0"
      and "(if e_user_id e = i \<and> \<not> is_lot e \<and> \<not> is_refund e then amount e else 0) \<le> 0"
      for i
      using ok(4) kind by (auto simp: spends_ok_def)
    from add_mono [OF this] show ?thesis
      by (simp add: spends_ok_def spend_sum_appended algebra_simps)
  qed
  ultimately show "entries_ok (appended e s)" "allocs_ok (appended e s)" "lots_ok (appended e s)"
    "spends_ok (appended e s)"
    by simp_all
qed

text \<open>A new entry is attributed to no lot, so an adjustment that is just added is a clawback.\<close>

lemma not_attributed_new:
  "entries_ok s \<Longrightarrow> allocs_ok s \<Longrightarrow> entry_seq s < e_id e \<Longrightarrow> \<not> attributed s e"
  by (force simp: attributed_def allocs_ok_def dest: entries_okD(2))

lemma clawback_appended [simp]: "clawback (appended e s) x = clawback s x"
  by (simp add: clawback_def attributed_def)

lemma debit_sum_appended:
  "debit_sum (appended e s) i = debit_sum s i
     + (if e_user_id e = i \<and> \<not> is_lot e \<and> \<not> is_refund e \<and> \<not> clawback s e then amount e else 0)"
  by (simp add: debit_sum_def)

lemma ledger_inv_appended:
  assumes inv: "ledger_inv s" and e: "entry_checks e" "e_id e = entry_seq s + 1" "payment_id e = None"
    and "\<forall>x\<in>set (entries s). \<not> entry_conflict e x"
    and "entry_type e = ADMIN_ADJUSTMENT \<longrightarrow> order_id e = None"
    and "\<And>oid. order_id e = Some oid \<Longrightarrow> order_owner s oid = Some (e_user_id e)"
    and kind: "is_lot e \<or> is_refund e \<or> amount e < 0 \<and> entry_type e = ADMIN_ADJUSTMENT"
  shows "ledger_inv (appended e s)"
proof -
  have "is_lot e \<or> is_refund e \<or> amount e < 0"
    using kind by blast
  note core = ledger_core_appended [OF assms(1-7) this]
  have "is_lot e \<or> is_refund e \<or> clawback s e"
    using kind not_attributed_new [of s e] inv e(2) by (auto simp: clawback_def ledger_inv_def)
  then have "debit_sum (appended e s) i = debit_sum s i" for i
    by (auto simp: debit_sum_appended)
  then show ?thesis
    using core inv by (simp add: ledger_inv_def debits_ok_def)
qed

subsection \<open>Attributing a spend keeps it\<close>

lemma set_credit_lots:
  "c \<in> set (credit_lots s i) \<longleftrightarrow> c \<in> set (entries s) \<and> e_user_id c = i \<and> is_lot c"
  by (auto simp: credit_lots_def)

lemma distinct_credit_lots: "entries_ok s \<Longrightarrow> distinct (map e_id (credit_lots s i))"
  by (auto simp: entries_ok_def credit_lots_def distinct_map inj_on_def)

lemma refund_by_order_nonneg: "0 \<le> refund_by_order s oid"
  unfolding refund_by_order_def by (rule sum_list_nonneg_map) simp

lemma refund_by_payment_nonneg: "0 \<le> refund_by_payment s pid"
  unfolding refund_by_payment_def by (rule sum_list_nonneg_map) simp

lemma ext_debit_nonneg: "0 \<le> ext_debit s c"
  using refund_by_order_nonneg refund_by_payment_nonneg
  by (auto simp: ext_debit_def split: option.splits)

lemma used_by_credit_nonneg: "allocs_ok s \<Longrightarrow> 0 \<le> used_by_credit s cid"
  unfolding used_by_credit_def
  by (rule sum_list_nonneg_map)
    (auto simp: allocs_ok_def ck_account_allocations_whole_positive_amount_def less_imp_le)

lemma credit_capacity_whole:
  assumes "entries_ok s" and "allocs_ok s" and "c \<in> set (entries s)"
  shows "is_whole (credit_capacity s c)"
proof -
  have e: "is_whole (amount e)" if "e \<in> set (entries s)" for e
    using entries_okD(1) [OF assms(1) that] by (rule entry_checks_whole)
  have "is_whole (used_by_credit s (e_id c))"
    using assms(2) unfolding used_by_credit_def
    by (intro is_whole_sum_list)
      (auto simp: allocs_ok_def ck_account_allocations_whole_positive_amount_def)
  moreover have "is_whole (ext_debit s c)"
    using e unfolding ext_debit_def refund_by_order_def refund_by_payment_def
    by (auto intro!: is_whole_add is_whole_sum_list split: option.splits)
  ultimately show ?thesis
    using e [OF assms(3)] by (simp add: credit_capacity_def is_whole_diff)
qed

definition fifo_pairs :: "db \<Rightarrow> int \<Rightarrow> (ledger_entry \<times> money) list" where
  "fifo_pairs s i = map (\<lambda>c. (c, credit_capacity s c)) (credit_lots s i)"

definition with_allocs :: "allocation list \<Rightarrow> db \<Rightarrow> db" where
  "with_allocs al s = s\<lparr>allocs := allocs s @ al, alloc_seq := alloc_seq s + int (length al)\<rparr>"

lemma with_allocs_sel [simp]:
  "entries (with_allocs al s) = entries s" "entry_seq (with_allocs al s) = entry_seq s"
  "allocs (with_allocs al s) = allocs s @ al" "get_order (with_allocs al s) = get_order s"
  "spend_sum (with_allocs al s) = spend_sum s" "users (with_allocs al s) = users s"
  "order_owner (with_allocs al s) = order_owner s" "position (with_allocs al s) = position s"
  by (simp_all add: with_allocs_def spend_sum_def order_owner_def position_def fun_eq_iff)

lemma allocate_fifo_Inr:
  assumes "allocate_fifo uid d amt now s = Inr (al, t)"
  shows "snd (fifo_chunks (fifo_pairs s uid) amt) = 0"
    and "al = mk_allocs uid (e_id d) now (alloc_seq s + 1) (fst (fifo_chunks (fifo_pairs s uid) amt))"
    and "t = with_allocs al s"
  using assms
  by (auto simp: allocate_fifo_def fifo_pairs_def with_allocs_def Let_def split: prod.splits if_splits)

lemma allocate_fifo_sum:
  assumes "allocate_fifo uid d amt now s = Inr (al, t)" and "0 \<le> amt"
  shows "sum_list (map a_amount al) = amt"
  using allocate_fifo_Inr [OF assms(1)] fifo_chunks_sum [OF assms(2), of "fifo_pairs s uid"]
  by (simp add: mk_allocs_sum)

lemma allocate_fifo_row:
  assumes "allocate_fifo uid d amt now s = Inr (al, t)" and "a \<in> set al"
  obtains c where "c \<in> set (credit_lots s uid)" and "credit_entry_id a = e_id c"
    and "0 < a_amount a" and "a_amount a \<le> credit_capacity s c"
    and "a_user_id a = uid" and "debit_entry_id a = e_id d"
    and "(c, a_amount a) \<in> set (fst (fifo_chunks (fifo_pairs s uid) amt))"
proof -
  from mk_allocs_fields assms allocate_fifo_Inr(2) [OF assms(1)] obtain p
    where p: "p \<in> set (fst (fifo_chunks (fifo_pairs s uid) amt))" "credit_entry_id a = e_id (fst p)"
      "a_amount a = snd p" "a_user_id a = uid" "debit_entry_id a = e_id d"
    by blast
  then show thesis
    using fifo_chunks_bound [of "fst p" "snd p" "fifo_pairs s uid" amt] that [of "fst p"]
    by (auto simp: fifo_pairs_def)
qed

lemma ledger_inv_allocate:
  assumes run: "allocate_fifo uid d amt now s = Inr (al, t)"
    and ok: "entries_ok s" "allocs_ok s" "lots_ok s"
    and slack: "\<And>i. spend_sum s i + alloc_sum s i + (if i = uid then amt else 0) \<le> 0"
    and cover: "\<And>i. 0 \<le> debit_sum t i + alloc_sum s i + (if i = uid then amt else 0)"
    and d: "d \<in> set (entries s)" "amount d < 0" "e_user_id d = uid"
    and amt: "0 \<le> amt" "is_whole amt"
  shows "ledger_inv t"
proof -
  let ?xs = "fst (fifo_chunks (fifo_pairs s uid) amt)"
  have t: "t = with_allocs al s"
    and al: "al = mk_allocs uid (e_id d) now (alloc_seq s + 1) ?xs"
    using allocate_fifo_Inr [OF run] by auto
  have dist: "distinct (map (\<lambda>p. e_id (fst p)) ?xs)"
    using distinct_credit_lots [OF ok(1), of uid]
    by (intro fifo_chunks_distinct) (simp add: fifo_pairs_def comp_def)
  have "entries_ok t"
    using ok(1) by (simp add: t entries_ok_def entry_ok_def)
  moreover have "allocs_ok t"
  proof -
    have "ck_account_allocations_whole_positive_amount a
        \<and> (\<exists>c\<in>set (entries s). is_lot c \<and> e_id c = credit_entry_id a \<and> e_user_id c = a_user_id a)
        \<and> (\<exists>d\<in>set (entries s). amount d < 0 \<and> e_id d = debit_entry_id a \<and> e_user_id d = a_user_id a)"
      if a: "a \<in> set al" for a
    proof -
      obtain c where c: "c \<in> set (credit_lots s uid)" "credit_entry_id a = e_id c" "0 < a_amount a"
        "a_user_id a = uid" "debit_entry_id a = e_id d" "(c, a_amount a) \<in> set ?xs"
        using allocate_fifo_row [OF run a] by blast
      have "is_whole (snd (c, a_amount a))"
        by (rule fifo_chunks_whole [OF _ amt(2) c(6)])
          (auto simp: fifo_pairs_def set_credit_lots intro: credit_capacity_whole [OF ok(1,2)])
      then show ?thesis
        using c d by (auto simp: ck_account_allocations_whole_positive_amount_def set_credit_lots)
    qed
    then show ?thesis
      using ok(2) by (auto simp: t allocs_ok_def)
  qed
  moreover have "lots_ok t"
    unfolding lots_ok_def
  proof (intro ballI impI)
    fix c
    assume c: "c \<in> set (entries t)" "is_lot c"
    then have ce: "c \<in> set (entries s)"
      by (simp add: t)
    have used: "used_by_credit t (e_id c) = used_by_credit s (e_id c)
        + (case find (\<lambda>p. e_id (fst p) = e_id c) ?xs of None \<Rightarrow> 0 | Some p \<Rightarrow> snd p)"
      using mk_allocs_used [OF dist] by (simp add: used_by_credit_def t al)
    show "used_by_credit t (e_id c) \<le> amount c"
    proof (cases "find (\<lambda>p. e_id (fst p) = e_id c) ?xs")
      case None
      then show ?thesis
        using ok(3) ce c(2) used by (simp add: lots_ok_def)
    next
      case (Some p)
      then have p: "(fst p, snd p) \<in> set ?xs" "e_id (fst p) = e_id c"
        by (auto dest: find_SomeD)
      then have "fst p \<in> set (credit_lots s uid)" and bound: "snd p \<le> credit_capacity s (fst p)"
        using fifo_chunks_bound [OF p(1)] by (auto simp: fifo_pairs_def)
      then have "fst p = c"
        using p(2) ce by (auto simp: set_credit_lots intro: same_entry_id [OF ok(1)])
      then show ?thesis
        using bound used Some ext_debit_nonneg [of s c] by (simp add: credit_capacity_def)
    qed
  qed
  moreover have "spends_ok t" "debits_ok t"
  proof -
    have user: "\<And>a. a \<in> set al \<Longrightarrow> a_user_id a = uid"
      using allocate_fifo_row [OF run] by blast
    have "filter (\<lambda>a. a_user_id a = i) al = (if i = uid then al else [])" for i
      using user by (auto simp: filter_empty_conv filter_id_conv)
    then have "alloc_sum t i = alloc_sum s i + (if i = uid then amt else 0)" for i
      using allocate_fifo_sum [OF run amt(1)] by (simp add: t alloc_sum_def)
    then show "spends_ok t" "debits_ok t"
      using slack cover by (simp_all add: spends_ok_def debits_ok_def t add.assoc)
  qed
  ultimately show ?thesis
    by (simp add: ledger_inv_def)
qed

subsection \<open>Solvency\<close>

text \<open>
  The balance never exceeds what is left in the credit lots, so an attribution of an amount
  within the balance never runs out of lots: every refund is charged to at most one lot,
  every attribution to exactly one, and no more is attributed than was spent.
\<close>

lemma lot_uses_le_alloc_sum:
  assumes "entries_ok s" and "allocs_ok s"
  shows "sum_list (map (\<lambda>c. used_by_credit s (e_id c)) (credit_lots s i)) \<le> alloc_sum s i"
proof -
  let ?R = "\<lambda>c a. credit_entry_id a = e_id c"
  have one: "length (filter (\<lambda>c. ?R c a) (credit_lots s i)) \<le> 1" for a
    using distinct_credit_lots [OF assms(1), of i]
    by (intro length_filter_unique) (auto simp: distinct_map inj_on_def)
  have mine: "a_user_id a = i"
    if a: "a \<in> set (allocs s)" "c \<in> set (credit_lots s i)" "credit_entry_id a = e_id c" for a c
  proof -
    obtain c' where "c' \<in> set (entries s)" "e_id c' = e_id c" "e_user_id c' = a_user_id a"
      using assms(2) a(1,3) by (auto simp: allocs_ok_def)
    moreover have "c \<in> set (entries s)" "e_user_id c = i"
      using a(2) by (simp_all add: set_credit_lots)
    ultimately show ?thesis
      using same_entry_id [OF assms(1)] by metis
  qed
  have pos: "0 \<le> a_amount a" if "a \<in> set (allocs s)" for a
    using assms(2) that
    by (auto simp: allocs_ok_def ck_account_allocations_whole_positive_amount_def less_imp_le)
  have "sum_list (map (\<lambda>c. used_by_credit s (e_id c)) (credit_lots s i))
      \<le> sum_list (map a_amount (filter (\<lambda>a. \<exists>c\<in>set (credit_lots s i). ?R c a) (allocs s)))"
    unfolding used_by_credit_def by (rule sum_list_attribution_le [OF pos one])
  also have "\<dots> \<le> alloc_sum s i"
    unfolding alloc_sum_def sum_list_map_filter_if
    using mine pos by (intro sum_list_mono_map) auto
  finally show ?thesis .
qed

definition refund_sum :: "db \<Rightarrow> int \<Rightarrow> money" where
  "refund_sum s i = sum_list (map (\<lambda>e. \<bar>amount e\<bar>)
     (filter (\<lambda>e. e_user_id e = i \<and> is_refund e) (entries s)))"

text \<open>The lot a refund is charged to: the credit of its order or of its payment.\<close>

definition charged_to :: "ledger_entry \<Rightarrow> ledger_entry \<Rightarrow> bool" where
  "charged_to c e \<longleftrightarrow> is_refund e \<and>
     ((order_id c \<noteq> None \<and> order_id e = order_id c)
      \<or> (payment_id c \<noteq> None \<and> payment_id e = payment_id c))"

lemma ext_debit_charged:
  assumes "entries_ok s"
  shows "ext_debit s c \<le>
    sum_list (map (\<lambda>e. \<bar>amount e\<bar>) (filter (charged_to c) (entries s)))"
proof -
  let ?sum = "\<lambda>P. sum_list (map (\<lambda>e. \<bar>amount e\<bar>) (filter P (entries s)))"
  let ?O = "\<lambda>e. is_refund e \<and> order_id c \<noteq> None \<and> order_id e = order_id c"
  let ?P = "\<lambda>e. is_refund e \<and> payment_id c \<noteq> None \<and> payment_id e = payment_id c"
  have "ext_debit s c = ?sum ?O + ?sum ?P"
    by (cases "order_id c"; cases "payment_id c")
      (simp_all add: ext_debit_def refund_by_order_def refund_by_payment_def)
  also have "\<dots> = sum_list (map (\<lambda>e. (if ?O e then \<bar>amount e\<bar> else 0)
      + (if ?P e then \<bar>amount e\<bar> else 0)) (entries s))"
    by (simp add: sum_list_map_filter_if sum_list_addf)
  also have "\<dots> \<le> sum_list (map (\<lambda>e. if charged_to c e then \<bar>amount e\<bar> else 0) (entries s))"
    using entries_okD(4) [OF assms]
    by (intro sum_list_mono_map) (force simp: charged_to_def)
  finally show ?thesis
    by (simp add: sum_list_map_filter_if)
qed

lemma charged_lot_is_payment:
  "entry_ok s c \<Longrightarrow> is_lot c \<Longrightarrow> charged_to c e \<Longrightarrow> entry_type c = PAYMENT_CREDIT"
  by (cases "entry_type c")
    (auto simp: charged_to_def is_lot_def entry_ok_def entry_checks_def
      ck_account_ledger_entry_shape_def)

lemma charged_to_unique:
  assumes "entries_ok s" and "e \<in> set (entries s)"
  shows "length (filter (\<lambda>c. charged_to c e) (credit_lots s i)) \<le> 1"
proof -
  have conflict: False
    if "c \<in> set (entries s)" "c' \<in> set (entries s)" "is_lot c" "is_lot c'" "c \<noteq> c'"
      "charged_to c e" "charged_to c' e" for c c'
  proof -
    have kind: "entry_type c = PAYMENT_CREDIT" "entry_type c' = PAYMENT_CREDIT"
      using that assms(1) by (auto simp: entries_ok_def intro: charged_lot_is_payment)
    have "entry_conflict c c'" "entry_conflict c' c"
      using that(6,7) kind entries_okD(4) [OF assms]
      by (auto simp: charged_to_def entry_conflict_def)
    moreover have "\<not> entry_conflict c c' \<or> \<not> entry_conflict c' c"
      using that(1,2,5) assms(1) unfolding entries_ok_def sorted_wrt_iff_nth_less in_set_conv_nth
      by (metis linorder_neqE_nat)
    ultimately show False by blast
  qed
  have "distinct (credit_lots s i)"
    using distinct_credit_lots [OF assms(1)] by (simp add: distinct_map)
  then show ?thesis
    using conflict by (intro length_filter_unique) (auto simp: set_credit_lots)
qed

lemma lot_refunds_le_refund_sum:
  assumes "entries_ok s"
  shows "sum_list (map (ext_debit s) (credit_lots s i)) \<le> refund_sum s i"
proof -
  have mine: "e_user_id e = i"
    if e: "e \<in> set (entries s)" "c \<in> set (credit_lots s i)" "charged_to c e" for e c
  proof -
    have c: "c \<in> set (entries s)" "e_user_id c = i"
      using e(2) by (simp_all add: set_credit_lots)
    consider oid where "order_id e = Some oid" "order_id c = Some oid"
      | "payment_id c \<noteq> None" "payment_id e = payment_id c"
      using e(3) by (auto simp: charged_to_def)
    then show ?thesis
    proof cases
      case 1
      then show ?thesis
        using entries_okD(5) [OF assms e(1)] entries_okD(5) [OF assms c(1)] c(2) by auto
    next
      case 2
      then show ?thesis
        using assms c e(1) unfolding entries_ok_def payers_ok_def by metis
    qed
  qed
  have "sum_list (map (ext_debit s) (credit_lots s i)) \<le>
      sum_list (map (\<lambda>c. sum_list (map (\<lambda>e. \<bar>amount e\<bar>) (filter (charged_to c) (entries s))))
        (credit_lots s i))"
    by (intro sum_list_mono_map ext_debit_charged assms)
  also have "\<dots> \<le> sum_list (map (\<lambda>e. \<bar>amount e\<bar>)
      (filter (\<lambda>e. \<exists>c\<in>set (credit_lots s i). charged_to c e) (entries s)))"
    by (rule sum_list_attribution_le) (simp_all only: abs_ge_zero charged_to_unique [OF assms])
  also have "\<dots> \<le> refund_sum s i"
    unfolding refund_sum_def sum_list_map_filter_if
    using mine by (intro sum_list_mono_map) (auto simp: charged_to_def)
  finally show ?thesis .
qed

end
