(* ===== verification/Ledger_Contract.thy ===== *)
theory Ledger_Contract
  imports Ledger_Props
begin

section \<open>What the ledger promises its callers\<close>

text \<open>
  Solvency, the effect of each mutator, and the requests to the ledger as a
  \<open>transactional\<close> component whose invariant is \<open>ledger_inv\<close>.
\<close>

subsection \<open>The balance is covered by the lots\<close>

lemma sum_list_insort_key:
  fixes f :: "'a \<Rightarrow> 'b :: comm_monoid_add"
  shows "sum_list (map f (insort_key k x xs)) = f x + sum_list (map f xs)"
  by (induction xs) (auto simp: algebra_simps)

lemma sum_list_sort_key:
  fixes f :: "'a \<Rightarrow> 'b :: comm_monoid_add"
  shows "sum_list (map f (sort_key k xs)) = sum_list (map f xs)"
  by (induction xs) (auto simp: sum_list_insort_key)

lemma position_split:
  assumes "entries_ok s"
  shows "position s i =
    sum_list (map amount (credit_lots s i)) + spend_sum s i - refund_sum s i"
proof -
  have part: "(if e_user_id e = i then amount e else 0) =
      (if e_user_id e = i \<and> is_lot e then amount e else 0)
      + (if e_user_id e = i \<and> \<not> is_lot e \<and> \<not> is_refund e then amount e else 0)
      - (if e_user_id e = i \<and> is_refund e then \<bar>amount e\<bar> else 0)"
    if "e \<in> set (entries s)" for e
    using entry_checks_refund_neg [OF entries_okD(1) [OF assms that]] lot_not_refund [of e]
    by auto
  have "position s i = sum_list (map (\<lambda>e. if e_user_id e = i then amount e else 0) (entries s))"
    by (simp add: position_def sum_list_map_filter_if)
  also have "\<dots> = sum_list (map (\<lambda>e. (if e_user_id e = i \<and> is_lot e then amount e else 0)
      + (if e_user_id e = i \<and> \<not> is_lot e \<and> \<not> is_refund e then amount e else 0)
      - (if e_user_id e = i \<and> is_refund e then \<bar>amount e\<bar> else 0)) (entries s))"
    by (intro arg_cong [where f = sum_list] map_cong refl part)
  finally show ?thesis
    by (simp add: credit_lots_def sum_list_sort_key spend_sum_def refund_sum_def
        sum_list_map_filter_if sum_list_addf sum_list_subtractf)
qed

lemma position_le_capacity:
  assumes "ledger_inv s"
  shows "position s i \<le> sum_list (map (credit_capacity s) (credit_lots s i))"
proof -
  have ok: "entries_ok s" "allocs_ok s" "spend_sum s i + alloc_sum s i \<le> 0"
    using assms by (auto simp: ledger_inv_def spends_ok_def)
  have "sum_list (map (credit_capacity s) (credit_lots s i)) =
      sum_list (map amount (credit_lots s i))
      - sum_list (map (\<lambda>c. used_by_credit s (e_id c)) (credit_lots s i))
      - sum_list (map (ext_debit s) (credit_lots s i))"
    by (simp add: credit_capacity_def [abs_def] sum_list_subtractf)
  then show ?thesis
    using position_split [OF ok(1), of i] lot_uses_le_alloc_sum [OF ok(1,2), of i]
      lot_refunds_le_refund_sum [OF ok(1), of i] ok(3)
    by linarith
qed

lemma fifo_covers:
  assumes "sum_list (map snd cs) \<ge> r" and "0 \<le> r"
  shows "snd (fifo_chunks cs r) = 0"
proof -
  have "sum_list (map snd cs) \<le> sum_list (map (\<lambda>p. max 0 (snd p)) cs)"
    by (rule sum_list_mono_map) simp
  then show ?thesis
    using assms by (simp add: fifo_chunks_rest)
qed

lemma allocate_fifo_ok:
  assumes "snd (fifo_chunks (fifo_pairs s uid) amt) = 0"
  shows "\<exists>al. allocate_fifo uid d amt now s = Inr (al, with_allocs al s)"
  using assms
  by (cases "fifo_chunks (fifo_pairs s uid) amt")
    (simp add: allocate_fifo_def fifo_pairs_def with_allocs_def Let_def)

text \<open>Appending a debit leaves the lots and their capacities alone.\<close>

lemma credit_lots_appended_debit:
  assumes "\<not> is_lot e"
  shows "credit_lots (appended e s) = credit_lots s"
  using assms by (simp add: credit_lots_def fun_eq_iff)

lemma credit_capacity_appended:
  assumes "\<not> is_refund e"
  shows "credit_capacity (appended e s) = credit_capacity s"
  using assms
  by (simp add: credit_capacity_def ext_debit_def refund_by_order_def refund_by_payment_def
      fun_eq_iff split: option.split)

lemma fifo_pairs_appended:
  "\<not> is_lot e \<Longrightarrow> \<not> is_refund e \<Longrightarrow> fifo_pairs (appended e s) = fifo_pairs s"
  by (simp add: fifo_pairs_def credit_lots_appended_debit credit_capacity_appended fun_eq_iff)

lemma covered_fifo:
  assumes "ledger_inv s" and "0 \<le> amt" and "amt \<le> position s i"
  shows "snd (fifo_chunks (fifo_pairs s i) amt) = 0"
  using position_le_capacity [OF assms(1), of i] assms(2,3)
  by (intro fifo_covers) (simp_all add: fifo_pairs_def comp_def)

lemma available_eq: "available (balance_snapshot s i) = max 0 (position s i)"
  by (simp add: balance_snapshot_def Let_def)

subsection \<open>The mutators, case by case\<close>

lemma lock_account_user_Inr:
  "lock_account_user i s = Inr (u, t) \<longleftrightarrow> get_user s i = Some u \<and> t = s"
  by (auto simp: lock_account_user_def split: option.split)

lemma order_debit_owner_checks:
  "entry_checks (entry_values uid PURCHASE_DEBIT (- x) (Some oid) k md) \<longleftrightarrow> 0 < x \<and> is_whole x"
  by (auto simp: entry_checks_def ck_account_ledger_whole_nonzero_amount_def
      ck_account_ledger_entry_shape_def)

definition debit_entry :: "int \<Rightarrow> money \<Rightarrow> uuid \<Rightarrow> meta \<Rightarrow> instant \<Rightarrow> db \<Rightarrow> ledger_entry" where
  "debit_entry uid x oid md now s =
     (entry_values uid PURCHASE_DEBIT (- x) (Some oid) (''order_debit:'' @ oid) md)
       \<lparr>e_id := entry_seq s + 1, e_created_at := now\<rparr>"

lemma debit_entry_sel [simp]:
  "e_user_id (debit_entry uid x oid md now s) = uid"
  "entry_type (debit_entry uid x oid md now s) = PURCHASE_DEBIT"
  "amount (debit_entry uid x oid md now s) = - x"
  "order_id (debit_entry uid x oid md now s) = Some oid"
  "payment_id (debit_entry uid x oid md now s) = None"
  "e_id (debit_entry uid x oid md now s) = entry_seq s + 1"
  "is_lot (debit_entry uid x oid md now s) = False"
  "is_refund (debit_entry uid x oid md now s) = False"
  by (simp_all add: debit_entry_def is_lot_def is_refund_def)

lemma create_order_debitE:
  assumes "create_order_debit uid rub oid md now s = Inr ((r, created), t)"
  obtains (unchanged) "\<not> created" and "t = s"
  | (spent) x u al where "created" and "rub = rubles x" and "0 < x" and "is_whole x"
      and "get_user s uid = Some u" and "r = Some (debit_entry uid x oid md now s)"
      and "\<forall>e\<in>set (entries s). \<not> entry_conflict (debit_entry uid x oid md now s) e"
      and "x \<le> position s uid"
      and "allocate_fifo uid (debit_entry uid x oid md now s) x now
             (appended (debit_entry uid x oid md now s) s) = Inr (al, t)"
proof (cases created)
  case False
  then have "t = s"
    using assms
    by (auto simp: create_order_debit_def Let_def and_then_eq_Inr lock_account_user_Inr
        get_account_balance_def elim!: insert_or_get_entryE
        split: sum.split_asm if_split_asm option.split_asm)
  with False show ?thesis
    by (rule unchanged)
next
  case True
  obtain x where x: "whole_rubles rub True = Inr x"
    using assms by (auto simp: create_order_debit_def split: sum.split_asm)
  note w = whole_rubles_Inr [OF x]
  obtain u where u: "get_user s uid = Some u"
    using assms x by (auto simp: create_order_debit_def Let_def and_then_eq_Inr lock_account_user_Inr)
  have uid: "u_id u = uid"
    using u by (rule get_user_id)
  have lock: "lock_account_user uid s = Inr (u, s)"
    using u by (simp add: lock_account_user_Inr)
  let ?v = "entry_values uid PURCHASE_DEBIT (- x) (Some oid) (''order_debit:'' @ oid) md"
  obtain d t1 where ins: "insert_or_get_entry ?v
        (\<lambda>e. entry_type e = PURCHASE_DEBIT \<and> order_id e = Some oid) now s = Inr ((d, True), t1)"
    and alloc: "\<exists>al. allocate_fifo uid d x now t1 = Inr (al, t)" and r: "r = Some d"
    and cov: "x \<le> max 0 (position s uid)" and pos: "x \<noteq> 0"
    using assms x w True uid
    by (auto simp: create_order_debit_def Let_def and_then_eq_Inr lock get_account_balance_def
        available_eq not_less split: if_split_asm option.split_asm)
  from ins have d: "d = debit_entry uid x oid md now s" "t1 = appended d s"
    "\<forall>e\<in>set (entries s). \<not> entry_conflict d e"
    by (auto simp: debit_entry_def appended_def elim!: insert_or_get_entryE)
  from alloc obtain al where "allocate_fifo uid d x now t1 = Inr (al, t)"
    by blast
  then show ?thesis
    using w pos cov u r d True by (auto intro: spent [of x u al])
qed

definition credit_entry :: "int \<Rightarrow> money \<Rightarrow> uuid \<Rightarrow> meta \<Rightarrow> instant \<Rightarrow> db \<Rightarrow> ledger_entry" where
  "credit_entry uid x oid md now s =
     (entry_values uid PAYMENT_CREDIT x (Some oid) (''order_credit:'' @ oid) md)
       \<lparr>e_id := entry_seq s + 1, e_created_at := now\<rparr>"

definition refund_entry ::
  "int \<Rightarrow> money \<Rightarrow> uuid \<Rightarrow> string \<Rightarrow> meta \<Rightarrow> instant \<Rightarrow> db \<Rightarrow> ledger_entry" where
  "refund_entry uid x oid rid md now s =
     (entry_values uid REFUND_DEBIT (- x) (Some oid)
       (''order_refund:'' @ oid @ '':'' @ py_strip rid) md)
       \<lparr>e_id := entry_seq s + 1, e_created_at := now\<rparr>"

definition adjustment_entry ::
  "int \<Rightarrow> money \<Rightarrow> string \<Rightarrow> meta \<Rightarrow> instant \<Rightarrow> db \<Rightarrow> ledger_entry" where
  "adjustment_entry uid x key md now s =
     (entry_values uid ADMIN_ADJUSTMENT x None key md)
       \<lparr>e_id := entry_seq s + 1, e_created_at := now\<rparr>"

lemma new_entry_sel [simp]:
  "e_user_id (credit_entry uid x oid md now s) = uid"
  "entry_type (credit_entry uid x oid md now s) = PAYMENT_CREDIT"
  "amount (credit_entry uid x oid md now s) = x"
  "order_id (credit_entry uid x oid md now s) = Some oid"
  "payment_id (credit_entry uid x oid md now s) = None"
  "e_id (credit_entry uid x oid md now s) = entry_seq s + 1"
  "e_user_id (refund_entry uid x oid rid md now s) = uid"
  "entry_type (refund_entry uid x oid rid md now s) = REFUND_DEBIT"
  "amount (refund_entry uid x oid rid md now s) = - x"
  "order_id (refund_entry uid x oid rid md now s) = Some oid"
  "payment_id (refund_entry uid x oid rid md now s) = None"
  "e_id (refund_entry uid x oid rid md now s) = entry_seq s + 1"
  "e_user_id (adjustment_entry uid x key md now s) = uid"
  "entry_type (adjustment_entry uid x key md now s) = ADMIN_ADJUSTMENT"
  "amount (adjustment_entry uid x key md now s) = x"
  "order_id (adjustment_entry uid x key md now s) = None"
  "payment_id (adjustment_entry uid x key md now s) = None"
  "e_id (adjustment_entry uid x key md now s) = entry_seq s + 1"
  "is_refund (refund_entry uid x oid rid md now s)"
  "is_lot (credit_entry uid x oid md now s) = (0 < x)"
  "is_lot (adjustment_entry uid x key md now s) = (0 < x)"
  "\<not> is_refund (adjustment_entry uid x key md now s)"
  by (simp_all add: credit_entry_def refund_entry_def adjustment_entry_def is_lot_def is_refund_def)

lemma create_order_creditE:
  assumes "create_order_credit uid rub oid md now s = Inr ((e, created), t)"
  obtains (unchanged) x where "\<not> created" and "t = s" and "e \<in> set (entries s)"
      and "rub = rubles x" and "amount e = x" and "order_id e = Some oid"
      and "e_user_id e = uid" and "entry_type e = PAYMENT_CREDIT"
  | (credited) x where "created" and "rub = rubles x" and "0 < x" and "is_whole x"
      and "e = credit_entry uid x oid md now s"
      and "\<forall>y\<in>set (entries s). \<not> entry_conflict e y" and "t = appended e s"
proof -
  obtain x where x: "whole_rubles rub False = Inr x"
    using assms by (auto simp: create_order_credit_def split: sum.split_asm)
  note w = whole_rubles_Inr [OF x]
  have ins: "insert_or_get_entry (entry_values uid PAYMENT_CREDIT x (Some oid) (''order_credit:'' @ oid) md)
      (\<lambda>e. entry_type e = PAYMENT_CREDIT \<and> order_id e = Some oid) now s = Inr ((e, created), t)"
    using assms x w by (simp add: create_order_credit_def)
  then show ?thesis
  proof (cases rule: insert_or_get_entryE)
    case existing
    then show ?thesis
      using w by - (rule unchanged [of x]; auto simp: same_entry_def)
  next
    case new
    moreover have "0 < x"
      using w by auto
    ultimately show ?thesis
      using w by - (rule credited [of x]; auto simp: credit_entry_def appended_def)
  qed
qed

lemma create_order_refund_debitE:
  assumes "create_order_refund_debit uid rub oid rid md now s = Inr ((e, created), t)"
  obtains (unchanged) "\<not> created" and "t = s" and "e \<in> set (entries s)"
      and "amount e = - quantize_half_up rub" and "order_id e = Some oid" and "e_user_id e = uid"
      and "entry_type e = REFUND_DEBIT" and "0 < quantize_half_up rub"
      and "0 < order_credit_total s oid \<longrightarrow>
        \<bar>order_debited_total s oid\<bar> + quantize_half_up rub \<le> order_credit_total s oid"
  | (debited) "created" and "0 < quantize_half_up rub"
      and "e = refund_entry uid (quantize_half_up rub) oid rid md now s"
      and "\<forall>y\<in>set (entries s). \<not> entry_conflict e y" and "t = appended e s"
      and "0 < order_credit_total s oid \<longrightarrow>
        \<bar>order_debited_total s oid\<bar> + quantize_half_up rub \<le> order_credit_total s oid"
proof -
  have ins: "insert_or_get_entry (entry_values uid REFUND_DEBIT (- quantize_half_up rub) (Some oid)
      (''order_refund:'' @ oid @ '':'' @ py_strip rid) md) (\<lambda>_. False) now s = Inr ((e, created), t)"
    and pos: "0 < quantize_half_up rub"
    and cap: "0 < order_credit_total s oid \<longrightarrow>
        \<bar>order_debited_total s oid\<bar> + quantize_half_up rub \<le> order_credit_total s oid"
    using assms
    by (auto simp: create_order_refund_debit_def Let_def not_less split: if_split_asm)
  from ins show ?thesis
  proof (cases rule: insert_or_get_entryE)
    case existing
    then show ?thesis
      using pos cap by - (rule unchanged; auto simp: same_entry_def)
  next
    case new
    then show ?thesis
      using pos cap by - (rule debited; auto simp: refund_entry_def appended_def)
  qed
qed

lemma create_admin_adjustmentE:
  assumes "create_admin_adjustment uid signed key md now s = Inr ((e, created), t)"
  obtains (unchanged) x where "\<not> created" and "t = s" and "e \<in> set (entries s)"
      and "signed = rubles x" and "amount e = x" and "e_user_id e = uid" and "idempotency_key e = key"
      and "entry_type e = ADMIN_ADJUSTMENT"
  | (gained) x where "created" and "signed = rubles x" and "0 < x" and "is_whole x"
      and "e = adjustment_entry uid x key md now s"
      and "\<forall>y\<in>set (entries s). \<not> entry_conflict e y" and "t = appended e s"
  | (taken) x al where "created" and "signed = rubles x" and "x < 0" and "is_whole x"
      and "e = adjustment_entry uid x key md now s"
      and "\<forall>y\<in>set (entries s). \<not> entry_conflict e y"
      and "allocate_fifo uid e (- x) now (appended e s) = Inr (al, t)"
proof -
  obtain x t1 where x: "signed = rubles x" "x \<noteq> 0" "is_whole x"
    and ins: "insert_or_get_entry (entry_values uid ADMIN_ADJUSTMENT x None key md)
      (\<lambda>e. idempotency_key e = key) now s = Inr ((e, created), t1)"
    and rest: "if created \<and> x < 0 then \<exists>al. allocate_fifo uid e (- x) now t1 = Inr (al, t) else t = t1"
    using assms
    by (auto simp: create_admin_adjustment_def and_then_eq_Inr lock_account_user_Inr
        split: money_arg.split_asm decimal.split_asm if_split_asm)
  from ins show ?thesis
  proof (cases rule: insert_or_get_entryE)
    case existing
    then show ?thesis
      using x rest by - (rule unchanged [of x]; auto simp: same_entry_def)
  next
    case new
    then have e: "e = adjustment_entry uid x key md now s" and t1: "t1 = appended e s"
      by (simp_all add: adjustment_entry_def appended_def)
    show ?thesis
    proof (cases "x < 0")
      case True
      then obtain al where "allocate_fifo uid e (- x) now t1 = Inr (al, t)"
        using rest new by auto
      then show ?thesis
        using True new x e t1 by - (rule taken [of x al]; auto)
    next
      case False
      then show ?thesis
        using new x e t1 rest by - (rule gained [of x]; auto)
    qed
  qed
qed

subsection \<open>Every mutator keeps the invariant\<close>

lemma ledger_inv_spend:
  assumes inv: "ledger_inv s" and e: "entry_checks e" "e_id e = entry_seq s + 1" "payment_id e = None"
    and fresh: "\<forall>y\<in>set (entries s). \<not> entry_conflict e y"
    and "entry_type e = ADMIN_ADJUSTMENT \<longrightarrow> order_id e = None"
    and "\<And>oid. order_id e = Some oid \<Longrightarrow> order_owner s oid = Some (e_user_id e)"
    and x: "amount e = - x" "0 < x" "\<not> is_refund e"
    and run: "allocate_fifo (e_user_id e) e x now (appended e s) = Inr (al, t)"
  shows "ledger_inv t"
proof -
  have lot: "\<not> is_lot e"
    using x by (simp add: is_lot_def)
  have neg: "is_lot e \<or> is_refund e \<or> amount e < 0"
    using x by simp
  note app = ledger_core_appended [OF inv e fresh assms(6,7) neg]
  have "is_whole x"
    using entry_checks_whole [OF e(1)] x(1) by simp
  moreover have "spend_sum (appended e s) i + alloc_sum (appended e s) i
      + (if i = e_user_id e then x else 0) \<le> 0" for i
  proof -
    have "spend_sum s i + alloc_sum s i \<le> 0"
      using inv by (simp add: ledger_inv_def spends_ok_def)
    then show ?thesis
      using lot x by (auto simp: spend_sum_appended)
  qed
  moreover have "0 \<le> debit_sum t i + alloc_sum (appended e s) i + (if i = e_user_id e then x else 0)" for i
  proof -
    have t: "t = with_allocs al (appended e s)"
      using allocate_fifo_Inr(3) [OF run] .
    have "debit_entry_id a = e_id e" if "a \<in> set al" for a
      using allocate_fifo_row [OF run that] by metis
    then have old: "clawback t y = clawback s y" if "y \<in> set (entries s)" for y
      using that e(2) inv entries_okD(2) [of s y]
      by (auto simp: clawback_def attributed_def t ledger_inv_def image_Un)
    have part: "debit_sum t i = debit_sum s i
        + (if e_user_id e = i \<and> \<not> is_lot e \<and> \<not> is_refund e \<and> \<not> clawback t e then amount e else 0)"
      using old by (simp add: debit_sum_def t cong: filter_cong)
    have "0 \<le> debit_sum s i + alloc_sum s i"
      using inv by (simp add: ledger_inv_def debits_ok_def)
    then show ?thesis
      using part x by auto
  qed
  ultimately show ?thesis
    using app x by (intro ledger_inv_allocate [OF run]) auto
qed

lemma order_debit_inv:
  assumes "ledger_inv s" and "order_owner s oid = Some uid"
    and "create_order_debit uid rub oid md now s = Inr ((r, created), t)"
  shows "ledger_inv t"
  using assms(3)
proof (cases rule: create_order_debitE)
  case (spent x u al)
  have "entry_checks (debit_entry uid x oid md now s)"
    using spent order_debit_owner_checks by (simp add: debit_entry_def)
  then show ?thesis
    using assms(1,2) spent by (intro ledger_inv_spend [OF assms(1)]) auto
qed (use assms(1) in simp)

lemma order_credit_inv:
  assumes "ledger_inv s" and "order_owner s oid = Some uid"
    and "create_order_credit uid rub oid md now s = Inr ((e, created), t)"
  shows "ledger_inv t"
  using assms(3)
proof (cases rule: create_order_creditE)
  case (credited x)
  have "entry_checks e"
    using credited
    by (simp add: credit_entry_def entry_checks_def ck_account_ledger_whole_nonzero_amount_def
        ck_account_ledger_entry_shape_def)
  then show ?thesis
    using assms(1,2) credited by (auto intro!: ledger_inv_appended)
qed (use assms(1) in simp)

lemma order_refund_debit_inv:
  assumes "ledger_inv s" and "order_owner s oid = Some uid"
    and "create_order_refund_debit uid rub oid rid md now s = Inr ((e, created), t)"
  shows "ledger_inv t"
  using assms(3)
proof (cases rule: create_order_refund_debitE)
  case debited
  have "entry_checks e"
    using debited
    by (simp add: refund_entry_def entry_checks_def ck_account_ledger_whole_nonzero_amount_def
        ck_account_ledger_entry_shape_def)
  then show ?thesis
    using assms(1,2) debited by (auto intro!: ledger_inv_appended)
qed (use assms(1) in simp)

lemma admin_adjustment_inv:
  assumes "ledger_inv s"
    and "create_admin_adjustment uid signed key md now s = Inr ((e, created), t)"
  shows "ledger_inv t"
  using assms(2)
proof (cases rule: create_admin_adjustmentE)
  case (gained x)
  then show ?thesis
    using assms(1)
    by (auto simp: adjustment_entry_def entry_checks_def ck_account_ledger_whole_nonzero_amount_def
        ck_account_ledger_entry_shape_def is_lot_def intro!: ledger_inv_appended)
next
  case (taken x al)
  then have "entry_checks e"
    by (simp add: adjustment_entry_def entry_checks_def
        ck_account_ledger_whole_nonzero_amount_def ck_account_ledger_entry_shape_def)
  then show ?thesis
    using assms(1) taken by (intro ledger_inv_spend [OF assms(1), where e = e and x = "- x"]) auto
qed (use assms(1) in simp)

subsection \<open>The requests to the ledger\<close>

text \<open>
  A caller charges or credits an order's owner: it passes \<open>order.user_id\<close> and \<open>order.id\<close> of
  one row of the orders table.
\<close>

datatype ledger_op =
    Order_Debit uuid money_arg meta instant
  | Order_Credit uuid money_arg meta instant
  | Order_Refund uuid money string meta instant
  | Admin_Adjustment int money_arg string meta instant

definition for_owner :: "uuid \<Rightarrow> (int \<Rightarrow> db \<Rightarrow> pyerr + 'a \<times> db) \<Rightarrow> db \<Rightarrow> pyerr + bool \<times> db" where
  "for_owner oid f s =
     (case get_order s oid of
        None \<Rightarrow> Inl (LookupError ''order_not_found'')
      | Some ord \<Rightarrow> and_then (f (o_user_id ord) s) (\<lambda>_ s. Inr (True, s)))"

fun ledger_exec :: "ledger_op \<Rightarrow> db \<Rightarrow> pyerr + bool \<times> db" where
  "ledger_exec (Order_Debit oid rub md now) s =
     for_owner oid (\<lambda>uid. create_order_debit uid rub oid md now) s"
| "ledger_exec (Order_Credit oid rub md now) s =
     for_owner oid (\<lambda>uid. create_order_credit uid rub oid md now) s"
| "ledger_exec (Order_Refund oid rub rid md now) s =
     for_owner oid (\<lambda>uid. create_order_refund_debit uid rub oid rid md now) s"
| "ledger_exec (Admin_Adjustment uid signed key md now) s =
     and_then (create_admin_adjustment uid signed key md now s) (\<lambda>_ s. Inr (True, s))"

lemma for_owner_Inr:
  "for_owner oid f s = Inr (b, t) \<longleftrightarrow>
     b \<and> (\<exists>uid x. order_owner s oid = Some uid \<and> f uid s = Inr (x, t))"
  by (auto simp: for_owner_def order_owner_def and_then_eq_Inr split: option.split)

lemma ledger_exec_inv:
  assumes "ledger_inv s" and "ledger_exec op s = Inr (b, t)"
  shows "ledger_inv t"
proof (cases op)
  case (Order_Debit oid rub md now)
  then obtain uid r c where "order_owner s oid = Some uid"
    "create_order_debit uid rub oid md now s = Inr ((r, c), t)"
    using assms(2) by (auto simp: for_owner_Inr)
  then show ?thesis
    by (rule order_debit_inv [OF assms(1)])
next
  case (Order_Credit oid rub md now)
  then obtain uid r c where "order_owner s oid = Some uid"
    "create_order_credit uid rub oid md now s = Inr ((r, c), t)"
    using assms(2) by (auto simp: for_owner_Inr)
  then show ?thesis
    by (rule order_credit_inv [OF assms(1)])
next
  case (Order_Refund oid rub rid md now)
  then obtain uid r c where "order_owner s oid = Some uid"
    "create_order_refund_debit uid rub oid rid md now s = Inr ((r, c), t)"
    using assms(2) by (auto simp: for_owner_Inr)
  then show ?thesis
    by (rule order_refund_debit_inv [OF assms(1)])
next
  case (Admin_Adjustment uid signed key md now)
  then obtain r c where "create_admin_adjustment uid signed key md now s = Inr ((r, c), t)"
    using assms(2) by (auto simp: and_then_eq_Inr)
  then show ?thesis
    by (rule admin_adjustment_inv [OF assms(1)])
qed

interpretation ledger_tx: transactional ledger_exec ledger_inv
  by unfold_locales (rule ledger_exec_inv)

definition empty_ledger :: "db \<Rightarrow> db" where
  "empty_ledger s = s\<lparr>entries := [], allocs := []\<rparr>"

lemma ledger_inv_empty: "ledger_inv (empty_ledger s)"
  by (simp add: empty_ledger_def ledger_inv_def entries_ok_def payers_ok_def allocs_ok_def lots_ok_def
      spends_ok_def spend_sum_def alloc_sum_def debits_ok_def debit_sum_def)

end
