(* ===== verification/Referral.thy ===== *)
theory Referral
  imports Ledger_Contract
begin

section \<open>services/referral\_bonus.py and the referral queries\<close>

text \<open>
  The referral programme: who counts as an active referral, the tier a count earns, the
  bonus a top-up earns the inviter, its reversal on a refund, and the leaderboard.  A
  top-up amount reaches the grant as an exact decimal (an order's \<open>amount_rub\<close>).
\<close>

definition MAX_INT32 :: int where "MAX_INT32 = 2147483647"
definition MAX_INT64 :: int where "MAX_INT64 = 9223372036854775807"
definition REFERRAL_BONUS_SOURCE :: string where "REFERRAL_BONUS_SOURCE = ''referral_bonus''"

subsection \<open>Tiers\<close>

record tier_info =
  rate :: rat
  tier_name :: string
  needed_for_next :: "int option"
  next_tier_name :: "string option"
  next_rate :: "rat option"

type_synonym tier = "int \<times> rat \<times> string"

text \<open>The loop over the sorted tiers: the last one reached and its successor.\<close>

fun tier_loop :: "int \<Rightarrow> tier \<Rightarrow> tier option \<Rightarrow> tier list \<Rightarrow> tier \<times> tier option" where
  "tier_loop count current next [] = (current, next)"
| "tier_loop count current next (t # ts) =
     (if fst t \<le> count then tier_loop count t (case ts of [] \<Rightarrow> None | n # _ \<Rightarrow> Some n) ts
      else (current, next))"

definition get_referral_tier :: "int \<Rightarrow> tier_info" where
  "get_referral_tier active_count =
     (let count = max 0 active_count;
          tiers = sort_key fst REFERRAL_TIERS;
          (current, next) = tier_loop count (hd tiers) None tiers in
      case next of
        Some (threshold, r, n) \<Rightarrow>
          \<lparr>rate = fst (snd current), tier_name = snd (snd current),
           needed_for_next = Some (threshold - count), next_tier_name = Some n, next_rate = Some r\<rparr>
      | None \<Rightarrow>
          \<lparr>rate = fst (snd current), tier_name = snd (snd current),
           needed_for_next = None, next_tier_name = None, next_rate = None\<rparr>)"

definition calculate_referral_bonus :: "decimal \<Rightarrow> rat option \<Rightarrow> money" where
  "calculate_referral_bonus purchase_amount r =
     (case purchase_amount of
        Finite x \<Rightarrow>
          if x \<le> 0 then 0
          else quantize_down (x * (case r of Some y \<Rightarrow> y | None \<Rightarrow> REFERRAL_DEFAULT_RATE))
      | _ \<Rightarrow> 0)"

subsection \<open>Qualifying activity\<close>

text \<open>A paid order that counts: a top-up, or a purchase not paid from the wallet.\<close>

definition real_money_order :: "order \<Rightarrow> bool" where
  "real_money_order ord \<longleftrightarrow> service_type ord = TOPUP \<or> payment_method ord \<noteq> ''wallet''"

definition qualifying_order :: "int \<Rightarrow> order \<Rightarrow> bool" where
  "qualifying_order uid ord \<longleftrightarrow>
     o_user_id ord = uid \<and> o_status ord = Order_PAID
   \<and> REFERRAL_ACTIVE_MIN_TOPUP_RUB \<le> amount_rub ord \<and> real_money_order ord"

definition qualifying_payment :: "int \<Rightarrow> payment \<Rightarrow> bool" where
  "qualifying_payment uid p \<longleftrightarrow>
     p_user_id p = uid \<and> provider_status p = Prov_SUCCEEDED
   \<and> fulfillment_status p = Ful_SUCCEEDED \<and> credited_at p \<noteq> None
   \<and> REFERRAL_ACTIVE_MIN_TOPUP_RUB \<le> p_amount p"

definition referral_paid_activity :: "db \<Rightarrow> user \<Rightarrow> bool" where
  "referral_paid_activity s u \<longleftrightarrow>
     list_ex (qualifying_order (u_id u)) (orders s)
   \<or> list_ex (qualifying_payment (u_id u)) (payments s)"

definition get_user_referrals_count :: "int \<Rightarrow> db \<Rightarrow> nat" where
  "get_user_referrals_count tid s =
     (if tid < 1 \<or> MAX_INT64 < tid then 0
      else length (filter (\<lambda>u. referred_by u = Some tid \<and> \<not> is_deleted u) (users s)))"

text \<open>Newest first, by creation time and then by key.\<close>

definition get_user_referrals_paginated ::
  "int \<Rightarrow> int \<Rightarrow> int \<Rightarrow> db \<Rightarrow> user list \<times> nat \<times> int" where
  "get_user_referrals_paginated tid page per_page s =
     (if tid < 1 \<or> MAX_INT64 < tid then ([], 0, 1)
      else let count = get_user_referrals_count tid s in
        if count = 0 then ([], 0, 1)
        else
          let per_page = min (max 1 per_page) 100;
              total_pages = max 1 ((int count + per_page - 1) div per_page);
              page = max 1 (min page total_pages);
              offset = (page - 1) * per_page;
              rows = rev (sort_key (\<lambda>u. LotKey 0 (u_created_at u) (u_id u))
                       (filter (\<lambda>u. referred_by u = Some tid \<and> \<not> is_deleted u) (users s))) in
          (take (nat per_page) (drop (nat offset) rows), count, page))"

definition get_user_active_referrals_count :: "int \<Rightarrow> db \<Rightarrow> int" where
  "get_user_active_referrals_count tid s =
     (if tid < 1 \<or> MAX_INT64 < tid then 0
      else int (length (filter (\<lambda>u. referred_by u = Some tid \<and> \<not> is_deleted u
             \<and> referral_paid_activity s u) (users s))))"

text \<open>
  The grouped join of the leaderboard: each referrer that is not deleted with the number of
  its active referrals, where it has any.
\<close>

definition active_referral_groups :: "db \<Rightarrow> (int \<times> int) list" where
  "active_referral_groups s =
     filter (\<lambda>g. 0 < snd g)
       (map (\<lambda>r. (telegram_id r, int (length (filter (\<lambda>u. referred_by u = Some (telegram_id r)
            \<and> \<not> is_deleted u \<and> referral_paid_activity s u) (users s)))))
         (filter (\<lambda>r. \<not> is_deleted r) (users s)))"

definition get_referral_leaderboard :: "int \<Rightarrow> db \<Rightarrow> (int \<times> int) list" where
  "get_referral_leaderboard limit s =
     take (nat (max 1 (min limit 100)))
       (sort_key (\<lambda>g. LotKey 0 (- snd g) (fst g)) (active_referral_groups s))"

definition get_user_referral_rank :: "int \<Rightarrow> db \<Rightarrow> int option \<times> int" where
  "get_user_referral_rank tid s =
     (let active_count = get_user_active_referrals_count tid s in
      if active_count = 0 then (None, 0)
      else
        let higher_count = length (filter (\<lambda>(t, cnt). active_count < cnt
              \<or> (cnt = active_count \<and> t < tid)) (active_referral_groups s)) in
        (Some (int higher_count + 1), active_count))"

definition is_eligible_for_referral_first_discount :: "int \<Rightarrow> db \<Rightarrow> bool" where
  "is_eligible_for_referral_first_discount uid s =
     (case get_user s uid of
        None \<Rightarrow> False
      | Some u \<Rightarrow>
          referred_by u \<noteq> None \<and> referred_by u \<noteq> Some (telegram_id u)
        \<and> \<not> list_ex (\<lambda>ord. o_user_id ord = uid \<and> o_status ord = Order_PAID
              \<and> 0 < amount_rub ord \<and> service_type ord \<noteq> TOPUP) (orders s)
        \<and> \<not> list_ex (\<lambda>p. p_user_id p = uid \<and> credited_at p \<noteq> None
              \<and> fulfillment_status p = Ful_SUCCEEDED \<and> 0 < p_amount p) (payments s))"

definition has_successful_topup :: "int \<Rightarrow> db \<Rightarrow> bool" where
  "has_successful_topup uid s \<longleftrightarrow>
     list_ex (\<lambda>p. p_user_id p = uid \<and> credited_at p \<noteq> None) (payments s)
   \<or> list_ex (\<lambda>ord. o_user_id ord = uid
        \<and> (o_status ord = Order_PAID \<or> o_status ord = Order_REFUNDED \<or> paid_at ord \<noteq> None)
        \<and> real_money_order ord) (orders s)"

definition is_first_topup_eligible :: "int \<Rightarrow> db \<Rightarrow> bool" where
  "is_first_topup_eligible uid s =
     (case find (\<lambda>u. u_id u = uid \<and> \<not> is_deleted u) (users s) of
        None \<Rightarrow> False
      | Some u \<Rightarrow>
          if referred_by u = None then False
          else if referred_by u = Some (telegram_id u) then False
          else \<not> list_ex (\<lambda>p. p_user_id p = uid \<and> credited_at p \<noteq> None
                   \<and> fulfillment_status p = Ful_SUCCEEDED
                   \<and> REFERRAL_ACTIVE_MIN_TOPUP_RUB \<le> p_amount p) (payments s)
             \<and> \<not> list_ex (qualifying_order uid) (orders s))"

definition has_other_qualifying_topup :: "int \<Rightarrow> uuid option \<Rightarrow> int option \<Rightarrow> db \<Rightarrow> bool" where
  "has_other_qualifying_topup uid exclude_order exclude_payment s \<longleftrightarrow>
     list_ex (\<lambda>ord. qualifying_order uid ord \<and> exclude_order \<noteq> Some (o_id ord)) (orders s)
   \<or> list_ex (\<lambda>p. qualifying_payment uid p \<and> exclude_payment \<noteq> Some (p_id p)) (payments s)"

subsection \<open>The grant\<close>

record grant_result =
  referrer_bonus :: money
  purchaser_welcome_bonus :: money
  referrer_user_id :: "int option"
  referrer_telegram_id :: "int option"
  bonus_rate_pct :: int
  tier_upgraded :: bool
  new_tier_name :: "string option"
  new_rate_pct :: "int option"

definition no_grant :: grant_result where
  "no_grant = \<lparr>referrer_bonus = 0, purchaser_welcome_bonus = 0, referrer_user_id = None,
     referrer_telegram_id = None, bonus_rate_pct = 15, tier_upgraded = False,
     new_tier_name = None, new_rate_pct = None\<rparr>"

definition json_opt :: "('a \<Rightarrow> json) \<Rightarrow> 'a option \<Rightarrow> json" where
  "json_opt f x = (case x of None \<Rightarrow> JNull | Some y \<Rightarrow> f y)"

text \<open>
  \<open>session.add\<close> of an adjustment and its flush: a clash in a unique index raises.
\<close>

definition add_adjustment ::
  "int \<Rightarrow> money \<Rightarrow> string \<Rightarrow> meta \<Rightarrow> instant \<Rightarrow> db \<Rightarrow> pyerr + unit \<times> db" where
  "add_adjustment uid amt key md now s =
     (let v = entry_values uid ADMIN_ADJUSTMENT amt None key md in
      if \<not> entry_checks v \<or> list_ex (entry_conflict v) (entries s) then Inl IntegrityError
      else Inr ((), s\<lparr>entries := entries s @ [v\<lparr>e_id := entry_seq s + 1, e_created_at := now\<rparr>],
                      entry_seq := entry_seq s + 1\<rparr>))"

definition log_action ::
  "int \<Rightarrow> AdminAuditAction \<Rightarrow> string \<Rightarrow> int \<Rightarrow> meta \<Rightarrow> db \<Rightarrow> db" where
  "log_action admin act ty tid md s =
     s\<lparr>audit_logs := audit_logs s @
        [\<lparr>admin_id = admin, action = act, target_type = ty, target_id = tid, details = md\<rparr>]\<rparr>"

text \<open>\<open>order_id or str(payment_id or "unknown")\<close>.\<close>

definition topup_op_id :: "uuid option \<Rightarrow> int option \<Rightarrow> string" where
  "topup_op_id oid pid =
     (case oid of
        Some k \<Rightarrow> if k \<noteq> [] then k else (case pid of Some p \<Rightarrow> if p \<noteq> 0 then str_int p else ''unknown''
                                                | None \<Rightarrow> ''unknown'')
      | None \<Rightarrow> (case pid of Some p \<Rightarrow> if p \<noteq> 0 then str_int p else ''unknown'' | None \<Rightarrow> ''unknown''))"

definition bonus_key :: "string \<Rightarrow> int \<Rightarrow> string" where
  "bonus_key op_id rid = ''referral-bonus:topup:'' @ op_id @ '':'' @ str_int rid"

text \<open>The bonus once both parties are known: the tier before this activation sets the rate.\<close>

definition grant_to ::
  "user \<Rightarrow> user \<Rightarrow> int option \<Rightarrow> uuid option \<Rightarrow> money \<Rightarrow> instant \<Rightarrow> db \<Rightarrow> pyerr + grant_result \<times> db"
  where
  "grant_to purchaser referrer pid oid topup now s =
     (let active_count = get_user_active_referrals_count (telegram_id referrer) s;
          first_activation = (\<not> has_other_qualifying_topup (u_id purchaser) oid pid s);
          current_qualifies = (REFERRAL_ACTIVE_MIN_TOPUP_RUB \<le> topup);
          effective_count = (if first_activation \<and> current_qualifies
                             then max 0 (active_count - 1) else active_count);
          tier = get_referral_tier effective_count;
          bonus = calculate_referral_bonus (Finite topup) (Some (rate tier)) in
      if bonus \<le> 0 then Inr (no_grant, s)
      else
        let key = bonus_key (topup_op_id oid pid) (u_id referrer);
            new_tier = get_referral_tier active_count;
            upgraded = (first_activation \<and> current_qualifies \<and> rate tier < rate new_tier);
            result = (\<lambda>granted. \<lparr>referrer_bonus = granted, purchaser_welcome_bonus = 0,
               referrer_user_id = Some (u_id referrer),
               referrer_telegram_id = Some (telegram_id referrer),
               bonus_rate_pct = trunc_rat (rate tier * 100), tier_upgraded = upgraded,
               new_tier_name = (if upgraded then Some (tier_name new_tier) else None),
               new_rate_pct = (if upgraded then Some (trunc_rat (rate new_tier * 100)) else None)\<rparr>) in
        if list_ex (\<lambda>e. idempotency_key e = key) (entries s) then Inr (result 0, s)
        else and_then
          (add_adjustment (u_id referrer) bonus key
            [''source_type'' \<mapsto> JStr REFERRAL_BONUS_SOURCE,
             ''referrer_user_id'' \<mapsto> JInt (u_id referrer),
             ''referred_user_id'' \<mapsto> JInt (u_id purchaser),
             ''referred_telegram_id'' \<mapsto> JInt (telegram_id purchaser),
             ''topup_payment_id'' \<mapsto> json_opt JInt pid,
             ''topup_order_id'' \<mapsto> json_opt JStr oid,
             ''bonus_rate'' \<mapsto> JDec (rate tier),
             ''tier_name'' \<mapsto> JStr (tier_name tier),
             ''active_referrals_count'' \<mapsto> JInt effective_count] now s)
          (\<lambda>_ s. Inr (result bonus,
            log_action 0 REFERRAL_BONUS_GRANTED ''user'' (u_id referrer)
              [''amount'' \<mapsto> JInt (trunc_rat bonus),
               ''from_user_id'' \<mapsto> JInt (u_id purchaser),
               ''payment_id'' \<mapsto> json_opt JInt pid,
               ''order_id'' \<mapsto> json_opt JStr oid,
               ''bonus_rate'' \<mapsto> JDec (rate tier),
               ''tier_name'' \<mapsto> JStr (tier_name tier),
               ''active_referrals_count'' \<mapsto> JInt effective_count] s)))"

definition grant_referral_bonus_for_topup ::
  "int \<Rightarrow> int option \<Rightarrow> uuid option \<Rightarrow> money \<Rightarrow> instant \<Rightarrow> db \<Rightarrow> pyerr + grant_result \<times> db" where
  "grant_referral_bonus_for_topup uid pid oid topup now s =
     (case find (\<lambda>u. u_id u = uid \<and> \<not> is_deleted u) (users s) of
        None \<Rightarrow> Inr (no_grant, s)
      | Some purchaser \<Rightarrow>
          (case referred_by purchaser of
             None \<Rightarrow> Inr (no_grant, s)
           | Some inviter \<Rightarrow>
               if inviter = telegram_id purchaser then Inr (no_grant, s)
               else (case find (\<lambda>u. telegram_id u = inviter \<and> \<not> is_deleted u) (users s) of
                   None \<Rightarrow> Inr (no_grant, s)
                 | Some referrer \<Rightarrow>
                     if is_banned referrer then Inr (no_grant, s)
                     else if u_id purchaser = u_id referrer then Inr (no_grant, s)
                     else grant_to purchaser referrer pid oid topup now s)))"

subsection \<open>The reversal\<close>

definition is_topup_bonus :: "string \<Rightarrow> json \<Rightarrow> ledger_entry \<Rightarrow> bool" where
  "is_topup_bonus key v e \<longleftrightarrow>
     entry_type e = ADMIN_ADJUSTMENT \<and> 0 < amount e \<and> e_metadata e key = Some v
   \<and> e_metadata e ''source_type'' = Some (JStr REFERRAL_BONUS_SOURCE)"

definition already_reversed :: "db \<Rightarrow> ledger_entry \<Rightarrow> money" where
  "already_reversed s c = sum_list (map (\<lambda>r. \<bar>amount r\<bar>) (filter (\<lambda>r.
     e_user_id r = e_user_id c \<and> entry_type r = ADMIN_ADJUSTMENT \<and> amount r < 0
     \<and> e_metadata r ''original_credit_id'' = Some (JInt (e_id c))) (entries s)))"

text \<open>\<open>x or m.get(k)\<close> of a metadata value.\<close>

definition json_or_get :: "json option \<Rightarrow> meta \<Rightarrow> string \<Rightarrow> json" where
  "json_or_get x m k =
     (let fallback = (case m k of None \<Rightarrow> JNull | Some v \<Rightarrow> v) in
      case x of None \<Rightarrow> fallback | Some v \<Rightarrow> if truthy v then v else fallback)"

definition reversal_meta :: "int option \<Rightarrow> uuid option \<Rightarrow> string option \<Rightarrow> ledger_entry \<Rightarrow> meta" where
  "reversal_meta pid oid refund_id c =
     [''source_type'' \<mapsto> JStr REFERRAL_BONUS_SOURCE,
      ''reason'' \<mapsto> JStr ''topup_refund_reversal'',
      ''topup_payment_id'' \<mapsto>
         json_or_get (map_option JInt pid) (e_metadata c) ''topup_payment_id'',
      ''topup_order_id'' \<mapsto>
         json_or_get (map_option JStr oid) (e_metadata c) ''topup_order_id'',
      ''original_credit_id'' \<mapsto> JInt (e_id c),
      ''refund_id'' \<mapsto> json_opt JStr refund_id]"

fun reverse_credits ::
  "string \<Rightarrow> string \<Rightarrow> int option \<Rightarrow> uuid option \<Rightarrow> string option \<Rightarrow> instant \<Rightarrow> ledger_entry list
   \<Rightarrow> money \<Rightarrow> db \<Rightarrow> pyerr + money \<times> db" where
  "reverse_credits op_id suffix pid oid refund_id now [] tot s = Inr (tot, s)"
| "reverse_credits op_id suffix pid oid refund_id now (c # cs) tot s =
     (let key = ''referral-bonus-reversal:'' @ op_id @ '':'' @ str_int (e_user_id c) @ suffix in
      case find (\<lambda>e. e_user_id e = e_user_id c \<and> entry_type e = ADMIN_ADJUSTMENT
             \<and> amount e < 0 \<and> idempotency_key e = key) (entries s) of
        Some existing \<Rightarrow>
          reverse_credits op_id suffix pid oid refund_id now cs (tot + \<bar>amount existing\<bar>) s
      | None \<Rightarrow>
          let max_can_reverse = max 0 (amount c - already_reversed s c) in
          if max_can_reverse \<le> 0 then reverse_credits op_id suffix pid oid refund_id now cs tot s
          else and_then
            (add_adjustment (e_user_id c) (- \<bar>max_can_reverse\<bar>) key
               (reversal_meta pid oid refund_id c) now s)
            (\<lambda>_ s. reverse_credits op_id suffix pid oid refund_id now cs
                     (tot + \<bar>max_can_reverse\<bar>) s))"

definition reverse_referral_bonus_for_topup ::
  "int option \<Rightarrow> uuid option \<Rightarrow> string option \<Rightarrow> instant \<Rightarrow> db \<Rightarrow> pyerr + money \<times> db" where
  "reverse_referral_bonus_for_topup pid oid refund_id now s =
     (if pid = None \<and> oid = None then Inr (0, s)
      else
        let op_id = (case oid of Some k \<Rightarrow> k
                       | None \<Rightarrow> (case pid of Some p \<Rightarrow> str_int p | None \<Rightarrow> ''None''));
            credits = (case oid of
                Some k \<Rightarrow> filter (is_topup_bonus ''topup_order_id'' (JStr k)) (entries s)
              | None \<Rightarrow> filter (is_topup_bonus ''topup_payment_id'' (json_opt JInt pid)) (entries s));
            suffix = (case refund_id of Some r \<Rightarrow> if r \<noteq> [] then '':'' @ r else [] | None \<Rightarrow> []) in
        reverse_credits op_id suffix pid oid refund_id now credits 0 s)"

definition get_referral_bonus_balance :: "int \<Rightarrow> db \<Rightarrow> money" where
  "get_referral_bonus_balance uid s =
     (let net_referral = sum_list (map amount (filter (\<lambda>e. e_user_id e = uid
            \<and> entry_type e = ADMIN_ADJUSTMENT
            \<and> e_metadata e ''source_type'' = Some (JStr REFERRAL_BONUS_SOURCE)) (entries s)));
          balance = balance_snapshot s uid;
          remaining = max 0 net_referral;
          remaining = (if 0 < debt balance then max 0 (remaining - debt balance) else remaining) in
      min remaining (bonus_available balance))"

end
