(* ===== verification/Ledger_Buckets.thy ===== *)
theory Ledger_Buckets
  imports Ledger_Contract
begin

section \<open>The balance buckets stay exact\<close>

text \<open>
  A wallet has a bonus part and a real part.  A covered spend takes the bonus first: after it
  the bonus part is what the spend left of it.
\<close>

definition bonus_lots :: "db \<Rightarrow> int \<Rightarrow> ledger_entry list" where
  "bonus_lots s i = filter (\<lambda>c. entry_type c = ADMIN_ADJUSTMENT) (credit_lots s i)"

definition paid_lots :: "db \<Rightarrow> int \<Rightarrow> ledger_entry list" where
  "paid_lots s i = filter (\<lambda>c. entry_type c \<noteq> ADMIN_ADJUSTMENT) (credit_lots s i)"

lemma sorted_by_rank_split:
  assumes "sorted (map k xs)" and "\<And>x y. P y \<Longrightarrow> \<not> P x \<Longrightarrow> \<not> k x \<le> k y"
  shows "xs = filter P xs @ filter (\<lambda>x. \<not> P x) xs"
  using assms(1)
proof (induction xs)
  case (Cons x xs)
  show ?case
  proof (cases "P x")
    case False
    have "\<not> P y" if "y \<in> set xs" for y
      using Cons.prems that False assms(2) [of y x] by auto
    then have "filter P xs = []" and "filter (\<lambda>x. \<not> P x) xs = xs"
      by (auto simp: filter_empty_conv filter_id_conv)
    then show ?thesis
      using False by simp
  qed (use Cons in simp)
qed simp

lemma credit_lots_split: "credit_lots s i = bonus_lots s i @ paid_lots s i"
  unfolding bonus_lots_def paid_lots_def
  by (rule sorted_by_rank_split [where k = lot_key_of])
    (auto simp: credit_lots_def lot_key_of_def less_eq_lot_key_def)

lemma bonus_lot_not_external:
  assumes "entries_ok s" and "c \<in> set (bonus_lots s i)"
  shows "ext_debit s c = 0"
proof -
  have c: "c \<in> set (entries s)" "entry_type c = ADMIN_ADJUSTMENT"
    using assms(2) by (auto simp: bonus_lots_def set_credit_lots)
  have "order_id c = None" and "payment_id c = None"
    using entries_okD(1,3) [OF assms(1) c(1)] c(2)
    by (auto simp: entry_checks_def ck_account_ledger_entry_shape_def)
  then show ?thesis
    by (simp add: ext_debit_def)
qed

lemma bonus_capacity_nonneg:
  assumes "ledger_inv s" and "c \<in> set (bonus_lots s i)"
  shows "0 \<le> credit_capacity s c"
  using assms bonus_lot_not_external [of s c i]
  by (auto simp: ledger_inv_def lots_ok_def bonus_lots_def set_credit_lots credit_capacity_def)

lemma bonus_credited_lots: "bonus_credited s i = sum_list (map amount (bonus_lots s i))"
proof -
  have "bonus_lots s i = sort_key lot_key_of (filter (\<lambda>e. e_user_id e = i
      \<and> entry_type e = ADMIN_ADJUSTMENT \<and> 0 < amount e) (entries s))"
    unfolding bonus_lots_def credit_lots_def filter_sort
    by (auto simp: is_lot_def intro!: arg_cong [where f = "sort_key lot_key_of"] filter_cong)
  then show ?thesis
    by (simp add: bonus_credited_def sum_list_sort_key)
qed

lemma sum_list_attribution_eq:
  fixes f :: "'y \<Rightarrow> 'b :: linordered_idom"
  assumes "distinct xs" and "\<And>y x x'. y \<in> set ys \<Longrightarrow> x \<in> set xs \<Longrightarrow> x' \<in> set xs \<Longrightarrow>
      R x y \<Longrightarrow> R x' y \<Longrightarrow> x = x'"
  shows "sum_list (map (\<lambda>x. sum_list (map f (filter (R x) ys))) xs) =
    sum_list (map f (filter (\<lambda>y. \<exists>x\<in>set xs. R x y) ys))"
  using assms(2)
proof (induction ys)
  case (Cons y ys)
  have one: "sum_list (map (\<lambda>x. if R x y then f y else 0) xs) =
      (if \<exists>x\<in>set xs. R x y then f y else 0)"
  proof (cases "\<exists>x\<in>set xs. R x y")
    case True
    then obtain x where x: "x \<in> set xs" "R x y"
      by blast
    then have "filter (\<lambda>x. R x y) xs = filter (\<lambda>z. z = x) xs"
      using Cons.prems by (intro filter_cong) auto
    moreover have "length (filter (\<lambda>z. z = x) xs) = 1"
      using assms(1) x(1) by (induction xs) (auto simp: filter_empty_conv)
    ultimately show ?thesis
      using True by (simp add: sum_list_if_const)
  next
    case False
    then show ?thesis
      by (auto simp: sum_list_if_const filter_empty_conv)
  qed
  have "sum_list (map (\<lambda>x. sum_list (map f (filter (R x) (y # ys)))) xs) =
      sum_list (map (\<lambda>x. (if R x y then f y else 0) + sum_list (map f (filter (R x) ys))) xs)"
    by (intro arg_cong [where f = sum_list] map_cong) auto
  also have "\<dots> = (if \<exists>x\<in>set xs. R x y then f y else 0)
      + sum_list (map f (filter (\<lambda>y. \<exists>x\<in>set xs. R x y) ys))"
  proof -
    have "sum_list (map (\<lambda>x. sum_list (map f (filter (R x) ys))) xs) =
        sum_list (map f (filter (\<lambda>y. \<exists>x\<in>set xs. R x y) ys))"
      by (rule Cons.IH) (rule Cons.prems, auto)
    then show ?thesis
      by (simp add: sum_list_addf one)
  qed
  finally show ?case by simp
qed simp

lemma bonus_spent_lots:
  assumes "entries_ok s" and "allocs_ok s"
  shows "bonus_spent s i = sum_list (map (\<lambda>c. used_by_credit s (e_id c)) (bonus_lots s i))"
proof -
  have dist: "distinct (bonus_lots s i)"
    using distinct_credit_lots [OF assms(1), of i] by (simp add: bonus_lots_def distinct_map)
  have "sum_list (map (\<lambda>c. used_by_credit s (e_id c)) (bonus_lots s i)) =
      sum_list (map a_amount
        (filter (\<lambda>a. \<exists>c\<in>set (bonus_lots s i). credit_entry_id a = e_id c) (allocs s)))"
    unfolding used_by_credit_def
    by (rule sum_list_attribution_eq [OF dist])
      (auto simp: bonus_lots_def set_credit_lots intro: same_entry_id [OF assms(1)])
  moreover have "(\<exists>c\<in>set (bonus_lots s i). credit_entry_id a = e_id c) \<longleftrightarrow>
      a_user_id a = i \<and> (\<exists>e\<in>set (entries s). e_id e = credit_entry_id a
        \<and> entry_type e = ADMIN_ADJUSTMENT)" if a: "a \<in> set (allocs s)" for a
  proof -
    obtain c where c: "c \<in> set (entries s)" "is_lot c" "e_id c = credit_entry_id a"
      "e_user_id c = a_user_id a"
      using assms(2) a by (auto simp: allocs_ok_def)
    have d: "d = c" if "d \<in> set (entries s)" "credit_entry_id a = e_id d" for d
      using same_entry_id [OF assms(1) that(1) c(1)] that(2) c(3) by simp
    have "(\<exists>d\<in>set (bonus_lots s i). credit_entry_id a = e_id d) \<longleftrightarrow> c \<in> set (bonus_lots s i)"
    proof -
      have "set (bonus_lots s i) \<subseteq> set (entries s)"
        by (auto simp: bonus_lots_def set_credit_lots)
      then show ?thesis
        using d c(3) by (metis subsetD)
    qed
    moreover have "(\<exists>e\<in>set (entries s). e_id e = credit_entry_id a
        \<and> entry_type e = ADMIN_ADJUSTMENT) \<longleftrightarrow> entry_type c = ADMIN_ADJUSTMENT"
      using d c(1,3) by metis
    ultimately show ?thesis
      using c by (simp add: bonus_lots_def set_credit_lots)
  qed
  ultimately show ?thesis
    by (simp add: bonus_spent_def cong: filter_cong)
qed

text \<open>The bonus left is the capacity of the bonus lots.\<close>

definition bonus_left :: "db \<Rightarrow> int \<Rightarrow> money" where
  "bonus_left s i = sum_list (map (credit_capacity s) (bonus_lots s i))"

lemma bonus_left_eq:
  assumes "ledger_inv s"
  shows "bonus_left s i = bonus_credited s i - bonus_spent s i" and "0 \<le> bonus_left s i"
proof -
  have ok: "entries_ok s" "allocs_ok s"
    using assms by (simp_all add: ledger_inv_def)
  have "bonus_left s i = sum_list (map (\<lambda>c. amount c - used_by_credit s (e_id c)) (bonus_lots s i))"
    unfolding bonus_left_def
    using bonus_lot_not_external [OF ok(1)]
    by (intro arg_cong [where f = sum_list] map_cong) (auto simp: credit_capacity_def)
  then show "bonus_left s i = bonus_credited s i - bonus_spent s i"
    by (simp add: sum_list_subtractf bonus_credited_lots bonus_spent_lots [OF ok])
  show "0 \<le> bonus_left s i"
    unfolding bonus_left_def using assms by (intro sum_list_nonneg_map bonus_capacity_nonneg)
qed

lemma bonus_available_eq:
  assumes "ledger_inv s"
  shows "bonus_available (balance_snapshot s i) = max 0 (min (position s i) (bonus_left s i))"
proof -
  have nn: "0 \<le> bonus_spent s i"
    unfolding bonus_spent_def using assms
    by (intro sum_list_nonneg_map) (auto simp: ledger_inv_def allocs_ok_def less_imp_le
        ck_account_allocations_whole_positive_amount_def)
  show ?thesis
    using bonus_left_eq [OF assms, of i] nn
    by (auto simp: balance_snapshot_def Let_def)
qed

text \<open>What the loop takes from an initial segment of the lots.\<close>

lemma fifo_chunks_prefix:
  assumes "0 \<le> r" and "distinct (map (\<lambda>p. e_id (fst p)) (pre @ post))"
    and "\<And>p. p \<in> set pre \<Longrightarrow> Q (fst p)" and "\<And>p. p \<in> set post \<Longrightarrow> \<not> Q (fst p)"
  shows "sum_list (map snd (filter (\<lambda>p. Q (fst p)) (fst (fifo_chunks (pre @ post) r)))) =
    min r (sum_list (map (\<lambda>p. max 0 (snd p)) pre))"
  using assms
proof (induction pre arbitrary: r)
  case Nil
  have "\<not> Q (fst p)" if "p \<in> set (fst (fifo_chunks post r))" for p
    using fifo_chunks_bound [of "fst p" "snd p" post r] that Nil(4) by force
  then show ?case
    using Nil(1) by (simp add: filter_empty_conv min_def)
next
  case (Cons p pre)
  have nn: "0 \<le> sum_list (map (\<lambda>p. max 0 (snd p)) pre)"
    by (rule sum_list_nonneg_map) simp
  obtain c cap where p: "p = (c, cap)"
    by (cases p)
  have "Q c"
    using Cons.prems(3) [of p] p by simp
  consider "r = 0 \<or> cap \<le> 0" | "0 < r" "0 < cap" "r \<le> cap" | "0 < cap" "cap < r"
    using Cons.prems(1) by linarith
  then show ?case
    using Cons.IH [of r] Cons.IH [of "r - cap"] Cons.prems nn p \<open>Q c\<close>
    by cases (auto simp: fifo_simps fifo_chunks_nothing min_def max_def)
qed

end
