(* ===== verification/Samples.thy ===== *)
theory Samples
  imports Models
begin

section \<open>Concrete rows\<close>

text \<open>
  A small database on which the hypotheses of the theorems are evaluated: one server, one
  tariff and two users, of whom user 2 was invited by user 1.
\<close>

definition empty_db :: db where
  "empty_db = \<lparr>users = [], tariffs = [], orders = [], payments = [], entries = [], allocs = [],
     wi_subs = [], vless_subs = [], servers = [], orphans = [], audit_logs = [], tasks = [],
     entry_seq = 0, alloc_seq = 0, user_seq = 0, tariff_seq = 0, wi_seq = 0, orphan_seq = 0,
     server_seq = 0\<rparr>"

definition sample_user :: "int \<Rightarrow> int option \<Rightarrow> user" where
  "sample_user i inviter =
     \<lparr>u_id = i, telegram_id = 1000 + i, username = None, first_name = None,
      subscription_end = None, last_trial_reset_at = None, u_device_limit = 0,
      current_tariff_id = None, referred_by = inviter, last_payment_at = None,
      is_banned = False, is_bot_blocked = False, is_deleted = False, deleted_at = None,
      financial_hold = False, topup_blocked = False, financial_block_reason = None,
      notification_retry_count = 0, last_notification_attempt = None, u_created_at = 0,
      u_notified_3d = False, u_notified_1d = False, u_notified_2h = False,
      u_notified_expired = False, u_notified_grace_12h = False, device_creations_today = 0,
      last_creation_date = None, total_traffic_bytes = 0, total_wi_traffic_bytes = 0,
      monthly_vless_bytes = 0, monthly_wi_bytes = 0, traffic_cycle = None,
      archived_device_traffic = Map.empty, show_in_leaderboard = True\<rparr>"

definition sample_tariff :: tariff where
  "sample_tariff = \<lparr>t_id = 1, t_name = ''Month'', t_description = None, t_service_type = STANDARD,
     t_duration_days = 30, t_device_limit = 3, price_rub = 300, t_is_active = True,
     sort_order = 0, t_created_at = 0\<rparr>"

definition sample_order :: "uuid \<Rightarrow> int \<Rightarrow> OrderServiceType \<Rightarrow> money \<Rightarrow> OrderStatus \<Rightarrow> order" where
  "sample_order i uid ty rub st =
     \<lparr>o_id = i, o_user_id = uid, service_type = ty, tariff_id = None, amount_rub = rub,
      duration_days = 0, traffic_bytes = 0, o_device_limit = None,
      payment_method = ''yookassa'', external_id = Some (''ext-'' @ i), payment_url = None,
      o_status = st, o_description = None, o_metadata = Map.empty, o_created_at = 0,
      paid_at = None, refunded_at = None, o_expires_at = None\<rparr>"

definition sample_db :: db where
  "sample_db = empty_db\<lparr>users := [sample_user 1 None, sample_user 2 (Some 1001)], user_seq := 2,
     tariffs := [sample_tariff], tariff_seq := 1,
     orders := [sample_order ''topup-1'' 1 TOPUP 1000 Order_PENDING,
                sample_order ''vpn-1'' 1 STANDARD 300 Order_PENDING,
                sample_order ''topup-2'' 2 TOPUP 1000 Order_PENDING]\<rparr>"

end
