(* ===== verification/Ledger_Theorems.thy ===== *)
theory Ledger_Theorems
  imports Ledger_Buckets Samples
begin

section \<open>The theorems of the ledger\<close>

text \<open>
  The properties of \<open>account_ledger_repo.py\<close> over the mutators: soundness of every run,
  solvency, exact debits, exact buckets, idempotency and the refund cap.
\<close>

subsection \<open>Effects of a spend\<close>

lemma position_with [simp]:
  "position (appended e s) i = position s i + (if e_user_id e = i then amount e else 0)"
  by (simp add: position_def)

lemma mk_allocs_filter:
  assumes "\<And>p. p \<in> set xs \<Longrightarrow> P (e_id (fst p)) \<longleftrightarrow> Q (fst p)"
  shows "sum_list (map a_amount (filter (\<lambda>a. a_user_id a = uid \<and> P (credit_entry_id a))
      (mk_allocs uid did now n xs))) = sum_list (map snd (filter (\<lambda>p. Q (fst p)) xs))"
  using assms
proof (induction xs arbitrary: n)
  case (Cons p xs)
  have "P (e_id (fst p)) \<longleftrightarrow> Q (fst p)"
    using Cons.prems [of p] by simp
  moreover have "sum_list (map a_amount (filter (\<lambda>a. a_user_id a = uid \<and> P (credit_entry_id a))
      (mk_allocs uid did now (n + 1) xs))) = sum_list (map snd (filter (\<lambda>p. Q (fst p)) xs))"
    using Cons.prems by (intro Cons.IH) simp
  ultimately show ?case
    by (cases p) simp
qed simp

lemma bonus_spent_after:
  assumes inv: "ledger_inv s" and x: "0 \<le> x"
    and e: "\<not> is_lot e" "\<not> is_refund e" "entry_type e \<noteq> ADMIN_ADJUSTMENT"
    and run: "allocate_fifo uid d x now (appended e s) = Inr (al, t)"
  shows "bonus_spent t uid = bonus_spent s uid + min x (bonus_left s uid)"
proof -
  have ok: "entries_ok s"
    using inv by (simp add: ledger_inv_def)
  have pairs: "fifo_pairs (appended e s) uid = fifo_pairs s uid"
    using e by (simp add: fifo_pairs_appended)
  let ?xs = "fst (fifo_chunks (fifo_pairs s uid) x)"
  let ?P = "\<lambda>cid. \<exists>y\<in>set (entries s). e_id y = cid \<and> entry_type y = ADMIN_ADJUSTMENT"
  have t: "t = with_allocs al (appended e s)"
    and al: "al = mk_allocs uid (e_id d) now (alloc_seq (appended e s) + 1) ?xs"
    using allocate_fifo_Inr [OF run] by (simp_all add: pairs)
  have "bonus_spent t uid = bonus_spent s uid
      + sum_list (map a_amount (filter (\<lambda>a. a_user_id a = uid \<and> ?P (credit_entry_id a)) al))"
    using e(3) by (simp add: bonus_spent_def t)
  also have "sum_list (map a_amount (filter (\<lambda>a. a_user_id a = uid \<and> ?P (credit_entry_id a)) al)) =
      sum_list (map snd (filter (\<lambda>p. entry_type (fst p) = ADMIN_ADJUSTMENT) ?xs))"
    unfolding al
  proof (rule mk_allocs_filter)
    fix p
    assume "p \<in> set ?xs"
    then obtain cap where "(fst p, cap) \<in> set (fifo_pairs s uid)"
      using fifo_chunks_bound [of "fst p" "snd p"] by auto
    then have "fst p \<in> set (entries s)"
      by (auto simp: fifo_pairs_def set_credit_lots)
    then show "?P (e_id (fst p)) \<longleftrightarrow> entry_type (fst p) = ADMIN_ADJUSTMENT"
      using same_entry_id [OF ok] by blast
  qed
  also have "\<dots> = min x (bonus_left s uid)"
  proof -
    let ?f = "\<lambda>c. (c, credit_capacity s c)"
    have split: "fifo_pairs s uid = map ?f (bonus_lots s uid) @ map ?f (paid_lots s uid)"
      by (subst map_append [symmetric]) (simp add: fifo_pairs_def credit_lots_split)
    have dist: "distinct (map (\<lambda>p. e_id (fst p)) (map ?f (bonus_lots s uid) @ map ?f (paid_lots s uid)))"
      using distinct_credit_lots [OF ok, of uid]
      by (simp only: split [symmetric]) (simp add: fifo_pairs_def comp_def)
    have "map (\<lambda>p. max 0 (snd p)) (map ?f (bonus_lots s uid))
        = map (credit_capacity s) (bonus_lots s uid)"
      using bonus_capacity_nonneg [OF inv] by (simp add: max_absorb2)
    then have left: "sum_list (map (\<lambda>p. max 0 (snd p)) (map ?f (bonus_lots s uid)))
        = bonus_left s uid"
      by (simp only: bonus_left_def)
    have "sum_list (map snd (filter (\<lambda>p. entry_type (fst p) = ADMIN_ADJUSTMENT)
        (fst (fifo_chunks (map ?f (bonus_lots s uid) @ map ?f (paid_lots s uid)) x))))
        = min x (sum_list (map (\<lambda>p. max 0 (snd p)) (map ?f (bonus_lots s uid))))"
      by (rule fifo_chunks_prefix [OF x dist]) (auto simp: bonus_lots_def paid_lots_def)
    then show ?thesis
      by (simp only: split left)
  qed
  finally show ?thesis .
qed

lemma covered_debit:
  assumes inv: "ledger_inv s" and known: "get_user s uid \<noteq> None"
    and x: "0 < x" "is_whole x" "x \<le> position s uid"
    and fresh: "\<forall>e\<in>set (entries s). order_id e = Some oid \<longrightarrow> entry_type e \<noteq> PURCHASE_DEBIT"
    and key: "\<forall>e\<in>set (entries s). idempotency_key e \<noteq> ''order_debit:'' @ oid"
  shows "\<exists>t. create_order_debit uid (rubles x) oid md now s =
    Inr ((Some (debit_entry uid x oid md now s), True), t)"
proof -
  let ?v = "entry_values uid PURCHASE_DEBIT (- x) (Some oid) (''order_debit:'' @ oid) md"
  let ?e = "debit_entry uid x oid md now s"
  obtain u where user: "get_user s uid = Some u"
    using known by blast
  have uid: "u_id u = uid"
    using user by (rule get_user_id)
  have "\<not> entry_conflict ?v e" if "e \<in> set (entries s)" for e
    using fresh key that by (auto simp: entry_conflict_def)
  then have ins: "insert_or_get_entry ?v (\<lambda>e. entry_type e = PURCHASE_DEBIT \<and> order_id e = Some oid) now s
      = Inr ((?e, True), appended ?e s)"
    using x order_debit_owner_checks [of uid x oid "''order_debit:'' @ oid" md]
    by (simp add: insert_or_get_entry_def Let_def debit_entry_def appended_def)
  have "snd (fifo_chunks (fifo_pairs (appended ?e s) uid) x) = 0"
    using covered_fifo [OF inv, of x uid] x by (simp add: fifo_pairs_appended)
  from allocate_fifo_ok [OF this] obtain al t
    where "allocate_fifo uid ?e x now (appended ?e s) = Inr (al, t)"
    by blast
  moreover have "find (\<lambda>e. entry_type e = PURCHASE_DEBIT \<and> order_id e = Some oid) (entries s) = None"
    using fresh by (auto simp: find_None_iff)
  ultimately show ?thesis
    using x user ins uid
    by (simp add: create_order_debit_def whole_rubles_rubles lock_account_user_def Let_def
        get_account_balance_def available_eq)
qed

subsection \<open>Properties\<close>

text \<open>
  A wallet of user 1: a top-up of 1000 credited, then a bonus of 50.
\<close>

definition funded_ops :: "ledger_op list" where
  "funded_ops = [Order_Credit ''topup-1'' (rubles 1000) Map.empty 5,
                 Admin_Adjustment 1 (rubles 50) ''gift'' Map.empty 6]"

definition funded_db :: db where
  "funded_db = run_requests ledger_exec funded_ops (empty_ledger sample_db)"

lemma funded_inv: "ledger_inv funded_db"
  unfolding funded_db_def by (rule ledger_tx.run_inv [OF ledger_inv_empty])

text \<open>Ledger soundness: from an empty ledger, after any sequence of debits, credits,
  refunds and admin adjustments, each committed or rolled back, every row satisfies its check
  constraints and belongs to the owner of its order, no two rows clash in a unique index, every
  attribution links a debit to a credit lot of the same user, no lot is attributed beyond its
  amount and no user has more attributed than spent.\<close>

theorem ledger_runs_sound: "ledger_inv (run_requests ledger_exec ops (empty_ledger s))"
  by (rule ledger_tx.run_inv [OF ledger_inv_empty])

text \<open>C4. Solvency: on a ledger any sequence of requests has produced, a first debit of an order
  for a whole positive amount within the balance always succeeds: the FIFO attribution never
  runs out of credit lots.\<close>

theorem covered_debit_succeeds:
  assumes "s = run_requests ledger_exec ops (empty_ledger s0)" and "get_user s uid \<noteq> None"
    and "0 < x" and "is_whole x" and "x \<le> position s uid"
    and "\<forall>e\<in>set (entries s). order_id e = Some oid \<longrightarrow> entry_type e \<noteq> PURCHASE_DEBIT"
    and "\<forall>e\<in>set (entries s). idempotency_key e \<noteq> ''order_debit:'' @ oid"
  shows "\<exists>e t. create_order_debit uid (rubles x) oid md now s = Inr ((Some e, True), t)"
proof -
  have "ledger_inv s"
    unfolding assms(1) by (rule ledger_tx.run_inv [OF ledger_inv_empty])
  from covered_debit [OF this assms(2-7)] show ?thesis
    by blast
qed

theorem covered_debit_succeeds_witness:
  "\<exists>e t. create_order_debit 1 (rubles 1050) ''vpn-1'' Map.empty 7 funded_db = Inr ((Some e, True), t)"
  by (rule covered_debit_succeeds [OF funded_db_def]) code_simp+

text \<open>C5. Exact debits: a debit that was booked lowers the payer's balance by exactly its amount
  and never below zero, moves nobody else's balance, and is attributed in full to credit lots
  of the payer, each part within what its lot has left.\<close>

theorem order_debit_exact:
  assumes "create_order_debit uid (rubles x) oid md now s = Inr ((r, True), t)" and "ledger_inv s"
  shows "0 < x \<and> position t uid = position s uid - x \<and> 0 \<le> position t uid
    \<and> (\<forall>j. j = uid \<or> position t j = position s j)
    \<and> (\<exists>e al. r = Some e \<and> allocs t = allocs s @ al \<and> sum_list (map a_amount al) = x
         \<and> list_all (\<lambda>a. debit_entry_id a = e_id e
              \<and> (\<exists>c\<in>set (credit_lots s uid). credit_entry_id a = e_id c
                   \<and> 0 < a_amount a \<and> a_amount a \<le> credit_capacity s c)) al)"
  using assms(1)
proof (cases rule: create_order_debitE)
  case (spent x' u al)
  let ?e = "debit_entry uid x oid md now s"
  have [simp]: "x' = x"
    using spent by simp
  have run: "allocate_fifo uid ?e x now (appended ?e s) = Inr (al, t)"
    using spent(9) by simp
  have "t = with_allocs al (appended ?e s)"
    using allocate_fifo_Inr [OF run] by simp
  moreover have "sum_list (map a_amount al) = x"
    using spent by (intro allocate_fifo_sum [OF run]) simp
  moreover have "\<exists>c\<in>set (credit_lots s uid). credit_entry_id a = e_id c \<and> 0 < a_amount a
      \<and> a_amount a \<le> credit_capacity s c" if a: "a \<in> set al" for a
    using allocate_fifo_row [OF run a]
    by (metis credit_capacity_appended credit_lots_appended_debit debit_entry_sel(7,8))
  moreover have "debit_entry_id a = e_id ?e" if a: "a \<in> set al" for a
    using allocate_fifo_row [OF run a] by blast
  ultimately show ?thesis
    using spent by (simp add: list_all_iff)
qed simp

lemma funded_facts:
  "get_user funded_db 1 \<noteq> None" "position funded_db 1 = 1050" "position funded_db 2 = 0"
  "bonus_available (balance_snapshot funded_db 1) = 50"
  "list_all (\<lambda>e. order_id e \<noteq> Some ''vpn-1'') (entries funded_db)"
  "list_all (\<lambda>e. idempotency_key e \<noteq> ''order_debit:'' @ ''vpn-1'') (entries funded_db)"
  by code_simp+

text \<open>The debit the witnesses use: order \<open>vpn-1\<close> of 300 paid from the funded wallet.\<close>

lemma sample_debit:
  "\<exists>t. create_order_debit 1 (rubles 300) ''vpn-1'' Map.empty 7 funded_db =
     Inr ((Some (debit_entry 1 300 ''vpn-1'' Map.empty 7 funded_db), True), t)"
  using funded_facts
  by (intro covered_debit [OF funded_inv]) (auto simp: list_all_iff is_whole_iff intro: exI [of _ 300])

theorem order_debit_exact_witness:
  "\<exists>r t. create_order_debit 1 (rubles 300) ''vpn-1'' Map.empty 7 funded_db = Inr ((r, True), t)
     \<and> position t 1 = 750 \<and> position t 2 = 0"
proof -
  obtain r t where t: "create_order_debit 1 (rubles 300) ''vpn-1'' Map.empty 7 funded_db =
      Inr ((r, True), t)"
    using sample_debit by blast
  from order_debit_exact [OF this funded_inv]
  have "position t 1 = position funded_db 1 - 300"
    and "2 = (1 :: int) \<or> position t 2 = position funded_db 2"
    by blast+
  with t funded_facts show ?thesis
    by auto
qed

text \<open>Exact buckets: a booked debit takes the bonus money first; what is left of the bonus
  bucket is what it held less the debit, floored at zero.\<close>

theorem debit_takes_bonus_first:
  assumes "create_order_debit uid (rubles x) oid md now s = Inr ((r, True), t)" and "ledger_inv s"
  shows "bonus_available (balance_snapshot t uid) =
    max 0 (bonus_available (balance_snapshot s uid) - x)"
  using assms(1)
proof (cases rule: create_order_debitE)
  case (spent x' u al)
  let ?e = "debit_entry uid x oid md now s"
  have x: "0 < x" "x \<le> position s uid"
    and run: "allocate_fifo uid ?e x now (appended ?e s) = Inr (al, t)"
    and checks: "entry_checks ?e" "\<forall>y\<in>set (entries s). \<not> entry_conflict ?e y"
    using spent order_debit_owner_checks by (simp_all add: debit_entry_def)
  have t: "t = with_allocs al (appended ?e s)"
    using allocate_fifo_Inr [OF run] by simp
  have spent': "bonus_spent t uid = bonus_spent s uid + min x (bonus_left s uid)"
    using x by (intro bonus_spent_after [OF assms(2) _ _ _ _ run]) simp_all
  have credited: "bonus_credited t uid = bonus_credited s uid"
    by (simp add: t bonus_credited_def)
  have pos: "position t uid = position s uid - x"
    by (simp add: t)
  have nn: "0 \<le> bonus_spent s uid"
    unfolding bonus_spent_def using assms(2)
    by (intro sum_list_nonneg_map) (auto simp: ledger_inv_def allocs_ok_def less_imp_le
        ck_account_allocations_whole_positive_amount_def)
  show ?thesis
    using bonus_left_eq [OF assms(2), of uid] nn x
    by (auto simp: balance_snapshot_def Let_def spent' credited pos)
qed simp

theorem debit_takes_bonus_first_witness:
  "\<exists>r t. create_order_debit 1 (rubles 300) ''vpn-1'' Map.empty 7 funded_db = Inr ((r, True), t)
     \<and> bonus_available (balance_snapshot t 1) = 0"
proof -
  obtain r t where t: "create_order_debit 1 (rubles 300) ''vpn-1'' Map.empty 7 funded_db =
      Inr ((r, True), t)"
    using sample_debit by blast
  from debit_takes_bonus_first [OF this funded_inv] have "bonus_available (balance_snapshot t 1) = 0"
    by (simp add: funded_facts)
  with t show ?thesis by blast
qed

text \<open>A debit is idempotent per order: repeating a successful debit returns the booked entry,
  creates nothing and changes nothing, whatever the metadata and the time of the second call.\<close>

theorem order_debit_idempotent:
  assumes "create_order_debit uid rub oid md now s = Inr ((r, created), t)"
  shows "create_order_debit uid rub oid md' now' t = Inr ((r, False), t)"
proof (cases created)
  case False
  from assms have t: "t = s"
    by (rule create_order_debitE) (use False in simp_all)
  show ?thesis
    using assms False unfolding t create_order_debit_def
    by (auto simp: Let_def and_then_eq_Inr lock_account_user_Inr get_account_balance_def same_entry_def
        find_None_iff elim!: insert_or_get_entryE
        split: sum.split_asm if_split_asm option.split_asm)
next
  case True
  with assms obtain x u al where x: "rub = rubles x" "0 < x" "is_whole x" "get_user s uid = Some u"
    "r = Some (debit_entry uid x oid md now s)"
    "\<forall>e\<in>set (entries s). \<not> entry_conflict (debit_entry uid x oid md now s) e"
    "allocate_fifo uid (debit_entry uid x oid md now s) x now
       (appended (debit_entry uid x oid md now s) s) = Inr (al, t)"
    by (cases rule: create_order_debitE) auto
  let ?e = "debit_entry uid x oid md now s"
  have t: "t = with_allocs al (appended ?e s)"
    using allocate_fifo_Inr [OF x(7)] by simp
  have "find (\<lambda>e. entry_type e = PURCHASE_DEBIT \<and> order_id e = Some oid) (entries s) = None"
    using x(6) by (auto simp: find_None_iff entry_conflict_def)
  then have "find (\<lambda>e. entry_type e = PURCHASE_DEBIT \<and> order_id e = Some oid) (entries t) = Some ?e"
    by (simp add: t find_append)
  moreover have "get_user t uid = Some u" "u_id u = uid"
    using x(4) by (simp_all add: t get_user_def get_user_id [OF x(4)])
  ultimately show ?thesis
    using x by (simp add: create_order_debit_def whole_rubles_rubles lock_account_user_def)
qed

theorem order_debit_idempotent_witness:
  "\<exists>r t. create_order_debit 1 (rubles 300) ''vpn-1'' Map.empty 7 funded_db = Inr ((r, True), t)
     \<and> create_order_debit 1 (rubles 300) ''vpn-1'' Map.empty 9 t = Inr ((r, False), t)"
  using sample_debit order_debit_idempotent by blast

text \<open>A credit is idempotent per order, whatever the metadata and the time of the repeat.\<close>

theorem order_credit_idempotent:
  assumes "create_order_credit uid rub oid md now s = Inr ((e, created), t)"
  shows "create_order_credit uid rub oid md' now' t = Inr ((e, False), t)"
  using assms
proof (cases rule: create_order_creditE)
  case (unchanged x)
  obtain y where y: "whole_rubles rub False = Inr y"
    using assms by (auto simp: create_order_credit_def split: sum.split_asm)
  have "0 < x"
    using whole_rubles_Inr [OF y] unchanged(4) by auto
  then show ?thesis
    using assms unchanged
    by (auto simp: create_order_credit_def insert_or_get_entry_def Let_def same_entry_def
        entry_checks_def ck_account_ledger_whole_nonzero_amount_def
        ck_account_ledger_entry_shape_def entry_conflict_def
        split: sum.split_asm if_split_asm option.split_asm)
next
  case (credited x)
  let ?v = "entry_values uid PAYMENT_CREDIT x (Some oid) (''order_credit:'' @ oid) md'"
  have checks: "entry_checks ?v"
    using credited by (simp add: entry_checks_def ck_account_ledger_whole_nonzero_amount_def
        ck_account_ledger_entry_shape_def)
  have old: "\<not> (idempotency_key y = ''order_credit:'' @ oid
      \<or> entry_type y = PAYMENT_CREDIT \<and> order_id y = Some oid)" if "y \<in> set (entries s)" for y
    using credited(5,6) that by (auto simp: entry_conflict_def credit_entry_def)
  have none: "find (\<lambda>y. idempotency_key y = ''order_credit:'' @ oid
      \<or> entry_type y = PAYMENT_CREDIT \<and> order_id y = Some oid) (entries s) = None"
    using old by (auto simp: find_None_iff)
  have e: "idempotency_key e = ''order_credit:'' @ oid" "same_entry e ?v" "entry_conflict ?v e"
    using credited(5) by (simp_all add: credit_entry_def same_entry_def entry_conflict_def)
  have "insert_or_get_entry ?v (\<lambda>y. entry_type y = PAYMENT_CREDIT \<and> order_id y = Some oid) now' t =
      Inr ((e, False), t)"
    using checks none e credited(7) by (simp add: insert_or_get_entry_def find_append)
  then show ?thesis
    using credited by (simp add: create_order_credit_def whole_rubles_rubles)
qed

lemma sample_credit:
  "create_order_credit 1 (rubles 1000) ''topup-1'' Map.empty 5 sample_db =
     Inr ((credit_entry 1 1000 ''topup-1'' Map.empty 5 sample_db, True),
       appended (credit_entry 1 1000 ''topup-1'' Map.empty 5 sample_db) sample_db)"
proof -
  have "whole_rubles (rubles 1000) False = Inr 1000" "is_whole 1000"
    by code_simp+
  then show ?thesis
    by (simp add: create_order_credit_def insert_or_get_entry_def entry_checks_def
        ck_account_ledger_whole_nonzero_amount_def ck_account_ledger_entry_shape_def
        sample_db_def empty_db_def credit_entry_def appended_def Let_def)
qed

theorem order_credit_idempotent_witness:
  "\<exists>e t. create_order_credit 1 (rubles 1000) ''topup-1'' Map.empty 5 sample_db = Inr ((e, True), t)
     \<and> create_order_credit 1 (rubles 1000) ''topup-1'' Map.empty 8 t = Inr ((e, False), t)"
  using sample_credit order_credit_idempotent by blast

text \<open>The refund cap: whenever a refund debit of a credited order is accepted, the refunds and
  chargebacks of that order stay within what was credited for it.\<close>

theorem refund_within_credit:
  assumes "create_order_refund_debit uid rub oid rid md now s = Inr ((e, created), t)"
    and "0 < order_credit_total s oid"
  shows "\<bar>order_debited_total t oid\<bar> \<le> order_credit_total t oid"
  using assms(1)
proof (cases rule: create_order_refund_debitE)
  case unchanged
  then show ?thesis
    using assms(2) by simp
next
  case debited
  have "order_credit_total t oid = order_credit_total s oid"
    using debited by (simp add: order_credit_total_def)
  moreover have "order_debited_total t oid = order_debited_total s oid - quantize_half_up rub"
    using debited by (simp add: order_debited_total_def)
  ultimately show ?thesis
    using debited assms(2) by simp
qed

text \<open>C33. Replaying a refund is not idempotent once it no longer fits: the cap is tested before
  the stored entry is looked up, so the same \<open>refund_id\<close> sent again raises.\<close>

theorem refund_replay_raises:
  assumes "create_order_refund_debit uid rub oid rid md now s = Inr ((e, True), t)"
    and "0 < order_credit_total s oid"
    and "order_credit_total s oid < \<bar>order_debited_total t oid\<bar> + quantize_half_up rub"
  shows "create_order_refund_debit uid rub oid rid md' now' t =
    Inl (AccountLedgerInvariantError ''refund_debit_exceeds_credit'')"
  using assms(1)
proof (cases rule: create_order_refund_debitE)
  case debited
  have "py_strip rid \<noteq> []"
    using assms(1) by (auto simp: create_order_refund_debit_def)
  moreover have "order_credit_total t oid = order_credit_total s oid"
    using debited by (simp add: order_credit_total_def)
  ultimately show ?thesis
    using debited assms(2,3) by (simp add: create_order_refund_debit_def Let_def)
qed simp

definition credited_db :: db where
  "credited_db = appended (credit_entry 1 1000 ''topup-1'' Map.empty 5 sample_db) sample_db"

lemma credited_db_entries:
  "entries credited_db = [credit_entry 1 1000 ''topup-1'' Map.empty 5 sample_db]"
  "idempotency_key (credit_entry 1 1000 ''topup-1'' Map.empty 5 sample_db) = ''order_credit:topup-1''"
  by (simp_all add: credited_db_def sample_db_def empty_db_def credit_entry_def)

lemma sample_refund:
  "create_order_refund_debit 1 1000 ''topup-1'' ''r1'' Map.empty 6 credited_db =
     Inr ((refund_entry 1 1000 ''topup-1'' ''r1'' Map.empty 6 credited_db, True),
       appended (refund_entry 1 1000 ''topup-1'' ''r1'' Map.empty 6 credited_db) credited_db)"
proof -
  have "quantize_half_up 1000 = 1000" "is_whole 1000" "py_strip ''r1'' = ''r1''"
    "order_credit_total credited_db ''topup-1'' = 1000" "order_debited_total credited_db ''topup-1'' = 0"
    by code_simp+
  then show ?thesis
    by (simp add: create_order_refund_debit_def insert_or_get_entry_def entry_checks_def
        ck_account_ledger_whole_nonzero_amount_def ck_account_ledger_entry_shape_def
        credited_db_entries refund_entry_def entry_conflict_def appended_def Let_def)
qed

lemma refunded_facts:
  "0 < order_credit_total credited_db ''topup-1''"
  "order_credit_total credited_db ''topup-1'' <
     \<bar>order_debited_total (appended (refund_entry 1 1000 ''topup-1'' ''r1'' Map.empty 6 credited_db)
        credited_db) ''topup-1''\<bar> + quantize_half_up 1000"
  by code_simp+

theorem refund_within_credit_witness:
  "\<exists>e t. create_order_refund_debit 1 1000 ''topup-1'' ''r1'' Map.empty 6 credited_db = Inr ((e, True), t)
     \<and> \<bar>order_debited_total t ''topup-1''\<bar> \<le> order_credit_total t ''topup-1''"
  using sample_refund refund_within_credit [OF sample_refund refunded_facts(1)] by blast

theorem refund_replay_raises_witness:
  "\<exists>e t. create_order_refund_debit 1 1000 ''topup-1'' ''r1'' Map.empty 6 credited_db = Inr ((e, True), t)
     \<and> create_order_refund_debit 1 1000 ''topup-1'' ''r1'' Map.empty 6 t =
         Inl (AccountLedgerInvariantError ''refund_debit_exceeds_credit'')"
  using sample_refund refund_replay_raises [OF sample_refund refunded_facts] by blast

text \<open>The snapshot is consistent: bonus and real parts add up to what is available, no part is
  negative, and balance and debt are the two signs of the accounting position.\<close>

theorem balance_snapshot_consistent:
  "let b = balance_snapshot s i in
     bonus_available b + real_available b = available b \<and> 0 \<le> bonus_available b
     \<and> 0 \<le> real_available b \<and> available b - debt b = position s i
     \<and> (available b = 0 \<or> debt b = 0) \<and> 0 \<le> debt b
     \<and> accounting_position b = position s i"
  by (auto simp: balance_snapshot_def Let_def)

end
