(* ===== verification/Referral_Theorems.thy ===== *)
theory Referral_Theorems
  imports Referral Ledger_Theorems
begin

section \<open>The referral programme keeps its promises\<close>

text \<open>
  Tiers are monotone and their progress counter is exact; a grant moves exactly the bonus, at
  most once per top-up; reversals never exceed the credit they reverse.
\<close>

subsection \<open>Tiers\<close>

lemma get_referral_tier_cases:
  "get_referral_tier n =
    (if n < 3 then \<lparr>rate = 15/100, tier_name = ''Standard'', needed_for_next = Some (3 - max 0 n),
                    next_tier_name = Some ''Silver'', next_rate = Some (20/100)\<rparr>
     else if n < 7 then \<lparr>rate = 20/100, tier_name = ''Silver'', needed_for_next = Some (7 - n),
                    next_tier_name = Some ''Gold'', next_rate = Some (25/100)\<rparr>
     else if n < 15 then \<lparr>rate = 25/100, tier_name = ''Gold'', needed_for_next = Some (15 - n),
                    next_tier_name = Some ''Platinum'', next_rate = Some (30/100)\<rparr>
     else \<lparr>rate = 30/100, tier_name = ''Platinum'', needed_for_next = None,
           next_tier_name = None, next_rate = None\<rparr>)"
  by (auto simp: get_referral_tier_def REFERRAL_TIERS_def Let_def max_def)

lemma tier_rate_bounds: "15/100 \<le> rate (get_referral_tier n)" "rate (get_referral_tier n) \<le> 30/100"
  by (simp_all add: get_referral_tier_cases)

text \<open>The tier never falls as active referrals are added, its rate is between 15 and 30
  percent, and the progress counter is exact: with that many more referrals, and no fewer, the
  promised rate is reached.\<close>

theorem referral_tier_progress:
  assumes "m \<le> n"
  shows "rate (get_referral_tier m) \<le> rate (get_referral_tier n)
    \<and> 15/100 \<le> rate (get_referral_tier m) \<and> rate (get_referral_tier m) \<le> 30/100
    \<and> (case needed_for_next (get_referral_tier m) of
         None \<Rightarrow> rate (get_referral_tier n) = rate (get_referral_tier m)
       | Some k \<Rightarrow> 0 < k
           \<and> Some (rate (get_referral_tier (max 0 m + k))) = next_rate (get_referral_tier m)
           \<and> rate (get_referral_tier (max 0 m + k - 1)) = rate (get_referral_tier m))"
  using assms by (auto simp: get_referral_tier_cases max_def)

theorem referral_tier_progress_witness:
  "needed_for_next (get_referral_tier 2) = Some 1
   \<and> rate (get_referral_tier 2) \<le> rate (get_referral_tier 9)"
proof -
  have "needed_for_next (get_referral_tier 2) = Some 1"
    by (simp add: get_referral_tier_cases)
  then show ?thesis
    using referral_tier_progress [of 2 9] by simp
qed

subsection \<open>Adjustments added by the session\<close>

lemma add_adjustment_Inr:
  "add_adjustment uid amt key md now s = Inr (x, t) \<longleftrightarrow>
     t = appended (adjustment_entry uid amt key md now s) s
   \<and> entry_checks (adjustment_entry uid amt key md now s)
   \<and> list_all (\<lambda>e. \<not> entry_conflict (adjustment_entry uid amt key md now s) e) (entries s)"
  by (auto simp: add_adjustment_def Let_def appended_def adjustment_entry_def list_ex_iff
      list_all_iff split: if_split_asm)

lemma add_adjustment_inv:
  assumes "ledger_inv s" and "add_adjustment uid amt key md now s = Inr (x, t)"
  shows "ledger_inv t"
proof -
  have t: "t = appended (adjustment_entry uid amt key md now s) s"
    and ok: "entry_checks (adjustment_entry uid amt key md now s)"
      "list_all (\<lambda>e. \<not> entry_conflict (adjustment_entry uid amt key md now s) e) (entries s)"
    using assms(2) by (simp_all add: add_adjustment_Inr)
  have "amt \<noteq> 0"
    using ok(1) by (simp add: entry_checks_def ck_account_ledger_whole_nonzero_amount_def)
  then show ?thesis
    unfolding t using assms(1) ok by (intro ledger_inv_appended) (auto simp: list_all_iff)
qed

lemma log_action_sel [simp]:
  "entries (log_action a b c d e s) = entries s" "allocs (log_action a b c d e s) = allocs s"
  "entry_seq (log_action a b c d e s) = entry_seq s" "orders (log_action a b c d e s) = orders s"
  "users (log_action a b c d e s) = users s" "payments (log_action a b c d e s) = payments s"
  "get_order (log_action a b c d e s) = get_order s" "wi_subs (log_action a b c d e s) = wi_subs s"
  "order_owner (log_action a b c d e s) = order_owner s"
  by (simp_all add: log_action_def get_order_def order_owner_def fun_eq_iff)

lemma ledger_inv_log [simp]: "ledger_inv (log_action a b c d e s) = ledger_inv s"
  by (rule iffI; erule ledger_inv_cong [rotated -1]) simp_all

lemma position_log [simp]: "position (log_action a b c d e s) = position s"
  by (simp add: position_def fun_eq_iff)

subsection \<open>The grant\<close>

lemma calculate_referral_bonus_bounds:
  assumes "0 \<le> r"
  shows "0 \<le> calculate_referral_bonus (Finite x) (Some r)"
    and "calculate_referral_bonus (Finite x) (Some r) \<le> max 0 (x * r)"
    and "is_whole (calculate_referral_bonus (Finite x) (Some r))"
  using assms
  by (auto simp: calculate_referral_bonus_def quantize_down_def trunc_rat_def max_def
      mult_nonneg_nonneg mult_less_0_iff)

definition bonus_at :: "money \<Rightarrow> int \<Rightarrow> money" where
  "bonus_at topup n = calculate_referral_bonus (Finite topup) (Some (rate (get_referral_tier n)))"

lemma bonus_at_bounds:
  "0 \<le> bonus_at topup n" "bonus_at topup n \<le> max 0 (topup * 30/100)" "is_whole (bonus_at topup n)"
proof -
  have r: "0 \<le> rate (get_referral_tier n)"
    using tier_rate_bounds(1) [of n] by linarith
  note b = calculate_referral_bonus_bounds [OF r, of topup]
  show "0 \<le> bonus_at topup n" "is_whole (bonus_at topup n)"
    using b by (simp_all add: bonus_at_def)
  show "bonus_at topup n \<le> max 0 (topup * 30/100)"
  proof (cases "0 < topup")
    case True
    then have "topup * rate (get_referral_tier n) \<le> topup * (30/100)"
      by (intro mult_left_mono tier_rate_bounds(2)) simp
    moreover have "bonus_at topup n \<le> topup * rate (get_referral_tier n)"
      using b(2) r True by (simp add: bonus_at_def max_absorb2)
    ultimately show ?thesis
      by linarith
  next
    case False
    then show ?thesis
      by (simp add: bonus_at_def calculate_referral_bonus_def)
  qed
qed

text \<open>
  What the programme promises, apart from how the grant computes it.  The inviter of a user is the
  user whose Telegram id is the user's \<open>referred_by\<close>: another one, neither deleted nor banned.
  Fewer than 3, 7 and 15 active referrals earn 15, 20 and 25 percent, more earn 30; a top-up that
  makes its payer an active referral does not count for its own rate.
\<close>

definition inviter_of :: "int \<Rightarrow> db \<Rightarrow> user option" where
  "inviter_of uid s =
     (case find (\<lambda>u. u_id u = uid \<and> \<not> is_deleted u) (users s) of
        None \<Rightarrow> None
      | Some p \<Rightarrow>
          (case referred_by p of
             None \<Rightarrow> None
           | Some q \<Rightarrow>
               (case find (\<lambda>u. telegram_id u = q \<and> \<not> is_deleted u) (users s) of
                  None \<Rightarrow> None
                | Some r \<Rightarrow>
                    if q = telegram_id p \<or> is_banned r \<or> u_id r = uid then None else Some r)))"

definition tier_percent :: "int \<Rightarrow> rat" where
  "tier_percent n = (if n < 3 then 15 else if n < 7 then 20 else if n < 15 then 25 else 30)"

definition counted_referrals ::
  "int \<Rightarrow> user \<Rightarrow> int option \<Rightarrow> uuid option \<Rightarrow> money \<Rightarrow> db \<Rightarrow> int" where
  "counted_referrals uid r pid oid topup s =
     get_user_active_referrals_count (telegram_id r) s
     - (if REFERRAL_ACTIVE_MIN_TOPUP_RUB \<le> topup \<and> \<not> has_other_qualifying_topup uid oid pid s then 1 else 0)"

definition due_bonus ::
  "int \<Rightarrow> user \<Rightarrow> int option \<Rightarrow> uuid option \<Rightarrow> money \<Rightarrow> db \<Rightarrow> money" where
  "due_bonus uid r pid oid topup s =
     of_int \<lfloor>max 0 topup * tier_percent (counted_referrals uid r pid oid topup s) / 100\<rfloor>"

definition bonus_booked :: "user \<Rightarrow> int option \<Rightarrow> uuid option \<Rightarrow> db \<Rightarrow> bool" where
  "bonus_booked r pid oid s \<longleftrightarrow>
     list_ex (\<lambda>e. idempotency_key e = bonus_key (topup_op_id oid pid) (u_id r)) (entries s)"

lemma bonus_at_percent: "bonus_at topup n = of_int \<lfloor>max 0 topup * tier_percent n / 100\<rfloor>"
proof -
  have rate: "rate (get_referral_tier n) = tier_percent n / 100"
    by (simp add: get_referral_tier_cases tier_percent_def)
  have "0 \<le> tier_percent n"
    by (simp add: tier_percent_def)
  then show ?thesis
    unfolding bonus_at_def rate by (auto simp: calculate_referral_bonus_def quantize_down_def trunc_rat_def mult_less_0_iff
        zero_le_mult_iff)
qed

lemma due_bonus_at:
  "due_bonus uid r pid oid topup s =
     bonus_at topup (if \<not> has_other_qualifying_topup uid oid pid s \<and> REFERRAL_ACTIVE_MIN_TOPUP_RUB \<le> topup
       then max 0 (get_user_active_referrals_count (telegram_id r) s - 1)
       else get_user_active_referrals_count (telegram_id r) s)"
proof -
  have "tier_percent (max 0 n) = tier_percent n" for n
    by (simp add: tier_percent_def)
  then show ?thesis
    by (simp add: due_bonus_def counted_referrals_def bonus_at_percent)
qed

lemma inviter_of_other: "inviter_of uid s = Some r \<Longrightarrow> u_id r \<noteq> uid"
  by (auto simp: inviter_of_def split: option.split_asm if_split_asm)

lemma grant_toE:
  assumes "grant_to p r pid oid topup now s = Inr (g, t)"
  obtains (refused) "g = no_grant" and "t = s" and "due_bonus (u_id p) r pid oid topup s = 0"
  | (again) "t = s" and "referrer_bonus g = 0" and "referrer_user_id g = Some (u_id r)"
      and "bonus_booked r pid oid s"
  | (granted) n md d where "referrer_bonus g = bonus_at topup n" and "0 < bonus_at topup n"
      and "referrer_user_id g = Some (u_id r)"
      and "add_adjustment (u_id r) (bonus_at topup n) (bonus_key (topup_op_id oid pid) (u_id r)) md now s
             = Inr ((), appended (adjustment_entry (u_id r) (bonus_at topup n)
                 (bonus_key (topup_op_id oid pid) (u_id r)) md now s) s)"
      and "t = log_action 0 REFERRAL_BONUS_GRANTED ''user'' (u_id r) d
             (appended (adjustment_entry (u_id r) (bonus_at topup n)
                (bonus_key (topup_op_id oid pid) (u_id r)) md now s) s)"
      and "bonus_at topup n = due_bonus (u_id p) r pid oid topup s" and "\<not> bonus_booked r pid oid s"
proof -
  let ?active = "get_user_active_referrals_count (telegram_id r) s"
  define n where "n = (if \<not> has_other_qualifying_topup (u_id p) oid pid s
      \<and> REFERRAL_ACTIVE_MIN_TOPUP_RUB \<le> topup then max 0 (?active - 1) else ?active)"
  have b: "calculate_referral_bonus (Finite topup) (Some (rate (get_referral_tier n))) = bonus_at topup n"
    by (simp add: bonus_at_def)
  have due: "bonus_at topup n = due_bonus (u_id p) r pid oid topup s"
    by (simp add: due_bonus_at n_def)
  note run = assms [unfolded grant_to_def Let_def, folded n_def, unfolded b]
  show ?thesis
  proof (cases "bonus_at topup n \<le> 0")
    case True
    then show ?thesis
      using run due bonus_at_bounds(1) [of topup n] by (intro refused) auto
  next
    case False
    show ?thesis
    proof (cases "list_ex (\<lambda>e. idempotency_key e = bonus_key (topup_op_id oid pid) (u_id r)) (entries s)")
      case True
      then show ?thesis
        using run False by (intro again) (auto simp: bonus_booked_def)
    next
      case new: False
      show ?thesis
        using run False new
        by (auto simp: and_then_eq_Inr add_adjustment_Inr bonus_booked_def
            intro: granted [OF _ _ _ _ _ due])
    qed
  qed
qed

lemma grantE:
  assumes "grant_referral_bonus_for_topup uid pid oid topup now s = Inr (g, t)"
  obtains (refused) "g = no_grant" and "t = s" and "inviter_of uid s = None"
  | (parties) p r where "find (\<lambda>u. u_id u = uid \<and> \<not> is_deleted u) (users s) = Some p"
      and "referred_by p = Some (telegram_id r)"
      and "find (\<lambda>u. telegram_id u = telegram_id r \<and> \<not> is_deleted u) (users s) = Some r"
      and "telegram_id p \<noteq> telegram_id r" and "u_id p \<noteq> u_id r" and "\<not> is_banned r"
      and "grant_to p r pid oid topup now s = Inr (g, t)" and "inviter_of uid s = Some r"
proof -
  from assms consider "g = no_grant" "t = s" "inviter_of uid s = None"
    | p q r where "find (\<lambda>u. u_id u = uid \<and> \<not> is_deleted u) (users s) = Some p"
      "referred_by p = Some q" "q \<noteq> telegram_id p"
      "find (\<lambda>u. telegram_id u = q \<and> \<not> is_deleted u) (users s) = Some r"
      "\<not> is_banned r" "u_id p \<noteq> u_id r" "grant_to p r pid oid topup now s = Inr (g, t)"
    by (auto simp: grant_referral_bonus_for_topup_def inviter_of_def dest: find_SomeD
        split: option.split_asm if_split_asm)
  then show ?thesis
  proof cases
    case 2
    moreover have "telegram_id r = q"
      using 2(4) by (auto dest: find_SomeD)
    ultimately show ?thesis
      by (intro parties [of p r]) (auto simp: inviter_of_def dest: find_SomeD)
  qed (rule refused)
qed

lemma grant_inv:
  assumes "ledger_inv s" and "grant_referral_bonus_for_topup uid pid oid topup now s = Inr (g, t)"
  shows "ledger_inv t"
  using assms(2)
proof (cases rule: grantE)
  case (parties p r)
  from parties(7) show ?thesis
  proof (cases rule: grant_toE)
    case (granted n md d)
    have "ledger_inv (appended (adjustment_entry (u_id r) (bonus_at topup n)
        (bonus_key (topup_op_id oid pid) (u_id r)) md now s) s)"
      by (rule add_adjustment_inv [OF assms(1) granted(4)])
    then show ?thesis
      by (simp add: granted(5))
  qed (use assms(1) in simp_all)
qed (use assms(1) in simp)

lemma grant_exact:
  assumes "grant_referral_bonus_for_topup uid pid oid topup now s = Inr (g, t)"
  shows "position t j = position s j + (case inviter_of uid s of
        None \<Rightarrow> 0
      | Some r \<Rightarrow> if j = u_id r \<and> \<not> bonus_booked r pid oid s then due_bonus uid r pid oid topup s else 0)
    \<and> referrer_bonus g = (case inviter_of uid s of
        None \<Rightarrow> 0
      | Some r \<Rightarrow> if bonus_booked r pid oid s then 0 else due_bonus uid r pid oid topup s)"
  using assms
proof (cases rule: grantE)
  case refused
  then show ?thesis
    by (simp add: no_grant_def)
next
  case (parties p r)
  have p: "u_id p = uid"
    using parties(1) by (auto dest: find_SomeD)
  from parties(7) show ?thesis
  proof (cases rule: grant_toE)
    case (granted n md d)
    then show ?thesis
      using parties(8) p by simp
  qed (use parties(8) p in \<open>simp_all add: no_grant_def\<close>)
qed

text \<open>C38. A grant pays the bonus of the tier to the inviter and moves nobody else's balance.  The
  inviter is the user whose Telegram id the payer's \<open>referred_by\<close> names, another one, neither
  deleted nor banned; the bonus is the top-up's 15, 20, 25 or 30 percent, rounded down to whole
  rubles, for the inviter's number of active referrals, among which a payer whom this very top-up
  activates does not count.  Without such an inviter, and when this top-up was rewarded before, no
  balance moves; and the grant reports what it paid.\<close>

theorem referral_grant_exact:
  assumes "grant_referral_bonus_for_topup uid pid oid topup now s = Inr (g, t)"
  shows "position t j = position s j + (case inviter_of uid s of
        None \<Rightarrow> 0
      | Some r \<Rightarrow> if j = u_id r \<and> \<not> bonus_booked r pid oid s then due_bonus uid r pid oid topup s else 0)
    \<and> referrer_bonus g = (case inviter_of uid s of
        None \<Rightarrow> 0
      | Some r \<Rightarrow> if bonus_booked r pid oid s then 0 else due_bonus uid r pid oid topup s)
    \<and> 0 \<le> referrer_bonus g \<and> referrer_bonus g \<le> max 0 (topup * 30/100) \<and> is_whole (referrer_bonus g)
    \<and> map_option u_id (inviter_of uid s) \<noteq> Some uid"
proof -
  have bounds: "0 \<le> due_bonus uid r pid oid topup s" "due_bonus uid r pid oid topup s \<le> max 0 (topup * 30/100)"
    "is_whole (due_bonus uid r pid oid topup s)" for r
    unfolding due_bonus_at by (rule bonus_at_bounds)+
  show ?thesis
    using grant_exact [OF assms] bounds inviter_of_other
    by (auto simp: is_whole_def split: option.split)
qed

lemma sample_grant:
  "\<exists>g t. grant_referral_bonus_for_topup 2 None (Some ''topup-2'') 1000 9 sample_db = Inr (g, t)
     \<and> referrer_bonus g = 150"
proof -
  have "case grant_referral_bonus_for_topup 2 None (Some ''topup-2'') 1000 9 sample_db of
      Inl _ \<Rightarrow> False | Inr p \<Rightarrow> referrer_bonus (fst p) = 150"
    by code_simp
  then show ?thesis
    by (auto split: sum.split_asm)
qed

lemma sample_inviter:
  "map_option u_id (inviter_of 2 sample_db) = Some 1"
  "case inviter_of 2 sample_db of None \<Rightarrow> False | Some r \<Rightarrow> \<not> bonus_booked r None (Some ''topup-2'') sample_db
     \<and> due_bonus 2 r None (Some ''topup-2'') 1000 sample_db = 150"
   apply code_simp
  by code_simp

theorem referral_grant_exact_witness:
  "\<exists>g t. grant_referral_bonus_for_topup 2 None (Some ''topup-2'') 1000 9 sample_db = Inr (g, t)
     \<and> referrer_bonus g = 150 \<and> position t 1 = position sample_db 1 + 150 \<and> position t 2 = position sample_db 2"
proof -
  obtain g t where run: "grant_referral_bonus_for_topup 2 None (Some ''topup-2'') 1000 9 sample_db = Inr (g, t)"
    "referrer_bonus g = 150"
    using sample_grant by blast
  from referral_grant_exact [OF run(1), of 1] referral_grant_exact [OF run(1), of 2] run sample_inviter
  show ?thesis
    by (auto split: option.split_asm)
qed

text \<open>The queries of the grant read users, orders and payments only.\<close>

lemma grant_reads:
  assumes "users t = users s" and "orders t = orders s" and "payments t = payments s"
  shows "get_user_active_referrals_count tid t = get_user_active_referrals_count tid s"
    and "has_other_qualifying_topup uid oid pid t = has_other_qualifying_topup uid oid pid s"
  using assms
  by (simp_all add: get_user_active_referrals_count_def referral_paid_activity_def
      has_other_qualifying_topup_def)

lemma grant_to_again:
  assumes "users t = users s" and "orders t = orders s" and "payments t = payments s"
    and "list_ex (\<lambda>e. idempotency_key e = bonus_key (topup_op_id oid pid) (u_id r)) (entries t)"
  shows "\<exists>g. grant_to p r pid oid topup now t = Inr (g, t) \<and> referrer_bonus g = 0"
  using assms by (simp add: grant_to_def Let_def no_grant_def)

text \<open>A grant is paid once: asking again for the same top-up, at any later time, grants nothing
  and changes nothing.\<close>

theorem referral_grant_once:
  assumes "grant_referral_bonus_for_topup uid pid oid topup now s = Inr (g, t)"
    and "0 < referrer_bonus g"
  shows "\<exists>g'. grant_referral_bonus_for_topup uid pid oid topup now' t = Inr (g', t)
    \<and> referrer_bonus g' = 0"
  using assms(1)
proof (cases rule: grantE)
  case (parties p r)
  from parties(7) show ?thesis
  proof (cases rule: grant_toE)
    case (granted n md d)
    have tables: "users t = users s" "orders t = orders s" "payments t = payments s"
      by (simp_all add: granted(5) appended_def log_action_def)
    have "list_ex (\<lambda>e. idempotency_key e = bonus_key (topup_op_id oid pid) (u_id r)) (entries t)"
      by (simp add: granted(5) adjustment_entry_def entry_values_def)
    from grant_to_again [OF tables this] obtain g' where
      "grant_to p r pid oid topup now' t = Inr (g', t)" "referrer_bonus g' = 0"
      by blast
    then show ?thesis
      using parties by (simp add: grant_referral_bonus_for_topup_def tables)
  qed (use assms(2) in \<open>simp_all add: no_grant_def\<close>)
qed (use assms(2) in \<open>simp add: no_grant_def\<close>)

subsection \<open>The reversal\<close>

lemma already_reversed_appended:
  "already_reversed (appended e s) c = already_reversed s c +
     (if e_user_id e = e_user_id c \<and> entry_type e = ADMIN_ADJUSTMENT \<and> amount e < 0
         \<and> e_metadata e ''original_credit_id'' = Some (JInt (e_id c)) then \<bar>amount e\<bar> else 0)"
  by (simp add: already_reversed_def)

theorem referral_grant_once_witness:
  "\<exists>g t g'. grant_referral_bonus_for_topup 2 None (Some ''topup-2'') 1000 9 sample_db = Inr (g, t)
     \<and> grant_referral_bonus_for_topup 2 None (Some ''topup-2'') 1000 11 t = Inr (g', t)
     \<and> referrer_bonus g = 150 \<and> referrer_bonus g' = 0"
proof -
  obtain g t where g: "grant_referral_bonus_for_topup 2 None (Some ''topup-2'') 1000 9 sample_db = Inr (g, t)"
    "referrer_bonus g = 150"
    using sample_grant by blast
  then show ?thesis
    using referral_grant_once [OF g(1), of 11] by auto
qed

lemma reverse_credits_ConsE:
  assumes "reverse_credits op_id suffix pid oid rid now (c # cs) tot s = Inr (m, t)"
  obtains (skip) tot' where "reverse_credits op_id suffix pid oid rid now cs tot' s = Inr (m, t)"
  | (book) x e where "0 < x" and "x = amount c - already_reversed s c"
      and "amount e = - x" and "entry_type e = ADMIN_ADJUSTMENT" and "e_user_id e = e_user_id c"
      and "e_metadata e ''original_credit_id'' = Some (JInt (e_id c))"
      and "ledger_inv s \<Longrightarrow> ledger_inv (appended e s)"
      and "reverse_credits op_id suffix pid oid rid now cs (tot + x) (appended e s) = Inr (m, t)"
proof -
  let ?key = "''referral-bonus-reversal:'' @ op_id @ '':'' @ str_int (e_user_id c) @ suffix"
  let ?x = "amount c - already_reversed s c"
  consider tot' where "reverse_credits op_id suffix pid oid rid now cs tot' s = Inr (m, t)"
    | "0 < ?x"
      "add_adjustment (e_user_id c) (- ?x) ?key (reversal_meta pid oid rid c) now s
         = Inr ((), appended (adjustment_entry (e_user_id c) (- ?x) ?key (reversal_meta pid oid rid c) now s) s)"
      "reverse_credits op_id suffix pid oid rid now cs (tot + ?x)
         (appended (adjustment_entry (e_user_id c) (- ?x) ?key (reversal_meta pid oid rid c) now s) s) = Inr (m, t)"
  proof (cases "find (\<lambda>e. e_user_id e = e_user_id c \<and> entry_type e = ADMIN_ADJUSTMENT
             \<and> amount e < 0 \<and> idempotency_key e = ?key) (entries s)")
    case (Some e)
    then show ?thesis
      using assms that(1) by (simp add: Let_def)
  next
    case None
    show ?thesis
    proof (cases "0 < ?x")
      case False
      then show ?thesis
        using assms None that(1) by (simp add: Let_def max_def split: if_split_asm)
    next
      case True
      then have run: "and_then
           (add_adjustment (e_user_id c) (- ?x) ?key (reversal_meta pid oid rid c) now s)
           (\<lambda>_. reverse_credits op_id suffix pid oid rid now cs (tot + ?x)) = Inr (m, t)"
        using assms None by (simp add: Let_def)
      from run obtain u s1 where run: "add_adjustment (e_user_id c) (- ?x) ?key (reversal_meta pid oid rid c) now s = Inr (u, s1)"
        "reverse_credits op_id suffix pid oid rid now cs (tot + ?x) s1 = Inr (m, t)"
        by (rule and_then_InrE)
      have "s1 = appended (adjustment_entry (e_user_id c) (- ?x) ?key (reversal_meta pid oid rid c) now s) s"
        using run(1) by (simp add: add_adjustment_Inr)
      then show ?thesis
        using that(2) [OF True] run by simp
    qed
  qed
  then show ?thesis
  proof cases
    case 1
    then show ?thesis by (rule skip)
  next
    case 2
    let ?e = "adjustment_entry (e_user_id c) (- ?x) ?key (reversal_meta pid oid rid c) now s"
    have "e_metadata ?e = reversal_meta pid oid rid c"
      by (simp add: adjustment_entry_def)
    then show ?thesis
      using 2 add_adjustment_inv [OF _ 2(2)]
      by (intro book [of ?x ?e]) (auto simp: reversal_meta_def)
  qed
qed

text \<open>
  What a run of the loop over the credits does: it books reversals only, each within what
  is left of its credit.
\<close>

lemma reverse_credits_sound:
  assumes "reverse_credits op_id suffix pid oid rid now cs tot s = Inr (m, t)"
    and "ledger_inv s"
    and "\<And>c. c \<in> set (entries s) \<Longrightarrow> 0 < amount c \<Longrightarrow> already_reversed s c \<le> amount c"
    and "set cs \<subseteq> set (entries s)" and "\<And>c. c \<in> set cs \<Longrightarrow> 0 < amount c"
  shows "ledger_inv t
    \<and> (\<forall>c\<in>set (entries t). 0 < amount c \<longrightarrow> already_reversed t c \<le> amount c)
    \<and> (\<exists>new. entries t = entries s @ new
          \<and> list_all (\<lambda>e. amount e < 0 \<and> entry_type e = ADMIN_ADJUSTMENT
              \<and> e_user_id e \<in> e_user_id ` set cs) new)
    \<and> allocs t = allocs s \<and> users t = users s \<and> orders t = orders s"
  using assms
proof (induction cs arbitrary: tot s)
  case (Cons c cs)
  from Cons.prems(1) show ?case
  proof (cases rule: reverse_credits_ConsE)
    case (skip tot')
    have "ledger_inv t
    \<and> (\<forall>c\<in>set (entries t). 0 < amount c \<longrightarrow> already_reversed t c \<le> amount c)
    \<and> (\<exists>new. entries t = entries s @ new
          \<and> list_all (\<lambda>e. amount e < 0 \<and> entry_type e = ADMIN_ADJUSTMENT
              \<and> e_user_id e \<in> e_user_id ` set cs) new)
    \<and> allocs t = allocs s \<and> users t = users s \<and> orders t = orders s"
      by (rule Cons.IH [OF skip]) (use Cons.prems in auto)
    then show ?thesis
      by (fastforce simp: list_all_iff)
  next
    case (book x e)
    let ?s = "appended e s"
    have c: "c \<in> set (entries s)"
      using Cons.prems(4) by simp
    have ok: "entries_ok s"
      using Cons.prems(2) by (simp add: ledger_inv_def)
    have left: "already_reversed ?s d \<le> amount d" if d: "d \<in> set (entries ?s)" "0 < amount d" for d
    proof -
      have ds: "d \<in> set (entries s)"
        using d book(1,3) by auto
      then have "e_id c = e_id d \<Longrightarrow> c = d"
        using c by (intro same_entry_id [OF ok])
      then show ?thesis
        using Cons.prems(3) [OF ds d(2)] book(1-6) by (auto simp: already_reversed_appended)
    qed
    have "ledger_inv t
    \<and> (\<forall>c\<in>set (entries t). 0 < amount c \<longrightarrow> already_reversed t c \<le> amount c)
    \<and> (\<exists>new. entries t = entries ?s @ new
          \<and> list_all (\<lambda>e. amount e < 0 \<and> entry_type e = ADMIN_ADJUSTMENT
              \<and> e_user_id e \<in> e_user_id ` set cs) new)
    \<and> allocs t = allocs ?s \<and> users t = users ?s \<and> orders t = orders ?s"
      by (rule Cons.IH [OF book(8)]) (use book(7) left Cons.prems in auto)
    then show ?thesis
      using book(1,3-5) by (fastforce simp: list_all_iff appended_def)
  qed
qed simp

text \<open>No bonus has been reversed beyond its amount.\<close>

definition reversals_ok :: "db \<Rightarrow> bool" where
  "reversals_ok s \<longleftrightarrow> list_all (\<lambda>c. amount c \<le> 0 \<or> already_reversed s c \<le> amount c) (entries s)"

lemma reverse_sound:
  assumes "reverse_referral_bonus_for_topup pid oid rid now s = Inr (m, t)"
    and "ledger_inv s" and "reversals_ok s"
  shows "ledger_inv t" and "reversals_ok t" and "allocs t = allocs s"
    and "\<exists>new. entries t = entries s @ new \<and> list_all (\<lambda>e. amount e < 0 \<and> entry_type e = ADMIN_ADJUSTMENT) new"
proof -
  have pre: "already_reversed s c \<le> amount c" if "c \<in> set (entries s)" "0 < amount c" for c
    using assms(3) that by (force simp: reversals_ok_def list_all_iff)
  have "ledger_inv t \<and> reversals_ok t \<and> allocs t = allocs s
    \<and> (\<exists>new. entries t = entries s @ new
         \<and> list_all (\<lambda>e. amount e < 0 \<and> entry_type e = ADMIN_ADJUSTMENT) new)"
  proof (cases "pid = None \<and> oid = None")
    case True
    then show ?thesis
      using assms by (simp add: reverse_referral_bonus_for_topup_def)
  next
    case False
    define cs where "cs = (case oid of
                Some k \<Rightarrow> filter (is_topup_bonus ''topup_order_id'' (JStr k)) (entries s)
              | None \<Rightarrow> filter (is_topup_bonus ''topup_payment_id'' (json_opt JInt pid)) (entries s))"
    have "\<exists>op_id suffix. reverse_credits op_id suffix pid oid rid now cs 0 s = Inr (m, t)"
      using assms(1) False by (auto simp: reverse_referral_bonus_for_topup_def Let_def cs_def)
    then obtain op_id suffix
      where run: "reverse_credits op_id suffix pid oid rid now cs 0 s = Inr (m, t)"
      by blast
    have cs: "set cs \<subseteq> set (entries s)" "\<And>c. c \<in> set cs \<Longrightarrow> 0 < amount c"
      by (auto simp: cs_def is_topup_bonus_def split: option.split_asm)
    have all: "ledger_inv t
      \<and> (\<forall>c\<in>set (entries t). 0 < amount c \<longrightarrow> already_reversed t c \<le> amount c)
      \<and> (\<exists>new. entries t = entries s @ new
            \<and> list_all (\<lambda>e. amount e < 0 \<and> entry_type e = ADMIN_ADJUSTMENT
                \<and> e_user_id e \<in> e_user_id ` set cs) new)
      \<and> allocs t = allocs s \<and> users t = users s \<and> orders t = orders s"
      by (rule reverse_credits_sound [OF run assms(2)]) (use pre cs in blast)+
    then have "reversals_ok t"
      unfolding reversals_ok_def list_all_iff by (metis linorder_not_le)
    then show ?thesis
      using all by (auto simp: list_all_iff)
  qed
  then show "ledger_inv t" and "reversals_ok t" and "allocs t = allocs s"
    and "\<exists>new. entries t = entries s @ new \<and> list_all (\<lambda>e. amount e < 0 \<and> entry_type e = ADMIN_ADJUSTMENT) new"
    by blast+
qed

text \<open>A reversal only takes back: it books negative adjustments only, and keeps both the ledger
  invariant and the bound that no bonus is reversed beyond its own amount, whatever refund ids
  the partial refunds of a top-up arrive with.\<close>

theorem referral_reversal_bounded:
  assumes "reverse_referral_bonus_for_topup pid oid rid now s = Inr (m, t)"
    and "ledger_inv s" and "reversals_ok s"
  shows "ledger_inv t \<and> reversals_ok t \<and> position t j \<le> position s j"
proof -
  obtain new where new: "entries t = entries s @ new" "list_all (\<lambda>e. amount e < 0 \<and> entry_type e = ADMIN_ADJUSTMENT) new"
    using reverse_sound(4) [OF assms] by blast
  have "sum_list (map amount (filter (\<lambda>e. e_user_id e = j) new)) \<le> sum_list (map (\<lambda>_. 0) new)"
    unfolding sum_list_map_filter_if using new(2)
    by (intro sum_list_mono_map) (auto simp: list_all_iff less_imp_le)
  then show ?thesis
    using reverse_sound(1,2) [OF assms] by (simp add: position_def new(1))
qed

lemma reversal_keeps_lots:
  assumes "reverse_referral_bonus_for_topup pid oid rid now s = Inr (m, t)"
    and "ledger_inv s" and "reversals_ok s"
  shows "bonus_credited t j = bonus_credited s j" and "bonus_spent t j = bonus_spent s j"
proof -
  obtain new where new: "entries t = entries s @ new" "list_all (\<lambda>e. amount e < 0 \<and> entry_type e = ADMIN_ADJUSTMENT) new"
    using reverse_sound(4) [OF assms] by blast
  have "filter (\<lambda>e. e_user_id e = j \<and> is_lot e) new = []"
    using new(2) by (auto simp: filter_empty_conv list_all_iff is_lot_def)
  then have lots: "bonus_lots t j = bonus_lots s j"
    by (simp add: bonus_lots_def credit_lots_def new(1))
  have used: "used_by_credit t = used_by_credit s"
    by (simp add: used_by_credit_def reverse_sound(3) [OF assms] fun_eq_iff)
  have ok: "entries_ok s" "allocs_ok s" "entries_ok t" "allocs_ok t"
    using assms(2) reverse_sound(1) [OF assms] by (simp_all add: ledger_inv_def)
  show "bonus_credited t j = bonus_credited s j"
    by (simp add: bonus_credited_lots lots)
  show "bonus_spent t j = bonus_spent s j"
    by (simp add: bonus_spent_lots [OF ok(1,2)] bonus_spent_lots [OF ok(3,4)] lots used)
qed

text \<open>A reversal is charged to the wrong bucket: unlike a negative adjustment by an admin it is
  attributed to no lot, so as long as the balance still covers the unspent bonus the bonus
  bucket stays as it was and the whole reversal is taken from the real money.\<close>

theorem reversal_charges_real_money:
  assumes "reverse_referral_bonus_for_topup pid oid rid now s = Inr (m, t)"
    and "ledger_inv s" and "reversals_ok s"
    and "0 < position t j" and "bonus_left s j \<le> position t j"
  shows "bonus_available (balance_snapshot t j) = bonus_available (balance_snapshot s j)
    \<and> real_available (balance_snapshot t j) =
        real_available (balance_snapshot s j) - (position s j - position t j)"
proof -
  have left: "bonus_left t j = bonus_left s j"
    using bonus_left_eq(1) [OF assms(2)] bonus_left_eq(1) [OF reverse_sound(1) [OF assms(1-3)]]
      reversal_keeps_lots [OF assms(1-3)] by simp
  obtain new where new: "entries t = entries s @ new" "list_all (\<lambda>e. amount e < 0 \<and> entry_type e = ADMIN_ADJUSTMENT) new"
    using reverse_sound(4) [OF assms(1-3)] by blast
  have "sum_list (map amount (filter (\<lambda>e. e_user_id e = j) new)) \<le> sum_list (map (\<lambda>_. 0) new)"
    unfolding sum_list_map_filter_if using new(2)
    by (intro sum_list_mono_map) (auto simp: list_all_iff less_imp_le)
  then have pos: "position t j \<le> position s j"
    by (simp add: position_def new(1))
  have avail: "real_available (balance_snapshot u j) = position u j - bonus_available (balance_snapshot u j)"
    if "0 < position u j" for u
    using that by (simp add: balance_snapshot_def Let_def)
  show ?thesis
    using assms(4,5) pos left bonus_left_eq(2) [OF assms(2), of j]
      bonus_available_eq [OF assms(2), of j] bonus_available_eq [OF reverse_sound(1) [OF assms(1-3)], of j]
    by (simp add: avail)
qed

text \<open>User 1 paid 1000 and earned 150 with the top-up of user 2, which is then refunded.\<close>

definition bonus_db :: db where
  "bonus_db = commit (grant_referral_bonus_for_topup 2 None (Some ''topup-2'') 1000 9)
     (run_requests ledger_exec [Order_Credit ''topup-1'' (rubles 1000) Map.empty 5]
       (empty_ledger sample_db))"

lemma bonus_db_inv: "ledger_inv bonus_db"
proof -
  have "ledger_inv (run_requests ledger_exec [Order_Credit ''topup-1'' (rubles 1000) Map.empty 5]
       (empty_ledger sample_db))"
    by (rule ledger_tx.run_inv [OF ledger_inv_empty])
  then show ?thesis
    unfolding bonus_db_def commit_def by (auto split: sum.split intro: grant_inv)
qed

lemma bonus_db_facts:
  "reversals_ok bonus_db" "bonus_left bonus_db 1 = 150" "position bonus_db 1 = 1150"
  "real_available (balance_snapshot bonus_db 1) = 1000"
  by code_simp+

lemma sample_reversal:
  "\<exists>t. reverse_referral_bonus_for_topup None (Some ''topup-2'') (Some ''r1'') 10 bonus_db = Inr (150, t)
     \<and> position t 1 = 1000"
proof -
  have "case reverse_referral_bonus_for_topup None (Some ''topup-2'') (Some ''r1'') 10 bonus_db of
      Inl _ \<Rightarrow> False | Inr p \<Rightarrow> fst p = 150 \<and> position (snd p) 1 = 1000"
    by code_simp
  then show ?thesis
    by (auto split: sum.split_asm)
qed

theorem referral_reversal_bounded_witness:
  "\<exists>t. reverse_referral_bonus_for_topup None (Some ''topup-2'') (Some ''r1'') 10 bonus_db = Inr (150, t)
     \<and> reversals_ok t \<and> position t 1 \<le> position bonus_db 1"
  using sample_reversal referral_reversal_bounded [OF _ bonus_db_inv bonus_db_facts(1)] by blast

theorem reversal_charges_real_money_witness:
  "\<exists>t. reverse_referral_bonus_for_topup None (Some ''topup-2'') (Some ''r1'') 10 bonus_db = Inr (150, t)
     \<and> real_available (balance_snapshot t 1) = 850"
proof -
  obtain t where t: "reverse_referral_bonus_for_topup None (Some ''topup-2'') (Some ''r1'') 10 bonus_db
      = Inr (150, t)" "position t 1 = 1000"
    using sample_reversal by blast
  have "real_available (balance_snapshot t 1) = 850"
    using reversal_charges_real_money [OF t(1) bonus_db_inv bonus_db_facts(1), of 1] t(2)
    by (simp add: bonus_db_facts)
  with t(1) show ?thesis
    by blast
qed

end
