(* ===== verification/Subscription.thy ===== *)
theory Subscription
  imports Referral
begin

section \<open>services/subscription.py: users, access and the VPN subscription\<close>

text \<open>
  Looking users up, onboarding with its referral link, the access checks, and the extension
  or replacement of a VPN subscription with the state of the user's VLESS credentials kept in
  step.  User caches and log lines are not modelled.
\<close>

subsection \<open>users\_repo.py: lookups\<close>

definition get_user_by_telegram_id :: "int \<Rightarrow> db \<Rightarrow> user option" where
  "get_user_by_telegram_id tid s =
     (if tid < 1 \<or> MAX_INT64 < tid then None
      else find (\<lambda>u. telegram_id u = tid \<and> \<not> is_deleted u) (users s))"

definition get_user_by_telegram_id_any :: "int \<Rightarrow> db \<Rightarrow> user option" where
  "get_user_by_telegram_id_any tid s =
     (if tid < 1 \<or> MAX_INT64 < tid then None else find (\<lambda>u. telegram_id u = tid) (users s))"

definition get_user_by_id :: "int \<Rightarrow> db \<Rightarrow> user option" where
  "get_user_by_id i s = (if i < 1 \<or> MAX_INT32 < i then None else get_user s i)"

definition get_tariff_by_id :: "int \<Rightarrow> db \<Rightarrow> tariff option" where
  "get_tariff_by_id i s = (if i < 1 \<or> MAX_INT32 < i then None else get_tariff s i)"

text \<open>The insert raises when the Telegram id is taken; the other columns take their defaults.\<close>

definition create_user ::
  "int \<Rightarrow> string option \<Rightarrow> string option \<Rightarrow> int option \<Rightarrow> instant \<Rightarrow> db \<Rightarrow> pyerr + user \<times> db" where
  "create_user tid uname fname ref now s =
     (if list_ex (\<lambda>u. telegram_id u = tid) (users s) then Inl IntegrityError
      else
        let u = \<lparr>u_id = user_seq s + 1, telegram_id = tid, username = uname, first_name = fname,
              subscription_end = None, last_trial_reset_at = None, u_device_limit = 0,
              current_tariff_id = None, referred_by = ref, last_payment_at = None,
              is_banned = False, is_bot_blocked = False, is_deleted = False, deleted_at = None,
              financial_hold = False, topup_blocked = False, financial_block_reason = None,
              notification_retry_count = 0, last_notification_attempt = None,
              u_created_at = now, u_notified_3d = False, u_notified_1d = False,
              u_notified_2h = False, u_notified_expired = False, u_notified_grace_12h = False,
              device_creations_today = 0, last_creation_date = None, total_traffic_bytes = 0,
              total_wi_traffic_bytes = 0, monthly_vless_bytes = 0, monthly_wi_bytes = 0,
              traffic_cycle = None, archived_device_traffic = Map.empty,
              show_in_leaderboard = False\<rparr> in
        Inr (u, s\<lparr>users := users s @ [u], user_seq := user_seq s + 1\<rparr>))"

subsection \<open>vless\_subscription\_repo.py: devices\<close>

text \<open>\<open>datetime.min\<close> and the range of \<open>datetime.fromtimestamp\<close>.\<close>

definition datetime_min :: instant where "datetime_min = - 62135596800 * 1000000"
definition VLESS_HWID_TTL_HOURS :: int where "VLESS_HWID_TTL_HOURS = 48"

definition from_timestamp :: "int \<Rightarrow> instant" where
  "from_timestamp i =
     (if - 62135596800 \<le> i \<and> i \<le> 253402300799 then i * 1000000 else datetime_min)"

definition parse_hwid_last_seen_dt :: "json \<Rightarrow> instant" where
  "parse_hwid_last_seen_dt val =
     (let raw = (case val of
                   JObj kvs \<Rightarrow> (case map_of kvs ''last_seen'' of None \<Rightarrow> JNull | Some v \<Rightarrow> v)
                 | _ \<Rightarrow> val) in
      case raw of
        JTime t \<Rightarrow> t
      | JInt i \<Rightarrow> from_timestamp i
      | JBool b \<Rightarrow> from_timestamp (if b then 1 else 0)
      | _ \<Rightarrow> datetime_min)"

definition prune_stale_hwids ::
  "(string \<times> json) list \<Rightarrow> int \<Rightarrow> instant \<Rightarrow> (string \<times> json) list" where
  "prune_stale_hwids hwids ttl_hours now =
     (let cutoff = now - hours_us ttl_hours in
      map (\<lambda>(h, val). (h, case val of
               JObj kvs \<Rightarrow> val
             | JTime t \<Rightarrow> val
             | JStr x \<Rightarrow> val
             | _ \<Rightarrow> JTime (parse_hwid_last_seen_dt val)))
        (filter (\<lambda>(h, val). cutoff \<le> parse_hwid_last_seen_dt val) hwids))"

definition get_vless_sub :: "int \<Rightarrow> db \<Rightarrow> vless_sub option" where
  "get_vless_sub uid s = find (\<lambda>v. v_user_id v = uid) (vless_subs s)"

definition get_active_hwid_count :: "int \<Rightarrow> instant \<Rightarrow> db \<Rightarrow> nat" where
  "get_active_hwid_count uid now s =
     (case get_vless_sub uid s of
        None \<Rightarrow> 0
      | Some v \<Rightarrow> length (prune_stale_hwids (v_active_hwids v) VLESS_HWID_TTL_HOURS now))"

subsection \<open>Access\<close>

definition get_effective_device_limit :: "user option \<Rightarrow> db \<Rightarrow> int" where
  "get_effective_device_limit u s =
     (case u of
        None \<Rightarrow> 0
      | Some u \<Rightarrow>
          (case current_tariff_id u of
             None \<Rightarrow> u_device_limit u
           | Some i \<Rightarrow>
               if i = 0 then u_device_limit u
               else (case get_tariff_by_id i s of
                   None \<Rightarrow> u_device_limit u
                 | Some t \<Rightarrow> if t_service_type t = STANDARD \<or> t_service_type t = AWG
                     then t_device_limit t else u_device_limit u)))"

definition check_vpn_access :: "user \<Rightarrow> instant \<Rightarrow> bool" where
  "check_vpn_access u now \<longleftrightarrow>
     \<not> is_deleted u \<and> \<not> is_banned u \<and> \<not> financial_hold u \<and> subscription_end u \<noteq> None
   \<and> \<not> is_vpn_access_expired (subscription_end u) VPN_ACCESS_GRACE_HOURS now"

definition check_access :: "int \<Rightarrow> instant \<Rightarrow> db \<Rightarrow> bool" where
  "check_access tid now s =
     (case get_user_by_telegram_id tid s of
        None \<Rightarrow> False
      | Some u \<Rightarrow> \<not> is_deleted u \<and> \<not> is_banned u \<and> \<not> financial_hold u
          \<and> subscription_end u \<noteq> None \<and> \<not> is_expired (subscription_end u) now)"

definition sync_access_state :: "user \<Rightarrow> instant \<Rightarrow> db \<Rightarrow> db" where
  "sync_access_state u now s =
     (let target = check_vpn_access u now in
      case get_vless_sub (u_id u) s of
        None \<Rightarrow> s
      | Some v \<Rightarrow>
          if v_is_active v \<noteq> target
          then s\<lparr>vless_subs := update_rows (\<lambda>w. v_id w = v_id v)
                   (\<lambda>_. v\<lparr>v_is_active := target,
                          version := (if version v = 0 then 1 else version v) + 1\<rparr>) (vless_subs s),
                 tasks := tasks s @ [Sync_vless (u_id u) target]\<rparr>
          else s)"

subsection \<open>The referral link\<close>

definition MAX_REFERRAL_CHAIN_DEPTH :: nat where "MAX_REFERRAL_CHAIN_DEPTH = 50"

text \<open>
  The \<open>while\<close> loop with its depth counter: the last argument is how many rounds are left
  before the depth bound refuses the link.
\<close>

fun chain_ok :: "db \<Rightarrow> int list \<Rightarrow> int \<Rightarrow> nat \<Rightarrow> bool" where
  "chain_ok s visited current 0 = (current = 0)"
| "chain_ok s visited current (Suc n) =
     (if current = 0 then True
      else (case get_user_by_telegram_id current s of
          None \<Rightarrow> True
        | Some u \<Rightarrow>
            (case referred_by u of
               None \<Rightarrow> True
             | Some r \<Rightarrow>
                 if r = 0 then True
                 else if r \<in> set visited then False
                 else chain_ok s (r # visited) r n)))"

definition validate_referral :: "int \<Rightarrow> int \<Rightarrow> db \<Rightarrow> bool" where
  "validate_referral tid ref_id s =
     (if ref_id = tid then False
      else (case get_user_by_telegram_id ref_id s of
          None \<Rightarrow> False
        | Some _ \<Rightarrow> chain_ok s [ref_id, tid] ref_id MAX_REFERRAL_CHAIN_DEPTH))"

subsection \<open>Onboarding\<close>

definition restore_user :: "user \<Rightarrow> db \<Rightarrow> user \<times> db" where
  "restore_user u s =
     (let u = u\<lparr>is_deleted := False, deleted_at := None, is_bot_blocked := False\<rparr> in
      (u, log_action 0 USER_RESTORED ''user'' (u_id u)
            [''telegram_id'' \<mapsto> JInt (telegram_id u)] (set_user u s)))"

definition refresh_profile :: "string option \<Rightarrow> string option \<Rightarrow> user \<Rightarrow> user" where
  "refresh_profile uname fname u =
     u\<lparr>username := (if uname \<noteq> None then uname else username u),
       first_name := (if fname \<noteq> None then fname else first_name u),
       is_bot_blocked := False\<rparr>"

text \<open>
  The result is the user with the transient mark \<open>is_newly_referred\<close>.  The nested
  transaction of the insert is rolled back when it raises, and the row is read again.
\<close>

definition process_onboarding ::
  "int \<Rightarrow> string option \<Rightarrow> string option \<Rightarrow> int option \<Rightarrow> instant \<Rightarrow> db \<Rightarrow> (user \<times> bool) option \<times> db"
  where
  "process_onboarding tid uname fname ref_id now s =
     (case get_user_by_telegram_id_any tid s of
        Some u \<Rightarrow>
          let (u, s) = (if is_deleted u then restore_user u s else (u, s));
              u = refresh_profile uname fname u;
              s = set_user u s in
          (case ref_id of
             None \<Rightarrow> (Some (u, False), s)
           | Some r \<Rightarrow>
               if referred_by u = None \<and> \<not> has_successful_topup (u_id u) s
                  \<and> validate_referral tid r s
               then let u = u\<lparr>referred_by := Some r\<rparr> in
                 (Some (u, True), log_action 0 REFERRAL_ATTACHED ''user'' (u_id u)
                    [''referrer_telegram_id'' \<mapsto> JInt r] (set_user u s))
               else (Some (u, False), s))
      | None \<Rightarrow>
          let ref = (case ref_id of
                       None \<Rightarrow> None
                     | Some r \<Rightarrow> if validate_referral tid r s then Some r else None) in
          (case create_user tid uname fname ref now s of
             Inr (u, s) \<Rightarrow>
               (Some (u, ref \<noteq> None \<and> ref \<noteq> Some 0),
                log_action 0 USER_REGISTER ''user'' (u_id u)
                  [''telegram_id'' \<mapsto> JInt tid,
                   ''username'' \<mapsto> JStr (case uname of None \<Rightarrow> [] | Some x \<Rightarrow> x),
                   ''referred_by'' \<mapsto> json_opt JInt ref] s)
           | Inl _ \<Rightarrow>
               (case get_user_by_telegram_id_any tid s of
                  None \<Rightarrow> (None, s)
                | Some u \<Rightarrow>
                    if is_deleted u
                    then let (u, s) = restore_user u s in (Some (u, False), s)
                    else (Some (u, False), s))))"

subsection \<open>Extending and replacing a subscription\<close>

definition reset_notifications :: "user \<Rightarrow> user" where
  "reset_notifications u =
     u\<lparr>u_notified_3d := False, u_notified_1d := False, u_notified_2h := False,
       u_notified_expired := False, u_notified_grace_12h := False,
       notification_retry_count := 0, last_notification_attempt := None\<rparr>"

definition downgrade_error :: "nat \<Rightarrow> int \<Rightarrow> pyerr" where
  "downgrade_error n bound =
     ValueError (''Cannot downgrade: '' @ str_int (int n) @ '' devices > '' @ str_int bound
       @ '' limit. User must delete devices first.'')"

definition extend_subscription ::
  "int \<Rightarrow> int \<Rightarrow> int option \<Rightarrow> int option \<Rightarrow> instant \<Rightarrow> db \<Rightarrow> pyerr + user option \<times> db" where
  "extend_subscription tid days new_limit new_tariff now s =
     (if days < 0 then Inl (ValueError ''days must be >= 0'')
      else (case find (\<lambda>u. telegram_id u = tid \<and> \<not> is_deleted u) (users s) of
          None \<Rightarrow> Inr (None, s)
        | Some u \<Rightarrow>
            let count = get_active_hwid_count (u_id u) now s in
            (case (case new_limit of
                     Some l \<Rightarrow> if l < int count then Some (downgrade_error count l) else None
                   | None \<Rightarrow> None) of
                 Some err \<Rightarrow> Inl err
               | None \<Rightarrow>
                   let base_end = (case subscription_end u of
                                     Some t \<Rightarrow> if now < t then t else now | None \<Rightarrow> now);
                       new_end = (if days = 0 then subscription_end u
                                  else if PERMANENT_SUBSCRIPTION_DAYS \<le> days then Some PERMANENT_END_DATE
                                  else Some (base_end + days_us days));
                       u = reset_notifications (u\<lparr>subscription_end := new_end\<rparr>);
                       u = u\<lparr>u_device_limit := (case new_limit of Some l \<Rightarrow> l | None \<Rightarrow> u_device_limit u),
                             current_tariff_id := (case new_tariff of Some i \<Rightarrow> Some i
                                                   | None \<Rightarrow> current_tariff_id u)\<rparr> in
                   Inr (Some u, sync_access_state u now (set_user u s)))))"

definition replace_subscription ::
  "user \<Rightarrow> instant \<Rightarrow> int \<Rightarrow> int \<Rightarrow> instant \<Rightarrow> db \<Rightarrow> pyerr + user \<times> db" where
  "replace_subscription u sub_end device_limit tid now s =
     (if sub_end \<le> now then Inl (ValueError ''converted subscription must remain active'')
      else
        let count = get_active_hwid_count (u_id u) now s in
        if device_limit < int count then Inl (downgrade_error count device_limit)
        else
          let u = reset_notifications (u\<lparr>subscription_end := Some sub_end,
                    u_device_limit := device_limit, current_tariff_id := Some tid\<rparr>) in
          Inr (u, sync_access_state u now (set_user u s)))"

end
