(* ===== verification/WI_Repo.thy ===== *)
theory WI_Repo
  imports Subscription
begin

section \<open>database/repositories/white\_internet\_repo.py\<close>

text \<open>
  The rows of the White Internet subscriptions: quota, devices, expiry and the cleanup of
  former nodes.  Every atomic operation locks one row, changes it and flushes it: \<open>save_wi\<close>
  is that flush, which raises when a check constraint or the unique index of live
  subscriptions is violated.
\<close>

subsection \<open>Constraints\<close>

definition wi_live :: "wi_sub \<Rightarrow> bool" where
  "wi_live w \<longleftrightarrow> w_status w = WI_PENDING \<or> w_status w = WI_ACTIVE \<or> w_status w = WI_EXHAUSTED"

definition uq_white_internet_live_user :: "wi_sub \<Rightarrow> wi_sub list \<Rightarrow> bool" where
  "uq_white_internet_live_user w ws \<longleftrightarrow>
     \<not> (wi_live w \<and> list_ex (\<lambda>v. w_id v \<noteq> w_id w \<and> w_user_id v = w_user_id w \<and> wi_live v) ws)"

definition wi_checks :: "wi_sub \<Rightarrow> wi_sub list \<Rightarrow> bool" where
  "wi_checks w ws \<longleftrightarrow>
     ck_white_internet_subscriptions_traffic_nonnegative w
   \<and> ck_white_internet_subscriptions_device_limit w
   \<and> uq_white_internet_live_user w ws"

definition save_wi :: "wi_sub \<Rightarrow> db \<Rightarrow> pyerr + wi_sub \<times> db" where
  "save_wi w s = (if wi_checks w (wi_subs s) then Inr (w, set_wi_sub w s) else Inl IntegrityError)"

subsection \<open>Queries\<close>

definition effective_device_limit :: "wi_sub \<Rightarrow> int" where
  "effective_device_limit w = max 1 (w_device_limit w)"

definition get_wi_by_id :: "int \<Rightarrow> db \<Rightarrow> wi_sub option" where
  "get_wi_by_id i s = (if i < 1 \<or> MAX_INT32 < i then None else find (\<lambda>w. w_id w = i) (wi_subs s))"

definition get_wi_row :: "int \<Rightarrow> db \<Rightarrow> wi_sub option" where
  "get_wi_row i s = find (\<lambda>w. w_id w = i) (wi_subs s)"

definition get_wi_by_token :: "string \<Rightarrow> db \<Rightarrow> wi_sub option" where
  "get_wi_by_token tok s = find (\<lambda>w. w_token w = tok) (wi_subs s)"

text \<open>The latest subscription of a user.\<close>

definition get_wi_by_user_id :: "int \<Rightarrow> db \<Rightarrow> wi_sub option" where
  "get_wi_by_user_id uid s =
     (if uid < 1 \<or> MAX_INT32 < uid then None
      else (case sort_key (\<lambda>w. - w_id w) (filter (\<lambda>w. w_user_id w = uid) (wi_subs s)) of
              [] \<Rightarrow> None | w # _ \<Rightarrow> Some w))"

definition has_user_any_subscription :: "int \<Rightarrow> db \<Rightarrow> bool" where
  "has_user_any_subscription uid s \<longleftrightarrow>
     1 \<le> uid \<and> uid \<le> MAX_INT32 \<and> list_ex (\<lambda>w. w_user_id w = uid) (wi_subs s)"

definition has_ever_activated_trial :: "int \<Rightarrow> db \<Rightarrow> bool" where
  "has_ever_activated_trial uid s \<longleftrightarrow>
     1 \<le> uid \<and> uid \<le> MAX_INT32
   \<and> list_ex (\<lambda>ord. o_user_id ord = uid \<and> service_type ord = WHITE_INTERNET
        \<and> o_status ord = Order_PAID
        \<and> (case get_user s uid of
             None \<Rightarrow> True
           | Some u \<Rightarrow> (case last_trial_reset_at u of None \<Rightarrow> True
                        | Some t \<Rightarrow> t < o_created_at ord))
        \<and> o_metadata ord ''is_trial'' = Some (JBool True)) (orders s)"

definition count_active_hwids :: "(string \<times> json) list \<Rightarrow> int \<Rightarrow> instant \<Rightarrow> int" where
  "count_active_hwids hwids ttl_hours now =
     int (length (filter (\<lambda>(h, val). now - hours_us ttl_hours \<le> parse_hwid_last_seen_dt val) hwids))"

definition total_quota :: "wi_sub \<Rightarrow> int" where
  "total_quota w = base_traffic_bytes w + extra_traffic_bytes w"

definition used_quota :: "wi_sub \<Rightarrow> int" where
  "used_quota w = max 0 (traffic_used_bytes w - traffic_overage_bytes w)"

definition get_available_quota_bytes :: "int \<Rightarrow> db \<Rightarrow> int" where
  "get_available_quota_bytes i s =
     (case get_wi_by_id i s of None \<Rightarrow> 0 | Some w \<Rightarrow> max 0 (total_quota w - used_quota w))"

text \<open>The 90 percent mark, in floating point: \<open>0.90 * total_quota\<close>.\<close>

definition ninety_percent :: "int \<Rightarrow> rat" where
  "ninety_percent q = fl (fl (90 / 100) * fl (of_int q))"

definition below_90p :: "wi_sub \<Rightarrow> bool" where
  "below_90p w \<longleftrightarrow> 0 < total_quota w \<and> of_int (used_quota w) < ninety_percent (total_quota w)"

text \<open>An exhausted subscription that got quota again.\<close>

definition wake :: "wi_sub \<Rightarrow> wi_sub" where
  "wake w = w\<lparr>w_status := WI_ACTIVE, status_reason := None,
              desired_version := desired_version w + 1,
              provisioning_status := Node_PENDING_UPDATE\<rparr>"

definition not_found :: "pyerr" where
  "not_found = WhiteInternetSubscriptionNotFoundError"

subsection \<open>Life cycle\<close>

definition expire_subscription_atomic ::
  "int \<Rightarrow> string \<Rightarrow> db \<Rightarrow> pyerr + wi_sub \<times> db" where
  "expire_subscription_atomic i reason s =
     (case get_wi_by_id i s of
        None \<Rightarrow> Inl not_found
      | Some w \<Rightarrow>
          if w_status w \<noteq> WI_EXPIRED \<and> w_status w \<noteq> WI_DISABLED
          then save_wi (w\<lparr>w_status := WI_EXPIRED, status_reason := Some reason,
                          desired_version := desired_version w + 1,
                          provisioning_status := Node_PENDING_DELETE\<rparr>) s
          else Inr (w, s))"

definition cancel_pending_orphan_cleanups_for_client ::
  "int option \<Rightarrow> string \<Rightarrow> db \<Rightarrow> nat \<times> db" where
  "cancel_pending_orphan_cleanups_for_client sid cuuid s =
     (let P = (\<lambda>c. sid \<noteq> None \<and> c_server_id c = sid \<and> client_uuid c = cuuid \<and> \<not> c_done c) in
      (length (filter P (orphans s)),
       s\<lparr>orphans := update_rows P (\<lambda>c. c\<lparr>c_done := True,
            last_error := Some ''Cancelled by re-placement on this origin node''\<rparr>) (orphans s)\<rparr>))"

definition create_white_internet_subscription ::
  "int \<Rightarrow> int \<Rightarrow> string \<Rightarrow> string \<Rightarrow> int \<Rightarrow> int \<Rightarrow> bool \<Rightarrow> instant \<Rightarrow> db \<Rightarrow> pyerr + wi_sub \<times> db"
  where
  "create_white_internet_subscription uid node tok cuuid days base trial now s =
     (let w = \<lparr>w_id = wi_seq s + 1, w_user_id = uid, origin_node_id = Some node, w_token = tok,
            w_uuid = cuuid, w_status = WI_PENDING, status_reason = None, started_at = now,
            expires_at = now + days_us days, base_traffic_bytes = base, extra_traffic_bytes = 0,
            traffic_used_bytes = 0, traffic_uplink_bytes = 0, traffic_downlink_bytes = 0,
            traffic_overage_bytes = 0, last_uplink_snapshot = 0, last_downlink_snapshot = 0,
            traffic_stats_epoch = None, w_active_hwids = [], w_device_limit = 1,
            last_device_reset_at = None, is_trial = trial,
            provisioning_status = Node_PENDING_CREATE, desired_version = 1, actual_version = 0,
            last_reconciled_node_epoch = None, w_last_synced_at = None, last_sync_error = None,
            pending_hard_delete = False, notified_3d = trial, notified_1d = False,
            notified_2h = False, notified_expired = False, notified_90p = False,
            w_created_at = now\<rparr> in
      if \<not> wi_checks w (wi_subs s)
         \<or> list_ex (\<lambda>v. w_token v = tok \<or> w_uuid v = cuuid) (wi_subs s)
      then Inl IntegrityError
      else Inr (w, snd (cancel_pending_orphan_cleanups_for_client (Some node) cuuid
                    (s\<lparr>wi_subs := wi_subs s @ [w], wi_seq := wi_seq s + 1\<rparr>))))"

definition renewed_extra :: "wi_sub \<Rightarrow> instant \<Rightarrow> int" where
  "renewed_extra w now =
     (let total_left = max 0 (total_quota w - used_quota w);
          extra_rollover = min (extra_traffic_bytes w) total_left;
          max_extra_allowed = max 0 (effective_device_limit w * WHITE_INTERNET_MAX_QUOTA_BYTES) in
      if is_trial w then 0
      else if now \<le> expires_at w + days_us 7 then min extra_rollover max_extra_allowed
      else 0)"

definition renew_subscription_atomic ::
  "int \<Rightarrow> int \<Rightarrow> int option \<Rightarrow> int \<Rightarrow> instant \<Rightarrow> db \<Rightarrow> pyerr + wi_sub \<times> db" where
  "renew_subscription_atomic i days base_bytes max_expiry_days now s =
     (case get_wi_by_id i s of
        None \<Rightarrow> Inl not_found
      | Some w \<Rightarrow>
          if w_status w = WI_DISABLED \<or> w_status w = WI_PENDING
          then Inl WhiteInternetInactiveSubscriptionError
          else
            let base_time = (if now < expires_at w then expires_at w else now);
                new_expires_at = base_time + days_us days in
            if now + days_us max_expiry_days < new_expires_at
            then Inl WhiteInternetRenewalHorizonExceededError
            else save_wi
              (w\<lparr>is_trial := False,
                 base_traffic_bytes :=
                   (case base_bytes of
                      Some b \<Rightarrow> b
                    | None \<Rightarrow> effective_device_limit w * WHITE_INTERNET_BASE_TRAFFIC_BYTES),
                 extra_traffic_bytes := renewed_extra w now,
                 expires_at := new_expires_at,
                 w_status := WI_ACTIVE, status_reason := None,
                 desired_version := desired_version w + 1,
                 provisioning_status := Node_PENDING_UPDATE,
                 notified_3d := False, notified_1d := False, notified_2h := False,
                 notified_expired := False, notified_90p := False,
                 traffic_used_bytes := 0, traffic_uplink_bytes := 0,
                 traffic_downlink_bytes := 0, traffic_overage_bytes := 0\<rparr>) s)"

definition extend_subscription_atomic ::
  "int \<Rightarrow> int \<Rightarrow> instant \<Rightarrow> db \<Rightarrow> pyerr + wi_sub \<times> db" where
  "extend_subscription_atomic i days now s =
     (if i < 1 \<or> MAX_INT32 < i then Inl not_found
      else if days < 1
      then Inl (ValueError (''Invalid days to extend: '' @ str_int days @ ''. Must be an integer >= 1.''))
      else (case get_wi_by_id i s of
          None \<Rightarrow> Inl not_found
        | Some w \<Rightarrow>
            if w_status w = WI_DISABLED then Inl WhiteInternetInactiveSubscriptionError
            else if is_trial w then Inl WhiteInternetTrialSubscriptionError
            else
              let is_new_cycle = (expires_at w \<le> now \<or> w_status w = WI_EXPIRED
                    \<or> w_status w = WI_EXHAUSTED \<or> w_status w = WI_PENDING);
                  v = w\<lparr>expires_at := calculate_extension_end (Some (expires_at w)) days now,
                        desired_version := desired_version w + 1\<rparr>;
                  v = (if is_new_cycle
                       then v\<lparr>traffic_used_bytes := 0, traffic_overage_bytes := 0,
                              traffic_uplink_bytes := 0, traffic_downlink_bytes := 0,
                              extra_traffic_bytes := 0, notified_90p := False,
                              w_status := WI_ACTIVE, status_reason := None,
                              provisioning_status := Node_PENDING_UPDATE\<rparr>
                       else v) in
              save_wi (v\<lparr>notified_3d := False, notified_1d := False, notified_2h := False,
                         notified_expired := False\<rparr>) s))"

text \<open>A row is deleted only after its node confirmed the client disabled, or has no node.\<close>

definition node_confirmed :: "wi_sub \<Rightarrow> bool" where
  "node_confirmed w \<longleftrightarrow>
     provisioning_status w = Node_SYNCED_INACTIVE \<and> actual_version w = desired_version w"

definition finalize_hard_delete_subscription :: "int \<Rightarrow> db \<Rightarrow> bool \<times> db" where
  "finalize_hard_delete_subscription i s =
     (case get_wi_by_id i s of
        None \<Rightarrow> (False, s)
      | Some w \<Rightarrow>
          if \<not> pending_hard_delete w then (False, s)
          else if w_status w \<noteq> WI_DISABLED then (False, s)
          else if \<not> (node_confirmed w \<or> origin_node_id w = None) then (False, s)
          else (True, s\<lparr>wi_subs := filter (\<lambda>v. w_id v \<noteq> i) (wi_subs s)\<rparr>))"

subsection \<open>Quota\<close>

definition add_device_slot_atomic ::
  "int \<Rightarrow> int \<Rightarrow> int \<Rightarrow> int \<Rightarrow> instant \<Rightarrow> db \<Rightarrow> pyerr + wi_sub \<times> db" where
  "add_device_slot_atomic i extra_bytes max_devices max_quota_bytes now s =
     (case get_wi_by_id i s of
        None \<Rightarrow> Inl not_found
      | Some w \<Rightarrow>
          if is_trial w then Inl WhiteInternetTrialSubscriptionError
          else if w_status w = WI_DISABLED \<or> w_status w = WI_PENDING
          then Inl WhiteInternetInactiveSubscriptionError
          else if w_status w = WI_EXPIRED \<or> expires_at w \<le> now
          then Inl WhiteInternetInactiveSubscriptionError
          else if max_devices \<le> effective_device_limit w
          then Inl WhiteInternetDeviceLimitExceededError
          else
            let new_device_limit = effective_device_limit w + 1 in
            if new_device_limit * max_quota_bytes < extra_traffic_bytes w + extra_bytes
            then Inl WhiteInternetQuotaCapExceededError
            else
              let v = w\<lparr>w_device_limit := new_device_limit,
                        extra_traffic_bytes := extra_traffic_bytes w + extra_bytes\<rparr> in
              save_wi (if w_status v = WI_EXHAUSTED then wake v else v) s)"

definition topup_quota_atomic :: "int \<Rightarrow> int \<Rightarrow> instant \<Rightarrow> db \<Rightarrow> pyerr + int \<times> db" where
  "topup_quota_atomic i pack_gb now s =
     (case get_wi_by_id i s of
        None \<Rightarrow> Inl not_found
      | Some w \<Rightarrow>
          if is_trial w then Inl WhiteInternetTrialSubscriptionError
          else if w_status w = WI_PENDING \<or> w_status w = WI_DISABLED
          then Inl WhiteInternetInactiveSubscriptionError
          else if w_status w = WI_EXPIRED \<or> expires_at w \<le> now
          then Inl WhiteInternetInactiveSubscriptionError
          else
            let pack_bytes = pack_gb * 1024 * 1024 * 1024 in
            if effective_device_limit w * WHITE_INTERNET_MAX_QUOTA_BYTES
                 < extra_traffic_bytes w + pack_bytes
            then Inl WhiteInternetQuotaCapExceededError
            else
              let v = w\<lparr>extra_traffic_bytes := extra_traffic_bytes w + pack_bytes\<rparr>;
                  v = (if w_status v = WI_EXHAUSTED then wake v else v);
                  v = (if below_90p v then v\<lparr>notified_90p := False\<rparr> else v) in
              and_then (save_wi v s) (\<lambda>_ s. Inr (pack_bytes, s)))"

definition exhaust :: "wi_sub \<Rightarrow> wi_sub" where
  "exhaust w = w\<lparr>w_status := WI_EXHAUSTED, status_reason := Some ''quota_exhausted'',
                 desired_version := desired_version w + 1,
                 provisioning_status := Node_PENDING_UPDATE\<rparr>"

definition deduct_traffic_atomic ::
  "int \<Rightarrow> int \<Rightarrow> int \<Rightarrow> int \<Rightarrow> db \<Rightarrow> pyerr + (int \<times> bool \<times> int) \<times> db" where
  "deduct_traffic_atomic i delta_bytes delta_uplink delta_downlink s =
     (if delta_bytes \<le> 0 then Inr ((0, False, 0), s)
      else (case get_wi_by_id i s of
          None \<Rightarrow> Inl not_found
        | Some w \<Rightarrow>
            let available_before = max 0 (total_quota w - used_quota w);
                closed = (w_status w = WI_DISABLED \<or> w_status w = WI_EXPIRED);
                overage = (if closed then delta_bytes else max 0 (delta_bytes - available_before));
                consumed = (if closed then 0 else min delta_bytes available_before);
                v = w\<lparr>traffic_used_bytes := traffic_used_bytes w + delta_bytes,
                      traffic_overage_bytes := traffic_overage_bytes w + overage,
                      traffic_uplink_bytes := traffic_uplink_bytes w + max 0 delta_uplink,
                      traffic_downlink_bytes := traffic_downlink_bytes w + max 0 delta_downlink\<rparr>;
                became_exhausted = (max 0 (total_quota w - used_quota v) = 0 \<and> w_status v = WI_ACTIVE) in
            and_then (save_wi (if became_exhausted then exhaust v else v) s)
              (\<lambda>_ s. Inr ((consumed, became_exhausted, overage), s))))"

text \<open>
  The counters of the node since its last report; a counter that went down was reset, so
  its whole value is new traffic.  Only the downlink is metered.
\<close>

definition counter_delta :: "int \<Rightarrow> int \<Rightarrow> int" where
  "counter_delta before after = (if after - before < 0 then max 0 after else after - before)"

definition record_and_deduct_traffic_atomic ::
  "int \<Rightarrow> string \<Rightarrow> int \<Rightarrow> int \<Rightarrow> int option \<Rightarrow> int option \<Rightarrow> db
   \<Rightarrow> pyerr + (int \<times> bool \<times> int \<times> string option) \<times> db" where
  "record_and_deduct_traffic_atomic i node_epoch up_after down_after up_before down_before s =
     (case get_wi_by_id i s of
        None \<Rightarrow> Inl not_found
      | Some w \<Rightarrow>
          let delta_uplink = counter_delta
                (case up_before of Some x \<Rightarrow> x | None \<Rightarrow> last_uplink_snapshot w) up_after;
              delta_downlink = counter_delta
                (case down_before of Some x \<Rightarrow> x | None \<Rightarrow> last_downlink_snapshot w) down_after;
              available_before = max 0 (total_quota w - used_quota w) in
          if delta_uplink \<le> 0 \<and> delta_downlink \<le> 0
          then Inr ((0, False, available_before, None), s)
          else
            let consumed_delta = max 0 delta_downlink;
                closed = (w_status w = WI_DISABLED \<or> w_status w = WI_EXPIRED);
                overage = (if closed then consumed_delta
                           else max 0 (consumed_delta - available_before));
                v = w\<lparr>traffic_used_bytes := traffic_used_bytes w + consumed_delta,
                      traffic_overage_bytes := traffic_overage_bytes w + overage,
                      traffic_uplink_bytes := traffic_uplink_bytes w + delta_uplink,
                      traffic_downlink_bytes := traffic_downlink_bytes w + delta_downlink,
                      last_uplink_snapshot := up_after,
                      last_downlink_snapshot := down_after,
                      traffic_stats_epoch := Some node_epoch\<rparr>;
                available_after = max 0 (total_quota w - used_quota v) in
            if available_after = 0 \<and> w_status v = WI_ACTIVE
            then and_then (save_wi ((exhaust v)\<lparr>notified_90p := True\<rparr>) s)
                   (\<lambda>_ s. Inr ((consumed_delta, True, available_after, None), s))
            else
              let event = (if 0 < total_quota w \<and> w_status v = WI_ACTIVE \<and> \<not> notified_90p v
                              \<and> ninety_percent (total_quota w) \<le> of_int (used_quota v)
                           then Some ''traffic_90p'' else None) in
              and_then (save_wi v s)
                (\<lambda>_ s. Inr ((consumed_delta, False, available_after, event), s)))"

definition adjustable :: "wi_sub \<Rightarrow> bool" where
  "adjustable w \<longleftrightarrow> w_status w = WI_ACTIVE \<or> w_status w = WI_EXHAUSTED \<or> w_status w = WI_PENDING"

definition reset_traffic_used_atomic :: "int \<Rightarrow> db \<Rightarrow> pyerr + wi_sub \<times> db" where
  "reset_traffic_used_atomic i s =
     (case get_wi_by_id i s of
        None \<Rightarrow> Inl not_found
      | Some w \<Rightarrow>
          if is_trial w then Inl WhiteInternetTrialSubscriptionError
          else if w_status w \<noteq> WI_ACTIVE \<and> w_status w \<noteq> WI_EXHAUSTED
          then Inl WhiteInternetInactiveSubscriptionError
          else
            let v = w\<lparr>traffic_used_bytes := 0, traffic_overage_bytes := 0,
                      traffic_uplink_bytes := 0, traffic_downlink_bytes := 0,
                      notified_90p := False\<rparr> in
            save_wi (if w_status v = WI_EXHAUSTED then wake v else v) s)"

definition after_quota_change :: "wi_sub \<Rightarrow> wi_sub" where
  "after_quota_change v =
     (let v = (if w_status v = WI_EXHAUSTED \<and> used_quota v < total_quota v then wake v else v) in
      if below_90p v then v\<lparr>notified_90p := False\<rparr> else v)"

definition add_extra_traffic_atomic :: "int \<Rightarrow> int \<Rightarrow> db \<Rightarrow> pyerr + wi_sub \<times> db" where
  "add_extra_traffic_atomic i extra_bytes s =
     (if extra_bytes \<le> 0 then Inl (WhiteInternetError ''Extra traffic bytes must be positive'')
      else (case get_wi_by_id i s of
          None \<Rightarrow> Inl not_found
        | Some w \<Rightarrow>
            if is_trial w then Inl WhiteInternetTrialSubscriptionError
            else if \<not> adjustable w then Inl WhiteInternetInactiveSubscriptionError
            else
              let v = w\<lparr>extra_traffic_bytes := extra_traffic_bytes w + extra_bytes\<rparr> in
              if effective_device_limit w * WHITE_INTERNET_MAX_QUOTA_BYTES < extra_traffic_bytes v
              then Inl WhiteInternetQuotaCapExceededError
              else save_wi (after_quota_change v) s))"

definition set_base_traffic_quota_atomic :: "int \<Rightarrow> int \<Rightarrow> db \<Rightarrow> pyerr + wi_sub \<times> db" where
  "set_base_traffic_quota_atomic i base_bytes s =
     (if base_bytes \<le> 0 then Inl (WhiteInternetError ''Base traffic quota must be positive'')
      else (case get_wi_by_id i s of
          None \<Rightarrow> Inl not_found
        | Some w \<Rightarrow>
            if is_trial w then Inl WhiteInternetTrialSubscriptionError
            else if \<not> adjustable w then Inl WhiteInternetInactiveSubscriptionError
            else if effective_device_limit w * WHITE_INTERNET_MAX_QUOTA_BYTES < base_bytes
            then Inl WhiteInternetQuotaCapExceededError
            else save_wi (after_quota_change (w\<lparr>base_traffic_bytes := base_bytes\<rparr>)) s))"

end
