(* ===== verification/WI_Devices.thy ===== *)
theory WI_Devices
  imports WI_Repo
begin

section \<open>white\_internet\_repo.py: devices, tokens and the cleanup outbox\<close>

text \<open>
  The devices of a subscription are a JSON dict from hardware id to when it was last seen,
  kept in the order of insertion; \<open>dict_set\<close> is an assignment to a key.
\<close>

subsection \<open>Dicts\<close>

fun dict_set :: "'k \<Rightarrow> 'v \<Rightarrow> ('k \<times> 'v) list \<Rightarrow> ('k \<times> 'v) list" where
  "dict_set k v [] = [(k, v)]"
| "dict_set k v ((k', v') # xs) = (if k' = k then (k, v) # xs else (k', v') # dict_set k v xs)"

lemma dict_set_keys:
  "map fst (dict_set k v xs) = map fst xs @ (if k \<in> set (map fst xs) then [] else [k])"
  by (induction xs) force+

lemma length_dict_set:
  "length (dict_set k v xs) = length xs + (if k \<in> set (map fst xs) then 0 else 1)"
  by (induction xs) force+

lemma map_of_dict_set [simp]: "map_of (dict_set k v xs) = (map_of xs)(k \<mapsto> v)"
  by (induction xs) auto

lemma set_dict_set: "set (dict_set k v xs) \<subseteq> insert (k, v) (set xs)"
  by (induction xs) (auto split: if_split_asm)

subsection \<open>Registering a device\<close>

text \<open>The text fields of \<open>device_info\<close> that are kept, stripped and cut to 64 characters.\<close>

definition info_fields :: "(string \<times> json) list \<Rightarrow> (string \<times> json) list" where
  "info_fields info = concat (map (\<lambda>(k, v).
     (case v of JStr x \<Rightarrow> if py_strip x \<noteq> [] then [(k, JStr (take 64 (py_strip x)))] else []
      | _ \<Rightarrow> [])) info)"

definition enrich :: "(string \<times> json) list \<Rightarrow> (string \<times> json) list \<Rightarrow> (string \<times> json) list" where
  "enrich info entry = fold (\<lambda>(k, v). dict_set k v) (info_fields info) entry"

definition fresh_hwids :: "(string \<times> json) list \<Rightarrow> int \<Rightarrow> instant \<Rightarrow> (string \<times> json) list" where
  "fresh_hwids hwids ttl_hours now =
     filter (\<lambda>(h, val). now - hours_us ttl_hours \<le> parse_hwid_last_seen_dt val) hwids"

text \<open>The most recently seen devices, when there are more than the limit.\<close>

definition lru_prune :: "int \<Rightarrow> (string \<times> json) list \<Rightarrow> (string \<times> json) list" where
  "lru_prune limit hwids =
     (if limit < int (length hwids)
      then take (nat limit) (sort_key (\<lambda>h. - parse_hwid_last_seen_dt (snd h)) hwids)
      else hwids)"

definition recently_seen :: "json \<Rightarrow> instant \<Rightarrow> bool" where
  "recently_seen prev now \<longleftrightarrow>
     parse_hwid_last_seen_dt prev \<noteq> datetime_min
   \<and> 0 \<le> now - parse_hwid_last_seen_dt prev
   \<and> total_seconds (now - parse_hwid_last_seen_dt prev) < 900"

text \<open>What a known device's value becomes; \<open>None\<close> when the row is left alone.\<close>

definition refresh_hwid ::
  "json \<Rightarrow> (string \<times> json) list \<Rightarrow> bool \<Rightarrow> instant \<Rightarrow> json option" where
  "refresh_hwid prev info pruned now =
     (case prev of
        JObj kvs \<Rightarrow>
          let changed = list_ex (\<lambda>(k, v). map_of kvs k \<noteq> Some v) (info_fields info) in
          if recently_seen prev now \<and> \<not> pruned \<and> \<not> changed then None
          else Some (JObj (enrich info (dict_set ''last_seen'' (JTime now) kvs)))
      | _ \<Rightarrow>
          if info \<noteq> [] then Some (JObj (enrich info [(''last_seen'', JTime now)]))
          else if \<not> pruned \<and> recently_seen prev now then None
          else Some (JTime now))"

definition register_hwid_atomic ::
  "int \<Rightarrow> string \<Rightarrow> int \<Rightarrow> int \<Rightarrow> (string \<times> json) list \<Rightarrow> instant \<Rightarrow> db
   \<Rightarrow> pyerr + (bool \<times> int \<times> int) \<times> db" where
  "register_hwid_atomic i hwid max_devices ttl_hours info now s =
     (case get_wi_row i s of
        None \<Rightarrow> Inr ((False, 0, max_devices), s)
      | Some w \<Rightarrow>
          let limit = (if 0 < w_device_limit w then w_device_limit w else max 1 max_devices);
              fresh = fresh_hwids (w_active_hwids w) ttl_hours now;
              clean = take 128 (py_strip hwid) in
          if clean = [] then Inr ((False, int (length fresh), limit), s)
          else
            let active = lru_prune limit fresh in
            (case map_of active clean of
               Some prev \<Rightarrow>
                 (case refresh_hwid prev info (length active \<noteq> length (w_active_hwids w)) now of
                    None \<Rightarrow> Inr ((True, int (length active), limit), s)
                  | Some val \<Rightarrow>
                      and_then (save_wi (w\<lparr>w_active_hwids := dict_set clean val active\<rparr>) s)
                        (\<lambda>_ s. Inr ((True, int (length active), limit), s)))
             | None \<Rightarrow>
                 if limit \<le> int (length active)
                 then and_then (save_wi (w\<lparr>w_active_hwids := active\<rparr>) s)
                        (\<lambda>_ s. Inr ((False, int (length active), limit), s))
                 else
                   let val = (if info \<noteq> [] then JObj (enrich info [(''last_seen'', JTime now)])
                              else JTime now);
                       registered = dict_set clean val active in
                   and_then (save_wi (w\<lparr>w_active_hwids := registered\<rparr>) s)
                     (\<lambda>_ s. Inr ((True, int (length registered), limit), s))))"

subsection \<open>Resets and the device limit\<close>

definition reset_active_hwids_atomic ::
  "int \<Rightarrow> int \<Rightarrow> instant \<Rightarrow> db \<Rightarrow> pyerr + bool \<times> db" where
  "reset_active_hwids_atomic i cooldown_seconds now s =
     (case get_wi_row i s of
        None \<Rightarrow> Inr (False, s)
      | Some w \<Rightarrow>
          (case last_device_reset_at w of
             Some last_reset \<Rightarrow>
               let elapsed = total_seconds (now - last_reset) in
               if elapsed < of_int cooldown_seconds
               then Inl (WhiteInternetResetCooldownError
                      (trunc_rat (fl (of_int cooldown_seconds - elapsed))))
               else and_then (save_wi (w\<lparr>w_active_hwids := [], last_device_reset_at := Some now\<rparr>) s)
                      (\<lambda>_ s. Inr (True, s))
           | None \<Rightarrow>
               and_then (save_wi (w\<lparr>w_active_hwids := [], last_device_reset_at := Some now\<rparr>) s)
                 (\<lambda>_ s. Inr (True, s))))"

text \<open>\<open>fresh_token\<close> is the value \<open>secrets.token_hex\<close> returns; tokens are unique.\<close>

definition reset_subscription_token_atomic ::
  "int \<Rightarrow> string option \<Rightarrow> bool \<Rightarrow> string \<Rightarrow> instant \<Rightarrow> db \<Rightarrow> pyerr + string \<times> db" where
  "reset_subscription_token_atomic i new_token reset_hwids fresh_token now s =
     (case get_wi_row i s of
        None \<Rightarrow> Inl not_found
      | Some w \<Rightarrow>
          let token = (case new_token of Some x \<Rightarrow> if x \<noteq> [] then x else fresh_token
                                       | None \<Rightarrow> fresh_token);
              v = w\<lparr>w_token := token\<rparr>;
              v = (if reset_hwids then v\<lparr>w_active_hwids := [], last_device_reset_at := Some now\<rparr>
                   else v) in
          if list_ex (\<lambda>x. w_id x \<noteq> i \<and> w_token x = token) (wi_subs s) then Inl IntegrityError
          else and_then (save_wi v s) (\<lambda>_ s. Inr (token, s)))"

definition set_device_limit_atomic :: "int \<Rightarrow> int \<Rightarrow> db \<Rightarrow> pyerr + wi_sub \<times> db" where
  "set_device_limit_atomic i limit s =
     (if limit < 1 \<or> WHITE_INTERNET_MAX_DEVICE_LIMIT < limit
      then Inl WhiteInternetDeviceLimitExceededError
      else (case get_wi_row i s of
          None \<Rightarrow> Inl not_found
        | Some w \<Rightarrow>
            if is_trial w then Inl WhiteInternetTrialSubscriptionError
            else save_wi (w\<lparr>w_device_limit := limit,
                   extra_traffic_bytes :=
                     min (extra_traffic_bytes w) (limit * WHITE_INTERNET_MAX_QUOTA_BYTES),
                   w_active_hwids := lru_prune limit (w_active_hwids w)\<rparr>) s))"

subsection \<open>The outbox of cleanups\<close>

definition enqueue_orphan_cleanup ::
  "int option \<Rightarrow> string \<Rightarrow> int \<Rightarrow> db \<Rightarrow> orphan_cleanup \<times> db" where
  "enqueue_orphan_cleanup sid cuuid ver s =
     (let c = \<lparr>c_id = orphan_seq s + 1, c_server_id = sid, client_uuid = cuuid,
               c_desired_version = ver, attempts = 0, c_done = False, last_error = None\<rparr> in
      (c, s\<lparr>orphans := orphans s @ [c], orphan_seq := orphan_seq s + 1\<rparr>))"

definition mark_orphan_cleanup_done :: "int \<Rightarrow> db \<Rightarrow> db" where
  "mark_orphan_cleanup_done i s =
     s\<lparr>orphans := update_rows (\<lambda>c. c_id c = i \<and> \<not> c_done c)
        (\<lambda>c. c\<lparr>c_done := True, last_error := None\<rparr>) (orphans s)\<rparr>"

definition mark_orphan_cleanup_failed :: "int \<Rightarrow> string \<Rightarrow> db \<Rightarrow> db" where
  "mark_orphan_cleanup_failed i err s =
     s\<lparr>orphans := update_rows (\<lambda>c. c_id c = i \<and> \<not> c_done c)
        (\<lambda>c. c\<lparr>attempts := attempts c + 1, last_error := Some (take 500 err)\<rparr>) (orphans s)\<rparr>"

subsection \<open>A device is never registered beyond the limit\<close>

lemma length_lru_prune: "0 < limit \<Longrightarrow> int (length (lru_prune limit hs)) \<le> limit"
  by (simp add: lru_prune_def)

lemma set_lru_prune: "set (lru_prune limit hs) \<subseteq> set hs"
  by (auto simp: lru_prune_def dest: in_set_takeD)

lemma save_wi_Inr: "save_wi w s = Inr (x, t) \<longleftrightarrow> x = w \<and> t = set_wi_sub w s \<and> wi_checks w (wi_subs s)"
  by (auto simp: save_wi_def)

end
