(* ===== verification/Order_Rows.thy ===== *)
theory Order_Rows
  imports WI_Devices
begin

section \<open>Rows of the orders table\<close>

text \<open>
  Inserting and flushing an order, its cancellation (\<open>OrderService.mark_order_canceled\<close>, which
  the wallet checkout calls too) and the notification flags of
  \<open>services/order\_notifications.py\<close>.
\<close>

definition uq_orders_external_id :: "order \<Rightarrow> order list \<Rightarrow> bool" where
  "uq_orders_external_id ord os \<longleftrightarrow>
     external_id ord = None
   \<or> \<not> list_ex (\<lambda>x. o_id x \<noteq> o_id ord \<and> external_id x = external_id ord) os"

definition order_checks :: "order \<Rightarrow> order list \<Rightarrow> bool" where
  "order_checks ord os \<longleftrightarrow> ck_orders_amount_rub ord \<and> uq_orders_external_id ord os"

definition add_order :: "order \<Rightarrow> db \<Rightarrow> pyerr + order \<times> db" where
  "add_order ord s =
     (if \<not> order_checks ord (orders s) \<or> get_order s (o_id ord) \<noteq> None then Inl IntegrityError
      else Inr (ord, s\<lparr>orders := orders s @ [ord]\<rparr>))"

definition save_order :: "order \<Rightarrow> db \<Rightarrow> pyerr + order \<times> db" where
  "save_order ord s =
     (if order_checks ord (orders s) then Inr (ord, set_order ord s) else Inl IntegrityError)"

definition meta_default :: "meta \<Rightarrow> string \<Rightarrow> json \<Rightarrow> meta" where
  "meta_default m k v = (case m k of None \<Rightarrow> m(k \<mapsto> v) | Some _ \<Rightarrow> m)"

definition mark_order_canceled :: "order \<Rightarrow> string \<Rightarrow> order" where
  "mark_order_canceled ord reason =
     (if o_status ord = Order_PENDING
      then ord\<lparr>o_status := Order_CANCELED,
               o_metadata := meta_default (o_metadata ord) ''cancellation_reason'' (JStr reason)\<rparr>
      else if o_status ord = Order_CANCELED
      then ord\<lparr>o_metadata := meta_default (o_metadata ord) ''cancellation_reason'' (JStr reason)\<rparr>
      else ord)"

text \<open>The cancellation a later payment never revives.\<close>

definition gateway_canceled :: "order \<Rightarrow> bool" where
  "gateway_canceled ord \<longleftrightarrow>
     o_metadata ord ''cancellation_reason'' = Some (JStr ''gateway_canceled'')"

subsection \<open>services/order\_notifications.py\<close>

definition mark_notify_pending :: "order \<Rightarrow> order" where
  "mark_notify_pending ord =
     ord\<lparr>o_metadata := (o_metadata ord)(''late_notify_pending'' \<mapsto> JBool True,
                          ''late_notify_attempts'' := None)\<rparr>"

definition mark_notified :: "order \<Rightarrow> order" where
  "mark_notified ord =
     ord\<lparr>o_metadata := (o_metadata ord)(''late_notify_pending'' := None,
                          ''late_notify_attempts'' := None)\<rparr>"

definition mark_referrer_notified :: "order \<Rightarrow> order" where
  "mark_referrer_notified ord =
     ord\<lparr>o_metadata := (o_metadata ord)(''referrer_notify_pending'' := None,
                          ''referrer_notify_attempts'' := None)\<rparr>"

subsection \<open>What they keep\<close>

lemma mark_order_canceled_sel [simp]:
  "o_id (mark_order_canceled ord r) = o_id ord"
  "o_user_id (mark_order_canceled ord r) = o_user_id ord"
  "amount_rub (mark_order_canceled ord r) = amount_rub ord"
  "external_id (mark_order_canceled ord r) = external_id ord"
  "service_type (mark_order_canceled ord r) = service_type ord"
  by (simp_all add: mark_order_canceled_def)

lemma mark_notify_pending_sel [simp]:
  "o_id (mark_notify_pending ord) = o_id ord"
  "o_user_id (mark_notify_pending ord) = o_user_id ord"
  "amount_rub (mark_notify_pending ord) = amount_rub ord"
  "external_id (mark_notify_pending ord) = external_id ord"
  "service_type (mark_notify_pending ord) = service_type ord"
  "o_status (mark_notify_pending ord) = o_status ord"
  "payment_method (mark_notify_pending ord) = payment_method ord"
  by (simp_all add: mark_notify_pending_def)

lemma save_order_Inr:
  "save_order ord s = Inr (x, t) \<longleftrightarrow> x = ord \<and> t = set_order ord s \<and> order_checks ord (orders s)"
  by (auto simp: save_order_def)

lemma add_order_Inr:
  "add_order ord s = Inr (x, t) \<longleftrightarrow> x = ord \<and> t = s\<lparr>orders := orders s @ [ord]\<rparr>
     \<and> order_checks ord (orders s) \<and> get_order s (o_id ord) = None"
  by (auto simp: add_order_def)

end
