(* ===== verification/Order_Evolution.thy ===== *)
theory Order_Evolution
  imports Referral_Theorems Order_Rows
begin

section \<open>How an order may change, and what every request keeps\<close>

text \<open>
  The abstract specification of the orders table: the terms of an order never change and its
  status moves along \<open>order_edge\<close>, where a cancellation by the payment provider is final.
  \<open>evolves\<close> is what every request must satisfy: orders move that way, and the
  invariants of the ledger, of the orders and of the White Internet rows are kept.
  \<open>quiet\<close> is the special case of a step that touches neither orders nor money.
\<close>

subsection \<open>The state machine of an order\<close>

inductive order_edge :: "OrderStatus \<Rightarrow> OrderStatus \<Rightarrow> bool" where
  pay: "order_edge Order_PENDING Order_PAID"
| cancel: "order_edge Order_PENDING Order_CANCELED"
| revive: "order_edge Order_CANCELED Order_PAID"
| refund: "order_edge Order_PAID Order_REFUNDED"

inductive_simps order_edge_refunded_step: "order_edge Order_REFUNDED st"
inductive_simps order_edge_paid_step: "order_edge Order_PAID st"

lemma order_edge_refunded: "order_edge\<^sup>*\<^sup>* Order_REFUNDED st \<longleftrightarrow> st = Order_REFUNDED"
  by (metis converse_rtranclpE order_edge_refunded_step rtranclp.rtrancl_refl)

lemma order_edge_paid:
  "order_edge\<^sup>*\<^sup>* Order_PAID st \<longleftrightarrow> st = Order_PAID \<or> st = Order_REFUNDED"
  by (metis converse_rtranclpE order_edge_paid_step order_edge_refunded rtranclp.simps)

text \<open>What was agreed when the order was made.\<close>

definition order_terms ::
  "order \<Rightarrow> uuid \<times> int \<times> OrderServiceType \<times> int option \<times> money \<times> int \<times> int \<times> int option \<times> string \<times> instant"
  where
  "order_terms ord = (o_id ord, o_user_id ord, service_type ord, tariff_id ord, amount_rub ord,
     duration_days ord, traffic_bytes ord, o_device_limit ord, payment_method ord,
     o_created_at ord)"

definition order_evolves :: "order \<Rightarrow> order \<Rightarrow> bool" where
  "order_evolves ord ord' \<longleftrightarrow>
     order_terms ord' = order_terms ord \<and> order_edge\<^sup>*\<^sup>* (o_status ord) (o_status ord')
   \<and> (o_status ord = Order_CANCELED \<and> gateway_canceled ord
        \<longrightarrow> o_status ord' = Order_CANCELED \<and> gateway_canceled ord')"

lemma order_evolves_refl [simp, intro]: "order_evolves ord ord"
  by (simp add: order_evolves_def)

lemma order_evolves_trans [trans]:
  "order_evolves a b \<Longrightarrow> order_evolves b c \<Longrightarrow> order_evolves a c"
  unfolding order_evolves_def by (metis rtranclp_trans)

lemma order_evolves_id: "order_evolves a b \<Longrightarrow> o_id b = o_id a \<and> o_user_id b = o_user_id a"
  by (simp add: order_evolves_def order_terms_def)

lemma order_evolves_refunded:
  "order_evolves a b \<Longrightarrow> o_status a = Order_REFUNDED \<Longrightarrow> o_status b = Order_REFUNDED"
  by (simp add: order_evolves_def order_edge_refunded)

text \<open>A change of the metadata that leaves the reason of a cancellation alone.\<close>

lemma order_evolves_same_status:
  "order_terms b = order_terms a \<Longrightarrow> o_status b = o_status a \<Longrightarrow>
   o_metadata b ''cancellation_reason'' = o_metadata a ''cancellation_reason'' \<Longrightarrow> order_evolves a b"
  by (simp add: order_evolves_def gateway_canceled_def)

subsection \<open>Invariants of the tables\<close>

definition orders_ok :: "db \<Rightarrow> bool" where
  "orders_ok s \<longleftrightarrow> distinct (map o_id (orders s))
   \<and> (\<forall>x\<in>set (orders s). order_checks x (orders s))"

definition wi_row_ok :: "wi_sub \<Rightarrow> bool" where
  "wi_row_ok w \<longleftrightarrow> ck_white_internet_subscriptions_traffic_nonnegative w
     \<and> ck_white_internet_subscriptions_device_limit w"

definition wi_ok :: "db \<Rightarrow> bool" where
  "wi_ok s \<longleftrightarrow> distinct (map w_id (wi_subs s))
   \<and> (\<forall>w\<in>set (wi_subs s). w_id w \<le> wi_seq s \<and> wi_checks w (wi_subs s))"

definition evolves :: "db \<Rightarrow> db \<Rightarrow> bool" where
  "evolves s t \<longleftrightarrow>
     (\<forall>i ord. get_order s i = Some ord \<longrightarrow>
        (\<exists>ord'. get_order t i = Some ord' \<and> order_evolves ord ord'))
   \<and> (ledger_inv s \<longrightarrow> ledger_inv t) \<and> (orders_ok s \<longrightarrow> orders_ok t) \<and> (wi_ok s \<longrightarrow> wi_ok t)"

lemma evolves_refl [simp, intro]: "evolves s s"
  by (auto simp: evolves_def)

lemma evolves_trans [trans]: "evolves s t \<Longrightarrow> evolves t u \<Longrightarrow> evolves s u"
proof -
  assume st: "evolves s t" and tu: "evolves t u"
  have "\<exists>ord'. get_order u i = Some ord' \<and> order_evolves ord ord'"
    if ord: "get_order s i = Some ord" for i ord
  proof -
    obtain a where a: "get_order t i = Some a" "order_evolves ord a"
      using st ord unfolding evolves_def by blast
    then obtain b where "get_order u i = Some b" "order_evolves a b"
      using tu unfolding evolves_def by blast
    then show ?thesis
      using order_evolves_trans [OF a(2)] by blast
  qed
  then show "evolves s u"
    using st tu by (simp add: evolves_def)
qed

lemma evolvesD:
  assumes "evolves s t" and "get_order s i = Some ord"
  obtains ord' where "get_order t i = Some ord'" and "order_evolves ord ord'"
  using assms unfolding evolves_def by blast

lemma evolves_owner:
  assumes "evolves s t" and "order_owner s i = Some uid"
  shows "order_owner t i = Some uid"
proof -
  obtain ord where "get_order s i = Some ord" and "o_user_id ord = uid"
    using assms(2) by (auto simp: order_owner_def)
  then show ?thesis
    using evolvesD [OF assms(1)] order_evolves_id by (metis option.map(2) order_owner_def)
qed

definition quiet :: "db \<Rightarrow> db \<Rightarrow> bool" where
  "quiet s t \<longleftrightarrow> orders t = orders s \<and> entries t = entries s \<and> allocs t = allocs s
     \<and> entry_seq t = entry_seq s \<and> (wi_ok s \<longrightarrow> wi_ok t)"

lemma quiet_refl [simp, intro]: "quiet s s"
  by (simp add: quiet_def)

lemma quiet_trans [trans]: "quiet s t \<Longrightarrow> quiet t u \<Longrightarrow> quiet s u"
  by (auto simp: quiet_def)

lemma quiet_get_order: "quiet s t \<Longrightarrow> get_order t = get_order s"
  by (simp add: quiet_def get_order_def fun_eq_iff)

lemma orders_ok_cong: "orders t = orders s \<Longrightarrow> orders_ok t = orders_ok s"
  by (simp add: orders_ok_def)

lemma wi_ok_cong: "wi_subs t = wi_subs s \<Longrightarrow> wi_seq t = wi_seq s \<Longrightarrow> wi_ok t = wi_ok s"
  by (simp add: wi_ok_def)

text \<open>A step of the ledger: orders and subscriptions stay as they are.\<close>

lemma evolves_ledger:
  assumes "orders t = orders s" and "wi_ok s \<Longrightarrow> wi_ok t" and "ledger_inv s \<Longrightarrow> ledger_inv t"
  shows "evolves s t"
proof -
  have "get_order t = get_order s"
    using assms(1) by (simp add: get_order_def fun_eq_iff)
  then show ?thesis
    using assms orders_ok_cong [OF assms(1)] by (auto simp: evolves_def)
qed

lemma quiet_evolves: "quiet s t \<Longrightarrow> evolves s t"
proof (rule evolves_ledger)
  assume q: "quiet s t"
  show "ledger_inv t" if "ledger_inv s"
    using q quiet_get_order [OF q]
    by (intro ledger_inv_cong [OF _ _ _ _ that]) (auto simp: quiet_def order_owner_def)
qed (auto simp: quiet_def)

subsection \<open>Writing an order\<close>

lemma find_update_self:
  "find (\<lambda>v. k v = i) (update_rows (\<lambda>v. k v = i) (\<lambda>_. x) xs) =
     (if k x = i then map_option (\<lambda>_. x) (find (\<lambda>v. k v = i) xs)
      else None)"
  by (induction xs) auto

lemma orders_ok_set_order:
  assumes ok: "orders_ok s" and chk: "order_checks ord (orders s)"
  shows "orders_ok (set_order ord s)"
proof -
  let ?os = "update_rows (\<lambda>v. o_id v = o_id ord) (\<lambda>_. ord) (orders s)"
  have "map o_id ?os = map o_id (orders s)"
    by (rule map_update_rows) simp
  moreover have "order_checks x ?os" if x: "x \<in> set ?os" for x
  proof (cases "o_id x = o_id ord")
    case True
    then have "x = ord"
      using x by (auto simp: set_update_rows split: if_split_asm)
    then show ?thesis
      using chk
      by (auto simp: order_checks_def uq_orders_external_id_def list_ex_iff set_update_rows
          split: if_split_asm)
  next
    case False
    then have "x \<in> set (orders s)"
      using x by (auto simp: set_update_rows split: if_split_asm)
    then have "order_checks x (orders s)"
      using ok by (simp add: orders_ok_def)
    moreover have "external_id x \<noteq> external_id ord" if "external_id x \<noteq> None"
      using chk False \<open>x \<in> set (orders s)\<close> that
      by (auto simp: order_checks_def uq_orders_external_id_def list_ex_iff)
    ultimately show ?thesis
      using False
      by (auto simp: order_checks_def uq_orders_external_id_def list_ex_iff set_update_rows
          split: if_split_asm)
  qed
  ultimately show ?thesis
    using ok by (simp add: orders_ok_def set_order_def)
qed

lemma order_checks_stored:
  assumes "orders_ok s" and "get_order s i = Some ord"
  shows "order_checks ord (orders s)"
  using assms by (auto simp: orders_ok_def get_order_def dest: find_SomeD)

lemma order_checks_same:
  "order_checks ord os \<Longrightarrow> order_terms ord' = order_terms ord \<Longrightarrow> external_id ord' = external_id ord \<Longrightarrow>
   order_checks ord' os"
  by (simp add: order_checks_def ck_orders_amount_rub_def uq_orders_external_id_def order_terms_def)

lemma set_order_evolves:
  assumes "get_order s (o_id ord') = Some ord" and "order_evolves ord ord'"
    and "external_id ord' = external_id ord \<or> order_checks ord' (orders s)"
  shows "evolves s (set_order ord' s)"
proof -
  have "\<exists>x'. get_order (set_order ord' s) i = Some x' \<and> order_evolves x x'"
    if "get_order s i = Some x" for i x
    using that assms(1,2) by auto
  moreover have "ledger_inv (set_order ord' s)" if "ledger_inv s"
    using assms(1,2) order_evolves_id [OF assms(2)]
    by (intro ledger_inv_cong [OF _ _ _ _ that]) (auto simp: order_owner_def)
  moreover have "orders_ok (set_order ord' s)" if "orders_ok s"
    using assms order_checks_stored [OF that assms(1)] order_checks_same [of ord "orders s" ord']
    by (intro orders_ok_set_order [OF that]) (auto simp: order_evolves_def)
  moreover have "wi_ok (set_order ord' s)" if "wi_ok s"
    using that by (simp add: wi_ok_def)
  ultimately show ?thesis
    by (simp add: evolves_def)
qed

lemma save_order_evolves:
  assumes "save_order ord' s = Inr (x, t)" and "get_order s (o_id ord') = Some ord"
    and "order_evolves ord ord'"
  shows "evolves s t"
  using assms by (auto simp: save_order_Inr intro: set_order_evolves)

lemma find_append_Some: "find P xs = Some x \<Longrightarrow> find P (xs @ ys) = Some x"
  by (simp add: find_append)

lemma add_order_evolves:
  assumes "add_order ord s = Inr (x, t)"
  shows "evolves s t" and "get_order t (o_id ord) = Some ord"
proof -
  have t: "t = s\<lparr>orders := orders s @ [ord]\<rparr>" and chk: "order_checks ord (orders s)"
    and new: "get_order s (o_id ord) = None"
    using assms by (simp_all add: add_order_Inr)
  have old: "get_order t i = Some y" if "get_order s i = Some y" for i y
    using that by (simp add: t get_order_def find_append)
  show "get_order t (o_id ord) = Some ord"
    using new by (simp add: t get_order_def find_append)
  have fresh: "o_id y \<noteq> o_id ord" if "y \<in> set (orders s)" for y
    using new that by (auto simp: get_order_def dest: find_NoneD)
  have "orders_ok t" if "orders_ok s"
    using that chk fresh
    by (force simp: t orders_ok_def order_checks_def uq_orders_external_id_def list_ex_iff)
  moreover have "ledger_inv t" if "ledger_inv s"
    using old by (intro ledger_inv_cong [OF _ _ _ _ that]) (auto simp: t order_owner_def)
  ultimately show "evolves s t"
    using old by (auto simp: evolves_def t wi_ok_def)
qed

subsection \<open>Moving money\<close>

text \<open>An order is charged or credited to its own user.\<close>

lemma order_debit_frame:
  assumes "create_order_debit uid rub oid md now s = Inr (x, t)"
  shows "orders t = orders s \<and> wi_subs t = wi_subs s \<and> wi_seq t = wi_seq s"
  using assms
  by (cases x, simp only:) (erule create_order_debitE; auto simp: appended_def with_allocs_def dest!: allocate_fifo_Inr(3))

lemma order_credit_frame:
  assumes "create_order_credit uid rub oid md now s = Inr (x, t)"
  shows "orders t = orders s \<and> wi_subs t = wi_subs s \<and> wi_seq t = wi_seq s"
  using assms
  by (cases x, simp only:) (erule create_order_creditE; auto simp: appended_def with_allocs_def dest!: allocate_fifo_Inr(3))

lemma order_refund_frame:
  assumes "create_order_refund_debit uid rub oid rid md now s = Inr (x, t)"
  shows "orders t = orders s \<and> wi_subs t = wi_subs s \<and> wi_seq t = wi_seq s"
  using assms
  by (cases x, simp only:) (erule create_order_refund_debitE; auto simp: appended_def with_allocs_def dest!: allocate_fifo_Inr(3))

lemma order_debit_evolves:
  assumes "create_order_debit uid rub oid md now s = Inr (x, t)" and "order_owner s oid = Some uid"
  shows "evolves s t"
  using order_debit_frame [OF assms(1)] order_debit_inv [OF _ assms(2)] assms(1)
  by (intro evolves_ledger) (cases x; auto simp: wi_ok_def)+

lemma order_credit_evolves:
  assumes "create_order_credit uid rub oid md now s = Inr (x, t)" and "order_owner s oid = Some uid"
  shows "evolves s t"
  using order_credit_frame [OF assms(1)] order_credit_inv [OF _ assms(2)] assms(1)
  by (intro evolves_ledger) (cases x; auto simp: wi_ok_def)+

lemma order_refund_evolves:
  assumes "create_order_refund_debit uid rub oid rid md now s = Inr (x, t)"
    and "order_owner s oid = Some uid"
  shows "evolves s t"
  using order_refund_frame [OF assms(1)] order_refund_debit_inv [OF _ assms(2)] assms(1)
  by (intro evolves_ledger) (cases x; auto simp: wi_ok_def)+

subsection \<open>Referral bonuses\<close>

lemma appended_frame [simp]:
  "orders (appended e s) = orders s" "wi_subs (appended e s) = wi_subs s"
  "wi_seq (appended e s) = wi_seq s"
  by (simp_all add: appended_def)

lemma log_action_wi_seq [simp]: "wi_seq (log_action a b c d e s) = wi_seq s"
  by (simp add: log_action_def)

lemma grant_frame:
  assumes "grant_referral_bonus_for_topup uid pid oid topup now s = Inr (g, t)"
  shows "orders t = orders s \<and> wi_subs t = wi_subs s \<and> wi_seq t = wi_seq s"
  using assms
proof (cases rule: grantE)
  case (parties p r)
  from parties(7) show ?thesis
    by (cases rule: grant_toE) simp_all
qed simp

lemma grant_evolves:
  assumes "grant_referral_bonus_for_topup uid pid oid topup now s = Inr (g, t)"
  shows "evolves s t"
  using grant_frame [OF assms] grant_inv [OF _ assms]
  by (intro evolves_ledger) (auto simp: wi_ok_def)

lemma reverse_credits_frame:
  assumes "reverse_credits op_id suffix pid oid rid now cs tot s = Inr (m, t)"
  shows "(ledger_inv s \<longrightarrow> ledger_inv t) \<and> orders t = orders s \<and> wi_subs t = wi_subs s
    \<and> wi_seq t = wi_seq s \<and> users t = users s"
  using assms
proof (induction cs arbitrary: tot s)
  case (Cons c cs)
  from Cons.prems show ?case
  proof (cases rule: reverse_credits_ConsE)
    case (skip tot')
    then show ?thesis
      by (rule Cons.IH)
  next
    case (book x e)
    show ?thesis
      using Cons.IH [OF book(8)] book(7) by simp
  qed
qed simp

lemma reverse_evolves:
  assumes "reverse_referral_bonus_for_topup pid oid rid now s = Inr (m, t)"
  shows "evolves s t" and "orders t = orders s" and "users t = users s"
proof -
  have *: "(ledger_inv s \<longrightarrow> ledger_inv t) \<and> orders t = orders s \<and> wi_subs t = wi_subs s
    \<and> wi_seq t = wi_seq s \<and> users t = users s"
    using assms
    by (auto simp: reverse_referral_bonus_for_topup_def Let_def split: if_split_asm
        dest!: reverse_credits_frame)
  show "evolves s t"
    using * by (intro evolves_ledger) (auto simp: wi_ok_def)
  show "orders t = orders s" and "users t = users s"
    using * by simp_all
qed

subsection \<open>Steps that touch neither orders nor money\<close>

lemma quietI:
  assumes "orders t = orders s" and "entries t = entries s" and "allocs t = allocs s"
    and "entry_seq t = entry_seq s" and "wi_subs t = wi_subs s" and "wi_seq t = wi_seq s"
  shows "quiet s t"
  using assms by (simp add: quiet_def wi_ok_def)

lemma wi_ok_save:
  assumes ok: "wi_ok s" and chk: "wi_checks w (wi_subs s)"
  shows "wi_ok (set_wi_sub w s)"
proof -
  let ?ws = "update_rows (\<lambda>v. w_id v = w_id w) (\<lambda>_. w) (wi_subs s)"
  have "map w_id ?ws = map w_id (wi_subs s)"
    by (rule map_update_rows) simp
  moreover have "w_id x \<le> wi_seq s \<and> wi_checks x ?ws" if x: "x \<in> set ?ws" for x
  proof (cases "w_id x = w_id w")
    case True
    then obtain y where y: "y \<in> set (wi_subs s)" "w_id y = w_id w" and "x = w"
      using x by (auto simp: set_update_rows split: if_split_asm)
    then show ?thesis
      using chk ok
      by (fastforce simp: wi_ok_def wi_checks_def uq_white_internet_live_user_def list_ex_iff
          set_update_rows split: if_split_asm)
  next
    case False
    then have mem: "x \<in> set (wi_subs s)"
      using x by (auto simp: set_update_rows split: if_split_asm)
    then have "w_id x \<le> wi_seq s" and "wi_checks x (wi_subs s)"
      using ok by (simp_all add: wi_ok_def)
    moreover have "\<not> (wi_live x \<and> wi_live w \<and> w_user_id x = w_user_id w)"
      using chk False mem by (auto simp: wi_checks_def uq_white_internet_live_user_def list_ex_iff)
    ultimately show ?thesis
      using False
      by (auto simp: wi_checks_def uq_white_internet_live_user_def list_ex_iff set_update_rows
          split: if_split_asm)
  qed
  ultimately show ?thesis
    using ok by (simp add: wi_ok_def set_wi_sub_def)
qed

lemma save_wi_quiet: "save_wi w s = Inr (x, t) \<Longrightarrow> quiet s t"
  by (auto simp: save_wi_Inr quiet_def intro: wi_ok_save)

end
