(* ===== verification/WI_Service.thy ===== *)
theory WI_Service
  imports Order_Rows
begin

section \<open>services/white\_internet\_service.py\<close>

text \<open>
  The product: tariff, node selection, wallet checkout, purchase, trial conversion, renewal,
  device slots, traffic packs, trial, deactivation.  What the code draws from outside is
  the record \<open>env\<close>: the clock, the fresh identifiers, the administrators of the settings and
  the reply of the node to the inline synchronisation (\<open>None\<close> when the call raises).  The
  messages are the constructors of \<open>wl_text\<close> with the values they are formatted with.
\<close>

datatype sync_result = APPLIED | ALREADY_NEWER | FENCED | FAILED

record sync_reply =
  sr_result :: sync_result
  sr_epoch :: "string option"
  sr_inbounds :: "string list"
  inventory_ok :: bool
  observed_state :: "string option"

record env =
  now_utc :: instant
  fresh_order_id :: uuid
  fresh_token :: string
  fresh_uuid :: string
  admin_ids :: "int list"
  node_reply :: "sync_reply option"

datatype wl_text =
    WL_USER_NOT_FOUND | WL_SUB_NOT_FOUND | WL_SUB_DISABLED | WL_DEACTIVATION_PENDING
  | WL_ALREADY_ACTIVE | WL_NO_SERVERS_AVAILABLE | WL_BUY_SUCCESS | WL_SUB_NOT_READY
  | WL_RENEWAL_HORIZON_EXCEEDED | WL_RENEW_SUCCESS | WL_ADMIN_ONLY_ALERT | WL_NO_SUB
  | ERROR_ACCESS_DENIED | WL_TRIAL_CANNOT_ADD_DEVICE | WL_TRIAL_CANNOT_TOPUP | WL_SUB_EXPIRED
  | WL_DEVICE_LIMIT_MAX_REACHED | WL_CAP_EXCEEDED int int | WL_ADD_DEVICE_SUCCESS int
  | WL_INVALID_TOPUP_PACK int | WL_TOPUP_SUCCESS int | WL_TRIAL_ALREADY_USED
  | WL_TRIAL_ACTIVATED_SUCCESS | PAYMENT_DISPUTE_BLOCKED_NOTICE | TOPUP_ERROR_BLOCKED
  | WL_INSUFFICIENT_BALANCE_BUY money money money
  | WL_INSUFFICIENT_BALANCE_RENEW money money money
  | WL_INSUFFICIENT_BALANCE_TOPUP money money money
  | ADMIN_WL_RESET_COOLDOWN int | ADMIN_WL_RESET_SUCCESS
  | ADMIN_WI_SUB_NOT_FOUND | ADMIN_WI_TRIAL_EXTEND_FORBIDDEN | OK_TEXT | ERROR_TEXT pyerr

subsection \<open>Tariff, price and node\<close>

definition get_white_internet_tier_price :: "int \<Rightarrow> money option \<Rightarrow> money" where
  "get_white_internet_tier_price device_limit base_price =
     (let limit = max 1 (min device_limit WHITE_INTERNET_MAX_DEVICE_LIMIT);
          base = (case base_price of Some p \<Rightarrow> p | None \<Rightarrow> WHITE_INTERNET_BASE_PRICE_RUB) in
      base + of_int (limit - 1) * WHITE_INTERNET_EXTRA_DEVICE_PRICE_RUB)"

definition get_or_create_white_internet_tariff :: "instant \<Rightarrow> db \<Rightarrow> tariff \<times> db" where
  "get_or_create_white_internet_tariff now s =
     (case find (\<lambda>t. t_service_type t = WHITE_INTERNET
             \<and> t_duration_days t = WHITE_INTERNET_BASE_DURATION_DAYS \<and> t_device_limit t = 1)
           (tariffs s) of
        Some t \<Rightarrow>
          if \<not> t_is_active t
          then (t\<lparr>t_is_active := True\<rparr>,
                s\<lparr>tariffs := update_rows (\<lambda>v. t_id v = t_id t) (\<lambda>_. t\<lparr>t_is_active := True\<rparr>) (tariffs s)\<rparr>)
          else (t, s)
      | None \<Rightarrow>
          let t = \<lparr>t_id = tariff_seq s + 1, t_name = ''WL_DEFAULT_TARIFF_NAME'', t_description = None,
                t_service_type = WHITE_INTERNET,
                t_duration_days = WHITE_INTERNET_BASE_DURATION_DAYS, t_device_limit = 1,
                price_rub = trunc_rat WHITE_INTERNET_BASE_PRICE_RUB, t_is_active = True,
                sort_order = 100, t_created_at = now\<rparr> in
          (t, s\<lparr>tariffs := tariffs s @ [t], tariff_seq := tariff_seq s + 1\<rparr>))"

definition capacity_consuming :: "wi_sub \<Rightarrow> bool" where
  "capacity_consuming w \<longleftrightarrow>
     w_status w = WI_PENDING \<or> w_status w = WI_ACTIVE \<or> w_status w = WI_EXHAUSTED
   \<or> provisioning_status w = Node_PENDING_CREATE \<or> provisioning_status w = Node_PENDING_UPDATE
   \<or> provisioning_status w = Node_PENDING_DELETE"

definition origin_candidate :: "db \<Rightarrow> server \<Rightarrow> bool" where
  "origin_candidate s srv \<longleftrightarrow>
     protocol srv = ''xray'' \<and> s_is_active srv \<and> health_state srv = ONLINE
   \<and> lifecycle_status srv = Life_ACTIVE \<and> py_strip (api_url srv) \<noteq> [] \<and> py_strip (api_key srv) \<noteq> []
   \<and> list_ex (\<lambda>c. c = ''xray_origin'') (capabilities srv)
   \<and> meta_truthy (extra_data srv) ''relays''
   \<and> int (length (filter (\<lambda>w. origin_node_id w = Some (s_id srv) \<and> capacity_consuming w)
        (wi_subs s))) < max_clients srv"

definition allocate_origin_server_atomic :: "db \<Rightarrow> server option" where
  "allocate_origin_server_atomic s = find (origin_candidate s) (sort_key s_id (servers s))"

text \<open>The node of a subscription, and whether the subscription has to move off it.\<close>

definition origin_of :: "wi_sub \<Rightarrow> db \<Rightarrow> server option" where
  "origin_of w s = (case origin_node_id w of
     None \<Rightarrow> None
   | Some i \<Rightarrow> find (\<lambda>srv. s_id srv = i \<and> protocol srv = ''xray'') (servers s))"

definition needs_migration :: "server option \<Rightarrow> bool" where
  "needs_migration srv =
     (case srv of
        None \<Rightarrow> True
      | Some n \<Rightarrow> \<not> s_is_active n \<or> health_state n \<noteq> ONLINE \<or> lifecycle_status n \<noteq> Life_ACTIVE
          \<or> \<not> meta_truthy (extra_data n) ''relays'')"

text \<open>The node to move to, when there is a move to make; \<open>None\<close> when no node can take it.\<close>

definition migration_target :: "server option \<Rightarrow> db \<Rightarrow> server option option" where
  "migration_target origin s =
     (if needs_migration origin
      then (case allocate_origin_server_atomic s of None \<Rightarrow> None | Some n \<Rightarrow> Some (Some n))
      else Some None)"

definition dispatch_deprovision :: "server option \<Rightarrow> string \<Rightarrow> int \<Rightarrow> db \<Rightarrow> db" where
  "dispatch_deprovision srv cuuid ver s =
     (case srv of
        None \<Rightarrow> s
      | Some n \<Rightarrow>
          if api_url n = [] \<or> api_key n = [] \<or> protocol n \<noteq> ''xray'' then s
          else s\<lparr>tasks := tasks s @ [Deprovision (s_id n) cuuid ver]\<rparr>)"

definition migrate_sub :: "server \<Rightarrow> wi_sub \<Rightarrow> db \<Rightarrow> pyerr + wi_sub \<times> db" where
  "migrate_sub target w s =
     and_then (save_wi (w\<lparr>origin_node_id := Some (s_id target), actual_version := 0,
                 last_reconciled_node_epoch := None,
                 provisioning_status := Node_PENDING_CREATE\<rparr>) s)
       (\<lambda>w s. Inr (w, snd (cancel_pending_orphan_cleanups_for_client (Some (s_id target)) (w_uuid w) s)))"

text \<open>The optional move of the paid operations, and the cleanup of the former node after them.\<close>

definition apply_migration :: "server option \<Rightarrow> wi_sub \<Rightarrow> db \<Rightarrow> pyerr + wi_sub \<times> db" where
  "apply_migration target w s = (case target of None \<Rightarrow> Inr (w, s) | Some n \<Rightarrow> migrate_sub n w s)"

definition cleanup_old_origin :: "server option \<Rightarrow> string \<Rightarrow> int \<Rightarrow> db \<Rightarrow> db" where
  "cleanup_old_origin old cuuid ver s =
     (case old of
        None \<Rightarrow> s
      | Some n \<Rightarrow> dispatch_deprovision (Some n) cuuid ver
                   (snd (enqueue_orphan_cleanup (Some (s_id n)) cuuid ver s)))"

subsection \<open>The inline synchronisation\<close>

definition relay_code :: "json \<Rightarrow> string option" where
  "relay_code j =
     (case j of
        JObj kvs \<Rightarrow> (case map_of kvs ''code'' of Some (JStr c) \<Rightarrow> Some c | _ \<Rightarrow> None)
      | JStr c \<Rightarrow> Some c
      | _ \<Rightarrow> None)"

definition expected_inbound_tags :: "server \<Rightarrow> string list" where
  "expected_inbound_tags n =
     ''just1k-wl-default''
     # concat (map (\<lambda>j. case relay_code j of
            Some c \<Rightarrow> if c \<noteq> [] then [''just1k-wl-inbound-'' @ c] else [] | None \<Rightarrow> [])
         (case extra_data n ''relays'' of Some (JArr js) \<Rightarrow> js | _ \<Rightarrow> []))"

definition sync_confirmed :: "server \<Rightarrow> sync_reply \<Rightarrow> bool" where
  "sync_confirmed n r \<longleftrightarrow>
     (let verified_epoch = (case sr_epoch r of
            Some e \<Rightarrow> if e \<noteq> [] then Some e else xray_instance_epoch n
          | None \<Rightarrow> xray_instance_epoch n);
          epoch_ok = (verified_epoch = xray_instance_epoch n);
          inbounds_ok = (sr_inbounds r = []
            \<or> list_all (\<lambda>t. List.member (sr_inbounds r) t) (expected_inbound_tags n)) in
      (sr_result r = APPLIED \<and> epoch_ok \<and> inbounds_ok)
    \<or> (sr_result r = ALREADY_NEWER \<and> epoch_ok \<and> inventory_ok r
        \<and> observed_state r = Some ''active'' \<and> inbounds_ok))"

definition try_inline_sync :: "env \<Rightarrow> wi_sub \<Rightarrow> server \<Rightarrow> db \<Rightarrow> bool \<times> db" where
  "try_inline_sync e w n s =
     (let target_version = (if desired_version w = 0 then 1 else desired_version w) in
      case node_reply e of
        None \<Rightarrow> (False, s)
      | Some r \<Rightarrow>
          if sync_confirmed n r
          then
            let v = w\<lparr>actual_version := target_version\<rparr>;
                v = (if (if desired_version v = 0 then 1 else desired_version v) = target_version
                     then v\<lparr>w_status := WI_ACTIVE, provisioning_status := Node_ACTIVE\<rparr> else v);
                v = v\<lparr>last_reconciled_node_epoch :=
                        (case sr_epoch r of Some x \<Rightarrow> if x \<noteq> [] then Some x else xray_instance_epoch n
                         | None \<Rightarrow> xray_instance_epoch n),
                      w_last_synced_at := Some (now_utc e)\<rparr> in
            (case save_wi v s of Inl _ \<Rightarrow> (False, s) | Inr (_, s) \<Rightarrow> (True, s))
          else (False, s))"

subsection \<open>The wallet checkout\<close>

text \<open>
  \<open>None\<close> is success; \<open>Some\<close> the message of a refused payment, which leaves the order canceled
  in the table.
\<close>

definition checkout_wallet_order ::
  "env \<Rightarrow> user \<Rightarrow> OrderServiceType \<Rightarrow> int option \<Rightarrow> money \<Rightarrow> int \<Rightarrow> int \<Rightarrow> int option \<Rightarrow> string \<Rightarrow> bool
   \<Rightarrow> (money \<Rightarrow> money \<Rightarrow> money \<Rightarrow> wl_text) \<Rightarrow> db \<Rightarrow> pyerr + wl_text option \<times> db" where
  "checkout_wallet_order e u ty tid amount_due days traffic dev operation trial insufficient s =
     (if financial_hold u then Inr (Some PAYMENT_DISPUTE_BLOCKED_NOTICE, s)
      else if topup_blocked u then Inr (Some TOPUP_ERROR_BLOCKED, s)
      else (case whole_rubles (rubles amount_due) True of
          Inl err \<Rightarrow> Inl err
        | Inr amt \<Rightarrow>
            let ord = \<lparr>o_id = fresh_order_id e, o_user_id = u_id u, service_type = ty,
                  tariff_id = tid, amount_rub = amt, duration_days = days, traffic_bytes = traffic,
                  o_device_limit = dev, payment_method = ''wallet'', external_id = None,
                  payment_url = None, o_status = Order_PENDING, o_description = None,
                  o_metadata = (if trial then [''operation'' \<mapsto> JStr operation, ''is_trial'' \<mapsto> JBool True]
                                else [''operation'' \<mapsto> JStr operation]),
                  o_created_at = now_utc e, paid_at = None, refunded_at = None,
                  o_expires_at = Some (now_utc e + minutes_us 15)\<rparr>;
                paid = ord\<lparr>o_status := Order_PAID, paid_at := Some (now_utc e)\<rparr> in
            and_then (add_order ord s) (\<lambda>_ s.
              if amt = 0 then Inr (None, set_order paid s)
              else (case create_order_debit (u_id u) (rubles amt) (o_id ord)
                         [''operation'' \<mapsto> JStr operation] (now_utc e) s of
                  Inr (_, s) \<Rightarrow> Inr (None, set_order paid s)
                | Inl (InsufficientAccountBalanceError _) \<Rightarrow>
                    let s = set_order (mark_order_canceled ord ''insufficient_balance'') s;
                        available = available (balance_snapshot s (u_id u)) in
                    Inr (Some (insufficient amt available (max (amt - available) 0)), s)
                | Inl err \<Rightarrow> Inl err))))"

subsection \<open>Trial conversion, renewal and purchase\<close>

type_synonym wl_result = "bool \<times> wl_text \<times> wi_sub option"

definition deactivation_pending :: "wi_sub \<Rightarrow> bool" where
  "deactivation_pending w \<longleftrightarrow>
     pending_hard_delete w \<or> provisioning_status w = Node_PENDING_DELETE"

definition converted :: "wi_sub \<Rightarrow> int \<Rightarrow> int \<Rightarrow> instant \<Rightarrow> wi_sub" where
  "converted w base_bytes days now =
     w\<lparr>is_trial := False, base_traffic_bytes := base_bytes, extra_traffic_bytes := 0,
       traffic_used_bytes := 0, traffic_uplink_bytes := 0, traffic_downlink_bytes := 0,
       traffic_overage_bytes := 0,
       expires_at := (if now < expires_at w then expires_at w else now) + days_us days,
       w_status := WI_ACTIVE, status_reason := None, desired_version := desired_version w + 1,
       provisioning_status := Node_PENDING_UPDATE, notified_3d := False, notified_1d := False,
       notified_2h := False, notified_expired := False, notified_90p := False\<rparr>"

text \<open>The charge of an operation, skipped when the order has been paid elsewhere.\<close>

definition charge ::
  "bool \<Rightarrow> (db \<Rightarrow> pyerr + wl_text option \<times> db) \<Rightarrow> db \<Rightarrow> pyerr + wl_text option \<times> db" where
  "charge debit_balance f s = (if debit_balance then f s else Inr (None, s))"

definition convert_trial_to_paid ::
  "env \<Rightarrow> int \<Rightarrow> bool \<Rightarrow> db \<Rightarrow> pyerr + wl_result \<times> db" where
  "convert_trial_to_paid e uid debit_balance s =
     (case get_user s uid of
        None \<Rightarrow> Inr ((False, WL_USER_NOT_FOUND, None), s)
      | Some u \<Rightarrow> (case get_wi_by_user_id uid s of
          None \<Rightarrow> Inr ((False, WL_SUB_NOT_FOUND, None), s)
        | Some w \<Rightarrow>
            if \<not> is_trial w then Inr ((False, WL_ALREADY_ACTIVE, Some w), s)
            else if w_status w = WI_DISABLED then Inr ((False, WL_SUB_DISABLED, None), s)
            else if deactivation_pending w then Inr ((False, WL_DEACTIVATION_PENDING, None), s)
            else
              let origin = origin_of w s in
              (case migration_target origin s of
                 None \<Rightarrow> Inr ((False, WL_NO_SERVERS_AVAILABLE, None), s)
               | Some target \<Rightarrow>
                   let (t, s) = get_or_create_white_internet_tariff (now_utc e) s;
                       slots = max 1 (w_device_limit w);
                       price = get_white_internet_tier_price slots (Some (of_int (price_rub t))) in
                   and_then (charge debit_balance
                     (checkout_wallet_order e u WHITE_INTERNET (Some (t_id t)) price
                        (t_duration_days t) 0 (Some slots) ''purchase'' False
                        WL_INSUFFICIENT_BALANCE_BUY) s)
                   (\<lambda>refused s. case refused of
                      Some msg \<Rightarrow> Inr ((False, msg, None), s)
                    | None \<Rightarrow>
                        and_then (apply_migration target w s) (\<lambda>w s.
                        and_then (save_wi (converted w (slots * WHITE_INTERNET_BASE_TRAFFIC_BYTES)
                                     (t_duration_days t) (now_utc e)) s)
                        (\<lambda>w s.
                          let old = (case target of None \<Rightarrow> None
                                | Some _ \<Rightarrow> (case origin of None \<Rightarrow> None
                                    | Some n \<Rightarrow> if Some (s_id n) \<noteq> origin_node_id w then Some n else None));
                              s = (case old of None \<Rightarrow> s
                                | Some n \<Rightarrow> snd (enqueue_orphan_cleanup (Some (s_id n)) (w_uuid w)
                                               (desired_version w) s));
                              active = (case target of Some n \<Rightarrow> Some n | None \<Rightarrow> origin);
                              s = (case active of None \<Rightarrow> s | Some n \<Rightarrow> snd (try_inline_sync e w n s));
                              s = dispatch_deprovision old (w_uuid w) (desired_version w) s in
                          Inr ((True, WL_BUY_SUCCESS, get_wi_row (w_id w) s), s)))))))"

definition renew_subscription :: "env \<Rightarrow> int \<Rightarrow> bool \<Rightarrow> db \<Rightarrow> pyerr + wl_result \<times> db" where
  "renew_subscription e uid debit_balance s =
     (case get_user s uid of
        None \<Rightarrow> Inr ((False, WL_USER_NOT_FOUND, None), s)
      | Some u \<Rightarrow> (case get_wi_by_user_id uid s of
          None \<Rightarrow> Inr ((False, WL_SUB_NOT_FOUND, None), s)
        | Some w \<Rightarrow>
            if is_trial w then convert_trial_to_paid e uid debit_balance s
            else if w_status w = WI_DISABLED then Inr ((False, WL_SUB_DISABLED, None), s)
            else if w_status w = WI_PENDING then Inr ((False, WL_SUB_NOT_READY, None), s)
            else if deactivation_pending w then Inr ((False, WL_DEACTIVATION_PENDING, None), s)
            else
              let origin = origin_of w s;
                  (t, s) = get_or_create_white_internet_tariff (now_utc e) s in
              (case migration_target origin s of
                 None \<Rightarrow> Inr ((False, WL_NO_SERVERS_AVAILABLE, None), s)
               | Some target \<Rightarrow>
                   let base_time = (if now_utc e < expires_at w then expires_at w else now_utc e) in
                   if now_utc e + days_us WHITE_INTERNET_MAX_EXPIRY_DAYS
                        < base_time + days_us (t_duration_days t)
                   then Inr ((False, WL_RENEWAL_HORIZON_EXCEEDED, None), s)
                   else
                     let slots = max 1 (w_device_limit w);
                         price = get_white_internet_tier_price slots (Some (of_int (price_rub t))) in
                     and_then (charge debit_balance
                       (checkout_wallet_order e u WHITE_INTERNET (Some (t_id t)) price
                          (t_duration_days t) 0 (Some slots) ''renew'' False
                          WL_INSUFFICIENT_BALANCE_RENEW) s)
                     (\<lambda>refused s. case refused of
                        Some msg \<Rightarrow> Inr ((False, msg, None), s)
                      | None \<Rightarrow>
                          and_then (apply_migration target w s) (\<lambda>w s.
                          and_then (renew_subscription_atomic (w_id w) (t_duration_days t)
                              (Some (slots * WHITE_INTERNET_BASE_TRAFFIC_BYTES))
                              WHITE_INTERNET_MAX_EXPIRY_DAYS (now_utc e) s)
                          (\<lambda>renewed s.
                             Inr ((True, WL_RENEW_SUCCESS, Some renewed),
                                  cleanup_old_origin (if target = None then None else origin)
                                    (w_uuid renewed) (desired_version renewed + 1) s)))))))"

definition purchase_subscription :: "env \<Rightarrow> int \<Rightarrow> bool \<Rightarrow> db \<Rightarrow> pyerr + wl_result \<times> db" where
  "purchase_subscription e uid debit_balance s =
     (case get_user s uid of
        None \<Rightarrow> Inr ((False, WL_USER_NOT_FOUND, None), s)
      | Some u \<Rightarrow> (case get_wi_by_user_id uid s of
          Some w \<Rightarrow>
            if is_trial w then convert_trial_to_paid e uid debit_balance s
            else if w_status w = WI_DISABLED then Inr ((False, WL_SUB_DISABLED, Some w), s)
            else if deactivation_pending w then Inr ((False, WL_DEACTIVATION_PENDING, Some w), s)
            else if wi_live w \<and> now_utc e < expires_at w
            then Inr ((False, WL_ALREADY_ACTIVE, Some w), s)
            else renew_subscription e uid debit_balance s
        | None \<Rightarrow>
            let (t, s) = get_or_create_white_internet_tariff (now_utc e) s in
            (case allocate_origin_server_atomic s of
               None \<Rightarrow> Inr ((False, WL_NO_SERVERS_AVAILABLE, None), s)
             | Some n \<Rightarrow>
                 and_then (charge debit_balance
                   (checkout_wallet_order e u WHITE_INTERNET (Some (t_id t)) (of_int (price_rub t))
                      (t_duration_days t) 0 (Some (t_device_limit t)) ''purchase'' False
                      WL_INSUFFICIENT_BALANCE_BUY) s)
                 (\<lambda>refused s. case refused of
                    Some msg \<Rightarrow> Inr ((False, msg, None), s)
                  | None \<Rightarrow>
                      and_then (create_white_internet_subscription (u_id u) (s_id n) (fresh_token e)
                          (fresh_uuid e) (t_duration_days t) WHITE_INTERNET_BASE_TRAFFIC_BYTES False
                          (now_utc e) s)
                      (\<lambda>w s.
                        let s = snd (try_inline_sync e w n s) in
                        Inr ((True, WL_BUY_SUCCESS, get_wi_row (w_id w) s), s))))))"

end
