(* ===== verification/WI_Operations.thy ===== *)
theory WI_Operations
  imports WI_Service
begin

section \<open>white\_internet\_service.py: slots, packs, trial and deactivation\<close>

text \<open>
  The rest of the service.  The two paid operations on a running subscription share their
  guards, which the code repeats, as \<open>operable\<close>; \<open>pay_and_apply\<close> is the tail the code
  repeats as well: charge, move to a healthy node, change the row, clean up the old node.
\<close>

definition is_admin :: "env \<Rightarrow> int \<Rightarrow> bool" where
  "is_admin e tid \<longleftrightarrow> List.member (admin_ids e) tid"

definition may_operate :: "env \<Rightarrow> user \<Rightarrow> int option \<Rightarrow> bool" where
  "may_operate e u actor \<longleftrightarrow> (case actor of None \<Rightarrow> False | Some a \<Rightarrow> telegram_id u = a \<or> is_admin e a)"

text \<open>The guards up to the state of the subscription: the message of the first that fails.\<close>

definition operable :: "env \<Rightarrow> user \<Rightarrow> int option \<Rightarrow> wl_text \<Rightarrow> db \<Rightarrow> wl_text + wi_sub" where
  "operable e u actor trial_text s =
     (if \<not> may_operate e u actor then Inl WL_ADMIN_ONLY_ALERT
      else (case get_wi_by_user_id (u_id u) s of
          None \<Rightarrow> Inl WL_NO_SUB
        | Some w \<Rightarrow>
            if w_user_id w \<noteq> u_id u then Inl ERROR_ACCESS_DENIED
            else if is_trial w then Inl trial_text
            else if w_status w = WI_PENDING \<or> w_status w = WI_DISABLED then Inl WL_SUB_NOT_READY
            else if w_status w = WI_EXPIRED \<or> expires_at w \<le> now_utc e then Inl WL_SUB_EXPIRED
            else Inr w))"

definition pay_and_apply ::
  "bool \<Rightarrow> (db \<Rightarrow> pyerr + wl_text option \<times> db) \<Rightarrow> server option \<Rightarrow> server option \<Rightarrow> wi_sub
   \<Rightarrow> (db \<Rightarrow> pyerr + 'r \<times> db) \<Rightarrow> ('r \<Rightarrow> wl_text \<times> 'v) \<Rightarrow> db \<Rightarrow> pyerr + (bool \<times> wl_text \<times> 'v option) \<times> db"
  where
  "pay_and_apply debit_balance checkout origin target w change result s =
     and_then (charge debit_balance checkout s) (\<lambda>refused s.
       case refused of
         Some msg \<Rightarrow> Inr ((False, msg, None), s)
       | None \<Rightarrow>
           and_then (apply_migration target w s) (\<lambda>_ s.
           and_then (change s) (\<lambda>r s.
             let ver = (case get_wi_row (w_id w) s of None \<Rightarrow> desired_version w
                        | Some v \<Rightarrow> desired_version v) + 1;
                 s = cleanup_old_origin (if target = None then None else origin) (w_uuid w) ver s;
                 (msg, v) = result r in
             Inr ((True, msg, Some v), s))))"

definition purchase_device_slot ::
  "env \<Rightarrow> int \<Rightarrow> int option \<Rightarrow> bool \<Rightarrow> db \<Rightarrow> pyerr + wl_result \<times> db" where
  "purchase_device_slot e uid actor debit_balance s =
     (case get_user s uid of
        None \<Rightarrow> Inr ((False, WL_USER_NOT_FOUND, None), s)
      | Some u \<Rightarrow> (case operable e u actor WL_TRIAL_CANNOT_ADD_DEVICE s of
          Inl msg \<Rightarrow> Inr ((False, msg, None), s)
        | Inr w \<Rightarrow>
            if WHITE_INTERNET_MAX_DEVICE_LIMIT \<le> effective_device_limit w
            then Inr ((False, WL_DEVICE_LIMIT_MAX_REACHED, None), s)
            else
              let new_limit = effective_device_limit w + 1 in
              if new_limit * WHITE_INTERNET_MAX_QUOTA_BYTES
                   < extra_traffic_bytes w + WHITE_INTERNET_EXTRA_DEVICE_TRAFFIC_BYTES
              then Inr ((False, WL_CAP_EXCEEDED
                     (WHITE_INTERNET_EXTRA_DEVICE_TRAFFIC_BYTES div 1073741824)
                     (get_available_quota_bytes (w_id w) s div 1073741824), None), s)
              else
                let origin = origin_of w s in
                (case migration_target origin s of
                   None \<Rightarrow> Inr ((False, WL_NO_SERVERS_AVAILABLE, None), s)
                 | Some target \<Rightarrow>
                     let (t, s) = get_or_create_white_internet_tariff (now_utc e) s in
                     pay_and_apply debit_balance
                       (checkout_wallet_order e u WHITE_INTERNET (Some (t_id t))
                          WHITE_INTERNET_EXTRA_DEVICE_PRICE_RUB 0
                          WHITE_INTERNET_EXTRA_DEVICE_TRAFFIC_BYTES (Some new_limit)
                          ''add_device_slot'' False WL_INSUFFICIENT_BALANCE_BUY)
                       origin target w
                       (add_device_slot_atomic (w_id w) WHITE_INTERNET_EXTRA_DEVICE_TRAFFIC_BYTES
                          WHITE_INTERNET_MAX_DEVICE_LIMIT WHITE_INTERNET_MAX_QUOTA_BYTES (now_utc e))
                       (\<lambda>v. (WL_ADD_DEVICE_SUCCESS (w_device_limit v), v)) s)))"

definition topup_quota ::
  "env \<Rightarrow> int \<Rightarrow> int \<Rightarrow> int option \<Rightarrow> bool \<Rightarrow> db
   \<Rightarrow> pyerr + (bool \<times> wl_text \<times> int option) \<times> db" where
  "topup_quota e uid pack_gb actor debit_balance s =
     (case map_of WHITE_INTERNET_TOPUP_PACKS pack_gb of
        None \<Rightarrow> Inr ((False, WL_INVALID_TOPUP_PACK pack_gb, None), s)
      | Some price \<Rightarrow> (case get_user s uid of
          None \<Rightarrow> Inr ((False, WL_USER_NOT_FOUND, None), s)
        | Some u \<Rightarrow> (case operable e u actor WL_TRIAL_CANNOT_TOPUP s of
            Inl msg \<Rightarrow> Inr ((False, msg, None), s)
          | Inr w \<Rightarrow>
              let origin = origin_of w s in
              (case migration_target origin s of
                 None \<Rightarrow> Inr ((False, WL_NO_SERVERS_AVAILABLE, None), s)
               | Some target \<Rightarrow>
                   let pack_bytes = pack_gb * 1024 * 1024 * 1024 in
                   if effective_device_limit w * WHITE_INTERNET_MAX_QUOTA_BYTES
                        < extra_traffic_bytes w + pack_bytes
                   then Inr ((False, WL_CAP_EXCEEDED pack_gb
                          (get_available_quota_bytes (w_id w) s div 1073741824), None), s)
                   else
                     let (t, s) = get_or_create_white_internet_tariff (now_utc e) s in
                     pay_and_apply debit_balance
                       (checkout_wallet_order e u WHITE_INTERNET (Some (t_id t)) price 0 pack_bytes
                          (Some (effective_device_limit w)) ''topup'' False
                          WL_INSUFFICIENT_BALANCE_TOPUP)
                       origin target w
                       (topup_quota_atomic (w_id w) pack_gb (now_utc e))
                       (\<lambda>grant. (WL_TOPUP_SUCCESS pack_gb, grant)) s))))"

subsection \<open>The trial\<close>

definition create_trial_subscription :: "env \<Rightarrow> int \<Rightarrow> db \<Rightarrow> pyerr + wl_result \<times> db" where
  "create_trial_subscription e uid s =
     (case get_user s uid of
        None \<Rightarrow> Inr ((False, WL_USER_NOT_FOUND, None), s)
      | Some u \<Rightarrow>
          if is_banned u \<or> is_deleted u then Inr ((False, ERROR_ACCESS_DENIED, None), s)
          else if has_ever_activated_trial uid s
          then Inr ((False, WL_TRIAL_ALREADY_USED, get_wi_by_user_id uid s), s)
          else (case get_wi_by_user_id uid s of
              Some w \<Rightarrow>
                if wi_live w then Inr ((True, WL_ALREADY_ACTIVE, Some w), s)
                else if deactivation_pending w then Inr ((False, WL_DEACTIVATION_PENDING, Some w), s)
                else Inr ((False, WL_TRIAL_ALREADY_USED, Some w), s)
            | None \<Rightarrow>
                (case allocate_origin_server_atomic s of
                   None \<Rightarrow> Inr ((False, WL_NO_SERVERS_AVAILABLE, None), s)
                 | Some n \<Rightarrow>
                     let (t, s) = get_or_create_white_internet_tariff (now_utc e) s in
                     and_then (checkout_wallet_order e u WHITE_INTERNET (Some (t_id t)) 0
                         WHITE_INTERNET_TRIAL_DURATION_DAYS 0 (Some 1) ''trial'' True
                         (\<lambda>_ _ _. OK_TEXT) s)
                     (\<lambda>_ s.
                     and_then (create_white_internet_subscription (u_id u) (s_id n) (fresh_token e)
                         (fresh_uuid e) WHITE_INTERNET_TRIAL_DURATION_DAYS
                         WHITE_INTERNET_TRIAL_TRAFFIC_BYTES True (now_utc e) s)
                     (\<lambda>w s.
                       let s = snd (try_inline_sync e w n s) in
                       Inr ((True, WL_TRIAL_ACTIVATED_SUCCESS, get_wi_row (w_id w) s), s))))))"

subsection \<open>Deactivation\<close>

definition disable_sub :: "string \<Rightarrow> wi_sub \<Rightarrow> wi_sub" where
  "disable_sub reason w =
     w\<lparr>w_status := WI_DISABLED, status_reason := Some reason,
       desired_version := desired_version w + 1,
       provisioning_status := Node_PENDING_DELETE\<rparr>"

text \<open>The dispatch for each of the rows given, in order.\<close>

definition deprovision_all :: "wi_sub list \<Rightarrow> db \<Rightarrow> db" where
  "deprovision_all ws s = fold (\<lambda>w s. case origin_node_id w of
       None \<Rightarrow> s
     | Some i \<Rightarrow> if i = 0 then s
         else dispatch_deprovision (get_server s i) (w_uuid w) (desired_version w) s) ws s"

definition deactivate_user_subscriptions ::
  "int \<Rightarrow> string \<Rightarrow> int option \<Rightarrow> db \<Rightarrow> wi_sub list \<times> db" where
  "deactivate_user_subscriptions uid reason target s =
     (let P = (\<lambda>w. w_user_id w = uid \<and> w_status w \<noteq> WI_DISABLED
                 \<and> (case target of None \<Rightarrow> True | Some i \<Rightarrow> w_id w = i));
          deactivated = map (disable_sub reason) (filter P (wi_subs s));
          s = s\<lparr>wi_subs := update_rows P (disable_sub reason) (wi_subs s)\<rparr> in
      (deactivated, deprovision_all deactivated s))"

definition reset_user_trial :: "env \<Rightarrow> int \<Rightarrow> db \<Rightarrow> (bool \<times> wl_text) \<times> db" where
  "reset_user_trial e uid s =
     (case get_user s uid of
        None \<Rightarrow> ((False, WL_USER_NOT_FOUND), s)
      | Some u \<Rightarrow>
          let cooling = (case last_trial_reset_at u of
                None \<Rightarrow> None
              | Some t \<Rightarrow> let elapsed = total_seconds (now_utc e - t) in
                  if elapsed < 60 then Some (trunc_rat (fl (60 - elapsed))) else None) in
          (case cooling of
             Some remaining \<Rightarrow> ((False, ADMIN_WL_RESET_COOLDOWN remaining), s)
           | None \<Rightarrow>
               if \<not> list_ex (\<lambda>w. w_user_id w = uid) (wi_subs s) then ((False, WL_SUB_NOT_FOUND), s)
               else
                 let s = set_user (u\<lparr>last_trial_reset_at := Some (now_utc e)\<rparr>) s;
                     P = (\<lambda>w. w_user_id w = uid \<and> is_trial w);
                     f = (\<lambda>w. (disable_sub ''trial_reset'' w)\<lparr>pending_hard_delete := True\<rparr>);
                     reset = map f (filter P (wi_subs s)) in
                 ((True, ADMIN_WL_RESET_SUCCESS),
                  deprovision_all reset (s\<lparr>wi_subs := update_rows P f (wi_subs s)\<rparr>))))"

text \<open>
  The admin extension: a domain error is answered with its text after a rollback, any other
  error is raised.
\<close>

fun is_wi_error :: "pyerr \<Rightarrow> bool" where
  "is_wi_error WhiteInternetQuotaCapExceededError = True"
| "is_wi_error WhiteInternetDeviceLimitExceededError = True"
| "is_wi_error (WhiteInternetResetCooldownError n) = True"
| "is_wi_error WhiteInternetRenewalHorizonExceededError = True"
| "is_wi_error WhiteInternetSubscriptionNotFoundError = True"
| "is_wi_error WhiteInternetInactiveSubscriptionError = True"
| "is_wi_error WhiteInternetTrialSubscriptionError = True"
| "is_wi_error (WhiteInternetError m) = True"
| "is_wi_error _ = False"

definition extend_wi_subscription :: "env \<Rightarrow> int \<Rightarrow> int \<Rightarrow> db \<Rightarrow> pyerr + wl_result \<times> db" where
  "extend_wi_subscription e uid days s =
     (case get_wi_by_user_id uid s of
        None \<Rightarrow> Inr ((False, ADMIN_WI_SUB_NOT_FOUND, None), s)
      | Some w \<Rightarrow>
          if is_trial w then Inr ((False, ADMIN_WI_TRIAL_EXTEND_FORBIDDEN, None), s)
          else (case extend_subscription_atomic (w_id w) days (now_utc e) s of
              Inl err \<Rightarrow> if is_wi_error err then Inr ((False, ERROR_TEXT err, None), s) else Inl err
            | Inr (v, s) \<Rightarrow>
                let s = (case origin_node_id v of
                      None \<Rightarrow> s
                    | Some i \<Rightarrow> (case get_server s i of
                        None \<Rightarrow> s
                      | Some n \<Rightarrow> if i \<noteq> 0 \<and> s_is_active n then snd (try_inline_sync e v n s) else s)) in
                Inr ((True, OK_TEXT, get_wi_row (w_id v) s), s)))"

end
