(* ===== verification/WI_Invariant.thy ===== *)
theory WI_Invariant
  imports Order_Evolution WI_Operations
begin

section \<open>White Internet requests keep the invariants\<close>

text \<open>
  Every operation on a White Internet row is \<open>quiet\<close>: it leaves orders and money alone and
  keeps the constraints of the rows.  A paid operation is \<open>charged\<close>: quiet when it does not debit the
  balance, an evolution of the orders and of the ledger when it does.
\<close>

subsection \<open>The repository\<close>

lemma cancel_orphans_quiet: "quiet s (snd (cancel_pending_orphan_cleanups_for_client sid c s))"
  by (rule quietI) (simp_all add: cancel_pending_orphan_cleanups_for_client_def Let_def)

lemma enqueue_quiet: "quiet s (snd (enqueue_orphan_cleanup sid c v s))"
  by (rule quietI) (simp_all add: enqueue_orphan_cleanup_def Let_def)

lemma expire_quiet: "expire_subscription_atomic i r s = Inr (x, t) \<Longrightarrow> quiet s t"
  by (auto simp: expire_subscription_atomic_def Let_def returned dest: save_wi_quiet)

lemma renew_atomic_quiet: "renew_subscription_atomic i d b m now s = Inr (x, t) \<Longrightarrow> quiet s t"
  by (auto simp: renew_subscription_atomic_def Let_def returned dest: save_wi_quiet)

lemma extend_atomic_quiet: "extend_subscription_atomic i d now s = Inr (x, t) \<Longrightarrow> quiet s t"
  by (auto simp: extend_subscription_atomic_def Let_def returned dest: save_wi_quiet)

lemma add_slot_quiet: "add_device_slot_atomic i b m q now s = Inr (x, t) \<Longrightarrow> quiet s t"
  by (auto simp: add_device_slot_atomic_def Let_def returned dest: save_wi_quiet)

lemma topup_atomic_quiet: "topup_quota_atomic i p now s = Inr (x, t) \<Longrightarrow> quiet s t"
  by (auto simp: topup_quota_atomic_def Let_def returned dest: save_wi_quiet)

lemma deduct_quiet: "deduct_traffic_atomic i d u w s = Inr (x, t) \<Longrightarrow> quiet s t"
  by (auto simp: deduct_traffic_atomic_def Let_def returned dest: save_wi_quiet)

lemma record_quiet: "record_and_deduct_traffic_atomic i n u d ub db s = Inr (x, t) \<Longrightarrow> quiet s t"
  by (auto simp: record_and_deduct_traffic_atomic_def Let_def returned dest: save_wi_quiet)

lemma reset_used_quiet: "reset_traffic_used_atomic i s = Inr (x, t) \<Longrightarrow> quiet s t"
  by (auto simp: reset_traffic_used_atomic_def Let_def returned dest: save_wi_quiet)

lemma add_extra_quiet: "add_extra_traffic_atomic i b s = Inr (x, t) \<Longrightarrow> quiet s t"
  by (auto simp: add_extra_traffic_atomic_def Let_def returned dest: save_wi_quiet)

lemma set_base_quiet: "set_base_traffic_quota_atomic i b s = Inr (x, t) \<Longrightarrow> quiet s t"
  by (auto simp: set_base_traffic_quota_atomic_def Let_def returned dest: save_wi_quiet)

lemma set_limit_quiet: "set_device_limit_atomic i l s = Inr (x, t) \<Longrightarrow> quiet s t"
  by (auto simp: set_device_limit_atomic_def Let_def returned dest: save_wi_quiet)

lemma reset_hwids_quiet: "reset_active_hwids_atomic i c now s = Inr (x, t) \<Longrightarrow> quiet s t"
  by (auto simp: reset_active_hwids_atomic_def Let_def returned dest: save_wi_quiet)

lemma reset_token_quiet: "reset_subscription_token_atomic i nt r ft now s = Inr (x, t) \<Longrightarrow> quiet s t"
  by (auto simp: reset_subscription_token_atomic_def Let_def returned dest: save_wi_quiet)

lemma register_quiet: "register_hwid_atomic i h m ttl info now s = Inr (x, t) \<Longrightarrow> quiet s t"
  by (auto simp: register_hwid_atomic_def Let_def returned dest: save_wi_quiet)

lemma finalize_quiet: "quiet s (snd (finalize_hard_delete_subscription i s))"
proof -
  have "wi_ok (s\<lparr>wi_subs := filter P (wi_subs s)\<rparr>)" if "wi_ok s" for P
    using that
    by (auto simp: wi_ok_def wi_checks_def uq_white_internet_live_user_def list_ex_iff
        distinct_map_filter)
  then show ?thesis
    by (auto simp: finalize_hard_delete_subscription_def quiet_def split: option.split)
qed

lemma create_wi_quiet:
  assumes "create_white_internet_subscription uid node tok c days base trial now s = Inr (w, t)"
  shows "quiet s t"
proof -
  let ?m = "s\<lparr>wi_subs := wi_subs s @ [w], wi_seq := wi_seq s + 1\<rparr>"
  have w: "w_id w = wi_seq s + 1" and chk: "wi_checks w (wi_subs s)"
    and t: "t = snd (cancel_pending_orphan_cleanups_for_client (Some node) c ?m)"
    using assms
    by (auto simp: create_white_internet_subscription_def Let_def split: if_split_asm)
  have "wi_ok ?m" if "wi_ok s"
    using that w chk
    by (force simp: wi_ok_def wi_checks_def uq_white_internet_live_user_def list_ex_iff)
  then have "quiet s ?m"
    by (simp add: quiet_def)
  also have "quiet ?m t"
    unfolding t by (rule cancel_orphans_quiet)
  finally show ?thesis .
qed

lemma wi_ok_map_rows:
  assumes ok: "wi_ok s" and f: "\<And>w. w_id (f w) = w_id w" "\<And>w. w_user_id (f w) = w_user_id w"
    "\<And>w. wi_live (f w) \<Longrightarrow> wi_live w" "\<And>w. wi_row_ok w \<Longrightarrow> wi_row_ok (f w)"
  shows "wi_ok (s\<lparr>wi_subs := update_rows P f (wi_subs s)\<rparr>)"
proof -
  let ?ws = "update_rows P f (wi_subs s)"
  have "wi_checks x ?ws \<and> w_id x \<le> wi_seq s" if mem: "x \<in> set ?ws" for x
  proof -
    obtain y where y: "y \<in> set (wi_subs s)" "x = (if P y then f y else y)"
      using mem unfolding set_update_rows by blast
    then have chk: "wi_checks y (wi_subs s)" and "w_id y \<le> wi_seq s"
      using ok by (simp_all add: wi_ok_def)
    have "wi_row_ok x"
      using chk f(4) y(2) by (auto simp: wi_checks_def wi_row_ok_def)
    moreover have "uq_white_internet_live_user x ?ws"
      unfolding uq_white_internet_live_user_def list_ex_iff
    proof (clarify)
      fix v
      assume live: "wi_live x" "wi_live v" and v: "v \<in> set ?ws" "w_id v \<noteq> w_id x" "w_user_id v = w_user_id x"
      obtain z where z: "z \<in> set (wi_subs s)" "v = (if P z then f z else z)"
        using v(1) unfolding set_update_rows by blast
      have "wi_live y" "wi_live z" "w_id z \<noteq> w_id y" "w_user_id z = w_user_id y"
        using live v y(2) z(2) f(1-3) by (auto split: if_split_asm)
      then show False
        using chk z(1) by (auto simp: wi_checks_def uq_white_internet_live_user_def list_ex_iff)
    qed
    ultimately show ?thesis
      using \<open>w_id y \<le> wi_seq s\<close> y(2) f(1) by (simp add: wi_checks_def wi_row_ok_def)
  qed
  moreover have "map w_id ?ws = map w_id (wi_subs s)"
    by (rule map_update_rows) (rule f(1))
  ultimately show ?thesis
    using ok by (simp add: wi_ok_def)
qed

subsection \<open>The service around the rows\<close>

lemma tariff_quiet: "quiet s (snd (get_or_create_white_internet_tariff now s))"
  by (rule quietI) (auto simp: get_or_create_white_internet_tariff_def Let_def split: option.split)

lemma dispatch_quiet: "quiet s (dispatch_deprovision srv c v s)"
  by (rule quietI) (auto simp: dispatch_deprovision_def split: option.split)

lemma cleanup_old_quiet: "quiet s (cleanup_old_origin old c v s)"
proof (cases old)
  case (Some n)
  have "quiet s (snd (enqueue_orphan_cleanup (Some (s_id n)) c v s))"
    by (rule enqueue_quiet)
  also have "quiet \<dots> (cleanup_old_origin old c v s)"
    by (simp add: Some cleanup_old_origin_def dispatch_quiet)
  finally show ?thesis .
qed (simp add: cleanup_old_origin_def)

lemma migrate_quiet: "migrate_sub n w s = Inr (x, t) \<Longrightarrow> quiet s t"
  by (auto simp: migrate_sub_def returned intro: quiet_trans cancel_orphans_quiet dest!: save_wi_quiet)

lemma apply_migration_quiet: "apply_migration target w s = Inr (x, t) \<Longrightarrow> quiet s t"
  by (auto simp: apply_migration_def returned dest: migrate_quiet)

lemma inline_sync_quiet: "quiet s (snd (try_inline_sync e w n s))"
  by (auto simp: try_inline_sync_def Let_def split: option.split sum.split dest: save_wi_quiet)

lemma optional_sync_quiet:
  "quiet s (case n of None \<Rightarrow> s | Some n \<Rightarrow> snd (try_inline_sync e w n s))"
  by (cases n) (simp_all add: inline_sync_quiet)

subsection \<open>The checkout\<close>

lemma checkout_evolves:
  assumes "checkout_wallet_order e u ty tid due d tr dev op trial ins s = Inr (x, t)"
  shows "evolves s t"
proof -
  have "evolves s t" if run: "whole_rubles (rubles due) True = Inr amt" for amt
  proof -
    define ord where "ord = \<lparr>o_id = fresh_order_id e, o_user_id = u_id u, service_type = ty,
                  tariff_id = tid, amount_rub = amt, duration_days = d, traffic_bytes = tr,
                  o_device_limit = dev, payment_method = ''wallet'', external_id = None,
                  payment_url = None, o_status = Order_PENDING, o_description = None,
                  o_metadata = (if trial then [''operation'' \<mapsto> JStr op, ''is_trial'' \<mapsto> JBool True]
                                else [''operation'' \<mapsto> JStr op]),
                  o_created_at = now_utc e, paid_at = None, refunded_at = None,
                  o_expires_at = Some (now_utc e + minutes_us 15)\<rparr>"
    let ?paid = "ord\<lparr>o_status := Order_PAID, paid_at := Some (now_utc e)\<rparr>"
    have pay: "order_evolves ord ?paid"
      by (auto simp: order_evolves_def order_terms_def ord_def intro: order_edge.pay)
    have cancel: "order_evolves ord (mark_order_canceled ord r)" for r
      by (auto simp: order_evolves_def order_terms_def mark_order_canceled_def ord_def
          intro: order_edge.cancel)
    note chk = assms [unfolded checkout_wallet_order_def Let_def run sum.case, folded ord_def]
    consider "t = s" | m where "add_order ord s = Inr (ord, m)"
      "amt = 0 \<and> t = set_order ?paid m
       \<or> (\<exists>r k. create_order_debit (u_id u) (rubles amt) (o_id ord) [''operation'' \<mapsto> JStr op]
            (now_utc e) m = Inr (r, k) \<and> t = set_order ?paid k)
       \<or> (\<exists>r. t = set_order (mark_order_canceled ord r) m)"
      using chk
      by (auto simp: returned add_order_Inr split: sum.split_asm pyerr.split_asm)
    then show ?thesis
    proof cases
      case 2
      have sm: "evolves s m" and row: "get_order m (o_id ord) = Some ord"
        using add_order_evolves [OF 2(1)] by simp_all
      have paid_at: "evolves k (set_order ?paid k)" if "get_order k (o_id ord) = Some ord" for k
        using that pay by (intro set_order_evolves) auto
      from 2(2) consider "t = set_order ?paid m"
        | r k where "create_order_debit (u_id u) (rubles amt) (o_id ord) [''operation'' \<mapsto> JStr op]
            (now_utc e) m = Inr (r, k)" "t = set_order ?paid k"
        | r where "t = set_order (mark_order_canceled ord r) m"
        by auto
      then have "evolves m t"
      proof cases
        case 1
        then show ?thesis
          using paid_at row by simp
      next
        case debited: (2 r k)
        have "order_owner m (o_id ord) = Some (u_id u)"
          using row by (simp add: order_owner_def ord_def)
        then have "evolves m k"
          by (rule order_debit_evolves [OF debited(1)])
        moreover have "get_order k (o_id ord) = Some ord"
          using row order_debit_frame [OF debited(1)] by (simp add: get_order_def)
        ultimately show ?thesis
          using paid_at debited(2) evolves_trans by blast
      next
        case 3
        then show ?thesis
          using row cancel by (auto intro: set_order_evolves)
      qed
      then show ?thesis
        using sm evolves_trans by blast
    qed simp
  qed
  then show ?thesis
    using assms by (cases "whole_rubles (rubles due) True")
      (auto simp: checkout_wallet_order_def returned)
qed

text \<open>A step of an operation that debits the balance, or does not.\<close>

definition charged :: "bool \<Rightarrow> db \<Rightarrow> db \<Rightarrow> bool" where
  "charged b s t = (if b then evolves s t else quiet s t)"

lemma charged_refl [simp, intro]: "charged b s s"
  by (simp add: charged_def)

lemma charged_trans [trans]: "charged b s t \<Longrightarrow> charged b t u \<Longrightarrow> charged b s u"
  by (auto simp: charged_def intro: evolves_trans quiet_trans split: if_split_asm)

lemma quiet_charged: "quiet s t \<Longrightarrow> charged b s t"
  by (simp add: charged_def quiet_evolves)

lemma charged_evolves: "charged b s t \<Longrightarrow> evolves s t"
  by (auto simp: charged_def quiet_evolves split: if_split_asm)

lemma charge_charged:
  assumes "charge b (checkout_wallet_order e u ty tid due d tr dev op trial ins) s = Inr (x, t)"
  shows "charged b s t"
  using assms by (auto simp: charge_def charged_def returned dest: checkout_evolves)

lemma charged_then: "charged b s t \<Longrightarrow> quiet t u \<Longrightarrow> charged b s u"
  by (blast intro: charged_trans quiet_charged)

subsection \<open>The operations\<close>

interpretation charged_step: step_relation "charged b" for b
  by unfold_locales (auto intro: charged_trans)

lemma ensures_quiet:
  "(\<And>x t. r = Inr (x, t) \<Longrightarrow> quiet s t) \<Longrightarrow> ensures (charged b) s r"
  by (rule ensuresI) (simp add: quiet_charged)

text \<open>The pieces a paid operation is made of.\<close>

lemma charge_ensures [ensures_rules]:
  "ensures (charged b) s (charge b (checkout_wallet_order e u ty tid due d tr dev op trial ins) s)"
  by (rule ensuresI) (rule charge_charged)

lemma move_ensures [ensures_rules]: "ensures (charged b) s (apply_migration target w s)"
  by (rule ensures_quiet) (rule apply_migration_quiet)

lemma save_ensures [ensures_rules]: "ensures (charged b) s (save_wi w s)"
  by (rule ensures_quiet) (rule save_wi_quiet)

lemma with_tariff_ensures:
  assumes "\<And>a t. get_or_create_white_internet_tariff now s = (a, t) \<Longrightarrow> ensures (charged b) t (f a t)"
  shows "ensures (charged b) s (let (a, t) = get_or_create_white_internet_tariff now s in f a t)"
  unfolding Let_def using assms by (intro charged_step.ensures_pair quiet_charged tariff_quiet)

text \<open>The aftermath of a move: the cleanup of the old node and the optional synchronisation.\<close>

lemma enqueue_old_quiet:
  "quiet s (case old of None \<Rightarrow> s | Some n \<Rightarrow> snd (enqueue_orphan_cleanup (f n) c v s))"
  by (cases old) (simp_all add: enqueue_quiet)

lemma aftermath_quiet:
  "quiet s (dispatch_deprovision old c v (case n of None \<Rightarrow> m | Some n \<Rightarrow> snd (try_inline_sync e w n m)))"
  if "quiet s m"
  by (rule quiet_trans [OF quiet_trans [OF that optional_sync_quiet] dispatch_quiet])

lemma ensures_quiet_return: "quiet s t \<Longrightarrow> ensures (charged b) s (Inr (x, t))"
  by (rule ensures_Inr) (rule quiet_charged)

lemmas charged_rules =
  with_tariff_ensures ensures_rules charged_step.ensures_return charged_step.ensures_and_then

lemmas aftermath_rules =
  ensures_quiet_return aftermath_quiet enqueue_old_quiet cleanup_old_quiet inline_sync_quiet

lemma convert_ensures [ensures_rules]:
  "ensures (charged b) s (convert_trial_to_paid e uid b s)"
  unfolding convert_trial_to_paid_def
  by (intro charged_rules; hypsubst?; intro aftermath_rules)

lemma renew_atomic_ensures [ensures_rules]:
  "ensures (charged b) s (renew_subscription_atomic i d by m now s)"
  by (rule ensures_quiet) (rule renew_atomic_quiet)

lemma create_wi_ensures [ensures_rules]:
  "ensures (charged b) s (create_white_internet_subscription uid n tok c d base tr now s)"
  by (rule ensures_quiet) (rule create_wi_quiet)

lemma add_slot_ensures [ensures_rules]: "ensures (charged b) s (add_device_slot_atomic i x m q now s)"
  by (rule ensures_quiet) (rule add_slot_quiet)

lemma topup_atomic_ensures [ensures_rules]: "ensures (charged b) s (topup_quota_atomic i p now s)"
  by (rule ensures_quiet) (rule topup_atomic_quiet)

lemma renew_ensures [ensures_rules]: "ensures (charged b) s (renew_subscription e uid b s)"
  unfolding renew_subscription_def
  by (intro charged_rules convert_ensures renew_atomic_ensures; hypsubst?; intro aftermath_rules)

lemma purchase_ensures [ensures_rules]: "ensures (charged b) s (purchase_subscription e uid b s)"
  unfolding purchase_subscription_def
  by (intro charged_rules convert_ensures renew_ensures create_wi_ensures; hypsubst?;
      intro aftermath_rules)

lemma pay_and_apply_ensures:
  assumes "\<And>m. ensures (charged b) m (change m)"
  shows "ensures (charged b) s (pay_and_apply b
     (checkout_wallet_order e u ty tid due d tr dev op trial ins) origin target w change result s)"
  unfolding pay_and_apply_def case_prod_beta
  by (intro charged_rules assms; hypsubst?; intro aftermath_rules)

lemma ensures_operable:
  assumes "\<And>w. ensures (charged b) s (f w)"
  shows "ensures (charged b) s (case operable e u actor text s of
     Inl msg \<Rightarrow> Inr ((False, msg, None), s) | Inr w \<Rightarrow> f w)"
  using assms by (cases "operable e u actor text s") (simp_all add: charged_step.ensures_return)

lemma slot_ensures [ensures_rules]: "ensures (charged b) s (purchase_device_slot e uid actor b s)"
  unfolding purchase_device_slot_def
  by (intro charged_rules ensures_operable pay_and_apply_ensures add_slot_ensures)

lemma topup_ensures [ensures_rules]: "ensures (charged b) s (topup_quota e uid gb actor b s)"
  unfolding topup_quota_def
  by (intro charged_rules ensures_operable pay_and_apply_ensures topup_atomic_ensures)

lemma checkout_ensures:
  "ensures (charged True) s (checkout_wallet_order e u ty tid due d tr dev op trial ins s)"
  by (rule ensuresI) (simp add: charged_def checkout_evolves)

lemma trial_ensures: "ensures (charged True) s (create_trial_subscription e uid s)"
  unfolding create_trial_subscription_def
  by (intro charged_rules checkout_ensures create_wi_ensures; hypsubst?; intro aftermath_rules)

subsection \<open>Deactivation, reset and extension\<close>

lemma fold_quiet:
  assumes "\<And>w s. quiet s (f w s)"
  shows "quiet s (fold f ws s)"
proof (induction ws arbitrary: s)
  case (Cons w ws)
  have "quiet s (f w s)" by (rule assms)
  also have "quiet (f w s) (fold f ws (f w s))" by (rule Cons.IH)
  finally show ?case by simp
qed simp

lemma deprovision_quiet: "quiet s (deprovision_all ws s)"
  unfolding deprovision_all_def
  by (rule fold_quiet) (simp add: dispatch_quiet split: option.split)

text \<open>Disabling a row takes it out of the live ones and keeps its constraints.\<close>

lemma disable_quiet:
  assumes "\<And>w. f w = (disable_sub reason w)\<lparr>pending_hard_delete := g w\<rparr>"
  shows "quiet s (s\<lparr>wi_subs := update_rows P f (wi_subs s)\<rparr>)"
proof -
  have "wi_ok (s\<lparr>wi_subs := update_rows P f (wi_subs s)\<rparr>)" if "wi_ok s"
    by (rule wi_ok_map_rows [OF that])
      (simp_all add: assms disable_sub_def wi_live_def wi_row_ok_def
        ck_white_internet_subscriptions_traffic_nonnegative_def
        ck_white_internet_subscriptions_device_limit_def)
  then show ?thesis
    by (simp add: quiet_def)
qed

lemma deactivate_quiet: "quiet s (snd (deactivate_user_subscriptions uid reason target s))"
proof -
  have "disable_sub reason w = (disable_sub reason w)\<lparr>pending_hard_delete := pending_hard_delete w\<rparr>" for w
    by (simp add: disable_sub_def)
  from disable_quiet [OF this] show ?thesis
    by (auto simp: deactivate_user_subscriptions_def Let_def intro: quiet_trans [OF _ deprovision_quiet])
qed

lemma set_user_quiet: "quiet s (set_user u s)"
  by (rule quietI) (simp_all add: set_user_def)

lemma reset_trial_quiet: "quiet s (snd (reset_user_trial e uid s))"
proof -
  have "quiet m (deprovision_all ws (m\<lparr>wi_subs := update_rows P
      (\<lambda>w. (disable_sub ''trial_reset'' w)\<lparr>pending_hard_delete := True\<rparr>) (wi_subs m)\<rparr>))" for m ws P
    by (rule quiet_trans [OF disable_quiet [OF refl] deprovision_quiet])
  from quiet_trans [OF set_user_quiet this] show ?thesis
    by (auto simp: reset_user_trial_def Let_def split: option.split)
qed

lemma extend_atomic_ensures: "ensures (charged b) s (extend_subscription_atomic i d now s)"
  by (rule ensures_quiet) (rule extend_atomic_quiet)

lemma extend_wi_quiet:
  assumes "extend_wi_subscription e uid days s = Inr (x, t)"
  shows "quiet s t"
proof -
  have sync: "quiet m (case origin_node_id v of None \<Rightarrow> m
      | Some i \<Rightarrow> (case get_server m i of None \<Rightarrow> m
         | Some n \<Rightarrow> if P i n then snd (try_inline_sync e v n m) else m))" for m v P
    by (auto simp: inline_sync_quiet split: option.split)
  show ?thesis
  proof (cases "get_wi_by_user_id uid s")
    case None
    then show ?thesis
      using assms by (simp add: extend_wi_subscription_def)
  next
    case (Some w)
    show ?thesis
    proof (cases "extend_subscription_atomic (w_id w) days (now_utc e) s")
      case (Inl err)
      then show ?thesis
        using assms Some by (auto simp: extend_wi_subscription_def split: if_split_asm)
    next
      case (Inr p)
      then obtain v m where p: "extend_subscription_atomic (w_id w) days (now_utc e) s = Inr (v, m)"
        by (cases p) auto
      note q = quiet_trans [OF extend_atomic_quiet [OF p] sync
          [of m "\<lambda>i n. i \<noteq> 0 \<and> s_is_active n" v]]
      show ?thesis
        using assms Some p q
        by (cases "is_trial w") (simp_all add: extend_wi_subscription_def Let_def)
    qed
  qed
qed

end
