(* ===== verification/Fulfillment.thy ===== *)
theory Fulfillment
  imports WI_Operations
begin

section \<open>services/fulfillment\_service.py\<close>

text \<open>
  What a paid order gives its user and what a refund takes back.  The order is a row of the
  session: the functions return it with the metadata they wrote and store it.
\<close>

definition opt_int :: "int option \<Rightarrow> int" where
  "opt_int x = (case x of None \<Rightarrow> 0 | Some i \<Rightarrow> i)"

definition is_standard :: "order \<Rightarrow> bool" where
  "is_standard ord \<longleftrightarrow> service_type ord = STANDARD \<or> service_type ord = AWG"

subsection \<open>VPN orders\<close>

text \<open>The state of the user kept in the order, to restore it from.\<close>

definition remember :: "user \<Rightarrow> meta \<Rightarrow> meta" where
  "remember u m =
     (let m = (case subscription_end u of None \<Rightarrow> m
               | Some t \<Rightarrow> m(''previous_subscription_end'' \<mapsto> JTime t));
          m = (case current_tariff_id u of None \<Rightarrow> m
               | Some i \<Rightarrow> if i = 0 then m else m(''previous_tariff_id'' \<mapsto> JInt i)) in
      m(''previous_device_limit'' \<mapsto> JInt (u_device_limit u)))"

definition granted_end :: "user \<Rightarrow> order \<Rightarrow> instant \<Rightarrow> instant option" where
  "granted_end u ord now =
     (if duration_days ord \<le> 0 then subscription_end u
      else if meta_truthy (o_metadata ord) ''is_tariff_change'' then Some (now + days_us (duration_days ord))
      else Some ((case subscription_end u of Some t \<Rightarrow> max t now | None \<Rightarrow> now)
                 + days_us (duration_days ord)))"

definition grant_standard :: "user \<Rightarrow> order \<Rightarrow> instant \<Rightarrow> user" where
  "grant_standard u ord now =
     reset_notifications
       (u\<lparr>subscription_end := granted_end u ord now,
          u_device_limit := (if opt_int (o_device_limit ord) \<noteq> 0 then opt_int (o_device_limit ord)
                             else u_device_limit u),
          current_tariff_id := (if opt_int (tariff_id ord) \<noteq> 0 then tariff_id ord
                                else current_tariff_id u)\<rparr>)"

definition fulfill_standard :: "user \<Rightarrow> order \<Rightarrow> instant \<Rightarrow> db \<Rightarrow> order \<times> db" where
  "fulfill_standard u ord now s =
     (let ord = ord\<lparr>o_metadata := remember u (o_metadata ord)\<rparr>;
          u = grant_standard u ord now in
      (ord, sync_access_state u now (set_user u (set_order ord s))))"

definition revoked_end :: "user \<Rightarrow> order \<Rightarrow> instant \<Rightarrow> instant option" where
  "revoked_end u ord now =
     (case subscription_end u of
        None \<Rightarrow> None
      | Some t \<Rightarrow>
          if duration_days ord \<le> 0 then Some t
          else
            let new_end = t - days_us (duration_days ord) in
            if new_end \<le> now then Some (now - hours_us (VPN_ACCESS_GRACE_HOURS + 1))
            else Some new_end)"

text \<open>
  A tariff change restores what the order remembers: \<open>datetime.fromisoformat\<close> accepts the
  instants the order was given, and any other value raises and is ignored.
\<close>

definition restore_previous :: "user \<Rightarrow> meta \<Rightarrow> user" where
  "restore_previous u m =
     (case m ''previous_subscription_end'' of
        Some (JTime t) \<Rightarrow>
          u\<lparr>subscription_end := Some t,
            current_tariff_id := (case m ''previous_tariff_id'' of
                Some (JInt i) \<Rightarrow> if i = 0 then current_tariff_id u else Some i
              | _ \<Rightarrow> current_tariff_id u),
            u_device_limit := (case m ''previous_device_limit'' of
                Some (JInt i) \<Rightarrow> i | _ \<Rightarrow> u_device_limit u)\<rparr>
      | _ \<Rightarrow> u)"

definition revoke_user :: "user \<Rightarrow> order \<Rightarrow> instant \<Rightarrow> user" where
  "revoke_user u ord now =
     (if meta_truthy (o_metadata ord) ''is_tariff_change''
         \<and> meta_truthy (o_metadata ord) ''previous_subscription_end''
      then restore_previous u (o_metadata ord)
      else u\<lparr>subscription_end := revoked_end u ord now\<rparr>)"

definition revoke_standard :: "user \<Rightarrow> order \<Rightarrow> instant \<Rightarrow> db \<Rightarrow> db" where
  "revoke_standard u ord now s =
     (let u = revoke_user u ord now in sync_access_state u now (set_user u s))"

subsection \<open>White Internet orders\<close>

definition operation_is :: "order \<Rightarrow> string \<Rightarrow> bool" where
  "operation_is ord op_name \<longleftrightarrow> o_metadata ord ''operation'' = Some (JStr op_name)"

definition looks_like_slot :: "order \<Rightarrow> bool" where
  "looks_like_slot ord \<longleftrightarrow>
     opt_int (o_device_limit ord) \<noteq> 0 \<and> traffic_bytes ord = 0 \<and> duration_days ord = 0"

definition looks_like_topup :: "order \<Rightarrow> bool" where
  "looks_like_topup ord \<longleftrightarrow> 0 < traffic_bytes ord \<and> duration_days ord = 0"

text \<open>A refusal of the service, raised as a \<open>RuntimeError\<close>.\<close>

definition require :: "string \<Rightarrow> bool \<times> wl_text \<times> 'a option \<Rightarrow> db \<Rightarrow> pyerr + 'a option \<times> db" where
  "require msg r s = (if fst r then Inr (snd (snd r), s) else Inl (RuntimeError msg))"

definition fulfill_white_internet :: "env \<Rightarrow> user \<Rightarrow> order \<Rightarrow> db \<Rightarrow> pyerr + order \<times> db" where
  "fulfill_white_internet e u ord s =
     (if operation_is ord ''add_device_slot'' \<or> looks_like_slot ord
      then and_then (purchase_device_slot e (u_id u) (Some (telegram_id u)) False s) (\<lambda>r s.
           and_then (require ''White Internet device slot purchase failed'' r s) (\<lambda>_ s. Inr (ord, s)))
      else if operation_is ord ''topup'' \<or> looks_like_topup ord
      then and_then (topup_quota e (u_id u) (max 1 (traffic_bytes ord div 1073741824))
                       (Some (telegram_id u)) False s) (\<lambda>r s.
           and_then (require ''White Internet quota topup failed'' r s) (\<lambda>_ s. Inr (ord, s)))
      else
        let run = (case get_wi_by_user_id (u_id u) s of
              Some w \<Rightarrow>
                if w_status w = WI_ACTIVE \<or> w_status w = WI_EXPIRED \<or> w_status w = WI_EXHAUSTED
                then renew_subscription else purchase_subscription
            | None \<Rightarrow> purchase_subscription) in
        and_then (run e (u_id u) False s) (\<lambda>r s.
        and_then (require ''White Internet subscription fulfillment failed'' r s) (\<lambda>created s.
          case created of
            None \<Rightarrow> Inr (ord, s)
          | Some w \<Rightarrow>
              let ord = ord\<lparr>o_metadata := (o_metadata ord)(''subscription_id'' \<mapsto> JInt (w_id w))\<rparr> in
              Inr (ord, set_order ord s))))"

definition revoke_white_internet :: "user \<Rightarrow> order \<Rightarrow> db \<Rightarrow> pyerr + unit \<times> db" where
  "revoke_white_internet u ord s =
     (if operation_is ord ''topup'' \<or> looks_like_topup ord
      then (case get_wi_by_user_id (u_id u) s of
          None \<Rightarrow> Inr ((), s)
        | Some w \<Rightarrow>
            and_then (save_wi
              (w\<lparr>extra_traffic_bytes := max 0 (extra_traffic_bytes w - traffic_bytes ord),
                 desired_version := desired_version w + 1\<rparr>) s) (\<lambda>_ s. Inr ((), s)))
      else if operation_is ord ''add_device_slot'' \<or> looks_like_slot ord
      then (case get_wi_by_user_id (u_id u) s of
          None \<Rightarrow> Inr ((), s)
        | Some w \<Rightarrow>
            and_then (save_wi
              (w\<lparr>w_device_limit := max WHITE_INTERNET_DEFAULT_DEVICE_LIMIT
                    ((if w_device_limit w = 0 then 1 else w_device_limit w) - 1),
                 extra_traffic_bytes :=
                   max 0 (extra_traffic_bytes w - WHITE_INTERNET_EXTRA_DEVICE_TRAFFIC_BYTES),
                 desired_version := desired_version w + 1\<rparr>) s) (\<lambda>_ s. Inr ((), s)))
      else Inr ((), snd (deactivate_user_subscriptions (u_id u) ''order_refunded''
             (case o_metadata ord ''subscription_id'' of Some (JInt i) \<Rightarrow> Some i | _ \<Rightarrow> None) s)))"

subsection \<open>The dispatch on the service type\<close>

definition fulfill_order :: "env \<Rightarrow> order \<Rightarrow> db \<Rightarrow> pyerr + order \<times> db" where
  "fulfill_order e ord s =
     (case get_user s (o_user_id ord) of
        None \<Rightarrow> Inr (ord, s)
      | Some u \<Rightarrow>
          if is_standard ord then Inr (fulfill_standard u ord (now_utc e) s)
          else if service_type ord = WHITE_INTERNET then fulfill_white_internet e u ord s
          else Inr (ord, s))"

definition revoke_order :: "env \<Rightarrow> order \<Rightarrow> db \<Rightarrow> pyerr + unit \<times> db" where
  "revoke_order e ord s =
     (case get_user s (o_user_id ord) of
        None \<Rightarrow> Inr ((), s)
      | Some u \<Rightarrow>
          if is_standard ord then Inr ((), revoke_standard u ord (now_utc e) s)
          else if service_type ord = WHITE_INTERNET then revoke_white_internet u ord s
          else Inr ((), s))"

end
