(* ===== verification/Gateway.thy ===== *)
theory Gateway
  imports Models
begin

section \<open>integrations/payment\_gateways and services/yookassa\_service.py\<close>

text \<open>
  The payment provider as the services see it: what an HTTP exchange becomes, how the
  invoice, a webhook and a status answer are read.  The exchange itself is the argument
  \<open>http_outcome\<close>.  Identifiers in the provider's JSON are strings or null, as its API
  documents; an amount is a number, the text of one (\<open>JDec\<close>), or another text (\<open>JStr\<close>).
\<close>

subsection \<open>base.py\<close>

record payment_invoice =
  inv_payment_url :: string
  inv_external_id :: string

record webhook_result =
  wh_order_id :: "string option"
  wh_is_paid :: bool
  wh_is_refunded :: bool
  wh_is_canceled :: bool
  wh_external_id :: string
  wh_amount_rub :: "decimal option"
  wh_event_type :: string
  related_external_id :: "string option"

record payment_status_result =
  st_is_paid :: bool
  st_is_refunded :: bool
  st_is_canceled :: bool
  status_str :: string
  st_amount_rub :: "decimal option"
  st_cancellation_reason :: "string option"
  is_temporary_error :: bool

subsection \<open>The HTTP transport\<close>

datatype YooKassaErrorKind =
    AUTH_FAILED | VALIDATION_FAILED | NOT_FOUND | RATE_LIMITED | SERVER_ERROR | NETWORK_ERROR
  | TIMEOUT | INVALID_RESPONSE | UNKNOWN

fun error_kind_value :: "YooKassaErrorKind \<Rightarrow> string" where
  "error_kind_value AUTH_FAILED = ''auth_failed''"
| "error_kind_value VALIDATION_FAILED = ''validation_failed''"
| "error_kind_value NOT_FOUND = ''not_found''"
| "error_kind_value RATE_LIMITED = ''rate_limited''"
| "error_kind_value SERVER_ERROR = ''server_error''"
| "error_kind_value NETWORK_ERROR = ''network_error''"
| "error_kind_value TIMEOUT = ''timeout''"
| "error_kind_value INVALID_RESPONSE = ''invalid_response''"
| "error_kind_value UNKNOWN = ''unknown''"

record yookassa_result =
  yk_ok :: bool
  yk_value :: "json option"
  error_kind :: "YooKassaErrorKind option"
  status_code :: "int option"
  retryable :: bool
  ambiguous :: bool

text \<open>How reading the body of a response ended, and how the exchange ended.\<close>

datatype body_outcome = Body json | Body_timeout | Body_client_error | Body_invalid | Body_failure
datatype http_outcome = Response int body_outcome | Conn_timeout | Conn_client_error | Conn_failure

definition yk_error ::
  "YooKassaErrorKind \<Rightarrow> int option \<Rightarrow> bool \<Rightarrow> bool \<Rightarrow> yookassa_result" where
  "yk_error k code retry amb =
     \<lparr>yk_ok = False, yk_value = None, error_kind = Some k, status_code = code,
      retryable = retry, ambiguous = amb\<rparr>"

definition http_error_kind :: "int \<Rightarrow> YooKassaErrorKind" where
  "http_error_kind code =
     (if code = 401 \<or> code = 403 then AUTH_FAILED
      else if code = 404 then NOT_FOUND
      else if code = 429 then RATE_LIMITED
      else if 500 \<le> code then SERVER_ERROR
      else VALIDATION_FAILED)"

definition yookassa_request :: "string option \<Rightarrow> bool \<Rightarrow> http_outcome \<Rightarrow> yookassa_result" where
  "yookassa_request idem_key ambiguous_on_failure outcome =
     (if (case idem_key of None \<Rightarrow> False | Some k \<Rightarrow> 64 < length k)
      then yk_error VALIDATION_FAILED None False False
      else (case outcome of
          Conn_timeout \<Rightarrow> yk_error TIMEOUT None True ambiguous_on_failure
        | Conn_client_error \<Rightarrow> yk_error NETWORK_ERROR None True ambiguous_on_failure
        | Conn_failure \<Rightarrow> yk_error UNKNOWN None False False
        | Response code body \<Rightarrow>
            let ambiguous_read = (ambiguous_on_failure \<and> \<not> (400 \<le> code \<and> code < 500)) in
            (case body of
               Body_timeout \<Rightarrow> yk_error TIMEOUT (Some code) True ambiguous_read
             | Body_client_error \<Rightarrow> yk_error NETWORK_ERROR (Some code) True ambiguous_read
             | Body_invalid \<Rightarrow>
                 yk_error INVALID_RESPONSE (Some code)
                   ((200 \<le> code \<and> code < 300) \<or> 500 \<le> code) ambiguous_read
             | Body_failure \<Rightarrow> yk_error UNKNOWN (Some code) False ambiguous_read
             | Body data \<Rightarrow>
                 if 200 \<le> code \<and> code < 300
                 then (case data of
                     JObj kvs \<Rightarrow> \<lparr>yk_ok = True, yk_value = Some data, error_kind = None,
                        status_code = Some code, retryable = False, ambiguous = False\<rparr>
                   | _ \<Rightarrow> yk_error INVALID_RESPONSE (Some code) True ambiguous_read)
                 else yk_error (http_error_kind code) (Some code) (code = 429 \<or> 500 \<le> code)
                        (ambiguous_on_failure \<and> 500 \<le> code))))"

subsection \<open>Reading JSON\<close>

definition jget :: "json \<Rightarrow> string \<Rightarrow> json" where
  "jget j k = (case j of
     JObj kvs \<Rightarrow> (case map_of kvs k of None \<Rightarrow> JNull | Some v \<Rightarrow> v) | _ \<Rightarrow> JNull)"

definition id_text :: "json \<Rightarrow> string option" where
  "id_text j = (case j of JStr x \<Rightarrow> Some x | _ \<Rightarrow> None)"

definition text_or_empty :: "json \<Rightarrow> string" where
  "text_or_empty j = (case j of JStr x \<Rightarrow> x | _ \<Rightarrow> [])"

text \<open>
  \<open>x.get(...)\<close> of a value that is not a dict raises \<open>AttributeError\<close>; a falsy value was
  replaced by an empty dict before.
\<close>

definition dict_or_empty :: "json \<Rightarrow> pyerr + json" where
  "dict_or_empty j =
     (if \<not> truthy j then Inr (JObj [])
      else (case j of JObj kvs \<Rightarrow> Inr j | _ \<Rightarrow> Inl (AttributeError ''object has no attribute get'')))"

text \<open>\<open>Decimal(str(v))\<close>: a special value has a text of its own; any other text is invalid.\<close>

definition parse_decimal :: "json \<Rightarrow> decimal option" where
  "parse_decimal j =
     (case j of
        JDec d \<Rightarrow> Some (Finite d)
      | JInt i \<Rightarrow> Some (Finite (of_int i))
      | JStr x \<Rightarrow> if x = ''Infinity'' then Some PosInf else if x = ''-Infinity'' then Some NegInf
                  else if x = ''NaN'' then Some NaN else None
      | _ \<Rightarrow> None)"

text \<open>The positive amount in rubles; comparing a NaN raises, which is caught as well.\<close>

definition parse_amount :: "json \<Rightarrow> decimal option" where
  "parse_amount amount_obj =
     (if jget amount_obj ''value'' \<noteq> JNull \<and> jget amount_obj ''currency'' = JStr ''RUB''
      then (case parse_decimal (jget amount_obj ''value'') of
          Some (Finite d) \<Rightarrow> if 0 < d then Some (Finite d) else None
        | Some PosInf \<Rightarrow> Some PosInf
        | _ \<Rightarrow> None)
      else None)"

subsection \<open>yookassa.py\<close>

definition create_payment_url :: "uuid \<Rightarrow> http_outcome \<Rightarrow> pyerr + payment_invoice" where
  "create_payment_url oid outcome =
     (let r = yookassa_request (Some (''order_'' @ oid)) True outcome in
      if \<not> yk_ok r \<or> \<not> (case yk_value r of None \<Rightarrow> False | Some v \<Rightarrow> truthy v)
      then Inl (if ambiguous r then PaymentCreationAmbiguousError
                else RuntimeError ''YooKassa payment creation error'')
      else
        let data = (case yk_value r of None \<Rightarrow> JNull | Some v \<Rightarrow> v);
            ext = py_strip (text_or_empty (jget data ''id'')) in
        (case dict_or_empty (jget data ''confirmation'') of
           Inl err \<Rightarrow> Inl err
         | Inr confirmation \<Rightarrow>
             let url = py_strip (text_or_empty (jget confirmation ''confirmation_url'')) in
             if ext = [] \<or> url = [] then Inl PaymentCreationAmbiguousError
             else Inr \<lparr>inv_payment_url = url, inv_external_id = ext\<rparr>))"

definition parse_webhook :: "json \<Rightarrow> pyerr + webhook_result" where
  "parse_webhook payload =
     (case dict_or_empty payload of Inl err \<Rightarrow> Inl err | Inr payload \<Rightarrow>
      (case dict_or_empty (jget payload ''object'') of Inl err \<Rightarrow> Inl err | Inr obj \<Rightarrow>
       (case dict_or_empty (jget obj ''metadata'') of Inl err \<Rightarrow> Inl err | Inr md \<Rightarrow>
        (case dict_or_empty (jget obj ''amount'') of Inl err \<Rightarrow> Inl err | Inr amount_obj \<Rightarrow>
          let event = text_or_empty (jget payload ''event'');
              amt = parse_amount amount_obj;
              refund = (event = ''refund.succeeded'') in
          Inr \<lparr>wh_order_id = id_text (jget md ''order_id''),
               wh_is_paid = (event = ''payment.succeeded'' \<and> amt \<noteq> None),
               wh_is_refunded = refund,
               wh_is_canceled = (event = ''payment.canceled''),
               wh_external_id = text_or_empty (jget obj ''id''),
               wh_amount_rub = amt,
               wh_event_type = (if event \<noteq> [] then event else text_or_empty (jget obj ''status'')),
               related_external_id = (if refund then id_text (jget obj ''payment_id'') else None)\<rparr>))))"

definition temporary_kind :: "YooKassaErrorKind option \<Rightarrow> bool" where
  "temporary_kind k \<longleftrightarrow>
     k = Some TIMEOUT \<or> k = Some NETWORK_ERROR \<or> k = Some SERVER_ERROR \<or> k = Some RATE_LIMITED"

definition check_payment_status :: "http_outcome \<Rightarrow> pyerr + payment_status_result" where
  "check_payment_status outcome =
     (let r = yookassa_request None False outcome in
      if \<not> yk_ok r \<or> \<not> (case yk_value r of None \<Rightarrow> False | Some v \<Rightarrow> truthy v)
      then Inr \<lparr>st_is_paid = False, st_is_refunded = False, st_is_canceled = False,
                status_str = (if status_code r = Some 404 then ''not_found''
                   else (case error_kind r of Some k \<Rightarrow> error_kind_value k | None \<Rightarrow> ''unknown'')),
                st_amount_rub = None, st_cancellation_reason = None,
                is_temporary_error = (temporary_kind (error_kind r) \<or> retryable r)\<rparr>
      else
        let data = (case yk_value r of None \<Rightarrow> JNull | Some v \<Rightarrow> v);
            status = text_or_empty (jget data ''status'') in
        (case dict_or_empty (jget data ''amount'') of
           Inl err \<Rightarrow> Inl err
         | Inr amount_obj \<Rightarrow>
             let amt = parse_amount amount_obj in
             Inr \<lparr>st_is_paid = (status = ''succeeded'' \<and> amt \<noteq> None), st_is_refunded = False,
                  st_is_canceled = (status = ''canceled''), status_str = status,
                  st_amount_rub = amt,
                  st_cancellation_reason =
                    id_text (jget (jget data ''cancellation_details'') ''reason''),
                  is_temporary_error = False\<rparr>))"

subsection \<open>When an invoice is given up\<close>

text \<open>Outcomes after which the provider may hold the payment.\<close>

definition may_exist :: "http_outcome \<Rightarrow> bool" where
  "may_exist outcome =
     (case outcome of
        Response code _ \<Rightarrow> (200 \<le> code \<and> code < 300) \<or> 500 \<le> code
      | Conn_timeout \<Rightarrow> True
      | Conn_client_error \<Rightarrow> True
      | Conn_failure \<Rightarrow> False)"

end
