(* ===== verification/Orders.thy ===== *)
theory Orders
  imports Fulfillment Gateway
begin

section \<open>services/order\_service.py\<close>

text \<open>
  The life of an order: its price, its creation at the provider, payment from the wallet,
  settlement, and the webhook that drives it.  \<open>order_id\<close> texts are canonical UUIDs, so
  parsing one is looking it up.  The transient attribute \<open>_newly_paid\<close>, which is no
  column, accompanies the order a settlement returns (theory \<open>Settlement\<close>).
\<close>

definition CHECKOUT_DESCRIPTION_DEFAULT :: string where
  "CHECKOUT_DESCRIPTION_DEFAULT = ''CHECKOUT_DESCRIPTION_DEFAULT''"

subsection \<open>The price of a tariff change\<close>

definition days_left :: "instant \<Rightarrow> instant \<Rightarrow> int" where
  "days_left sub_end now = max 0 (if now < sub_end then \<lceil>fl (total_seconds (sub_end - now) / 86400)\<rceil> else 0)"

text \<open>The daily price: a float quotient, with 30 days for a tariff without a duration.\<close>

definition daily_price :: "tariff \<Rightarrow> rat" where
  "daily_price t =
     fl (fl (of_int (price_rub t)) /
         (if 0 < t_duration_days t then fl (of_int (t_duration_days t)) else 30))"

definition remaining_rub :: "tariff \<Rightarrow> int \<Rightarrow> int" where
  "remaining_rub current left = round_half_even (fl (fl (of_int left) * daily_price current))"

definition calculate_tariff_change ::
  "tariff option \<Rightarrow> tariff \<Rightarrow> instant option \<Rightarrow> instant \<Rightarrow> money \<times> int" where
  "calculate_tariff_change current target sub_end now =
     (let full = (of_int (price_rub target), t_duration_days target) in
      case sub_end of
        None \<Rightarrow> full
      | Some t \<Rightarrow> (case current of
          None \<Rightarrow> full
        | Some c \<Rightarrow>
            let left = days_left t now in
            if t \<le> now \<or> left \<le> 0 \<or> price_rub c \<le> 0 \<or> price_rub target \<le> 0 then full
            else
              let remaining = remaining_rub c left in
              if price_rub target \<le> remaining
              then (0, if \<bar>fl (daily_price c - daily_price target)\<bar> < fl (1 / 1000000) then left
                       else max 1 (round_half_even
                              (fl (fl (of_int remaining) / daily_price target))))
              else (max 0 (of_int (price_rub target - remaining)), t_duration_days target)))"

subsection \<open>The terms of an order\<close>

record terms =
  tm_amount :: "money option"
  tm_days :: "int option"
  tm_devices :: "int option"
  tm_description :: "string option"
  tm_meta :: meta

definition active_on_tariff :: "user option \<Rightarrow> instant \<Rightarrow> int option" where
  "active_on_tariff u now =
     (case u of
        None \<Rightarrow> None
      | Some u \<Rightarrow> (case (current_tariff_id u, subscription_end u) of
          (Some i, Some t) \<Rightarrow> if i \<noteq> 0 \<and> now < t then Some i else None
        | _ \<Rightarrow> None))"

definition change_terms :: "user option \<Rightarrow> int \<Rightarrow> tariff \<Rightarrow> instant \<Rightarrow> terms \<Rightarrow> db \<Rightarrow> terms" where
  "change_terms u current_id t now tm s =
     (let (due_rub, resulting_days) = calculate_tariff_change (get_tariff s current_id) t
            (case u of None \<Rightarrow> None | Some u \<Rightarrow> subscription_end u) now in
      tm\<lparr>tm_meta := (tm_meta tm)(''is_tariff_change'' \<mapsto> JBool True, ''operation'' \<mapsto> JStr ''change''),
         tm_amount := (case tm_amount tm of None \<Rightarrow> Some due_rub | a \<Rightarrow> a),
         tm_days := (case tm_days tm of None \<Rightarrow> Some resulting_days | d \<Rightarrow> d)\<rparr>)"

definition welcome_discount :: "tariff \<Rightarrow> money" where
  "welcome_discount t = quantize_down (of_int (price_rub t) * REFERRAL_WELCOME_DISCOUNT_PERCENT)"

definition purchase_terms :: "int \<Rightarrow> bool \<Rightarrow> tariff \<Rightarrow> terms \<Rightarrow> db \<Rightarrow> terms" where
  "purchase_terms uid renewal t tm s =
     (let m = (if renewal
               then (tm_meta tm)(''is_renewal'' \<mapsto> JBool True, ''operation'' \<mapsto> JStr ''renew'')
               else meta_default (tm_meta tm) ''operation'' (JStr ''purchase''));
          tm = tm\<lparr>tm_meta := m\<rparr>;
          tm = (case tm_amount tm of
              Some _ \<Rightarrow> tm
            | None \<Rightarrow>
                if is_eligible_for_referral_first_discount uid s
                then tm\<lparr>tm_amount := Some (max 1 (of_int (price_rub t) - welcome_discount t)),
                        tm_meta := m(''is_referral_discount'' \<mapsto> JBool True,
                          ''discount_rub'' \<mapsto> JInt (trunc_rat (welcome_discount t)),
                          ''original_price_rub'' \<mapsto> JInt (price_rub t))\<rparr>
                else tm\<lparr>tm_amount := Some (of_int (price_rub t))\<rparr>) in
      tm\<lparr>tm_days := (case tm_days tm of None \<Rightarrow> Some (t_duration_days t) | d \<Rightarrow> d)\<rparr>)"

definition resolve_order_terms ::
  "user option \<Rightarrow> int \<Rightarrow> int option \<Rightarrow> terms \<Rightarrow> instant \<Rightarrow> db \<Rightarrow> terms" where
  "resolve_order_terms u uid tid tm now s =
     (case tid of
        None \<Rightarrow> tm
      | Some i \<Rightarrow> (case get_tariff s i of
          None \<Rightarrow> tm
        | Some t \<Rightarrow>
            let tm = (case active_on_tariff u now of
                Some cur \<Rightarrow> if cur \<noteq> t_id t then change_terms u cur t now tm s
                              else purchase_terms uid True t tm s
              | None \<Rightarrow> purchase_terms uid False t tm s) in
            tm\<lparr>tm_devices := (case tm_devices tm of None \<Rightarrow> Some (t_device_limit t) | d \<Rightarrow> d),
               tm_description := (case tm_description tm of
                   None \<Rightarrow> Some (CHECKOUT_DESCRIPTION_DEFAULT @ '' ('' @ t_name t @ '')'')
                 | d \<Rightarrow> d)\<rparr>))"

subsection \<open>Creating an order\<close>

record order_request =
  rq_user_id :: int
  rq_service_type :: OrderServiceType
  rq_tariff_id :: "int option"
  rq_traffic_bytes :: int
  rq_payment_method :: string
  rq_terms :: terms

definition normal_service_type :: "OrderServiceType \<Rightarrow> OrderServiceType" where
  "normal_service_type ty = (if ty = AWG then STANDARD else ty)"

definition request_order ::
  "order_request \<Rightarrow> terms \<Rightarrow> uuid \<Rightarrow> OrderStatus \<Rightarrow> instant \<Rightarrow> order" where
  "request_order rq tm oid st now =
     \<lparr>o_id = oid, o_user_id = rq_user_id rq,
      service_type = normal_service_type (rq_service_type rq), tariff_id = rq_tariff_id rq,
      amount_rub = (case tm_amount tm of None \<Rightarrow> 0 | Some a \<Rightarrow> a),
      duration_days = opt_int (tm_days tm), traffic_bytes = rq_traffic_bytes rq,
      o_device_limit = tm_devices tm, payment_method = rq_payment_method rq,
      external_id = None, payment_url = None, o_status = st,
      o_description = Some (case tm_description tm of
          None \<Rightarrow> CHECKOUT_DESCRIPTION_DEFAULT
        | Some d \<Rightarrow> if d = [] then CHECKOUT_DESCRIPTION_DEFAULT else d),
      o_metadata = tm_meta tm, o_created_at = now,
      paid_at = (if st = Order_PAID then Some now else None), refunded_at = None,
      o_expires_at = None\<rparr>"

text \<open>The pending order a double click would duplicate.\<close>

definition pending_duplicate :: "order \<Rightarrow> instant \<Rightarrow> db \<Rightarrow> order option" where
  "pending_duplicate ord now s =
     (case sort_key (\<lambda>x. - o_created_at x) (filter (\<lambda>x.
          o_user_id x = o_user_id ord \<and> service_type x = service_type ord
        \<and> tariff_id x = tariff_id ord \<and> duration_days x = duration_days ord
        \<and> traffic_bytes x = traffic_bytes ord \<and> o_device_limit x = o_device_limit ord
        \<and> payment_method x = payment_method ord \<and> amount_rub x = amount_rub ord
        \<and> o_status x = Order_PENDING \<and> now - minutes_us 15 \<le> o_created_at x
        \<and> payment_url x \<noteq> None) (orders s)) of
        [] \<Rightarrow> None
      | x # _ \<Rightarrow> if payment_url x = Some [] then None else Some x)"

text \<open>
  The result and the state left behind: a definite failure is rolled back, an ambiguous one
  is committed with the order before it is raised.
\<close>

definition place_order :: "env \<Rightarrow> http_outcome \<Rightarrow> order \<Rightarrow> db \<Rightarrow> (pyerr + order) \<times> db" where
  "place_order e http ord s0 =
     (let external = (payment_method ord \<noteq> ''wallet'') in
      case (if external then pending_duplicate ord (now_utc e) s0 else None) of
        Some existing \<Rightarrow> (Inr existing, s0)
      | None \<Rightarrow> (case add_order ord s0 of
          Inl err \<Rightarrow> (Inl err, s0)
        | Inr (_, s) \<Rightarrow>
            if \<not> external then (Inr ord, s)
            else if py_lower (payment_method ord) \<noteq> ''yookassa''
            then (Inl (ValueError (''Unknown payment gateway: '' @ payment_method ord)), s0)
            else (case create_payment_url (o_id ord) http of
                Inr invoice \<Rightarrow>
                  let ord = ord\<lparr>external_id := Some (inv_external_id invoice),
                                payment_url := Some (inv_payment_url invoice)\<rparr> in
                  (case save_order ord s of
                     Inl err \<Rightarrow> (Inl err, s0)
                   | Inr (ord, s) \<Rightarrow> (Inr ord, s))
              | Inl PaymentCreationAmbiguousError \<Rightarrow>
                  (Inl PaymentCreationAmbiguousError,
                   set_order (ord\<lparr>o_metadata :=
                     (o_metadata ord)(''payment_creation_ambiguous'' \<mapsto> JBool True)\<rparr>) s)
              | Inl err \<Rightarrow> (Inl err, s0))))"

definition create_order ::
  "env \<Rightarrow> http_outcome \<Rightarrow> order_request \<Rightarrow> db \<Rightarrow> (pyerr + order) \<times> db" where
  "create_order e http rq s0 =
     (let tm = resolve_order_terms (get_user s0 (rq_user_id rq)) (rq_user_id rq) (rq_tariff_id rq)
                 (rq_terms rq) (now_utc e) s0;
          ord = request_order rq tm (fresh_order_id e) Order_PENDING (now_utc e) in
      place_order e http ord s0)"

definition pay_from_wallet :: "env \<Rightarrow> order_request \<Rightarrow> db \<Rightarrow> pyerr + order \<times> db" where
  "pay_from_wallet e rq s =
     (let u = get_user s (rq_user_id rq) in
      if (case u of None \<Rightarrow> False | Some u \<Rightarrow> financial_hold u) then Inl FinancialHoldBlockedError
      else
        let tm = resolve_order_terms u (rq_user_id rq) (rq_tariff_id rq) (rq_terms rq) (now_utc e) s;
            ord = request_order (rq\<lparr>rq_payment_method := ''wallet''\<rparr>) tm (fresh_order_id e)
                    Order_PAID (now_utc e);
            cost = amount_rub ord in
        and_then (get_account_balance (rq_user_id rq) True s) (\<lambda>b s.
          if 0 < debt b then Inl AccountDebtBlockedError
          else if available b < cost then Inl (InsufficientBalanceError cost (available b))
          else and_then (add_order ord s) (\<lambda>ord s.
            and_then
              (if 0 < cost
               then and_then (create_order_debit (rq_user_id rq) (rubles cost) (o_id ord)
                      [''description'' \<mapsto> json_opt JStr (o_description ord)] (now_utc e) s)
                      (\<lambda>_ s. Inr ((), s))
               else Inr ((), s))
              (\<lambda>_ s. fulfill_order e ord s))))"

end
