(* ===== verification/Settlement.thy ===== *)
theory Settlement
  imports Orders
begin

section \<open>services/order\_service.py: settlement and webhooks\<close>

text \<open>
  What happens once the provider reports money: the settlement of an order, the guards
  around it, and the webhook that drives payment, cancellation and refund.  The order is a
  row of the session, so every function stores it before it reads other tables.
\<close>

subsection \<open>The benefits of a paid order\<close>

definition referrer_notice :: "grant_result \<Rightarrow> int \<Rightarrow> json" where
  "referrer_notice g rid = JObj
     [(''user_id'', JInt rid),
      (''telegram_id'', json_opt JInt (referrer_telegram_id g)),
      (''bonus'', JDec (referrer_bonus g)),
      (''bonus_rate_pct'', JInt (bonus_rate_pct g)),
      (''tier_upgraded'', JBool (tier_upgraded g)),
      (''new_tier_name'', json_opt JStr (new_tier_name g)),
      (''new_rate_pct'', json_opt JInt (new_rate_pct g))]"

definition note_referrer :: "grant_result \<Rightarrow> order \<Rightarrow> order" where
  "note_referrer g ord =
     (case referrer_user_id g of
        None \<Rightarrow> ord
      | Some rid \<Rightarrow>
          if 0 < referrer_bonus g
          then ord\<lparr>o_metadata := (o_metadata ord)(''referrer_notify_pending'' \<mapsto> referrer_notice g rid)\<rparr>
          else ord)"

definition credit_meta :: "order \<Rightarrow> bool \<Rightarrow> meta" where
  "credit_meta ord was_canceled =
     (let m = [''source'' \<mapsto> JStr (payment_method ord @ ''_topup'')] in
      if was_canceled then m(''revived'' \<mapsto> JBool True) else m)"

definition credit_wallet :: "env \<Rightarrow> order \<Rightarrow> bool \<Rightarrow> db \<Rightarrow> pyerr + unit \<times> db" where
  "credit_wallet e ord was_canceled s =
     (if service_type ord = TOPUP
      then and_then (create_order_credit (o_user_id ord) (rubles (amount_rub ord)) (o_id ord)
             (credit_meta ord was_canceled) (now_utc e) s) (\<lambda>_ s. Inr ((), s))
      else Inr ((), s))"

definition grant_inviter :: "env \<Rightarrow> order \<Rightarrow> db \<Rightarrow> pyerr + order \<times> db" where
  "grant_inviter e ord s =
     (if real_money_order ord
      then and_then (grant_referral_bonus_for_topup (o_user_id ord) None (Some (o_id ord))
             (amount_rub ord) (now_utc e) s)
             (\<lambda>g s. Inr (note_referrer g ord, set_order (note_referrer g ord) s))
      else Inr (ord, s))"

definition settle_benefits :: "env \<Rightarrow> order \<Rightarrow> bool \<Rightarrow> db \<Rightarrow> pyerr + order \<times> db" where
  "settle_benefits e ord was_canceled s =
     and_then (save_order (mark_notify_pending ord) s) (\<lambda>ord s.
     and_then (credit_wallet e ord was_canceled s) (\<lambda>_ s.
     and_then (grant_inviter e ord s) (\<lambda>ord s.
       if o_status ord \<noteq> Order_REFUNDED then fulfill_order e ord s else Inr (ord, s))))"

subsection \<open>Marking an order paid\<close>

text \<open>\<open>paid_amount_rub < order.amount_rub\<close>: a comparison with a NaN raises.\<close>

fun paid_less :: "decimal \<Rightarrow> money \<Rightarrow> pyerr + bool" where
  "paid_less (Finite x) a = Inr (x < a)"
| "paid_less PosInf a = Inr False"
| "paid_less NegInf a = Inr True"
| "paid_less NaN a = Inl InvalidOperation"

fun decimal_text :: "decimal \<Rightarrow> json" where
  "decimal_text (Finite x) = JDec x"
| "decimal_text PosInf = JStr ''Infinity''"
| "decimal_text NegInf = JStr ''-Infinity''"
| "decimal_text NaN = JStr ''NaN''"

definition is_underpaid :: "decimal option \<Rightarrow> order \<Rightarrow> pyerr + bool" where
  "is_underpaid paid ord =
     (case paid of None \<Rightarrow> Inr False | Some d \<Rightarrow> paid_less d (amount_rub ord))"

definition note_underpaid :: "decimal option \<Rightarrow> order \<Rightarrow> order" where
  "note_underpaid paid ord =
     (let received = (case paid of None \<Rightarrow> JStr ''None'' | Some d \<Rightarrow> decimal_text d) in
      ord\<lparr>o_metadata := (o_metadata ord)(
            ''underpaid'' \<mapsto> JBool True,
            ''underpaid_expected'' \<mapsto> JDec (amount_rub ord),
            ''underpaid_received'' \<mapsto> received,
            ''requires_manual_review'' \<mapsto> JBool True,
            ''manual_review'' \<mapsto> JBool True,
            ''manual_review_reason'' \<mapsto> JStr ''underpayment'',
            ''refund_amount_mismatch'' \<mapsto>
              JFmt ''Underpaid: expected {} RUB, received {} RUB'' [JDec (amount_rub ord), received])\<rparr>)"

text \<open>Whether the user's state withholds the benefits of a payment.\<close>

definition is_withheld :: "user \<Rightarrow> order \<Rightarrow> bool" where
  "is_withheld u ord \<longleftrightarrow>
     is_banned u \<or> (service_type ord = TOPUP \<and> (financial_hold u \<or> topup_blocked u))
   \<or> (service_type ord \<noteq> TOPUP \<and> financial_hold u)"

definition hold_reason :: "user \<Rightarrow> string" where
  "hold_reason u =
     (if is_banned u then ''user_banned''
      else if financial_hold u then ''financial_hold'' else ''topup_blocked'')"

definition note_held :: "user \<Rightarrow> order \<Rightarrow> order" where
  "note_held u ord =
     ord\<lparr>o_metadata := (o_metadata ord)(''settlement_held'' \<mapsto> JBool True,
           ''settlement_hold_reason'' \<mapsto> JStr (hold_reason u))\<rparr>"

definition clear_held :: "order \<Rightarrow> order" where
  "clear_held ord =
     ord\<lparr>o_metadata := (o_metadata ord)(''settlement_held'' := None, ''settlement_hold_reason'' := None)\<rparr>"

definition note_paid :: "env \<Rightarrow> bool \<Rightarrow> order \<Rightarrow> order" where
  "note_paid e was_canceled ord =
     ord\<lparr>o_status := Order_PAID, paid_at := Some (now_utc e),
         o_metadata := (if was_canceled
                        then (o_metadata ord)(''revived_from_canceled'' \<mapsto> JBool True)
                        else o_metadata ord)\<rparr>"

text \<open>
  What a settlement returns: the order, and the attribute \<open>_newly_paid\<close> it sets on the object.
  The attribute is no column: it lives with the returned object and no later session sees it.
\<close>

type_synonym settled = "(order \<times> bool) option"

text \<open>An order that is paid already: its benefits are released once nothing holds them.\<close>

definition release_held :: "env \<Rightarrow> order \<Rightarrow> db \<Rightarrow> pyerr + settled \<times> db" where
  "release_held e ord s =
     (if \<not> meta_truthy (o_metadata ord) ''settlement_held'' then Inr (Some (ord, False), s)
      else if (case get_user s (o_user_id ord) of
            None \<Rightarrow> False
          | Some u \<Rightarrow> is_banned u \<or> financial_hold u
              \<or> (service_type ord = TOPUP \<and> topup_blocked u))
      then Inr (Some (ord, False), s)
      else and_then (settle_benefits e (clear_held ord) False s) (\<lambda>ord s. Inr (Some (ord, True), s)))"

text \<open>The payment of a pending or revivable order.\<close>

definition take_payment ::
  "env \<Rightarrow> order \<Rightarrow> string option \<Rightarrow> decimal option \<Rightarrow> db \<Rightarrow> pyerr + settled \<times> db" where
  "take_payment e ord ext paid s =
     (let was_canceled = (o_status ord = Order_CANCELED);
          ord = (case ext of None \<Rightarrow> ord
                 | Some x \<Rightarrow> if x = [] then ord else ord\<lparr>external_id := Some x\<rparr>) in
      case is_underpaid paid ord of
        Inl err \<Rightarrow> Inl err
      | Inr True \<Rightarrow> and_then (save_order (note_underpaid paid ord) s) (\<lambda>ord s. Inr (Some (ord, False), s))
      | Inr False \<Rightarrow>
          let ord = note_paid e was_canceled ord in
          (case get_user s (o_user_id ord) of
             Some u \<Rightarrow>
               if is_withheld u ord
               then and_then (save_order (note_held u ord) s) (\<lambda>ord s. Inr (Some (ord, False), s))
               else and_then (settle_benefits e ord was_canceled s) (\<lambda>ord s. Inr (Some (ord, True), s))
           | None \<Rightarrow> and_then (settle_benefits e ord was_canceled s) (\<lambda>ord s. Inr (Some (ord, True), s))))"

definition mark_order_paid ::
  "env \<Rightarrow> uuid \<Rightarrow> string option \<Rightarrow> decimal option \<Rightarrow> db \<Rightarrow> pyerr + settled \<times> db" where
  "mark_order_paid e oid ext paid s =
     (case get_order s oid of
        None \<Rightarrow> Inr (None, s)
      | Some ord \<Rightarrow>
          (case o_status ord of
             Order_PAID \<Rightarrow> release_held e ord s
           | Order_REFUNDED \<Rightarrow> Inr (Some (ord, False), s)
           | Order_CANCELED \<Rightarrow>
               if gateway_canceled ord
               then Inr (None, s)
               else take_payment e ord ext paid s
           | Order_PENDING \<Rightarrow> take_payment e ord ext paid s))"

subsection \<open>The webhook\<close>

definition get_order_by_external_id :: "string \<Rightarrow> db \<Rightarrow> order option" where
  "get_order_by_external_id x s = find (\<lambda>ord. external_id ord = Some x) (orders s)"

definition nonempty :: "string option \<Rightarrow> string option" where
  "nonempty x = (case x of None \<Rightarrow> None | Some y \<Rightarrow> if y = [] then None else Some y)"

text \<open>By the order's id, by the payment a refund refers to, or by the payment itself.\<close>

definition webhook_order :: "webhook_result \<Rightarrow> db \<Rightarrow> order option" where
  "webhook_order r s =
     (case (case nonempty (wh_order_id r) of None \<Rightarrow> None | Some i \<Rightarrow> get_order s i) of
        Some ord \<Rightarrow> Some ord
      | None \<Rightarrow>
          (case (case nonempty (related_external_id r) of None \<Rightarrow> None
                 | Some x \<Rightarrow> get_order_by_external_id x s) of
             Some ord \<Rightarrow> Some ord
           | None \<Rightarrow> if wh_external_id r = [] then None
                     else get_order_by_external_id (wh_external_id r) s))"

text \<open>The payment the webhook speaks of is not the order's.\<close>

definition identity_mismatch :: "webhook_result \<Rightarrow> order \<Rightarrow> bool" where
  "identity_mismatch r ord \<longleftrightarrow>
     (case nonempty (external_id ord) of
        None \<Rightarrow> False
      | Some x \<Rightarrow>
          (wh_is_paid r \<and> wh_external_id r \<noteq> [] \<and> x \<noteq> wh_external_id r)
        \<or> (wh_is_refunded r \<and> nonempty (related_external_id r) \<noteq> None
           \<and> nonempty (related_external_id r) \<noteq> Some x))"

definition refund_ref :: "webhook_result \<Rightarrow> order \<Rightarrow> string" where
  "refund_ref r ord =
     (if py_strip (wh_external_id r) \<noteq> [] then py_strip (wh_external_id r)
      else ''refund_'' @ o_id ord)"

definition note_refund_mismatch :: "webhook_result \<Rightarrow> order \<Rightarrow> order" where
  "note_refund_mismatch r ord =
     (let m = (o_metadata ord)(''requires_manual_review'' \<mapsto> JBool True,
                ''refund_amount_mismatch'' \<mapsto>
                  (case wh_amount_rub r of None \<Rightarrow> JStr ''missing'' | Some d \<Rightarrow> decimal_text d)) in
      ord\<lparr>o_metadata := (if wh_external_id r = [] then m
                          else m(''refund_external_id'' \<mapsto> JStr (wh_external_id r)))\<rparr>)"

definition note_refunded :: "env \<Rightarrow> webhook_result \<Rightarrow> order \<Rightarrow> order" where
  "note_refunded e r ord =
     ord\<lparr>o_status := Order_REFUNDED, refunded_at := Some (now_utc e),
         o_metadata := (if wh_external_id r = [] then o_metadata ord
            else (o_metadata ord)(''refund_external_id'' \<mapsto> JStr (wh_external_id r)))\<rparr>"

definition has_credit :: "order \<Rightarrow> db \<Rightarrow> bool" where
  "has_credit ord s \<longleftrightarrow>
     list_ex (\<lambda>x. order_id x = Some (o_id ord) \<and> entry_type x = PAYMENT_CREDIT) (entries s)"

text \<open>
  The refund of a credited top-up ends in \<open>get_account_balance(session, order.user_id)\<close>,
  whose second parameter is keyword-only: the call raises \<open>TypeError\<close>, and the lines after it
  are never reached.
\<close>

definition positional_balance_call :: "int \<Rightarrow> db \<Rightarrow> pyerr + money \<times> db" where
  "positional_balance_call uid s =
     Inl (TypeError ''get_account_balance() takes 1 positional argument but 2 were given'')"

definition refund_topup :: "env \<Rightarrow> webhook_result \<Rightarrow> order \<Rightarrow> db \<Rightarrow> pyerr + order option \<times> db" where
  "refund_topup e r ord s =
     (if \<not> has_credit ord s then Inr (Some ord, s)
      else
        and_then (create_order_refund_debit (o_user_id ord) (amount_rub ord) (o_id ord)
            (refund_ref r ord) [''source'' \<mapsto> JStr ''yookassa_refund''] (now_utc e) s) (\<lambda>_ s.
        and_then (reverse_referral_bonus_for_topup None (Some (o_id ord)) (Some (refund_ref r ord))
            (now_utc e) s) (\<lambda>_ s.
        and_then (positional_balance_call (o_user_id ord) s) (\<lambda>balance_after s.
          if balance_after < 0
          then and_then (save_order (ord\<lparr>o_metadata := (o_metadata ord)(
                   ''requires_manual_review'' \<mapsto> JBool True,
                   ''negative_balance_rub'' \<mapsto> JDec balance_after,
                   ''refund_amount_mismatch'' \<mapsto>
                     JFmt ''Negative balance detected: {} RUB'' [JDec balance_after])\<rparr>) s)
                 (\<lambda>ord s. Inr (Some ord, s))
          else Inr (Some ord, s)))))"

definition refund_purchase :: "env \<Rightarrow> webhook_result \<Rightarrow> order \<Rightarrow> db \<Rightarrow> pyerr + order option \<times> db" where
  "refund_purchase e r ord s =
     and_then
       (if payment_method ord = ''wallet'' then Inr (0, s)
        else reverse_referral_bonus_for_topup None (Some (o_id ord)) (Some (refund_ref r ord))
               (now_utc e) s)
       (\<lambda>_ s. and_then
          (if meta_truthy (o_metadata ord) ''settlement_held'' then Inr ((), s)
           else revoke_order e ord s)
          (\<lambda>_ s. Inr (Some ord, s)))"

definition refund_webhook :: "env \<Rightarrow> webhook_result \<Rightarrow> order \<Rightarrow> db \<Rightarrow> pyerr + order option \<times> db" where
  "refund_webhook e r ord s =
     (if o_status ord = Order_REFUNDED then Inr (Some ord, s)
      else if o_status ord \<noteq> Order_PAID then Inr (None, s)
      else if wh_amount_rub r \<noteq> Some (Finite (amount_rub ord))
      then and_then (save_order (note_refund_mismatch r ord) s) (\<lambda>ord s. Inr (Some ord, s))
      else and_then (save_order (note_refunded e r ord) s) (\<lambda>ord s.
             if service_type ord = TOPUP then refund_topup e r ord s
             else refund_purchase e r ord s))"

definition paid_webhook :: "env \<Rightarrow> webhook_result \<Rightarrow> order \<Rightarrow> db \<Rightarrow> pyerr + settled \<times> db" where
  "paid_webhook e r ord s =
     and_then (mark_order_paid e (o_id ord) (Some (wh_external_id r)) (wh_amount_rub r) s)
       (\<lambda>paid_order s. case paid_order of
          Some paid_order \<Rightarrow> Inr (Some paid_order, s)
        | None \<Rightarrow>
            if gateway_canceled ord
            then and_then (save_order (ord\<lparr>o_metadata := (o_metadata ord)(
                     ''late_payment_attempt_rejected'' \<mapsto> JStr (wh_external_id r))\<rparr>) s)
                   (\<lambda>ord s. Inr (Some (ord, False), s))
            else if meta_truthy (o_metadata ord) ''underpaid'' then Inr (Some (ord, False), s)
            else Inr (None, s))"

definition cancel_webhook :: "order \<Rightarrow> db \<Rightarrow> pyerr + order option \<times> db" where
  "cancel_webhook ord s =
     (if o_status ord = Order_PENDING
      then and_then (save_order (mark_order_canceled ord ''gateway_canceled'') s)
             (\<lambda>ord s. Inr (Some ord, s))
      else Inr (Some ord, s))"

text \<open>
  The canceled and the refunded order come without the attribute \<open>_newly_paid\<close>, whose reader
  takes False for it.
\<close>

definition unmarked :: "pyerr + order option \<times> db \<Rightarrow> pyerr + settled \<times> db" where
  "unmarked r = and_then r (\<lambda>ord s. Inr (map_option (\<lambda>x. (x, False)) ord, s))"

definition apply_webhook :: "env \<Rightarrow> webhook_result \<Rightarrow> db \<Rightarrow> pyerr + settled \<times> db" where
  "apply_webhook e r s =
     (case webhook_order r s of
        None \<Rightarrow> Inr (None, s)
      | Some ord \<Rightarrow>
          if identity_mismatch r ord then Inr (None, s)
          else if wh_is_paid r then paid_webhook e r ord s
          else if wh_is_canceled r then unmarked (cancel_webhook ord s)
          else if wh_is_refunded r then unmarked (refund_webhook e r ord s)
          else Inr (Some (ord, False), s))"

definition process_webhook_event :: "env \<Rightarrow> json \<Rightarrow> db \<Rightarrow> pyerr + settled \<times> db" where
  "process_webhook_event e payload s =
     (case parse_webhook payload of
        Inl err \<Rightarrow> Inl err
      | Inr r \<Rightarrow>
          if nonempty (wh_order_id r) = None \<and> wh_external_id r = [] then Inr (None, s)
          else apply_webhook e r s)"

end
