(* ===== verification/Settlement_Invariant.thy ===== *)
theory Settlement_Invariant
  imports WI_Invariant Settlement
begin

section \<open>Fulfilment, settlement and webhooks keep the invariants\<close>

text \<open>
  The walk through the order service: every function that returns has only moved orders
  along their state machine and kept the invariants of all tables (\<open>evolves\<close>).
\<close>

interpretation evolves_step: step_relation evolves
  by unfold_locales (auto intro: evolves_trans)

lemmas evolve_rules =
  ensures_rules evolves_step.ensures_return evolves_step.ensures_and_then

lemma ensures_evolves_return: "evolves s t \<Longrightarrow> ensures evolves s (Inr (x, t))"
  by (rule ensures_Inr)

lemma quiet_ensures:
  "(\<And>x t. r = Inr (x, t) \<Longrightarrow> quiet s t) \<Longrightarrow> ensures evolves s r"
  by (rule ensuresI) (simp add: quiet_evolves)

subsection \<open>Changes of an order that are not a step of its state machine\<close>

text \<open>The row a function works on is the one stored under its id.\<close>

abbreviation stored :: "order \<Rightarrow> db \<Rightarrow> bool" where
  "stored ord s \<equiv> get_order s (o_id ord) = Some ord"

lemma stored_set_order: "get_order s (o_id ord) \<noteq> None \<Longrightarrow> stored ord (set_order ord s)"
  by auto

lemma set_order_same_status:
  assumes "get_order s (o_id ord') = Some ord" and "order_terms ord' = order_terms ord"
    and "o_status ord' = o_status ord" and "external_id ord' = external_id ord"
    and "o_metadata ord' ''cancellation_reason'' = o_metadata ord ''cancellation_reason''"
  shows "evolves s (set_order ord' s)"
  using assms by (intro set_order_evolves) (auto intro: order_evolves_same_status)

subsection \<open>Fulfilment\<close>

lemma sync_access_quiet: "quiet s (sync_access_state u now s)"
  by (rule quietI) (auto simp: sync_access_state_def Let_def split: option.split)

lemma remember_reason [simp]:
  "remember u m ''cancellation_reason'' = m ''cancellation_reason''"
  by (simp add: remember_def Let_def split: option.split)

lemma fulfill_standard_evolves:
  assumes "stored ord s" and "fulfill_standard u ord now s = (ord', t)"
  shows "evolves s t"
proof -
  let ?ord = "ord\<lparr>o_metadata := remember u (o_metadata ord)\<rparr>"
  have "evolves s (set_order ?ord s)"
    using assms(1) by (intro set_order_same_status) (auto simp: order_terms_def)
  also have "evolves \<dots> t"
    using assms(2) quiet_trans [OF set_user_quiet sync_access_quiet]
    by (auto simp: fulfill_standard_def Let_def intro: quiet_evolves)
  finally show ?thesis .
qed

lemma require_quiet: "require msg r s = Inr (x, t) \<Longrightarrow> t = s"
  by (simp add: require_def split: if_split_asm)

text \<open>Fulfilment never debits the balance: the White Internet calls are quiet.\<close>

lemma uncharged: "ensures (charged False) s r \<Longrightarrow> r = Inr (x, t) \<Longrightarrow> quiet s t"
  by (drule ensuresD) (simp_all add: charged_def)

text \<open>A step that is quiet but for the metadata of the order worked on.\<close>

definition quiet_but_order :: "order \<Rightarrow> order \<Rightarrow> db \<Rightarrow> db \<Rightarrow> bool" where
  "quiet_but_order ord ord' s t \<longleftrightarrow>
     (ord' = ord \<and> quiet s t) \<or> (\<exists>i m. ord' = ord\<lparr>o_metadata := (o_metadata ord)
        (''subscription_id'' \<mapsto> JInt i)\<rparr> \<and> quiet s m \<and> t = set_order ord' m)"

lemma fulfill_wi_quiet:
  assumes "fulfill_white_internet e u ord s = Inr (ord', t)"
  shows "quiet_but_order ord ord' s t"
  using assms
  by (auto simp: quiet_but_order_def fulfill_white_internet_def Let_def returned
      split: option.split_asm if_split_asm
      dest!: require_quiet uncharged [OF slot_ensures] uncharged [OF topup_ensures]
        uncharged [OF renew_ensures] uncharged [OF purchase_ensures])

lemma quiet_but_order_refl [intro]: "quiet_but_order ord ord s s"
  by (simp add: quiet_but_order_def)

lemma quiet_but_order_evolves:
  assumes "stored ord s" and "quiet_but_order ord ord' s t"
  shows "evolves s t"
  using assms(2) unfolding quiet_but_order_def
proof (elim disjE exE conjE)
  fix i m
  assume ord': "ord' = ord\<lparr>o_metadata := (o_metadata ord)(''subscription_id'' \<mapsto> JInt i)\<rparr>"
    and q: "quiet s m" and t: "t = set_order ord' m"
  have "stored ord m"
    using assms(1) quiet_get_order [OF q] by simp
  then have "evolves m t"
    unfolding t by (intro set_order_same_status) (auto simp: order_terms_def ord')
  then show ?thesis
    using quiet_evolves [OF q] evolves_trans by blast
qed (simp add: quiet_evolves)

lemma fulfill_ensures:
  assumes "stored ord s"
  shows "ensures evolves s (fulfill_order e ord s)"
proof (rule ensuresI)
  fix ord' t
  assume "fulfill_order e ord s = Inr (ord', t)"
  then show "evolves s t"
    using quiet_but_order_evolves [OF assms fulfill_wi_quiet] fulfill_standard_evolves [OF assms]
    by (auto simp: fulfill_order_def returned)
qed

text \<open>Fulfilment books nothing and leaves the status of the order alone.\<close>

lemma sync_access_entries [simp]:
  "entries (sync_access_state u now s) = entries s" "orders (sync_access_state u now s) = orders s"
  using sync_access_quiet [of s u now] by (simp_all add: quiet_def)

lemma fulfill_frame:
  assumes "stored ord s" and "fulfill_order e ord s = Inr (ord', t)"
  shows "entries t = entries s \<and> stored ord' t \<and> order_terms ord' = order_terms ord
    \<and> o_status ord' = o_status ord"
proof (cases "is_standard ord \<and> get_user s (o_user_id ord) \<noteq> None")
  case True
  then show ?thesis
    using assms
    by (auto simp: fulfill_order_def fulfill_standard_def Let_def order_terms_def get_order_def
        set_user_def set_order_def find_update_self)
next
  case False
  then have "quiet_but_order ord ord' s t"
    using assms(2)
    by (auto simp: fulfill_order_def returned intro: fulfill_wi_quiet quiet_but_order_refl)
  then show ?thesis
    unfolding quiet_but_order_def
  proof (elim disjE exE conjE)
    fix i m
    assume ord': "ord' = ord\<lparr>o_metadata := (o_metadata ord)(''subscription_id'' \<mapsto> JInt i)\<rparr>"
      and q: "quiet s m" and t: "t = set_order ord' m"
    have "stored ord m" and "entries m = entries s"
      using assms(1) quiet_get_order [OF q] q by (simp_all add: quiet_def)
    then show ?thesis
      by (simp add: ord' t order_terms_def)
  next
    assume "ord' = ord" and q: "quiet s t"
    then show ?thesis
      using assms(1) quiet_get_order [OF q] by (simp add: quiet_def)
  qed
qed

lemma revoke_wi_quiet:
  assumes "revoke_white_internet u ord s = Inr (x, t)"
  shows "quiet s t"
  using assms deactivate_quiet
  by (auto simp: revoke_white_internet_def returned dest: save_wi_quiet)

lemma revoke_ensures [ensures_rules]: "ensures evolves s (revoke_order e ord s)"
proof (rule quiet_ensures)
  fix x t
  assume "revoke_order e ord s = Inr (x, t)"
  then show "quiet s t"
    using quiet_trans [OF set_user_quiet sync_access_quiet] revoke_wi_quiet
    by (auto simp: revoke_order_def revoke_standard_def Let_def returned)
qed

subsection \<open>Settlement\<close>

lemma credit_wallet_step:
  assumes "stored ord s" and "credit_wallet e ord c s = Inr (x, t)"
  shows "evolves s t \<and> stored ord t"
proof -
  have owner: "order_owner s (o_id ord) = Some (o_user_id ord)"
    using assms(1) by (simp add: order_owner_def)
  show ?thesis
    using assms order_credit_evolves [OF _ owner] order_credit_frame
    by (fastforce simp: credit_wallet_def returned get_order_def)
qed

lemma note_referrer_same [simp]:
  "order_terms (note_referrer g ord) = order_terms ord" "o_id (note_referrer g ord) = o_id ord"
  "o_status (note_referrer g ord) = o_status ord" "external_id (note_referrer g ord) = external_id ord"
  "o_metadata (note_referrer g ord) ''cancellation_reason'' = o_metadata ord ''cancellation_reason''"
  by (auto simp: note_referrer_def order_terms_def split: option.split)

lemma grant_inviter_step:
  assumes "stored ord s" and "grant_inviter e ord s = Inr (ord', t)"
  shows "evolves s t \<and> stored ord' t"
proof (cases "real_money_order ord")
  case True
  then obtain g m where g: "grant_referral_bonus_for_topup (o_user_id ord) None (Some (o_id ord))
        (amount_rub ord) (now_utc e) s = Inr (g, m)"
    and r: "ord' = note_referrer g ord" "t = set_order ord' m"
    using assms(2) by (auto simp: grant_inviter_def returned)
  have row: "stored ord m"
    using assms(1) grant_frame [OF g] by (simp add: get_order_def)
  have "evolves m t"
    unfolding r(2) using row by (intro set_order_same_status) (simp_all add: r(1))
  then show ?thesis
    using row r evolves_trans [OF grant_evolves [OF g]] by simp
next
  case False
  then show ?thesis
    using assms by (simp add: grant_inviter_def)
qed

lemma settle_ensures:
  assumes "get_order s (o_id ord) = Some old" and "order_evolves old ord"
  shows "ensures evolves s (settle_benefits e ord c s)"
proof -
  let ?ord = "mark_notify_pending ord"
  have noted: "order_evolves old ?ord"
    by (rule order_evolves_trans [OF assms(2)])
      (auto intro!: order_evolves_same_status simp: order_terms_def mark_notify_pending_def)
  show ?thesis
    unfolding settle_benefits_def
  proof (intro evolves_step.ensures_and_then)
    show "ensures evolves s (save_order ?ord s)"
      using assms(1) noted by (intro ensuresI) (auto intro: save_order_evolves)
  next
    fix ord1 s1
    assume s1: "save_order ?ord s = Inr (ord1, s1)"
    have row1: "stored ord1 s1"
      using s1 assms(1) by (auto simp: save_order_Inr)
    show "ensures evolves s1 (credit_wallet e ord1 c s1)"
      using credit_wallet_step [OF row1] by (intro ensuresI) auto
    fix x s2
    assume "credit_wallet e ord1 c s1 = Inr (x, s2)"
    then have row2: "stored ord1 s2"
      using credit_wallet_step [OF row1] by blast
    show "ensures evolves s2 (grant_inviter e ord1 s2)"
      using grant_inviter_step [OF row2] by (intro ensuresI) auto
    fix ord3 s3
    assume "grant_inviter e ord1 s2 = Inr (ord3, s3)"
    then have "stored ord3 s3"
      using grant_inviter_step [OF row2] by blast
    then show "ensures evolves s3 (if o_status ord3 \<noteq> Order_REFUNDED then fulfill_order e ord3 s3
        else Inr (ord3, s3))"
      by (simp add: fulfill_ensures evolves_step.ensures_return)
  qed
qed

lemma ensures_then_return:
  assumes "ensures evolves s r"
  shows "ensures evolves s (and_then r (\<lambda>x t. Inr (f x, t)))"
  using assms by (intro evolves_step.ensures_and_then evolves_step.ensures_return)

lemma save_row_ensures:
  assumes "get_order s (o_id ord) = Some old" and "order_evolves old ord"
  shows "ensures evolves s (save_order ord s)"
  using assms by (intro ensuresI) (auto intro: save_order_evolves)

lemma release_ensures:
  assumes "stored ord s"
  shows "ensures evolves s (release_held e ord s)"
proof -
  have "ensures evolves s (settle_benefits e (clear_held ord) False s)"
    using assms
    by (intro settle_ensures [of _ _ ord])
      (auto simp: clear_held_def order_terms_def intro!: order_evolves_same_status)
  then show ?thesis
    unfolding release_held_def
    by (auto intro!: ensures_if ensures_then_return ensures_Inr)
qed

lemma take_payment_ensures:
  assumes row: "stored ord s"
    and unpaid: "o_status ord = Order_PENDING \<or> o_status ord = Order_CANCELED \<and> \<not> gateway_canceled ord"
  shows "ensures evolves s (take_payment e ord ext paid s)"
proof -
  define o1 where "o1 = (case ext of None \<Rightarrow> ord
                 | Some x \<Rightarrow> if x = [] then ord else ord\<lparr>external_id := Some x\<rparr>)"
  have o1: "order_terms o1 = order_terms ord" "o_id o1 = o_id ord" "o_status o1 = o_status ord"
    "o_metadata o1 = o_metadata ord" "o_user_id o1 = o_user_id ord"
    by (auto simp: o1_def order_terms_def split: option.split)
  have under: "order_evolves ord (note_underpaid paid o1)"
    using o1 by (intro order_evolves_same_status) (auto simp: note_underpaid_def order_terms_def Let_def)
  have "order_edge (o_status ord) Order_PAID"
    using unpaid by (auto intro: order_edge.intros)
  then have pay: "order_evolves ord (note_paid e c o1)" for c
    using o1 unpaid by (auto simp: order_evolves_def note_paid_def order_terms_def)
  have held: "order_evolves ord (note_held u (note_paid e c o1))" for u c
    by (rule order_evolves_trans [OF pay])
      (auto intro!: order_evolves_same_status simp: note_held_def order_terms_def)
  have ids: "o_id (note_underpaid paid o1) = o_id ord" "o_id (note_paid e c o1) = o_id ord"
    "o_id (note_held u (note_paid e c o1)) = o_id ord" for c u
    using o1(2) by (simp_all add: note_underpaid_def note_paid_def note_held_def Let_def)
  note run = settle_ensures [of s _ ord, OF _ pay] save_row_ensures [of s _ ord, OF _ under]
    save_row_ensures [of s _ ord, OF _ held]
  have paid: "ensures evolves s (case get_user s (o_user_id (note_paid e c o1)) of
       Some u \<Rightarrow> if is_withheld u (note_paid e c o1)
         then and_then (save_order (note_held u (note_paid e c o1)) s) (\<lambda>ord s. Inr (Some (ord, False), s))
         else and_then (settle_benefits e (note_paid e c o1) c s) (\<lambda>ord s. Inr (Some (ord, True), s))
     | None \<Rightarrow> and_then (settle_benefits e (note_paid e c o1) c s) (\<lambda>ord s. Inr (Some (ord, True), s)))" for c
    using row ids by (intro ensures_option ensures_if ensures_then_return run) simp_all
  have less: "ensures evolves s (and_then (save_order (note_underpaid paid o1) s) (\<lambda>ord s. Inr (Some (ord, False), s)))"
    using row ids by (intro ensures_then_return run) simp_all
  show ?thesis
    using paid less
    by (auto simp: take_payment_def Let_def o1_def [symmetric] ensures_Inl split: sum.split bool.split)
qed

lemma mark_order_paid_ensures: "ensures evolves s (mark_order_paid e oid ext paid s)"
proof (cases "get_order s oid")
  case None
  then show ?thesis
    by (simp add: mark_order_paid_def evolves_step.ensures_return)
next
  case (Some ord)
  then have row: "stored ord s"
    using get_order_id [OF Some] by simp
  show ?thesis
    using Some release_ensures [OF row] take_payment_ensures [OF row]
    by (cases "o_status ord") (auto simp: mark_order_paid_def intro: ensures_Inr)
qed

text \<open>The only payment refused without an error is that of a gateway cancellation.\<close>

lemma take_payment_Some: "take_payment e ord ext paid s = Inr (x, t) \<Longrightarrow> x \<noteq> None"
  by (auto simp: take_payment_def Let_def returned split: sum.split_asm bool.split_asm option.split_asm
      if_split_asm)

lemma release_Some: "release_held e ord s = Inr (x, t) \<Longrightarrow> x \<noteq> None"
  by (auto simp: release_held_def Let_def returned split: option.split_asm if_split_asm)

lemma mark_order_paid_None:
  assumes "stored ord s" and "mark_order_paid e (o_id ord) ext paid s = Inr (None, t)"
  shows "o_status ord = Order_CANCELED \<and> gateway_canceled ord \<and> t = s"
  using assms by (cases "o_status ord")
    (auto simp: mark_order_paid_def dest!: take_payment_Some release_Some split: if_split_asm)

subsection \<open>The webhook\<close>

lemma stored_member:
  assumes "orders_ok s" and "ord \<in> set (orders s)"
  shows "stored ord s"
  unfolding get_order_def
  using assms by (intro find_key) (auto simp: orders_ok_def)

lemma webhook_order_stored:
  assumes "orders_ok s" and "webhook_order r s = Some ord"
  shows "stored ord s"
  using assms
  by (auto simp: webhook_order_def get_order_by_external_id_def get_order_def
      split: option.split_asm if_split_asm
      intro: stored_member [unfolded get_order_def] dest: find_SomeD)

lemma refund_topup_evolves:
  assumes "refund_topup e r ord s = Inr (x, t)"
  shows "t = s"
  using assms by (auto simp: refund_topup_def positional_balance_call_def returned split: if_split_asm)

lemma reverse_ensures [ensures_rules]:
  "ensures evolves s (reverse_referral_bonus_for_topup pid oid rid now s)"
  by (rule ensuresI) (rule reverse_evolves(1))

lemma refund_purchase_ensures: "ensures evolves s (refund_purchase e r ord s)"
  unfolding refund_purchase_def by (intro evolve_rules reverse_ensures revoke_ensures)

lemma note_refund_mismatch_evolves: "order_evolves ord (note_refund_mismatch r ord)"
  by (rule order_evolves_same_status)
    (simp_all add: note_refund_mismatch_def Let_def order_terms_def)

lemma note_refunded_evolves:
  "o_status ord = Order_PAID \<Longrightarrow> order_evolves ord (note_refunded e r ord)"
  by (auto simp: order_evolves_def note_refunded_def order_terms_def intro: order_edge.refund)

lemma refund_webhook_ensures:
  assumes "stored ord s"
  shows "ensures evolves s (refund_webhook e r ord s)"
proof -
  have ids: "o_id (note_refund_mismatch r ord) = o_id ord" "o_id (note_refunded e r ord) = o_id ord"
    by (simp_all add: note_refund_mismatch_def note_refunded_def Let_def)
  have topup: "ensures evolves m (refund_topup e r ord' m)" for ord' m
    by (rule ensuresI) (auto dest: refund_topup_evolves)
  have mismatch: "ensures evolves s (save_order (note_refund_mismatch r ord) s)"
    using assms ids by (intro save_row_ensures [OF _ note_refund_mismatch_evolves]) simp
  have refunded: "ensures evolves s (save_order (note_refunded e r ord) s)" if "o_status ord = Order_PAID"
    using assms ids by (intro save_row_ensures [OF _ note_refunded_evolves [OF that]]) simp
  show ?thesis
    unfolding refund_webhook_def
    by (intro ensures_if evolves_step.ensures_return ensures_then_return mismatch
        evolves_step.ensures_and_then refunded topup refund_purchase_ensures) simp_all
qed

lemma cancel_pending_evolves:
  "o_status ord = Order_PENDING \<Longrightarrow> order_evolves ord (mark_order_canceled ord why)"
  by (auto simp: order_evolves_def mark_order_canceled_def order_terms_def intro: order_edge.cancel)

lemma cancel_webhook_ensures:
  assumes "stored ord s"
  shows "ensures evolves s (cancel_webhook ord s)"
  unfolding cancel_webhook_def using assms
  by (intro ensures_if evolves_step.ensures_return ensures_then_return
      save_row_ensures [of _ _ ord] cancel_pending_evolves) simp_all

lemma paid_webhook_ensures:
  assumes row: "stored ord s"
  shows "ensures evolves s (paid_webhook e r ord s)"
  unfolding paid_webhook_def
proof (intro evolves_step.ensures_and_then mark_order_paid_ensures)
  fix x t
  assume paid: "mark_order_paid e (o_id ord) (Some (wh_external_id r)) (wh_amount_rub r) s = Inr (x, t)"
  let ?late = "ord\<lparr>o_metadata := (o_metadata ord)(''late_payment_attempt_rejected'' \<mapsto>
      JStr (wh_external_id r))\<rparr>"
  show "ensures evolves t (case x of Some paid_order \<Rightarrow> Inr (Some paid_order, t)
      | None \<Rightarrow> if gateway_canceled ord then and_then (save_order ?late t) (\<lambda>ord s. Inr (Some (ord, False), s))
          else if meta_truthy (o_metadata ord) ''underpaid'' then Inr (Some (ord, False), t)
          else Inr (None, t))"
  proof (cases x)
    case None
    then have t: "t = s" and gc: "gateway_canceled ord"
      using mark_order_paid_None [OF row] paid by auto
    have "get_order t (o_id ?late) = Some ord"
      using row by (simp add: t)
    moreover have "order_evolves ord ?late"
      by (rule order_evolves_same_status) (simp_all add: order_terms_def)
    ultimately show ?thesis
      using None gc by (simp add: ensures_then_return save_row_ensures)
  qed (simp add: evolves_step.ensures_return)
qed

lemma unmarked_ensures: "ensures evolves s r \<Longrightarrow> ensures evolves s (unmarked r)"
  unfolding unmarked_def by (rule ensures_then_return)

lemma apply_webhook_ensures:
  assumes "orders_ok s"
  shows "ensures evolves s (apply_webhook e r s)"
  using webhook_order_stored [OF assms] paid_webhook_ensures unmarked_ensures [OF cancel_webhook_ensures]
    unmarked_ensures [OF refund_webhook_ensures]
  by (auto simp: apply_webhook_def evolves_step.ensures_return split: option.split)

lemma webhook_ensures:
  assumes "orders_ok s"
  shows "ensures evolves s (process_webhook_event e payload s)"
  using apply_webhook_ensures [OF assms]
  by (auto simp: process_webhook_event_def evolves_step.ensures_return ensures_Inl split: sum.split)

subsection \<open>Creating and paying an order\<close>

lemma mark_ambiguous_evolves:
  "order_evolves ord (ord\<lparr>o_metadata := (o_metadata ord)(''payment_creation_ambiguous'' \<mapsto> v)\<rparr>)"
  by (rule order_evolves_same_status) (simp_all add: order_terms_def)

text \<open>The four ends of a creation that got past the duplicate check.\<close>

definition creation_end :: "order \<Rightarrow> db \<Rightarrow> db \<Rightarrow> bool" where
  "creation_end ord s t \<longleftrightarrow>
     t = s
   \<or> (\<exists>m. add_order ord s = Inr (ord, m) \<and>
        (t = m
       \<or> (\<exists>i u. save_order (ord\<lparr>external_id := i, payment_url := u\<rparr>) m
             = Inr (ord\<lparr>external_id := i, payment_url := u\<rparr>, t))
       \<or> t = set_order (ord\<lparr>o_metadata := (o_metadata ord)
               (''payment_creation_ambiguous'' \<mapsto> JBool True)\<rparr>) m))"

lemma place_order_end: "creation_end ord s (snd (place_order e http ord s))"
proof (cases "if payment_method ord \<noteq> ''wallet'' then pending_duplicate ord (now_utc e) s else None")
  case (Some existing)
  then show ?thesis
    by (simp add: place_order_def creation_end_def)
next
  case None
  note defs = place_order_def Let_def None creation_end_def
  show ?thesis
  proof (cases "add_order ord s")
    case (Inl err)
    then show ?thesis by (simp add: defs)
  next
    case (Inr p)
    then obtain m where m: "add_order ord s = Inr (ord, m)"
      by (cases p) (auto simp: add_order_Inr)
    show ?thesis
    proof (cases "create_payment_url (o_id ord) http")
      case (Inl err)
      with m show ?thesis by (cases err) (simp_all add: defs)
    next
      case (Inr invoice)
      with m show ?thesis
        by (cases "save_order (ord\<lparr>external_id := Some (inv_external_id invoice),
              payment_url := Some (inv_payment_url invoice)\<rparr>) m")
          (auto simp: defs save_order_Inr, blast)
    qed
  qed
qed

lemma creation_end_evolves:
  assumes "creation_end ord s t"
  shows "evolves s t"
proof (cases "t = s")
  case False
  then obtain m where m: "add_order ord s = Inr (ord, m)" and t: "t = m
       \<or> (\<exists>i u. save_order (ord\<lparr>external_id := i, payment_url := u\<rparr>) m
             = Inr (ord\<lparr>external_id := i, payment_url := u\<rparr>, t))
       \<or> t = set_order (ord\<lparr>o_metadata := (o_metadata ord)
               (''payment_creation_ambiguous'' \<mapsto> JBool True)\<rparr>) m"
    using assms by (auto simp: creation_end_def)
  have row: "stored ord m"
    by (rule add_order_evolves [OF m])
  have invoice: "order_evolves ord (ord\<lparr>external_id := i, payment_url := u\<rparr>)" for i u
    by (rule order_evolves_same_status) (simp_all add: order_terms_def)
  from t have "evolves m t"
  proof (elim disjE exE)
    fix i u
    assume "save_order (ord\<lparr>external_id := i, payment_url := u\<rparr>) m
             = Inr (ord\<lparr>external_id := i, payment_url := u\<rparr>, t)"
    then show ?thesis
      by (rule save_order_evolves [OF _ _ invoice]) (simp add: row)
  next
    assume "t = set_order (ord\<lparr>o_metadata := (o_metadata ord)
               (''payment_creation_ambiguous'' \<mapsto> JBool True)\<rparr>) m"
    then show ?thesis
      using row by (simp add: set_order_evolves [OF _ mark_ambiguous_evolves])
  qed simp
  then show ?thesis
    by (rule evolves_trans [OF add_order_evolves(1) [OF m]])
qed simp

lemma create_order_evolves: "evolves s (snd (create_order e http rq s))"
  by (simp add: create_order_def creation_end_evolves [OF place_order_end])

lemma debit_ensures:
  assumes "stored ord s"
  shows "ensures evolves s (create_order_debit (o_user_id ord) rub (o_id ord) md now s)"
  using assms by (intro ensuresI order_debit_evolves) (auto simp: order_owner_def)

lemma balance_state: "get_account_balance uid lock s = Inr (b, t) \<Longrightarrow> t = s"
  by (auto simp: get_account_balance_def returned lock_account_user_Inr split: if_split_asm)

lemma balance_ensures: "ensures evolves s (get_account_balance uid lock s)"
  by (rule ensuresI) (drule balance_state, simp)

lemma pay_from_wallet_ensures: "ensures evolves s (pay_from_wallet e rq s)"
proof -
  let ?tm = "resolve_order_terms (get_user s (rq_user_id rq)) (rq_user_id rq) (rq_tariff_id rq)
                 (rq_terms rq) (now_utc e) s"
  define ord where "ord = request_order (rq\<lparr>rq_payment_method := ''wallet''\<rparr>) ?tm (fresh_order_id e)
                    Order_PAID (now_utc e)"
  have user: "o_user_id ord = rq_user_id rq"
    by (simp add: ord_def request_order_def)
  have pay: "ensures evolves s (and_then (add_order ord s) (\<lambda>ord s.
      and_then (if 0 < amount_rub ord0
               then and_then (create_order_debit (rq_user_id rq) rub (o_id ord) (md ord) now s)
                      (\<lambda>_ s. Inr ((), s))
               else Inr ((), s))
              (\<lambda>_ s. fulfill_order e ord s)))" for ord0 rub md now
  proof (intro evolves_step.ensures_and_then)
    show "ensures evolves s (add_order ord s)"
      by (rule ensuresI) (rule add_order_evolves)
    fix ord' m
    assume "add_order ord s = Inr (ord', m)"
    then have row: "stored ord m" and [simp]: "ord' = ord"
      using add_order_evolves by (auto simp: add_order_Inr)
    show "ensures evolves m (if 0 < amount_rub ord0
               then and_then (create_order_debit (rq_user_id rq) rub (o_id ord') (md ord') now m)
                      (\<lambda>_ s. Inr ((), s))
               else Inr ((), m))"
      using debit_ensures [OF row]
      by (intro ensures_if ensures_then_return evolves_step.ensures_return) (simp add: user)
    fix x n
    assume "(if 0 < amount_rub ord0
               then and_then (create_order_debit (rq_user_id rq) rub (o_id ord') (md ord') now m)
                      (\<lambda>_ s. Inr ((), s))
               else Inr ((), m)) = Inr (x, n)"
    then have "stored ord n"
      using row order_debit_frame
      by (auto simp: returned get_order_def split: if_split_asm)
    then show "ensures evolves n (fulfill_order e ord' n)"
      by (simp add: fulfill_ensures)
  qed
  show ?thesis
    unfolding pay_from_wallet_def Let_def ord_def [symmetric]
    by (intro ensures_if ensures_Inl evolves_step.ensures_and_then [OF balance_ensures];
        drule balance_state; hypsubst) (rule pay)
qed

end
