(* ===== verification/Servers.thy ===== *)
theory Servers
  imports WI_Operations "HOL-Library.List_Lexorder" "HOL-Library.Char_ord"
begin

section \<open>database/repositories/servers\_repo.py\<close>

text \<open>
  The VPN nodes: what a node can serve, its place in the allocation, the edits of an
  administrator, the compare-and-swap updates of the monitor and the move of every subscription
  of one origin node to another.  Texts are ordered by their characters, as the C collation
  orders them.  The peer count cached from a node is an argument.
\<close>

subsection \<open>What a node can serve\<close>

definition AMNEZIA_PROTOCOL :: string where "AMNEZIA_PROTOCOL = ''amneziawg2''"
definition AMNEZIA_PROTOCOLS :: "string list" where
  "AMNEZIA_PROTOCOLS = [''amneziawg2'', ''amneziawg3'', ''amneziawg3.1'']"
definition XRAY_PROTOCOL :: string where "XRAY_PROTOCOL = ''xray''"
definition VLESS_PROTOCOL :: string where "VLESS_PROTOCOL = ''vless''"
definition XRAY_ORIGIN_CAPABILITY :: string where "XRAY_ORIGIN_CAPABILITY = ''xray_origin''"

definition clean_protocol :: "server \<Rightarrow> string" where
  "clean_protocol srv = py_lower (py_strip (protocol srv))"

definition is_vless_capable_server :: "server \<Rightarrow> bool" where
  "is_vless_capable_server srv \<longleftrightarrow>
     List.member (capabilities srv) ''vless'' \<or> List.member (capabilities srv) ''xray_vless''
   \<or> clean_protocol srv = VLESS_PROTOCOL"

definition is_white_internet_origin_server :: "server \<Rightarrow> bool" where
  "is_white_internet_origin_server srv \<longleftrightarrow>
     \<not> List.member AMNEZIA_PROTOCOLS (clean_protocol srv)
   \<and> (List.member (capabilities srv) XRAY_ORIGIN_CAPABILITY
      \<or> (clean_protocol srv = XRAY_PROTOCOL \<and> \<not> is_vless_capable_server srv))"

definition is_pure_vless_server :: "server \<Rightarrow> bool" where
  "is_pure_vless_server srv \<longleftrightarrow>
     is_vless_capable_server srv \<and> \<not> is_white_internet_origin_server srv"

definition get_server_xray_api_url :: "server \<Rightarrow> json option" where
  "get_server_xray_api_url srv =
     (if List.member AMNEZIA_PROTOCOLS (py_lower (protocol srv)) \<or> List.member (capabilities srv) ''awg''
      then extra_data srv ''xray_api_url''
      else if api_url srv \<noteq> [] then Some (JStr (api_url srv))
      else extra_data srv ''xray_api_url'')"

definition is_server_allocatable :: "server option \<Rightarrow> string \<Rightarrow> bool" where
  "is_server_allocatable x proto =
     (case x of
        None \<Rightarrow> False
      | Some srv \<Rightarrow>
          (protocol srv = proto \<or> List.member (capabilities srv) proto)
        \<and> s_is_active srv
        \<and> health_state srv \<noteq> MANUAL_DISABLED \<and> health_state srv \<noteq> PROBLEM
        \<and> lifecycle_status srv \<noteq> Life_DECOMMISSIONING \<and> lifecycle_status srv \<noteq> Life_DECOMMISSIONED
        \<and> lifecycle_status srv \<noteq> Life_ARCHIVED
        \<and> \<not> (List.member AMNEZIA_PROTOCOLS proto \<and> List.member (capabilities srv) ''xray_origin''))"

subsection \<open>Queries\<close>

definition get_all_servers :: "db \<Rightarrow> server list" where
  "get_all_servers s = sort_key s_name (servers s)"

definition get_active_servers :: "db \<Rightarrow> server list" where
  "get_active_servers s =
     sort_key s_name (filter (\<lambda>srv. s_is_active srv \<and> lifecycle_status srv = Life_ACTIVE) (servers s))"

definition origin_load :: "int \<Rightarrow> db \<Rightarrow> int" where
  "origin_load i s =
     int (length (filter (\<lambda>w. origin_node_id w = Some i \<and> capacity_consuming w) (wi_subs s)))"

text \<open>A node without subscriptions has no row in the grouped count.\<close>

definition get_server_peer_counts :: "db \<Rightarrow> int \<rightharpoonup> int" where
  "get_server_peer_counts s i = (if origin_load i s = 0 then None else Some (origin_load i s))"

definition get_available_servers :: "(int \<rightharpoonup> int) \<Rightarrow> db \<Rightarrow> server list" where
  "get_available_servers cached s =
     filter (\<lambda>srv.
         let db_count = (case get_server_peer_counts s (s_id srv) of None \<Rightarrow> 0 | Some n \<Rightarrow> n) in
         (case cached (s_id srv) of None \<Rightarrow> db_count | Some c \<Rightarrow> max c db_count) < max_clients srv)
       (filter (\<lambda>srv. is_server_allocatable (Some srv) AMNEZIA_PROTOCOL) (get_active_servers s))"

definition get_server_by_id :: "int \<Rightarrow> db \<Rightarrow> server option" where
  "get_server_by_id i s = (if i < 1 \<or> 2147483647 < i then None else get_server s i)"

definition get_server_by_api_url :: "string \<Rightarrow> db \<Rightarrow> server option" where
  "get_server_by_api_url url s = find (\<lambda>srv. api_url srv = url) (servers s)"

definition get_server_count :: "db \<Rightarrow> nat" where
  "get_server_count s = length (servers s)"

text \<open>The database refuses a negative offset or limit.\<close>

definition get_servers_paginated :: "int \<Rightarrow> int \<Rightarrow> db \<Rightarrow> pyerr + server list" where
  "get_servers_paginated page per_page s =
     (let offset = (page - 1) * per_page in
      if offset < 0 then Inl (RuntimeError ''OFFSET must not be negative'')
      else if per_page < 0 then Inl (RuntimeError ''LIMIT must not be negative'')
      else Inr (take (nat per_page) (drop (nat offset) (get_all_servers s))))"

subsection \<open>Edits\<close>

definition set_server :: "server \<Rightarrow> db \<Rightarrow> db" where
  "set_server srv s = s\<lparr>servers := update_rows (\<lambda>x. s_id x = s_id srv) (\<lambda>_. srv) (servers s)\<rparr>"

definition save_server :: "server \<Rightarrow> db \<Rightarrow> pyerr + server \<times> db" where
  "save_server srv s =
     (if list_ex (\<lambda>x. s_id x \<noteq> s_id srv \<and> api_url x = api_url srv) (servers s)
      then Inl IntegrityError else Inr (srv, set_server srv s))"

definition create_server ::
  "string \<Rightarrow> string \<Rightarrow> string \<Rightarrow> string option \<Rightarrow> string \<Rightarrow> int \<Rightarrow> string list option \<Rightarrow>
   ServerLifecycleStatus \<Rightarrow> instant \<Rightarrow> db \<Rightarrow> pyerr + server \<times> db" where
  "create_server name url key flag proto clients caps life now s =
     (let srv = \<lparr>s_id = server_seq s + 1, s_name = name, country_flag = flag, api_url = url,
            api_key = key, protocol = proto, max_clients = clients,
            s_is_active = (life = Life_ACTIVE), disabled_reason = None, disabled_at = None,
            last_successful_check = None, health_state = ONLINE, lifecycle_status = life,
            problem_started_at = None, next_check_at = None, consecutive_fails = 0,
            consecutive_successes = 0, last_alert_sent_state = None,
            capabilities = (case caps of None \<Rightarrow> [] | Some cs \<Rightarrow> cs), extra_data = Map.empty,
            xray_instance_epoch = None, xray_instance_boot_id = None,
            xray_instance_starttime = None, s_created_at = now\<rparr> in
      if list_ex (\<lambda>x. api_url x = url) (servers s) then Inl IntegrityError
      else Inr (srv, s\<lparr>servers := servers s @ [srv], server_seq := server_seq s + 1\<rparr>))"

text \<open>\<open>ServerUpdateFields\<close>: one keyword argument of an update.\<close>

datatype server_field =
    F_name string
  | F_country_flag "string option"
  | F_api_url string
  | F_api_key string
  | F_protocol string
  | F_max_clients int
  | F_is_active bool
  | F_disabled_reason "string option"
  | F_disabled_at "instant option"
  | F_last_successful_check "instant option"
  | F_health_state ServerHealthState
  | F_lifecycle_status ServerLifecycleStatus
  | F_problem_started_at "instant option"
  | F_next_check_at "instant option"
  | F_consecutive_fails int
  | F_consecutive_successes int
  | F_last_alert_sent_state "string option"
  | F_capabilities "string list"
  | F_extra_data meta
  | F_xray_instance_epoch "string option"
  | F_xray_instance_boot_id "string option"
  | F_xray_instance_starttime "int option"

fun set_field :: "server_field \<Rightarrow> server \<Rightarrow> server" where
  "set_field (F_name x) srv = srv\<lparr>s_name := x\<rparr>"
| "set_field (F_country_flag x) srv = srv\<lparr>country_flag := x\<rparr>"
| "set_field (F_api_url x) srv = srv\<lparr>api_url := x\<rparr>"
| "set_field (F_api_key x) srv = srv\<lparr>api_key := x\<rparr>"
| "set_field (F_protocol x) srv = srv\<lparr>protocol := x\<rparr>"
| "set_field (F_max_clients x) srv = srv\<lparr>max_clients := x\<rparr>"
| "set_field (F_is_active x) srv = srv\<lparr>s_is_active := x\<rparr>"
| "set_field (F_disabled_reason x) srv = srv\<lparr>disabled_reason := x\<rparr>"
| "set_field (F_disabled_at x) srv = srv\<lparr>disabled_at := x\<rparr>"
| "set_field (F_last_successful_check x) srv = srv\<lparr>last_successful_check := x\<rparr>"
| "set_field (F_health_state x) srv = srv\<lparr>health_state := x\<rparr>"
| "set_field (F_lifecycle_status x) srv = srv\<lparr>lifecycle_status := x\<rparr>"
| "set_field (F_problem_started_at x) srv = srv\<lparr>problem_started_at := x\<rparr>"
| "set_field (F_next_check_at x) srv = srv\<lparr>next_check_at := x\<rparr>"
| "set_field (F_consecutive_fails x) srv = srv\<lparr>consecutive_fails := x\<rparr>"
| "set_field (F_consecutive_successes x) srv = srv\<lparr>consecutive_successes := x\<rparr>"
| "set_field (F_last_alert_sent_state x) srv = srv\<lparr>last_alert_sent_state := x\<rparr>"
| "set_field (F_capabilities x) srv = srv\<lparr>capabilities := x\<rparr>"
| "set_field (F_extra_data x) srv = srv\<lparr>extra_data := x\<rparr>"
| "set_field (F_xray_instance_epoch x) srv = srv\<lparr>xray_instance_epoch := x\<rparr>"
| "set_field (F_xray_instance_boot_id x) srv = srv\<lparr>xray_instance_boot_id := x\<rparr>"
| "set_field (F_xray_instance_starttime x) srv = srv\<lparr>xray_instance_starttime := x\<rparr>"

fun sets_lifecycle :: "server_field \<Rightarrow> bool" where
  "sets_lifecycle (F_lifecycle_status x) = True"
| "sets_lifecycle _ = False"

definition update_server :: "server \<Rightarrow> server_field list \<Rightarrow> db \<Rightarrow> pyerr + server \<times> db" where
  "update_server srv kws s =
     (let srv = fold set_field kws srv;
          srv = (if list_ex sets_lifecycle kws
                 then srv\<lparr>s_is_active := (lifecycle_status srv = Life_ACTIVE)\<rparr> else srv) in
      save_server srv s)"

text \<open>The foreign keys of the subscriptions and of the cleanups are set to null.\<close>

definition delete_server :: "server \<Rightarrow> db \<Rightarrow> db" where
  "delete_server srv s =
     s\<lparr>servers := filter (\<lambda>x. s_id x \<noteq> s_id srv) (servers s),
       wi_subs := update_rows (\<lambda>w. origin_node_id w = Some (s_id srv))
         (\<lambda>w. w\<lparr>origin_node_id := None\<rparr>) (wi_subs s),
       orphans := update_rows (\<lambda>c. c_server_id c = Some (s_id srv))
         (\<lambda>c. c\<lparr>c_server_id := None\<rparr>) (orphans s)\<rparr>"

subsection \<open>Compare and swap\<close>

fun is_health_field :: "server_field \<Rightarrow> bool" where
  "is_health_field (F_is_active x) = True"
| "is_health_field (F_disabled_reason x) = True"
| "is_health_field (F_disabled_at x) = True"
| "is_health_field (F_last_successful_check x) = True"
| "is_health_field (F_health_state x) = True"
| "is_health_field (F_problem_started_at x) = True"
| "is_health_field (F_next_check_at x) = True"
| "is_health_field (F_consecutive_fails x) = True"
| "is_health_field (F_consecutive_successes x) = True"
| "is_health_field (F_last_alert_sent_state x) = True"
| "is_health_field (F_extra_data x) = True"
| "is_health_field _ = False"

text \<open>New entries of \<open>extra\_data\<close> are merged into the stored ones.\<close>

fun merge_field :: "server_field \<Rightarrow> server \<Rightarrow> server" where
  "merge_field (F_extra_data x) srv = srv\<lparr>extra_data := extra_data srv ++ x\<rparr>"
| "merge_field f srv = set_field f srv"

definition update_server_health_snapshot ::
  "int \<Rightarrow> ServerHealthState \<Rightarrow> ServerHealthState \<Rightarrow> int option \<Rightarrow> int option \<Rightarrow> server_field list
   \<Rightarrow> db \<Rightarrow> (server option \<times> bool) \<times> db" where
  "update_server_health_snapshot i expected new_state fails succs kws s =
     (case get_server s i of
        None \<Rightarrow> ((None, False), s)
      | Some cur \<Rightarrow>
          if \<not> s_is_active cur \<or> health_state cur = MANUAL_DISABLED then ((Some cur, False), s)
          else if health_state cur \<noteq> expected then ((Some cur, False), s)
          else if fails \<noteq> None \<and> fails \<noteq> Some (consecutive_fails cur) then ((Some cur, False), s)
          else if succs \<noteq> None \<and> succs \<noteq> Some (consecutive_successes cur) then ((Some cur, False), s)
          else
            let cur = fold merge_field (filter is_health_field (F_health_state new_state # kws)) cur in
            ((Some cur, True), set_server cur s))"

definition install_epoch :: "string \<Rightarrow> string option \<Rightarrow> int option \<Rightarrow> server \<Rightarrow> server" where
  "install_epoch epoch boot st srv =
     srv\<lparr>xray_instance_epoch := Some epoch, xray_instance_boot_id := boot,
         xray_instance_starttime := st\<rparr>"

definition or_zero :: "int option \<Rightarrow> int" where
  "or_zero x = (case x of None \<Rightarrow> 0 | Some n \<Rightarrow> n)"

definition update_server_xray_epoch_cas ::
  "int \<Rightarrow> string option \<Rightarrow> int option \<Rightarrow> string \<Rightarrow> string option \<Rightarrow> int option \<Rightarrow> db
   \<Rightarrow> (bool \<times> server option) \<times> db" where
  "update_server_xray_epoch_cas i expected_boot expected_st epoch boot st s =
     (case get_server s i of
        None \<Rightarrow> ((False, None), s)
      | Some srv \<Rightarrow>
          let new = install_epoch epoch boot st srv;
              cur_st = or_zero (xray_instance_starttime srv); new_st = or_zero st in
          if xray_instance_boot_id srv = None then ((True, Some new), set_server new s)
          else if (xray_instance_boot_id srv, cur_st) \<noteq> (expected_boot, or_zero expected_st)
          then ((False, None), s)
          else if boot \<noteq> xray_instance_boot_id srv then ((True, Some new), set_server new s)
          else if cur_st < new_st then ((True, Some new), set_server new s)
          else if new_st = cur_st
          then (if xray_instance_epoch srv = Some epoch then ((True, Some srv), s)
                else ((True, Some new), set_server new s))
          else ((False, None), s))"

subsection \<open>Moving the subscriptions of an origin node\<close>

text \<open>The texts of the refusals after the first are in Russian in the source where they count slots.\<close>

definition moved :: "int \<Rightarrow> wi_sub \<Rightarrow> wi_sub" where
  "moved target w =
     w\<lparr>origin_node_id := Some target, desired_version := desired_version w + 1,
       provisioning_status := Node_PENDING_UPDATE\<rparr>"

definition enqueue_all :: "int \<Rightarrow> wi_sub list \<Rightarrow> db \<Rightarrow> db" where
  "enqueue_all source =
     fold (\<lambda>w s. snd (enqueue_orphan_cleanup (Some source) (w_uuid w) (desired_version w) s))"

definition migrate_origin_subscriptions :: "int \<Rightarrow> int \<Rightarrow> db \<Rightarrow> pyerr + int \<times> db" where
  "migrate_origin_subscriptions source target s =
     (if source = target then Inl (ValueError ''Source and target servers must be different.'')
      else (case (get_server s source, get_server s target) of
          (Some src, Some dst) \<Rightarrow>
            let on_source = (\<lambda>w. origin_node_id w = Some source \<and> capacity_consuming w);
                busy = origin_load target s;
                moving = filter on_source (wi_subs s);
                n = int (length moving) in
            if protocol dst \<noteq> XRAY_PROTOCOL \<or> \<not> s_is_active dst
            then Inl (ValueError ''Target server is not an active Xray node.'')
            else if \<not> List.member (capabilities dst) XRAY_ORIGIN_CAPABILITY
            then Inl (ValueError ''Target server does not have the required 'xray_origin' capability.'')
            else if \<not> meta_truthy (extra_data dst) ''relays''
            then Inl (ValueError ''Target server does not have relays configured.'')
            else if health_state dst \<noteq> ONLINE \<and> health_state dst \<noteq> WAITING_CONFIRMATION
            then Inl (ValueError ''Target server health state is not eligible for migration.'')
            else if n = 0 then Inr (0, s)
            else if max_clients dst < busy + n
            then Inl (ValueError (''Not enough slots: '' @ str_int (max 0 (max_clients dst - busy))
                   @ '' free, '' @ str_int n @ '' required''))
            else
              let s = set_server (src\<lparr>lifecycle_status := Life_DECOMMISSIONING\<rparr>) s;
                  s = enqueue_all source moving s in
              Inr (n, s\<lparr>wi_subs := update_rows on_source (moved target) (wi_subs s)\<rparr>)
        | _ \<Rightarrow> Inl (ValueError ''Source or target server not found.'')))"

end
