(* ===== verification/PyText.thy ===== *)
theory PyText
  imports PyData
begin

section \<open>Operations on texts\<close>

text \<open>
  The methods of \<open>str\<close> the utilities call, on ASCII: search, split, \<open>int(text)\<close>.
\<close>

definition starts_with :: "string \<Rightarrow> string \<Rightarrow> bool" where
  "starts_with p s \<longleftrightarrow> take (length p) s = p"

definition ends_with :: "string \<Rightarrow> string \<Rightarrow> bool" where
  "ends_with p s \<longleftrightarrow> starts_with (rev p) (rev s)"

fun contains_text :: "string \<Rightarrow> string \<Rightarrow> bool" where
  "contains_text p [] = (p = [])"
| "contains_text p (c # cs) = (starts_with p (c # cs) \<or> contains_text p cs)"

text \<open>\<open>text.split(sep)\<close> for a separator of one character, and its inverse \<open>sep.join\<close>.\<close>

fun split_on :: "char \<Rightarrow> string \<Rightarrow> string list" where
  "split_on sep [] = [[]]"
| "split_on sep (c # cs) =
     (if c = sep then [] # split_on sep cs
      else (case split_on sep cs of [] \<Rightarrow> [[c]] | w # ws \<Rightarrow> (c # w) # ws))"

fun join_with :: "char \<Rightarrow> string list \<Rightarrow> string" where
  "join_with sep [] = []"
| "join_with sep [w] = w"
| "join_with sep (w # ws) = w @ sep # join_with sep ws"

lemma split_on_not_Nil [simp]: "split_on sep s \<noteq> []"
  by (induction s) (auto split: list.split)

lemma join_with_Cons: "ws \<noteq> [] \<Longrightarrow> join_with sep (w # ws) = w @ sep # join_with sep ws"
  by (cases ws) simp_all

lemma join_split [simp]: "join_with sep (split_on sep s) = s"
proof (induction s)
  case (Cons c s)
  obtain w ws where split: "split_on sep s = w # ws"
    using split_on_not_Nil by (metis list.exhaust)
  then have "join_with sep ((c # w) # ws) = c # s"
    using Cons.IH by (cases ws) simp_all
  then show ?case
    using Cons.IH split by (simp add: join_with_Cons)
qed simp

lemma split_on_no_sep: "sep \<notin> set w \<Longrightarrow> split_on sep w = [w]"
  by (induction w) auto

lemma split_on_append: "sep \<notin> set w \<Longrightarrow> split_on sep (w @ sep # s) = w # split_on sep s"
  by (induction w) auto

text \<open>\<open>int(text)\<close>: white space around, a sign, digits with single underscores between them.\<close>

definition is_digit :: "char \<Rightarrow> bool" where
  "is_digit c \<longleftrightarrow> (let n = (of_char c :: nat) in 48 \<le> n \<and> n \<le> 57)"

definition digit_value :: "char \<Rightarrow> nat" where
  "digit_value c = of_char c - 48"

fun int_digits :: "nat \<Rightarrow> bool \<Rightarrow> string \<Rightarrow> nat option" where
  "int_digits acc after_digit [] = (if after_digit then Some acc else None)"
| "int_digits acc after_digit (c # cs) =
     (if is_digit c then int_digits (10 * acc + digit_value c) True cs
      else if c = CHR ''_'' \<and> after_digit then int_digits acc False cs
      else None)"

definition parse_int :: "string \<Rightarrow> int option" where
  "parse_int s =
     (case py_strip s of
        [] \<Rightarrow> None
      | c # cs \<Rightarrow>
          if c = CHR ''-'' then map_option (\<lambda>n. - int n) (int_digits 0 False cs)
          else if c = CHR ''+'' then map_option int (int_digits 0 False cs)
          else map_option int (int_digits 0 False (c # cs)))"

subsection \<open>Formatting\<close>

text \<open>
  \<open>template.format(...)\<close> with positional fields, and \<open>str(...)\<close> of the values that occur in
  messages; the texts of other values are left out.
\<close>

fun format_text :: "string \<Rightarrow> string list \<Rightarrow> string" where
  "format_text [] xs = []"
| "format_text [c] xs = [c]"
| "format_text (c # d # cs) xs =
     (if c = CHR ''{'' \<and> d = CHR ''}''
      then (case xs of [] \<Rightarrow> c # d # format_text cs [] | x # ys \<Rightarrow> x @ format_text cs ys)
      else c # format_text (d # cs) xs)"

fun py_str :: "json \<Rightarrow> string" where
  "py_str JNull = ''None''"
| "py_str (JBool b) = (if b then ''True'' else ''False'')"
| "py_str (JInt i) = str_int i"
| "py_str (JStr x) = x"
| "py_str (JFmt t js) = format_text t (map py_str js)"
| "py_str _ = []"

subsection \<open>Printing and reading integers\<close>

lemma digit_char [simp]:
  assumes "n < (10::nat)"
  shows "is_digit (char_of (48 + n))" and "digit_value (char_of (48 + n)) = n"
    and "\<not> is_space (char_of (48 + n))" and "char_of (48 + n) \<noteq> CHR ''-''"
    and "char_of (48 + n) \<noteq> CHR ''+''" and "char_of (48 + n) \<noteq> CHR '':''"
proof -
  have code: "(of_char (char_of (48 + n) :: char) :: nat) = 48 + n"
    using assms by (simp add: of_char_of)
  show "is_digit (char_of (48 + n))" and "digit_value (char_of (48 + n)) = n"
    and "\<not> is_space (char_of (48 + n))"
    using assms by (simp_all add: is_digit_def digit_value_def is_space_def code Let_def)
  have other: "char_of (48 + n) \<noteq> c" if "(of_char c :: nat) \<noteq> 48 + n" for c :: char
    using that code by metis
  show "char_of (48 + n) \<noteq> CHR ''-''" and "char_of (48 + n) \<noteq> CHR ''+''"
    and "char_of (48 + n) \<noteq> CHR '':''"
    using assms by (auto intro!: other)
qed

text \<open>An accumulator that has read the digits of \<open>n\<close>.\<close>

lemma int_digits_nat_digits:
  "int_digits acc d (nat_digits n @ rest) =
     int_digits (10 ^ length (nat_digits n) * acc + n) True rest"
proof (induction n arbitrary: acc d rest rule: nat_digits.induct)
  case (1 n)
  show ?case
  proof (cases "n < 10")
    case True
    then show ?thesis
      by (simp add: nat_digits.simps [of n])
  next
    case False
    then have "int_digits acc d (nat_digits n @ rest) =
        int_digits (10 * (10 ^ length (nat_digits (n div 10)) * acc + n div 10) + n mod 10) True rest"
      using 1 by (simp add: nat_digits.simps [of n])
    with False show ?thesis
      by (simp add: nat_digits.simps [of n] algebra_simps)
  qed
qed

lemma nat_digits_char:
  "c \<in> set (nat_digits n) \<Longrightarrow> \<exists>k<(10::nat). c = char_of (48 + k)"
proof (induction n rule: nat_digits.induct)
  case (1 n)
  then show ?case
    by (subst (asm) (2) nat_digits.simps) (auto split: if_split_asm intro: exI [of _ "n mod 10"])
qed

lemma nat_digits_not_Nil [simp]: "nat_digits n \<noteq> []"
  by (subst nat_digits.simps) simp

lemma dropWhile_id: "(\<And>c. c \<in> set s \<Longrightarrow> \<not> P c) \<Longrightarrow> dropWhile P s = s"
  by (cases s) simp_all

lemma py_strip_id: "(\<And>c. c \<in> set s \<Longrightarrow> \<not> is_space c) \<Longrightarrow> py_strip s = s"
  using dropWhile_id [of s is_space] dropWhile_id [of "rev s" is_space] by (simp add: py_strip_def)

theorem parse_str_int [simp]: "parse_int (str_int i) = Some i"
proof -
  let ?ds = "nat_digits (nat \<bar>i\<bar>)"
  have digits: "int_digits 0 False ?ds = Some (nat \<bar>i\<bar>)"
    using int_digits_nat_digits [of 0 False "nat \<bar>i\<bar>" "[]"] by simp
  obtain c cs where ds: "?ds = c # cs"
    by (metis list.exhaust nat_digits_not_Nil)
  have "\<not> is_space x" if "x \<in> set ?ds" for x
    using nat_digits_char [OF that] by auto
  moreover have "\<not> is_space (CHR ''-'')"
    by (simp add: is_space_def)
  ultimately have strip: "py_strip (str_int i) = str_int i"
    by (intro py_strip_id) (auto simp: str_int_def abs_if split: if_split_asm)
  have "c \<noteq> CHR ''-''" "c \<noteq> CHR ''+''"
    using nat_digits_char [of c "nat \<bar>i\<bar>"] ds by auto
  then show ?thesis
    using digits ds strip by (auto simp: parse_int_def str_int_def abs_if)
qed

end
