(* ===== verification/Node_Client.thy ===== *)
theory Node_Client
  imports Servers PyText
begin

section \<open>services/xray\_node\_client.py\<close>

text \<open>
  How the answers of a node are read.  The HTTP exchange is an argument: \<open>tries n\<close> is the
  outcome of the n-th attempt of a request.  Error texts are kept as templates with their
  arguments; the pauses between attempts, the log and the TLS setup are not modelled.
\<close>

subsection \<open>A request with its retries\<close>

text \<open>
  A response with its status and its body, read as JSON where it parses; a network failure; any
  other exception.
\<close>

datatype http_try =
    Http_Response int "json option" string
  | Network_Failure string
  | Unexpected_Failure string

type_synonym http_answer = "int \<times> json option \<times> json option"

text \<open>The last argument is how many attempts are left.\<close>

fun make_request_from :: "(nat \<Rightarrow> http_try) \<Rightarrow> nat \<Rightarrow> nat \<Rightarrow> http_answer" where
  "make_request_from tries i 0 = (0, None, Some (JStr ''Max retries exceeded''))"
| "make_request_from tries i (Suc left) =
     (case tries i of
        Http_Response status body txt \<Rightarrow>
          if status = 200 \<or> status = 201
          then (status, Some (case body of Some j \<Rightarrow> j | None \<Rightarrow> JStr txt), None)
          else if status = 204 then (status, None, None)
          else if (status = 502 \<or> status = 503 \<or> status = 504) \<and> left \<noteq> 0
          then make_request_from tries (Suc i) left
          else (status, None, Some (JFmt ''HTTP {}: {}'' [JInt status, JStr txt]))
      | Network_Failure exc \<Rightarrow>
          if left \<noteq> 0 then make_request_from tries (Suc i) left
          else (0, None, Some (JFmt ''Network failure: {}'' [JStr exc]))
      | Unexpected_Failure exc \<Rightarrow> (0, None, Some (JFmt ''Unexpected failure: {}'' [JStr exc])))"

definition make_request :: "(nat \<Rightarrow> http_try) \<Rightarrow> nat \<Rightarrow> http_answer" where
  "make_request tries max_retries = make_request_from tries 0 (max_retries + 1)"

subsection \<open>Health\<close>

definition jget :: "(string \<times> json) list \<Rightarrow> string \<Rightarrow> json" where
  "jget kvs k = (case map_of kvs k of None \<Rightarrow> JNull | Some v \<Rightarrow> v)"

definition check_health :: "http_answer \<Rightarrow> bool \<times> json \<times> (string \<times> json) list option" where
  "check_health answer =
     (case answer of
        (status, Some (JObj kvs), _) \<Rightarrow>
          if status = 200
          then (jget kvs ''status'' = JStr ''ok'' \<and> jget kvs ''xray_running'' = JBool True
                  \<and> jget kvs ''grpc_ok'' = JBool True, jget kvs ''node_epoch'', Some kvs)
          else (False, JNull, None)
      | _ \<Rightarrow> (False, JNull, None))"

subsection \<open>Synchronising a client\<close>

record sync_response =
  rs_result :: sync_result
  rs_error :: "json option"
  rs_epoch :: json
  rs_inbounds :: "json list"
  rs_all_verified :: bool
  rs_raw :: "(string \<times> json) list"

definition plain_response :: "sync_result \<Rightarrow> json option \<Rightarrow> sync_response" where
  "plain_response res err = \<lparr>rs_result = res, rs_error = err, rs_epoch = JNull, rs_inbounds = [],
     rs_all_verified = False, rs_raw = []\<rparr>"

definition json_items :: "json \<Rightarrow> json list" where
  "json_items j = (case j of JArr js \<Rightarrow> js | _ \<Rightarrow> [])"

definition http_error :: "json option \<Rightarrow> json \<Rightarrow> json" where
  "http_error err fallback = (case err of Some e \<Rightarrow> (if truthy e then e else fallback) | None \<Rightarrow> fallback)"

text \<open>A success with a result other than the two named ones counts as applied.\<close>

definition sync_client :: "http_answer \<Rightarrow> sync_response" where
  "sync_client answer =
     (case answer of (status, data, err) \<Rightarrow>
        (case data of
           Some (JObj kvs) \<Rightarrow>
             if status = 200 \<or> status = 201
             then
               let res = jget kvs ''result'';
                   inbounds = (if truthy (jget kvs ''verified_inbounds'') then jget kvs ''verified_inbounds''
                               else jget kvs ''inbounds'');
                   state = (case map_of kvs ''state'' of None \<Rightarrow> JStr ''unknown'' | Some j \<Rightarrow> j) in
               \<lparr>rs_result = (if res = JStr ''already_newer'' then ALREADY_NEWER
                             else if res = JStr ''fenced'' then FENCED else APPLIED),
                rs_error = (if res = JStr ''already_newer'' then Some (JFmt ''state={}'' [state])
                            else if res = JStr ''fenced''
                            then Some (JStr ''Request was fenced by node version'') else None),
                rs_epoch = jget kvs ''verified_epoch'', rs_inbounds = json_items inbounds,
                rs_all_verified = truthy (jget kvs ''all_inbounds_verified''), rs_raw = kvs\<rparr>
             else if status = 409 \<or> status = 412
             then plain_response FENCED (Some (http_error err (JStr ''Version fenced'')))
             else plain_response FAILED (Some (http_error err (JFmt ''Sync failed with HTTP {}'' [JInt status])))
         | _ \<Rightarrow>
             if status = 409 \<or> status = 412
             then plain_response FENCED (Some (http_error err (JStr ''Version fenced'')))
             else plain_response FAILED
                    (Some (http_error err (JFmt ''Sync failed with HTTP {}'' [JInt status])))))"

definition remove_client :: "http_answer \<Rightarrow> sync_result \<times> json option" where
  "remove_client answer =
     (case answer of (status, data, err) \<Rightarrow>
        if status = 200 \<or> status = 204
        then (case data of
            Some (JObj kvs) \<Rightarrow>
              if jget kvs ''result'' = JStr ''already_newer'' then (ALREADY_NEWER, None)
              else if jget kvs ''result'' = JStr ''fenced''
              then (FENCED, Some (JStr ''Request was fenced by node version''))
              else (APPLIED, None)
          | _ \<Rightarrow> (APPLIED, None))
        else if status = 409 \<or> status = 412 then (FENCED, Some (http_error err (JStr ''Version fenced'')))
        else (FAILED, Some (http_error err (JFmt ''Delete failed with HTTP {}'' [JInt status]))))"

subsection \<open>Reads\<close>

definition get_inventory :: "http_answer \<Rightarrow> bool \<times> (string \<times> json) list option \<times> json option" where
  "get_inventory answer =
     (case answer of
        (status, Some (JObj kvs), err) \<Rightarrow>
          if status = 200 then (True, Some kvs, None) else (False, None, err)
      | (_, _, err) \<Rightarrow> (False, None, err))"

record traffic_snapshot =
  ts_epoch :: json
  ts_boot_id :: json
  ts_starttime :: json
  ts_users :: json
  host_tx_bytes :: int
  host_rx_bytes :: int

text \<open>\<open>int(data.get(k, 0) or 0)\<close>, where a text that is no number raises.\<close>

definition byte_count :: "json \<Rightarrow> pyerr + int" where
  "byte_count j =
     (case j of
        JInt i \<Rightarrow> Inr i
      | JBool b \<Rightarrow> Inr (if b then 1 else 0)
      | JDec d \<Rightarrow> Inr (trunc_rat d)
      | JStr x \<Rightarrow>
          if x = [] then Inr 0
          else (case parse_int x of Some i \<Rightarrow> Inr i | None \<Rightarrow> Inl (ValueError ''invalid literal for int()''))
      | _ \<Rightarrow> if truthy j then Inl (TypeError ''int() argument'') else Inr 0)"

definition no_snapshot :: traffic_snapshot where
  "no_snapshot = \<lparr>ts_epoch = JNull, ts_boot_id = JNull, ts_starttime = JNull, ts_users = JNull,
     host_tx_bytes = 0, host_rx_bytes = 0\<rparr>"

definition get_traffic_snapshot :: "http_answer \<Rightarrow> pyerr + traffic_snapshot" where
  "get_traffic_snapshot answer =
     (case answer of
        (status, Some (JObj kvs), _) \<Rightarrow>
          if status = 200
          then (case byte_count (jget kvs ''host_tx_bytes'') of Inl err \<Rightarrow> Inl err | Inr tx \<Rightarrow>
               (case byte_count (jget kvs ''host_rx_bytes'') of Inl err \<Rightarrow> Inl err | Inr rx \<Rightarrow>
                  Inr \<lparr>ts_epoch = jget kvs ''node_epoch'', ts_boot_id = jget kvs ''boot_id'',
                    ts_starttime = jget kvs ''starttime'',
                    ts_users = (case map_of kvs ''users'' of None \<Rightarrow> JObj [] | Some j \<Rightarrow> j),
                    host_tx_bytes = tx, host_rx_bytes = rx\<rparr>))
          else Inr no_snapshot
      | _ \<Rightarrow> Inr no_snapshot)"

definition get_relays_health :: "http_answer \<Rightarrow> bool \<times> (string \<times> json) list option \<times> json option" where
  "get_relays_health answer =
     (case answer of
        (status, data, err) \<Rightarrow>
          let failed = (False, None, Some (http_error err
                (JFmt ''Relays health check failed with HTTP {}'' [JInt status]))) in
          (case data of
             Some (JObj kvs) \<Rightarrow> if status = 200 then (True, Some kvs, None) else failed
           | _ \<Rightarrow> failed))"

definition deploy_certificate :: "http_answer \<Rightarrow> bool \<times> json option" where
  "deploy_certificate answer =
     (case answer of (status, data, err) \<Rightarrow>
        if status = 200 \<or> status = 201 then (True, None)
        else (False, Some (http_error err (JFmt ''Certificate deployment failed with HTTP {}'' [JInt status]))))"

text \<open>
  A request ends after at most \<open>max_retries + 1\<close> attempts, and a server error or a lost
  connection is what is left when every attempt had one.
\<close>

definition retried :: "http_try \<Rightarrow> bool" where
  "retried t \<longleftrightarrow> (case t of Http_Response status _ _ \<Rightarrow> status \<in> {502, 503, 504}
     | Network_Failure _ \<Rightarrow> True | Unexpected_Failure _ \<Rightarrow> False)"

lemma make_request_first_answer:
  "(\<And>j. j < n \<Longrightarrow> retried (tries (i + j))) \<Longrightarrow> n < left \<Longrightarrow>
   make_request_from tries i left = make_request_from tries (i + n) (left - n)"
proof (induction n arbitrary: i left)
  case (Suc n)
  then obtain k where left: "left = Suc k" "n < k"
    by (cases left) auto
  have "retried (tries i)"
    using Suc.prems(1) [of 0] by simp
  then have "make_request_from tries i left = make_request_from tries (Suc i) k"
    using left by (auto simp: retried_def split: http_try.split_asm)
  also have "\<dots> = make_request_from tries (Suc i + n) (k - n)"
  proof (rule Suc.IH)
    show "retried (tries (Suc i + j))" if "j < n" for j
      using Suc.prems(1) [of "Suc j"] that by simp
  qed (rule left(2))
  finally show ?case
    using left(1) by simp
qed simp

end
