(* ===== verification/Reconciliation.thy ===== *)
theory Reconciliation
  imports Node_Client "HOL-Library.Product_Lexorder" "HOL-Library.Option_ord"
begin

section \<open>services/workers/white\_internet\_reconciliation.py\<close>

text \<open>
  The worker that brings the clients on the origin nodes to the state of their subscriptions.
  Every answer of a node is an argument.  Each task runs under a lock of its subscription, so
  the tasks of a cycle are modelled one after the other; the locks, the alerts and the
  notifications are not modelled, and the commits inside a cycle are those of the state passed on.
\<close>

definition BATCH_SIZE :: nat where "BATCH_SIZE = 50"

record reconcile_task =
  task_sub :: int
  task_uuid :: string
  task_active :: bool
  task_version :: int
  task_relays :: "json list"

subsection \<open>One subscription\<close>

definition expected_tags :: "json list \<Rightarrow> string list" where
  "expected_tags relays =
     ''just1k-wl-default''
     # concat (map (\<lambda>j. case relay_code j of
            Some c \<Rightarrow> if c \<noteq> [] then [''just1k-wl-inbound-'' @ c] else [] | None \<Rightarrow> []) relays)"

definition missing_tags :: "json list \<Rightarrow> json list \<Rightarrow> string list" where
  "missing_tags relays verified =
     sort (remdups (filter (\<lambda>t. \<not> List.member verified (JStr t)) (expected_tags relays)))"

definition verified_epoch_of :: "string \<Rightarrow> sync_response \<Rightarrow> json" where
  "verified_epoch_of target r = (if truthy (rs_epoch r) then rs_epoch r else JStr target)"

text \<open>What the node reports of a client, when its inventory can be read and lists it.\<close>

definition observed_client :: "http_answer \<Rightarrow> string \<Rightarrow> json option" where
  "observed_client answer cuuid =
     (case get_inventory answer of
        (True, Some kvs, _) \<Rightarrow>
          (case map_of kvs ''inventory'' of
             Some (JObj stock) \<Rightarrow>
               (case map_of stock cuuid of
                  Some (JObj c) \<Rightarrow> if c = [] then None else Some (jget c ''observed_state'')
                | _ \<Rightarrow> None)
           | _ \<Rightarrow> None)
      | _ \<Rightarrow> None)"

definition state_text :: "bool \<Rightarrow> json" where
  "state_text active = JStr (if active then ''active'' else ''disabled'')"

definition retry_later :: "string option \<Rightarrow> instant \<Rightarrow> wi_sub \<Rightarrow> wi_sub" where
  "retry_later err now w =
     w\<lparr>provisioning_status := Node_PENDING_UPDATE, last_sync_error := err, w_last_synced_at := Some now\<rparr>"

definition error_or :: "json option \<Rightarrow> string \<Rightarrow> string" where
  "error_or err fallback =
     (case err of Some e \<Rightarrow> if py_str e \<noteq> [] then py_str e else fallback | None \<Rightarrow> fallback)"

definition mark_synced :: "int \<Rightarrow> string option \<Rightarrow> bool \<Rightarrow> instant \<Rightarrow> wi_sub \<Rightarrow> wi_sub" where
  "mark_synced actual epoch active now w =
     (let v = w\<lparr>actual_version := actual, last_reconciled_node_epoch := epoch\<rparr>;
          v = (if w_status w = WI_PENDING \<and> active
               then v\<lparr>w_status := WI_ACTIVE, status_reason := None\<rparr> else v) in
      v\<lparr>provisioning_status := (if active then Node_ACTIVE else Node_SYNCED_INACTIVE),
        w_last_synced_at := Some now, last_sync_error := None\<rparr>)"

definition force_newer :: "int \<Rightarrow> string \<Rightarrow> instant \<Rightarrow> wi_sub \<Rightarrow> wi_sub" where
  "force_newer target err now w =
     (retry_later (Some err) now w)\<lparr>desired_version := max (desired_version w) target + 1\<rparr>"

text \<open>The new row, and whether the client counts as synchronised.\<close>

definition reconciled ::
  "string \<Rightarrow> reconcile_task \<Rightarrow> sync_response \<Rightarrow> http_answer \<Rightarrow> instant \<Rightarrow> wi_sub \<Rightarrow> bool \<times> wi_sub" where
  "reconciled epoch k r stock now w =
     (if rs_result r = APPLIED \<and> desired_version w = task_version k
      then
        let missing = missing_tags (task_relays k) (rs_inbounds r) in
        if rs_inbounds r \<noteq> [] \<and> missing \<noteq> []
        then (False, retry_later (Some (''missing_inbounds:'' @ join_with (CHR '','') missing)) now w)
        else if verified_epoch_of epoch r \<noteq> JStr epoch
        then (False, retry_later (Some ''epoch_drift_detected'') now w)
        else (True, mark_synced (task_version k) (Some epoch) (task_active k) now w)
      else (case rs_result r of
          ALREADY_NEWER \<Rightarrow>
            if observed_client stock (task_uuid k) = Some (state_text (task_active k))
            then (True, mark_synced (max (actual_version w) (task_version k)) (Some epoch) (task_active k) now w)
            else (False, force_newer (task_version k)
                   (''node_already_newer_inventory_mismatch_'' @
                    (case rs_error r of None \<Rightarrow> ''None'' | Some e \<Rightarrow> py_str e)) now w)
        | FENCED \<Rightarrow> (False, force_newer (task_version k) (error_or (rs_error r) ''sync_fenced'') now w)
        | FAILED \<Rightarrow> (False, retry_later (Some (error_or (rs_error r) ''sync_failed'')) now w)
        | APPLIED \<Rightarrow> (False, retry_later (last_sync_error w) now w)))"

definition reconcile_single_subscription ::
  "string \<Rightarrow> reconcile_task \<Rightarrow> sync_response \<Rightarrow> http_answer \<Rightarrow> instant \<Rightarrow> db \<Rightarrow> bool \<times> db" where
  "reconcile_single_subscription epoch k r stock now s =
     (case get_wi_row (task_sub k) s of
        None \<Rightarrow> (False, s)
      | Some w \<Rightarrow> let (ok, v) = reconciled epoch k r stock now w in (ok, set_wi_sub v s))"

subsection \<open>What is due on a node\<close>

definition origin_server :: "server \<Rightarrow> bool" where
  "origin_server n \<longleftrightarrow> protocol n = XRAY_PROTOCOL \<and> s_is_active n
     \<and> (lifecycle_status n = Life_ACTIVE \<or> lifecycle_status n = Life_DECOMMISSIONING)
     \<and> (health_state n = ONLINE \<or> health_state n = WAITING_CONFIRMATION)
     \<and> List.member (capabilities n) ''xray_origin'' \<and> api_url n \<noteq> [] \<and> api_key n \<noteq> []"

definition cycle_servers :: "db \<Rightarrow> server list" where
  "cycle_servers s = filter origin_server (sort_key s_id (servers s))"

text \<open>
  The epoch and the relays to reconcile a node against, from its health answer; \<open>None\<close> when
  the node is unhealthy.  A generation the compare-and-swap refuses is read again from the row.
\<close>

definition opt_str :: "json \<Rightarrow> string option" where
  "opt_str j = (case j of JStr x \<Rightarrow> Some x | _ \<Rightarrow> None)"

definition opt_int :: "json \<Rightarrow> int option" where
  "opt_int j = (case j of JInt i \<Rightarrow> Some i | _ \<Rightarrow> None)"

definition stored_relays :: "server \<Rightarrow> json list" where
  "stored_relays n = (case extra_data n ''relays'' of Some j \<Rightarrow> json_items j | None \<Rightarrow> [])"

definition target_relays :: "server \<Rightarrow> (string \<times> json) list \<Rightarrow> json list" where
  "target_relays n kvs =
     (case jget kvs ''relays'' of
        JArr js \<Rightarrow> if truthy (jget kvs ''relays_error'') then stored_relays n else js
      | _ \<Rightarrow> stored_relays n)"

definition refresh_target :: "server \<Rightarrow> http_answer \<Rightarrow> db \<Rightarrow> (string \<times> json list) option \<times> db" where
  "refresh_target n answer s =
     (case check_health answer of
        (True, JStr epoch, Some kvs) \<Rightarrow>
          if epoch = [] then (None, s)
          else
            let boot = opt_str (jget kvs ''boot_id''); st = opt_int (jget kvs ''starttime'');
                (target, s) =
                  (if Some epoch \<noteq> xray_instance_epoch n \<or> boot \<noteq> xray_instance_boot_id n
                      \<or> st \<noteq> xray_instance_starttime n
                   then (case update_server_xray_epoch_cas (s_id n) (xray_instance_boot_id n)
                            (xray_instance_starttime n) epoch boot st s of
                        ((True, Some _), t) \<Rightarrow> (Some epoch, t)
                      | (_, t) \<Rightarrow> (case get_server t (s_id n) of None \<Rightarrow> None
                            | Some fresh \<Rightarrow> xray_instance_epoch fresh, t))
                   else (xray_instance_epoch n, s)) in
            (Some (case target of Some x \<Rightarrow> if x \<noteq> [] then x else epoch | None \<Rightarrow> epoch,
                   target_relays n kvs), s)
      | _ \<Rightarrow> (None, s))"

definition placed_live :: "wi_sub \<Rightarrow> bool" where
  "placed_live w \<longleftrightarrow> w_status w = WI_PENDING \<or> w_status w = WI_ACTIVE \<or> w_status w = WI_EXHAUSTED"

definition needs_sync :: "int \<Rightarrow> string \<Rightarrow> instant \<Rightarrow> wi_sub \<Rightarrow> bool" where
  "needs_sync i epoch now w \<longleftrightarrow> origin_node_id w = Some i
     \<and> (actual_version w \<noteq> desired_version w
      \<or> last_reconciled_node_epoch w \<noteq> Some epoch
      \<or> provisioning_status w = Node_PENDING_CREATE \<or> provisioning_status w = Node_PENDING_UPDATE
      \<or> provisioning_status w = Node_PENDING_DELETE
      \<or> (placed_live w \<and> expires_at w \<le> now))"

definition due_subs :: "int \<Rightarrow> string \<Rightarrow> instant \<Rightarrow> db \<Rightarrow> wi_sub list" where
  "due_subs i epoch now s =
     take BATCH_SIZE (sort_key (\<lambda>w. (w_last_synced_at w, w_id w)) (filter (needs_sync i epoch now) (wi_subs s)))"

text \<open>A subscription past its end expires first, then its task is planned on the new row.\<close>

definition plan_task :: "json list \<Rightarrow> instant \<Rightarrow> wi_sub \<Rightarrow> db \<Rightarrow> pyerr + reconcile_task \<times> db" where
  "plan_task relays now w s =
     and_then (if expires_at w \<le> now \<and> placed_live w
               then expire_subscription_atomic (w_id w) ''subscription_expired'' s
               else Inr (w, s))
       (\<lambda>w s. Inr (\<lparr>task_sub = w_id w, task_uuid = w_uuid w,
           task_active = ((w_status w = WI_PENDING \<or> w_status w = WI_ACTIVE) \<and> now < expires_at w),
           task_version = desired_version w, task_relays = relays\<rparr>, s))"

fun plan_tasks :: "json list \<Rightarrow> instant \<Rightarrow> wi_sub list \<Rightarrow> db \<Rightarrow> pyerr + reconcile_task list \<times> db" where
  "plan_tasks relays now [] s = Inr ([], s)"
| "plan_tasks relays now (w # ws) s =
     and_then (plan_task relays now w s) (\<lambda>k s.
     and_then (plan_tasks relays now ws s) (\<lambda>ks s. Inr (k # ks, s)))"

text \<open>\<open>replies\<close> gives the answer to the synchronisation and to the inventory query of a task.\<close>

fun run_tasks ::
  "string \<Rightarrow> (reconcile_task \<Rightarrow> sync_response \<times> http_answer) \<Rightarrow> instant \<Rightarrow> reconcile_task list \<Rightarrow> db \<Rightarrow> int \<times> db"
  where
  "run_tasks epoch replies now [] s = (0, s)"
| "run_tasks epoch replies now (k # ks) s =
     (let (ok, s) = reconcile_single_subscription epoch k (fst (replies k)) (snd (replies k)) now s;
          (n, s) = run_tasks epoch replies now ks s in
      (if ok then n + 1 else n, s))"

definition reconcile_node ::
  "(reconcile_task \<Rightarrow> sync_response \<times> http_answer) \<Rightarrow> int \<Rightarrow> string \<Rightarrow> json list \<Rightarrow> instant \<Rightarrow> db
   \<Rightarrow> pyerr + int \<times> db" where
  "reconcile_node replies i epoch relays now s =
     and_then (plan_tasks relays now (due_subs i epoch now s) s)
       (\<lambda>ks s. Inr (run_tasks epoch replies now ks s))"

subsection \<open>The outbox of cleanups\<close>

definition sync_result_text :: "sync_result \<Rightarrow> string" where
  "sync_result_text r =
     (case r of APPLIED \<Rightarrow> ''SyncResult.APPLIED'' | ALREADY_NEWER \<Rightarrow> ''SyncResult.ALREADY_NEWER''
      | FENCED \<Rightarrow> ''SyncResult.FENCED'' | FAILED \<Rightarrow> ''SyncResult.FAILED'')"

definition reassigned :: "orphan_cleanup \<Rightarrow> db \<Rightarrow> bool" where
  "reassigned c s \<longleftrightarrow>
     list_ex (\<lambda>w. w_uuid w = client_uuid c \<and> origin_node_id w = c_server_id c \<and> placed_live w) (wi_subs s)"

definition pending_cleanup :: "int \<Rightarrow> db \<Rightarrow> orphan_cleanup option" where
  "pending_cleanup i s = find (\<lambda>c. c_id c = i \<and> \<not> c_done c) (orphans s)"

text \<open>Whether the cleanup is done; \<open>r\<close> and \<open>stock\<close> are the answers of its node.\<close>

definition sweep_orphan_cleanup :: "sync_response \<Rightarrow> http_answer \<Rightarrow> int \<Rightarrow> db \<Rightarrow> bool \<times> db" where
  "sweep_orphan_cleanup r stock i s =
     (case pending_cleanup i s of
        None \<Rightarrow> (False, s)
      | Some c \<Rightarrow>
          (case (case c_server_id c of None \<Rightarrow> None | Some j \<Rightarrow> get_server s j) of
             None \<Rightarrow> (True, mark_orphan_cleanup_done i s)
           | Some n \<Rightarrow>
               if reassigned c s then (True, mark_orphan_cleanup_done i s)
               else
                 let proto = (if protocol n \<noteq> [] then protocol n
                       else if List.member (capabilities n) ''xray_origin'' then XRAY_PROTOCOL else []) in
                 if proto \<noteq> XRAY_PROTOCOL \<or> \<not> s_is_active n \<or> api_url n = [] \<or> api_key n = [] then (False, s)
                 else (case rs_result r of
                     APPLIED \<Rightarrow> (True, mark_orphan_cleanup_done i s)
                   | ALREADY_NEWER \<Rightarrow>
                       if observed_client stock (client_uuid c) = Some (JStr ''disabled'')
                       then (True, mark_orphan_cleanup_done i s)
                       else (False, mark_orphan_cleanup_failed i (''already_newer_unconfirmed:'' @
                              (case observed_client stock (client_uuid c) of None \<Rightarrow> ''None''
                               | Some j \<Rightarrow> py_str j)) s)
                   | _ \<Rightarrow> (False, mark_orphan_cleanup_failed i
                              (error_or (rs_error r) (sync_result_text (rs_result r))) s))))"

definition pending_cleanups :: "db \<Rightarrow> int list" where
  "pending_cleanups s = take BATCH_SIZE (sort (map c_id (filter (\<lambda>c. \<not> c_done c) (orphans s))))"

definition sweep_orphan_cleanups :: "(int \<Rightarrow> sync_response \<times> http_answer) \<Rightarrow> db \<Rightarrow> int \<times> db" where
  "sweep_orphan_cleanups replies s =
     fold (\<lambda>i (n, s). let (ok, s) = sweep_orphan_cleanup (fst (replies i)) (snd (replies i)) i s in
             (if ok then n + 1 else n, s)) (pending_cleanups s) (0, s)"

subsection \<open>Hard deletes and unplaced subscriptions\<close>

definition finalize_hard_deletes :: "db \<Rightarrow> int \<times> db" where
  "finalize_hard_deletes s =
     fold (\<lambda>i (n, s). let (ok, s) = finalize_hard_delete_subscription i s in
             (if ok then n + 1 else n, s))
       (take BATCH_SIZE (sort (map w_id (filter (\<lambda>w. pending_hard_delete w \<and> w_status w = WI_DISABLED)
          (wi_subs s))))) (0, s)"

fun place_subs :: "int list \<Rightarrow> db \<Rightarrow> int \<times> db" where
  "place_subs [] s = (0, s)"
| "place_subs (i # rest) s =
     (case get_wi_row i s of
        None \<Rightarrow> place_subs rest s
      | Some w \<Rightarrow>
          if origin_node_id w \<noteq> None \<or> \<not> placed_live w then place_subs rest s
          else (case allocate_origin_server_atomic s of
              None \<Rightarrow> (0, s)
            | Some n \<Rightarrow>
                let (k, t) = place_subs rest (set_wi_sub (w\<lparr>origin_node_id := Some (s_id n),
                      desired_version := desired_version w + 1,
                      provisioning_status := Node_PENDING_UPDATE,
                      last_reconciled_node_epoch := None\<rparr>) s) in
                (k + 1, t)))"

definition sweep_unallocated_subscriptions :: "db \<Rightarrow> int \<times> db" where
  "sweep_unallocated_subscriptions s =
     place_subs (take BATCH_SIZE (sort (map w_id (filter (\<lambda>w. origin_node_id w = None \<and> placed_live w)
       (wi_subs s))))) s"

text \<open>The end of a cycle.\<close>

definition run_sweeps :: "(int \<Rightarrow> sync_response \<times> http_answer) \<Rightarrow> db \<Rightarrow> int \<times> db" where
  "run_sweeps replies s =
     (let (a, s) = finalize_hard_deletes s;
          (b, s) = sweep_orphan_cleanups replies s;
          (c, s) = sweep_unallocated_subscriptions s in
      (a + b + c, s))"

end
