(* ===== verification/VLESS.thy ===== *)
theory VLESS
  imports WI_Devices
begin

section \<open>database/repositories/vless\_subscription\_repo.py\<close>

text \<open>
  The credentials of a VPN subscription: devices under the limit of the tariff, the rotation of
  the client UUID with the outbox of revoked ones, and the metering of traffic against the
  counters of each node.  Random tokens and UUIDs, and the key a sequence hands out, are
  arguments.
\<close>

definition set_vless :: "vless_sub \<Rightarrow> db \<Rightarrow> db" where
  "set_vless v s = s\<lparr>vless_subs := update_rows (\<lambda>w. v_id w = v_id v) (\<lambda>_. v) (vless_subs s)\<rparr>"

definition get_vless_row :: "int \<Rightarrow> db \<Rightarrow> vless_sub option" where
  "get_vless_row i s = find (\<lambda>v. v_id v = i) (vless_subs s)"

subsection \<open>Credentials\<close>

definition fresh_snapshots :: meta where
  "fresh_snapshots = [''_fresh'' \<mapsto> JBool True]"

text \<open>
  The nested insert fails when another row has the user, the token or the UUID; then the row
  of a concurrent creation is returned if there is one.
\<close>

definition get_or_create_vless ::
  "int \<Rightarrow> int \<Rightarrow> string \<Rightarrow> string \<Rightarrow> instant \<Rightarrow> db \<Rightarrow> pyerr + vless_sub \<times> db" where
  "get_or_create_vless uid new_id token cuuid now s =
     (case get_vless_sub uid s of
        Some v \<Rightarrow> Inr (v, s)
      | None \<Rightarrow>
          let v = \<lparr>v_id = new_id, v_user_id = uid, v_token = token, v_uuid = cuuid,
                v_is_active = True, version = 1, v_active_hwids = [], pending_revoked_uuids = [],
                traffic_down = 0, traffic_up = 0, node_traffic_snapshots = fresh_snapshots,
                v_last_synced_at = None, last_synced_version = 0, v_created_at = now\<rparr> in
          if list_ex (\<lambda>w. v_id w = new_id \<or> v_token w = token \<or> v_uuid w = cuuid) (vless_subs s)
          then Inl IntegrityError
          else Inr (v, s\<lparr>vless_subs := vless_subs s @ [v]\<rparr>))"

definition get_vless_by_token :: "string \<Rightarrow> db \<Rightarrow> vless_sub option" where
  "get_vless_by_token token s =
     (if length token < 16 then None else find (\<lambda>v. v_token v = token) (vless_subs s))"

text \<open>\<open>(version or 1) + 1\<close>.\<close>

definition next_version :: "vless_sub \<Rightarrow> int" where
  "next_version v = (if version v = 0 then 1 else version v) + 1"

definition add_pending :: "string \<Rightarrow> string list \<Rightarrow> string list" where
  "add_pending old pending =
     (if old \<noteq> [] \<and> \<not> List.member pending old then pending @ [old] else pending)"

definition reset_vless_hwids ::
  "int \<Rightarrow> string \<Rightarrow> db \<Rightarrow> pyerr + (string option \<times> string option) \<times> db" where
  "reset_vless_hwids i new_uuid s =
     (case get_vless_row i s of
        None \<Rightarrow> Inr ((None, None), s)
      | Some v \<Rightarrow>
          if v_active_hwids v = [] then Inr ((None, None), s)
          else if list_ex (\<lambda>w. v_id w \<noteq> i \<and> v_uuid w = new_uuid) (vless_subs s)
          then Inl IntegrityError
          else Inr ((Some (v_uuid v), Some new_uuid),
                set_vless (v\<lparr>v_uuid := new_uuid, version := next_version v, v_active_hwids := [],
                  node_traffic_snapshots := fresh_snapshots,
                  pending_revoked_uuids := add_pending (v_uuid v) (pending_revoked_uuids v)\<rparr>) s))"

definition rotate_token ::
  "int \<Rightarrow> bool \<Rightarrow> string \<Rightarrow> string \<Rightarrow> db \<Rightarrow> pyerr + (string \<times> string \<times> string) \<times> db" where
  "rotate_token i reset_hwids token new_uuid s =
     (case get_vless_row i s of
        None \<Rightarrow> Inl (ValueError (''VlessSubscription '' @ str_int i @ '' not found''))
      | Some v \<Rightarrow>
          if list_ex (\<lambda>w. v_id w \<noteq> i \<and> (v_token w = token \<or> v_uuid w = new_uuid)) (vless_subs s)
          then Inl IntegrityError
          else Inr ((token, v_uuid v, new_uuid),
                set_vless (v\<lparr>v_token := token, v_uuid := new_uuid, version := next_version v,
                  node_traffic_snapshots := fresh_snapshots,
                  v_active_hwids := (if reset_hwids then [] else v_active_hwids v),
                  pending_revoked_uuids := add_pending (v_uuid v) (pending_revoked_uuids v)\<rparr>) s))"

definition pop_pending_revoked_uuid :: "int \<Rightarrow> string \<Rightarrow> db \<Rightarrow> db" where
  "pop_pending_revoked_uuid i gone s =
     (case get_vless_row i s of
        None \<Rightarrow> s
      | Some v \<Rightarrow> set_vless (v\<lparr>pending_revoked_uuids :=
            filter (\<lambda>u. u \<noteq> gone) (pending_revoked_uuids v)\<rparr>) s)"

definition bump_subscription_version :: "int \<Rightarrow> db \<Rightarrow> vless_sub option \<times> db" where
  "bump_subscription_version i s =
     (case get_vless_row i s of
        None \<Rightarrow> (None, s)
      | Some v \<Rightarrow> let v = v\<lparr>version := next_version v\<rparr> in (Some v, set_vless v s))"

subsection \<open>Who is connected\<close>

definition countable_user :: "user \<Rightarrow> instant \<Rightarrow> bool" where
  "countable_user u now \<longleftrightarrow>
     \<not> is_deleted u \<and> \<not> is_banned u \<and> \<not> financial_hold u
   \<and> (case subscription_end u of None \<Rightarrow> False
      | Some t \<Rightarrow> now - hours_us VPN_ACCESS_GRACE_HOURS < t)"

definition get_active_vless_counts :: "int \<Rightarrow> instant \<Rightarrow> db \<Rightarrow> nat \<times> nat" where
  "get_active_vless_counts ttl_hours now s =
     (let active = filter (\<lambda>n. n \<noteq> 0)
            (map (\<lambda>v. length (prune_stale_hwids (v_active_hwids v) ttl_hours now))
              (filter (\<lambda>v. v_is_active v
                 \<and> (case get_user s (v_user_id v) of None \<Rightarrow> False | Some u \<Rightarrow> countable_user u now))
                (vless_subs s))) in
      (length active, sum_list active))"

definition get_total_active_hwid_count :: "int \<Rightarrow> instant \<Rightarrow> db \<Rightarrow> nat" where
  "get_total_active_hwid_count ttl_hours now s = snd (get_active_vless_counts ttl_hours now s)"

subsection \<open>Registering a device\<close>

text \<open>\<open>^[a-zA-Z0-9\_\-:]\{3,128\}$\<close> on the stripped text.\<close>

definition hwid_char :: "char \<Rightarrow> bool" where
  "hwid_char c \<longleftrightarrow>
     (let n = (of_char c :: nat) in
      (97 \<le> n \<and> n \<le> 122) \<or> (65 \<le> n \<and> n \<le> 90) \<or> (48 \<le> n \<and> n \<le> 57)
    \<or> c = CHR ''_'' \<or> c = CHR ''-'' \<or> c = CHR '':'')"

definition valid_hwid :: "string \<Rightarrow> bool" where
  "valid_hwid hwid \<longleftrightarrow>
     (let h = py_strip hwid in 3 \<le> length h \<and> length h \<le> 128 \<and> list_all hwid_char h)"

definition may_register :: "user option \<Rightarrow> vless_sub \<Rightarrow> instant \<Rightarrow> bool" where
  "may_register u v now \<longleftrightarrow>
     (case u of
        None \<Rightarrow> False
      | Some u \<Rightarrow> \<not> is_banned u \<and> \<not> financial_hold u \<and> \<not> is_deleted u \<and> v_is_active v
          \<and> check_vpn_access u now)"

text \<open>
  A known device is refreshed unless it was seen in the last 15 minutes, or later than now, with
  nothing pruned and nothing new in its description.
\<close>

definition refresh_vless_hwid ::
  "json \<Rightarrow> (string \<times> json) list \<Rightarrow> bool \<Rightarrow> instant \<Rightarrow> json option" where
  "refresh_vless_hwid prev info pruned now =
     (case prev of
        JObj kvs \<Rightarrow>
          let seen = (case map_of kvs ''last_seen'' of
                Some (JTime t) \<Rightarrow> total_seconds (now - t) < 900 \<and> \<not> pruned
              | _ \<Rightarrow> False);
              changed = list_ex (\<lambda>(k, v). map_of kvs k \<noteq> Some v) (info_fields info) in
          if seen \<and> \<not> changed then None
          else Some (JObj (enrich info (dict_set ''last_seen'' (JTime now) kvs)))
      | _ \<Rightarrow> Some (JObj (enrich info [(''last_seen'', JTime now)])))"

definition clean_hwid :: "string \<Rightarrow> string" where
  "clean_hwid hwid = take 128 (py_lower (py_strip hwid))"

definition register_vless_hwid ::
  "int \<Rightarrow> string \<Rightarrow> int option \<Rightarrow> int \<Rightarrow> (string \<times> json) list \<Rightarrow> instant \<Rightarrow> db
   \<Rightarrow> (bool \<times> int \<times> int) \<times> db" where
  "register_vless_hwid i hwid given_limit ttl_hours info now s =
     (let no_limit = max 0 (case given_limit of None \<Rightarrow> 0 | Some l \<Rightarrow> l) in
      if \<not> valid_hwid hwid then ((False, 0, no_limit), s)
      else (case get_vless_row i s of
          None \<Rightarrow> ((False, 0, no_limit), s)
        | Some v \<Rightarrow>
            let u = get_user s (v_user_id v);
                active = prune_stale_hwids (v_active_hwids v) ttl_hours now in
            if \<not> may_register u v now then ((False, int (length active), 0), s)
            else
              let limit = (case given_limit of
                     Some l \<Rightarrow> l | None \<Rightarrow> get_effective_device_limit u s);
                  clean = clean_hwid hwid in
              if limit \<le> 0 then ((False, int (length active), 0), s)
              else
                let active = lru_prune limit active;
                    pruned = (length active \<noteq> length (v_active_hwids v)) in
                (case map_of active clean of
                   Some prev \<Rightarrow>
                     (case refresh_vless_hwid prev info pruned now of
                        None \<Rightarrow> ((True, int (length active), limit), s)
                      | Some val \<Rightarrow>
                          ((True, int (length active), limit),
                           set_vless (v\<lparr>v_active_hwids := dict_set clean val active\<rparr>) s))
                 | None \<Rightarrow>
                     if limit \<le> int (length active) then ((False, int (length active), limit), s)
                     else
                       let registered = dict_set clean
                             (JObj (enrich info [(''last_seen'', JTime now)])) active in
                       ((True, int (length registered), limit),
                        set_vless (v\<lparr>v_active_hwids := registered\<rparr>) s))))"

subsection \<open>Traffic\<close>

text \<open>
  \<open>now.strftime("%Y-%m")\<close>: the civil year and month of a day counted from 1970-01-01, with the
  year starting in March so that leap days come last.
\<close>

definition civil_month :: "int \<Rightarrow> int \<times> int" where
  "civil_month days =
     (let z = days + 719468; era = z div 146097; doe = z mod 146097;
          yoe = (doe - doe div 1460 + doe div 36524 - doe div 146096) div 365;
          doy = doe - (365 * yoe + yoe div 4 - yoe div 100);
          mp = (5 * doy + 2) div 153;
          m = (if mp < 10 then mp + 3 else mp - 9) in
      (yoe + era * 400 + (if m \<le> 2 then 1 else 0), m))"

definition cycle_of :: "instant \<Rightarrow> string" where
  "cycle_of now =
     (let (y, m) = civil_month (now div usec_per_day) in
      str_int y @ ''-'' @ (if m < 10 then ''0'' @ str_int m else str_int m))"

text \<open>The order of texts in SQL.\<close>

fun text_less :: "string \<Rightarrow> string \<Rightarrow> bool" where
  "text_less x [] = False"
| "text_less [] (d # ds) = True"
| "text_less (c # cs) (d # ds) =
     ((of_char c :: nat) < of_char d \<or> (c = d \<and> text_less cs ds))"

definition bill_vless :: "int \<Rightarrow> instant \<Rightarrow> user \<Rightarrow> user" where
  "bill_vless delta now u =
     (let current = cycle_of now;
          later = (case traffic_cycle u of None \<Rightarrow> False | Some c \<Rightarrow> text_less current c);
          same = (traffic_cycle u = Some current) in
      u\<lparr>total_traffic_bytes := total_traffic_bytes u + delta,
        monthly_vless_bytes :=
          (if later then monthly_vless_bytes u
           else if same then monthly_vless_bytes u + delta else delta),
        monthly_wi_bytes :=
          (if later then monthly_wi_bytes u else if same then monthly_wi_bytes u else 0),
        traffic_cycle := (if later then traffic_cycle u else Some current)\<rparr>)"

text \<open>\<open>int(snap.get(k, 0))\<close>; a snapshot that is not a dict counts as zero.\<close>

definition snap_count :: "json option \<Rightarrow> string \<Rightarrow> pyerr + int" where
  "snap_count snap k =
     (case snap of
        Some (JObj kvs) \<Rightarrow>
          (case map_of kvs k of
             None \<Rightarrow> Inr 0
           | Some (JInt i) \<Rightarrow> Inr i
           | Some (JBool b) \<Rightarrow> Inr (if b then 1 else 0)
           | Some _ \<Rightarrow> Inl (TypeError ''int() argument''))
      | _ \<Rightarrow> Inr 0)"

definition snap_epoch :: "json option \<Rightarrow> json" where
  "snap_epoch snap =
     (case snap of Some (JObj kvs) \<Rightarrow> (case map_of kvs ''epoch'' of None \<Rightarrow> JNull | Some e \<Rightarrow> e)
      | _ \<Rightarrow> JNull)"

text \<open>What a counter has grown by: the first report of a node counts only for fresh credentials.\<close>

definition grown :: "meta \<Rightarrow> string \<Rightarrow> json \<Rightarrow> int \<Rightarrow> int \<Rightarrow> int" where
  "grown snaps node epoch before current =
     max 0 (if snaps node = None then (if meta_truthy snaps ''_fresh'' then current else 0)
            else if snap_epoch (snaps node) \<noteq> epoch then current
            else if before \<le> current then current - before else current)"

definition record_vless_traffic_atomic ::
  "int \<Rightarrow> int \<Rightarrow> string \<Rightarrow> int \<Rightarrow> int \<Rightarrow> string option \<Rightarrow> instant \<Rightarrow> db
   \<Rightarrow> pyerr + (int \<times> int \<times> int) \<times> db" where
  "record_vless_traffic_atomic i server_id node_epoch raw_up raw_down expected_uuid now s =
     (case get_vless_row i s of
        None \<Rightarrow> Inr ((0, 0, 0), s)
      | Some v \<Rightarrow>
          if (case expected_uuid of None \<Rightarrow> False | Some x \<Rightarrow> x \<noteq> [] \<and> v_uuid v \<noteq> x)
          then Inr ((0, 0, 0), s)
          else
            let snaps = node_traffic_snapshots v; node = str_int server_id;
                epoch = JStr node_epoch; up = max 0 raw_up; down = max 0 raw_down in
            (case snap_count (snaps node) ''up'' of Inl err \<Rightarrow> Inl err | Inr prev_up \<Rightarrow>
            (case snap_count (snaps node) ''down'' of Inl err \<Rightarrow> Inl err | Inr prev_down \<Rightarrow>
               let delta_up = grown snaps node epoch prev_up up;
                   delta_down = grown snaps node epoch prev_down down;
                   delta = delta_up + delta_down in
               if 0 < delta \<or> snap_epoch (snaps node) \<noteq> epoch \<or> prev_up \<noteq> up \<or> prev_down \<noteq> down
                  \<or> snaps node = None
               then
                 let snap = JObj [(''epoch'', epoch), (''up'', JInt up), (''down'', JInt down),
                            (''updated_at'', JInt (now div 1000000))];
                     s = set_vless (v\<lparr>traffic_up := traffic_up v + delta_up,
                           traffic_down := traffic_down v + delta_down,
                           node_traffic_snapshots := snaps(node \<mapsto> snap)\<rparr>) s;
                     s = (if 0 < delta
                          then s\<lparr>users := update_rows (\<lambda>u. u_id u = v_user_id v)
                                 (bill_vless delta now) (users s)\<rparr>
                          else s) in
                 Inr ((delta, delta_down, delta_up), s)
               else Inr ((delta, delta_down, delta_up), s))))"

end
