(* ===== verification/VLESS_Sync.thy ===== *)
theory VLESS_Sync
  imports VLESS Node_Client
begin

section \<open>services/vless\_subscription\_service.py: synchronisation with the nodes\<close>

text \<open>
  A client is brought to the desired state on every node that may hold it.  The reply of node
  \<open>i\<close> to a request for a UUID, a desired state and a version is \<open>net i uuid active version\<close>,
  \<open>None\<close> when the call raises.  The links and the routing headers are not modelled.
\<close>

type_synonym node_net = "int \<Rightarrow> string \<Rightarrow> bool \<Rightarrow> int option \<Rightarrow> sync_response option"

subsection \<open>Which nodes\<close>

definition get_eligible_vless_servers :: "db \<Rightarrow> server list" where
  "get_eligible_vless_servers s =
     filter is_vless_capable_server (sort_key s_id (filter (\<lambda>n. s_is_active n \<and> health_state n = ONLINE
        \<and> lifecycle_status n = Life_ACTIVE) (servers s)))"

definition get_configured_vless_servers :: "db \<Rightarrow> server list" where
  "get_configured_vless_servers s =
     filter is_vless_capable_server (sort_key s_id (filter (\<lambda>n. s_is_active n
        \<and> lifecycle_status n = Life_ACTIVE) (servers s)))"

definition get_revocation_target_servers :: "db \<Rightarrow> server list" where
  "get_revocation_target_servers s =
     filter is_vless_capable_server (sort_key s_id (filter (\<lambda>n. lifecycle_status n = Life_ACTIVE) (servers s)))"

definition extract_node_targets :: "server list \<Rightarrow> server list" where
  "extract_node_targets ns =
     filter (\<lambda>n. (case get_server_xray_api_url n of None \<Rightarrow> False | Some url \<Rightarrow> truthy url)
        \<and> api_key n \<noteq> []) ns"

subsection \<open>What a reply confirms\<close>

definition has_vless_inbound :: "sync_response \<Rightarrow> bool" where
  "has_vless_inbound r \<longleftrightarrow>
     list_ex (\<lambda>j. case j of JStr ib \<Rightarrow> contains_text ''vless'' (py_lower ib) | _ \<Rightarrow> False) (rs_inbounds r)"

definition state_name :: "bool \<Rightarrow> json" where
  "state_name active = JStr (if active then ''active'' else ''disabled'')"

text \<open>Whether the node confirms the state, and whether it asks for a newer version.\<close>

definition sync_one :: "sync_response option \<Rightarrow> bool \<Rightarrow> bool \<times> bool" where
  "sync_one reply desired =
     (case reply of
        None \<Rightarrow> (False, False)
      | Some r \<Rightarrow>
          (case rs_result r of
             APPLIED \<Rightarrow> (has_vless_inbound r \<and> rs_all_verified r, False)
           | ALREADY_NEWER \<Rightarrow>
               let same = (jget (rs_raw r) ''state'' = state_name desired) in
               (has_vless_inbound r \<and> same \<and> rs_all_verified r, \<not> same)
           | _ \<Rightarrow> (False, False)))"

definition execute_sync_to_nodes_with_status ::
  "node_net \<Rightarrow> server list \<Rightarrow> string \<Rightarrow> bool \<Rightarrow> int option \<Rightarrow> (int \<times> bool) list \<times> bool" where
  "execute_sync_to_nodes_with_status net targets cuuid desired ver =
     (let res = map (\<lambda>n. (s_id n, sync_one (net (s_id n) cuuid desired ver) desired)) targets in
      (map (\<lambda>(i, p). (i, fst p)) res, list_ex (\<lambda>(i, p). snd p) res))"

definition deprov_one :: "sync_response option \<Rightarrow> bool" where
  "deprov_one reply =
     (case reply of
        None \<Rightarrow> False
      | Some r \<Rightarrow>
          (case rs_result r of
             APPLIED \<Rightarrow> has_vless_inbound r \<and> rs_all_verified r
           | ALREADY_NEWER \<Rightarrow> has_vless_inbound r \<and> jget (rs_raw r) ''state'' = JStr ''disabled''
               \<and> rs_all_verified r
           | _ \<Rightarrow> False))"

definition execute_deprovision_on_nodes ::
  "node_net \<Rightarrow> server list \<Rightarrow> string \<Rightarrow> int option \<Rightarrow> (int \<times> bool) list" where
  "execute_deprovision_on_nodes net targets cuuid ver =
     map (\<lambda>n. (s_id n, deprov_one (net (s_id n) cuuid False ver))) targets"

text \<open>
  \<open>len(targets) == len(servers) and all(...) and len(results) == len(targets)\<close>: results are a
  dict by node, so they are as many as the targets when no node occurs twice.
\<close>

definition all_confirmed :: "server list \<Rightarrow> server list \<Rightarrow> (int \<times> bool) list \<Rightarrow> bool" where
  "all_confirmed ns targets res \<longleftrightarrow>
     length targets = length ns \<and> list_all snd res \<and> length (remdups (map fst res)) = length targets"

subsection \<open>Synchronising a user\<close>

definition version_or_1 :: "vless_sub \<Rightarrow> int" where
  "version_or_1 v = (if version v = 0 then 1 else version v)"

definition desired_state :: "vless_sub \<Rightarrow> user option \<Rightarrow> bool option \<Rightarrow> instant \<Rightarrow> bool" where
  "desired_state v u active now \<longleftrightarrow>
     v_is_active v \<and> active \<noteq> Some False
   \<and> (case u of None \<Rightarrow> False
      | Some u \<Rightarrow> \<not> is_banned u \<and> \<not> financial_hold u \<and> \<not> is_deleted u \<and> check_vpn_access u now)"

definition sync_user_to_nodes ::
  "node_net \<Rightarrow> int \<Rightarrow> bool option \<Rightarrow> instant \<Rightarrow> db \<Rightarrow> (int \<times> bool) list \<times> db" where
  "sync_user_to_nodes net uid active now s =
     (case get_vless_sub uid s of
        None \<Rightarrow> ([], s)
      | Some v \<Rightarrow>
          let desired = desired_state v (get_user s uid) active now;
              ns = (if desired then get_configured_vless_servers s else get_revocation_target_servers s);
              targets = extract_node_targets ns in
          if targets = [] then ([], s)
          else
            let (res, bump) = execute_sync_to_nodes_with_status net targets (v_uuid v) desired
                  (Some (version_or_1 v));
                (v, s) = (if bump
                  then (case bump_subscription_version (v_id v) s of
                      (Some w, t) \<Rightarrow> (w, t)
                    | (None, t) \<Rightarrow> let w = v\<lparr>version := version_or_1 v + 1\<rparr> in (w, set_vless w t))
                  else (v, s));
                res = (if bump then fst (execute_sync_to_nodes_with_status net targets (v_uuid v) desired
                        (Some (version v))) else res);
                ver = (if bump then version v else version_or_1 v) in
            (res, if all_confirmed ns targets res
                  then set_vless (v\<lparr>v_last_synced_at := Some now, last_synced_version := ver\<rparr>) s
                  else s))"

subsection \<open>Revoked credentials\<close>

definition deprovision_uuid_from_nodes ::
  "node_net \<Rightarrow> string \<Rightarrow> int option \<Rightarrow> db \<Rightarrow> (int \<times> bool) list" where
  "deprovision_uuid_from_nodes net cuuid ver s =
     (if cuuid = [] then []
      else execute_deprovision_on_nodes net (extract_node_targets (get_revocation_target_servers s)) cuuid ver)"

definition revoked_everywhere :: "node_net \<Rightarrow> string \<Rightarrow> int option \<Rightarrow> db \<Rightarrow> bool" where
  "revoked_everywhere net cuuid ver s \<longleftrightarrow>
     (let ns = get_revocation_target_servers s; targets = extract_node_targets ns in
      ns \<noteq> [] \<and> all_confirmed ns targets (execute_deprovision_on_nodes net targets cuuid ver))"

text \<open>The task \<open>deprovision\_background\<close> queues.\<close>

definition run_deprovision ::
  "node_net \<Rightarrow> string \<Rightarrow> int option \<Rightarrow> int option \<Rightarrow> instant \<Rightarrow> db \<Rightarrow> db" where
  "run_deprovision net old_uuid ver sub_id now s =
     (case sub_id of
        None \<Rightarrow> s
      | Some i \<Rightarrow>
          if i = 0 \<or> extract_node_targets (get_revocation_target_servers s) = []
             \<or> \<not> revoked_everywhere net old_uuid ver s then s
          else
            let s = pop_pending_revoked_uuid i old_uuid s in
            (case (get_vless_row i s, ver) of
               (Some v, Some n) \<Rightarrow>
                 if \<not> v_is_active v
                 then set_vless (v\<lparr>v_last_synced_at := Some now,
                        last_synced_version := max (last_synced_version v) n\<rparr>) s
                 else s
             | _ \<Rightarrow> s))"

text \<open>The task \<open>ensure\_synced\_background\<close> queues: a synchronisation, then the outbox.\<close>

definition retry_revocation :: "node_net \<Rightarrow> int \<Rightarrow> int \<Rightarrow> string \<Rightarrow> db \<Rightarrow> db" where
  "retry_revocation net i ver cuuid s =
     (if revoked_everywhere net cuuid (Some ver) s then pop_pending_revoked_uuid i cuuid s else s)"

definition run_ensure_synced :: "node_net \<Rightarrow> int \<Rightarrow> bool option \<Rightarrow> instant \<Rightarrow> db \<Rightarrow> db" where
  "run_ensure_synced net uid active now s =
     (let s = snd (sync_user_to_nodes net uid active now s) in
      case get_vless_sub uid s of
        None \<Rightarrow> s
      | Some v \<Rightarrow>
          if extract_node_targets (get_revocation_target_servers s) = [] then s
          else fold (retry_revocation net (v_id v) (version_or_1 v)) (pending_revoked_uuids v) s)"

subsection \<open>A node that joins\<close>

text \<open>
  \<open>healthy\<close> is the outcome of the check before the sweep, \<open>busy\<close> the nodes being swept by another
  task.
\<close>

definition eligible_subs :: "instant \<Rightarrow> db \<Rightarrow> vless_sub list" where
  "eligible_subs now s =
     filter (\<lambda>v. v_is_active v
        \<and> (case get_user s (v_user_id v) of None \<Rightarrow> False
           | Some u \<Rightarrow> \<not> is_deleted u \<and> \<not> is_banned u \<and> \<not> financial_hold u \<and> check_vpn_access u now))
       (vless_subs s)"

definition sync_all_active_to_server ::
  "node_net \<Rightarrow> int list \<Rightarrow> bool \<Rightarrow> int \<Rightarrow> instant \<Rightarrow> db \<Rightarrow> nat \<times> db" where
  "sync_all_active_to_server net busy healthy i now s =
     (if List.member busy i then (0, s)
      else (case get_server s i of
          None \<Rightarrow> (0, s)
        | Some n \<Rightarrow>
            if \<not> s_is_active n \<or> \<not> is_vless_capable_server n \<or> extract_node_targets [n] = [] \<or> \<not> healthy
            then (0, s)
            else
              let eligible = eligible_subs now s;
                  synced = filter (\<lambda>v. fst (sync_one (net i (v_uuid v) True (Some (version_or_1 v))) True))
                    eligible in
              (length synced,
               if length synced = length eligible
               then (case xray_instance_epoch n of
                   Some e \<Rightarrow>
                     if e \<noteq> []
                     then set_server (n\<lparr>extra_data := (extra_data n)(''vless_synced_epoch'' \<mapsto> JStr e)\<rparr>) s
                     else s
                 | None \<Rightarrow> s)
               else s)))"

end
