(* ===== verification/Node_Steps.thy ===== *)
theory Node_Steps
  imports WI_Invariant Reconciliation VLESS_Sync
begin

section \<open>The workers leave orders and money alone\<close>

text \<open>
  Every step of the node repository, of the reconciliation and of the synchronisation of the VPN
  credentials is quiet: it touches neither orders nor the ledger, and keeps the constraints of the
  White Internet rows.
\<close>

lemma quiet_set_wi_sub:
  assumes "get_wi_row i s = Some w" and "w_id v = w_id w" and "w_user_id v = w_user_id w"
    and "wi_live v \<Longrightarrow> wi_live w" and "wi_row_ok w \<Longrightarrow> wi_row_ok v"
  shows "quiet s (set_wi_sub v s)"
proof -
  have "wi_ok (set_wi_sub v s)" if ok: "wi_ok s"
  proof (rule wi_ok_save [OF ok])
    have "w \<in> set (wi_subs s)"
      using assms(1) by (auto simp: get_wi_row_def dest: find_SomeD)
    then have "wi_checks w (wi_subs s)"
      using ok by (simp add: wi_ok_def)
    then show "wi_checks v (wi_subs s)"
      using assms(2-5) by (auto simp: wi_checks_def wi_row_ok_def uq_white_internet_live_user_def)
  qed
  then show ?thesis
    by (simp add: quiet_def set_wi_sub_def)
qed

lemmas row_checks = wi_row_ok_def wi_live_def ck_white_internet_subscriptions_traffic_nonnegative_def
  ck_white_internet_subscriptions_device_limit_def

lemma log_action_quiet: "quiet s (log_action a b c d e s)"
  by (rule quietI) (simp_all add: log_action_def)

lemma quiet_log: "quiet s t \<Longrightarrow> quiet s (log_action a b c d e t)"
  by (rule quiet_trans [OF _ log_action_quiet])

subsection \<open>Nodes\<close>

lemma set_server_quiet [simp, intro]: "quiet s (set_server n s)"
  by (rule quietI) (simp_all add: set_server_def)

lemma create_server_quiet: "create_server a b c d p n caps life now s = Inr (x, t) \<Longrightarrow> quiet s t"
  by (rule quietI) (auto simp: create_server_def Let_def split: if_split_asm)

lemma update_server_quiet: "update_server n kws s = Inr (x, t) \<Longrightarrow> quiet s t"
  by (auto simp: update_server_def save_server_def Let_def split: if_split_asm)

lemma map_rows_quiet:
  assumes "\<And>w. w_id (f w) = w_id w" and "\<And>w. w_user_id (f w) = w_user_id w"
    and "\<And>w. wi_live (f w) \<Longrightarrow> wi_live w" and "\<And>w. wi_row_ok w \<Longrightarrow> wi_row_ok (f w)"
    and "orders t = orders s" and "entries t = entries s" and "allocs t = allocs s"
    and "entry_seq t = entry_seq s" and "wi_seq t = wi_seq s" and "wi_subs t = update_rows P f (wi_subs s)"
  shows "quiet s t"
  using assms wi_ok_map_rows [of s f P] by (auto simp: quiet_def wi_ok_def)

lemma delete_server_quiet: "quiet s (delete_server n s)"
  by (rule map_rows_quiet [where f = "\<lambda>w. w\<lparr>origin_node_id := None\<rparr>"
        and P = "\<lambda>w. origin_node_id w = Some (s_id n)"])
    (simp_all add: delete_server_def row_checks)

lemma health_snapshot_quiet: "quiet s (snd (update_server_health_snapshot i e n f c kws s))"
  by (simp add: update_server_health_snapshot_def Let_def split: option.split)

lemma epoch_cas_quiet: "quiet s (snd (update_server_xray_epoch_cas i eb est e b st s))"
  by (simp add: update_server_xray_epoch_cas_def Let_def split: option.split)

lemma enqueue_all_same: "quiet s (enqueue_all i ws s)"
  by (induction ws arbitrary: s) (auto simp: enqueue_all_def intro: quiet_trans [OF enqueue_quiet])

lemma enqueue_all_wi: "wi_subs (enqueue_all i ws s) = wi_subs s"
  by (induction ws arbitrary: s) (simp_all add: enqueue_all_def enqueue_orphan_cleanup_def Let_def)

lemma migrate_origin_quiet:
  assumes "migrate_origin_subscriptions source target s = Inr (x, t)"
  shows "quiet s t"
proof -
  let ?P = "\<lambda>w. origin_node_id w = Some source \<and> capacity_consuming w"
  have step: "quiet u (u\<lparr>wi_subs := update_rows ?P (moved target) (wi_subs u)\<rparr>)" for u
    by (rule map_rows_quiet [where f = "moved target" and P = ?P])
      (simp_all add: moved_def row_checks)
  show ?thesis
    using assms
    by (auto simp: migrate_origin_subscriptions_def Let_def split: option.split_asm if_split_asm
        intro: quiet_trans [OF quiet_trans [OF set_server_quiet enqueue_all_same] step])
qed

subsection \<open>Reconciliation\<close>

text \<open>What one reply leaves alone in a row: its identity, its owner, and what the constraints read.\<close>

definition same_row :: "wi_sub \<Rightarrow> wi_sub \<Rightarrow> bool" where
  "same_row w v \<longleftrightarrow> w_id v = w_id w \<and> w_user_id v = w_user_id w \<and> (wi_live v \<longrightarrow> wi_live w)
     \<and> wi_row_ok v = wi_row_ok w"

lemma same_row_refl [simp]: "same_row w w"
  by (simp add: same_row_def)

lemma same_row_marks:
  "same_row w (retry_later e now w)" "same_row w (force_newer n err now w)"
  "same_row w (mark_synced a k b now w)"
  by (simp_all add: same_row_def retry_later_def force_newer_def mark_synced_def Let_def row_checks)

lemma reconciled_row:
  assumes "reconciled epoch k r stock now w = (ok, v)"
  shows "same_row w v"
  using assms
  by (cases "rs_result r") (auto simp: reconciled_def Let_def same_row_marks split: if_split_asm)

lemma quiet_same_row: "get_wi_row i s = Some w \<Longrightarrow> same_row w v \<Longrightarrow> quiet s (set_wi_sub v s)"
  by (rule quiet_set_wi_sub) (simp_all add: same_row_def)

lemma reconcile_quiet: "quiet s (snd (reconcile_single_subscription epoch k r stock now s))"
proof (cases "get_wi_row (task_sub k) s")
  case None
  then show ?thesis
    by (simp add: reconcile_single_subscription_def)
next
  case (Some w)
  obtain ok v where v: "reconciled epoch k r stock now w = (ok, v)"
    by fastforce
  show ?thesis
    using quiet_same_row [OF Some reconciled_row [OF v]]
    by (simp add: reconcile_single_subscription_def Some v)
qed

lemma refresh_target_quiet: "quiet s (snd (refresh_target n answer s))"
proof -
  have "quiet s t" if "update_server_xray_epoch_cas i eb est e b st s = (r, t)" for i eb est e b st r t
    using that epoch_cas_quiet [of s i eb est e b st] by simp
  then show ?thesis
    by (auto simp: refresh_target_def Let_def split: prod.split json.split option.split bool.split)
qed

lemma run_tasks_quiet: "quiet s (snd (run_tasks epoch replies now ks s))"
proof (induction ks arbitrary: s)
  case (Cons k ks)
  obtain ok t where t: "reconcile_single_subscription epoch k (fst (replies k)) (snd (replies k)) now s = (ok, t)"
    by fastforce
  then have "quiet s t"
    using reconcile_quiet [of s epoch k "fst (replies k)" "snd (replies k)" now] by simp
  then show ?case
    using Cons.IH [of t] by (auto simp: t case_prod_beta intro: quiet_trans)
qed simp

lemma plan_task_quiet: "plan_task relays now w s = Inr (x, t) \<Longrightarrow> quiet s t"
  by (auto simp: plan_task_def and_then_eq_Inr intro: expire_quiet split: if_split_asm)

lemma plan_tasks_quiet: "plan_tasks relays now ws s = Inr (ks, t) \<Longrightarrow> quiet s t"
proof (induction ws arbitrary: s ks)
  case (Cons w ws)
  then show ?case
    by (auto simp: and_then_eq_Inr intro: quiet_trans plan_task_quiet)
qed simp

lemma reconcile_node_quiet: "reconcile_node replies i epoch relays now s = Inr (x, t) \<Longrightarrow> quiet s t"
  using run_tasks_quiet by (auto simp: reconcile_node_def and_then_eq_Inr dest!: plan_tasks_quiet)
    (metis quiet_trans snd_conv)

lemma cleanup_done_quiet: "quiet s (mark_orphan_cleanup_done i s)"
  by (rule quietI) (simp_all add: mark_orphan_cleanup_done_def)

lemma cleanup_failed_quiet: "quiet s (mark_orphan_cleanup_failed i err s)"
  by (rule quietI) (simp_all add: mark_orphan_cleanup_failed_def)

lemma sweep_one_quiet: "quiet s (snd (sweep_orphan_cleanup r stock i s))"
  by (simp add: sweep_orphan_cleanup_def Let_def cleanup_done_quiet cleanup_failed_quiet split: option.split sync_result.split)

text \<open>A sweep that runs one quiet step per id.\<close>

lemma fold_sweep_quiet:
  assumes "\<And>i s. quiet s (snd (f i s))"
  shows "quiet s (snd (fold (\<lambda>i (n, s). let (ok, s) = f i s in (if ok then n + 1 else n, s)) is (n, s)))"
proof (induction "is" arbitrary: n s)
  case (Cons i rest)
  obtain ok t where t: "f i s = (ok, t)" by fastforce
  then show ?case
    using Cons.IH [of t "if ok then n + 1 else n"] assms [of s i] by (auto intro: quiet_trans)
qed simp

lemma place_quiet: "quiet s (snd (place_subs is s))"
proof (induction "is" arbitrary: s)
  case (Cons i rest)
  have "quiet s (set_wi_sub (w\<lparr>origin_node_id := Some n, desired_version := desired_version w + 1,
      provisioning_status := Node_PENDING_UPDATE, last_reconciled_node_epoch := None\<rparr>) s)"
    if "get_wi_row i s = Some w" for w n
    using that by (rule quiet_same_row) (simp add: same_row_def row_checks)
  then show ?case
    using Cons.IH by (auto simp: Let_def case_prod_beta split: option.split intro: quiet_trans)
qed simp

lemma finalize_one_quiet: "quiet s (snd (finalize_hard_delete_subscription i s))"
  by (rule finalize_quiet)

lemma finalize_all_quiet: "quiet s (snd (finalize_hard_deletes s))"
  unfolding finalize_hard_deletes_def by (rule fold_sweep_quiet) (rule finalize_one_quiet)

lemma sweep_all_quiet: "quiet s (snd (sweep_orphan_cleanups replies s))"
  unfolding sweep_orphan_cleanups_def by (rule fold_sweep_quiet) (rule sweep_one_quiet)

lemma run_sweeps_quiet: "quiet s (snd (run_sweeps replies s))"
proof -
  obtain a s1 where s1: "finalize_hard_deletes s = (a, s1)" by fastforce
  obtain b s2 where s2: "sweep_orphan_cleanups replies s1 = (b, s2)" by fastforce
  have "quiet s s1"
    using s1 finalize_all_quiet [of s] by simp
  moreover have "quiet s1 s2"
    using s2 sweep_all_quiet [of s1 replies] by simp
  moreover have "quiet s2 (snd (sweep_unallocated_subscriptions s2))"
    by (simp add: sweep_unallocated_subscriptions_def place_quiet)
  ultimately show ?thesis
    by (auto simp: run_sweeps_def s1 s2 case_prod_beta intro: quiet_trans)
qed

subsection \<open>The VPN credentials\<close>

lemma set_vless_quiet [simp, intro]: "quiet s (set_vless v s)"
  by (rule quietI) (simp_all add: set_vless_def)

lemma bump_vless_quiet: "quiet s (snd (bump_subscription_version i s))"
  by (simp add: bump_subscription_version_def Let_def split: option.split)

lemma revoked_vless_quiet: "quiet s (pop_pending_revoked_uuid i gone s)"
  by (simp add: pop_pending_revoked_uuid_def split: option.split)

lemma quiet_set_vless: "quiet s t \<Longrightarrow> quiet s (set_vless v t)"
  by (rule quiet_trans [OF _ set_vless_quiet])

lemma sync_user_quiet: "quiet s (snd (sync_user_to_nodes net uid active now s))"
proof (cases "get_vless_sub uid s")
  case None
  then show ?thesis by (simp add: sync_user_to_nodes_def)
next
  case (Some v)
  obtain w t where b: "bump_subscription_version (v_id v) s = (w, t)" by fastforce
  then have "quiet s t"
    using bump_vless_quiet [of s "v_id v"] by simp
  then show ?thesis
    by (cases w) (simp_all add: sync_user_to_nodes_def Some b Let_def case_prod_beta quiet_set_vless)
qed

lemma retry_revocations_quiet: "quiet s (fold (retry_revocation net i ver) us s)"
  by (induction us arbitrary: s)
    (auto simp: retry_revocation_def intro: quiet_trans [OF revoked_vless_quiet])

lemma ensure_synced_quiet: "quiet s (run_ensure_synced net uid active now s)"
  using quiet_trans [OF sync_user_quiet retry_revocations_quiet]
  by (simp add: run_ensure_synced_def Let_def sync_user_quiet split: option.split)

lemma run_deprovision_quiet: "quiet s (run_deprovision net u ver i now s)"
  by (simp add: run_deprovision_def Let_def revoked_vless_quiet quiet_set_vless split: option.split)

lemma sync_node_quiet: "quiet s (snd (sync_all_active_to_server net busy healthy i now s))"
  by (simp add: sync_all_active_to_server_def Let_def split: option.split)

end
