(* ===== verification/Banning.thy ===== *)
theory Banning
  imports Settlement_Invariant Node_Steps
begin

section \<open>services/ban\_service.py\<close>

text \<open>
  Banning a user: unfinished payments and orders are closed, the White Internet subscriptions
  are disabled, the VPN credentials are revoked under a fresh UUID, which is an argument.
  Unbanning lifts the ban and, if the VPN subscription still gives access, activates the
  credentials again.  The user cache and the log are not modelled.
\<close>

datatype BanStatus = USER_NOT_FOUND | ALREADY_BANNED | BANNED | ALREADY_UNBANNED | UNBANNED

type_synonym ban_result = "pyerr + (bool \<times> BanStatus) \<times> db"

subsection \<open>Payments and orders\<close>

definition unfinished_payment :: "payment \<Rightarrow> bool" where
  "unfinished_payment p \<longleftrightarrow> provider_status p \<noteq> Prov_SUCCEEDED \<and> provider_status p \<noteq> Prov_CANCELED
     \<and> provider_status p \<noteq> Prov_REFUNDED"

definition close_payment :: "instant \<Rightarrow> payment \<Rightarrow> payment" where
  "close_payment now p = p\<lparr>checkout_status := Checkout_ABANDONED, ui_visible := False,
     p_payment_url := None,
     user_cancel_requested_at := (case user_cancel_requested_at p of None \<Rightarrow> Some now | Some t \<Rightarrow> Some t)\<rparr>"

definition close_payments :: "int \<Rightarrow> instant \<Rightarrow> db \<Rightarrow> int \<times> db" where
  "close_payments uid now s =
     (let P = (\<lambda>p. p_user_id p = uid \<and> unfinished_payment p) in
      (int (length (filter (\<lambda>p. P p \<and> (checkout_status p \<noteq> Checkout_ABANDONED \<or> ui_visible p)) (payments s))),
       s\<lparr>payments := update_rows P (close_payment now) (payments s)\<rparr>))"

definition close_orders :: "int \<Rightarrow> db \<Rightarrow> int \<times> db" where
  "close_orders uid s =
     (let P = (\<lambda>x. o_user_id x = uid \<and> o_status x = Order_PENDING) in
      (int (length (filter P (orders s))),
       s\<lparr>orders := update_rows P (\<lambda>x. mark_order_canceled x ''user_banned'') (orders s)\<rparr>))"

subsection \<open>The VPN credentials\<close>

definition revoke_vless :: "int \<Rightarrow> string \<Rightarrow> db \<Rightarrow> pyerr + unit \<times> db" where
  "revoke_vless uid new_uuid s =
     (case get_vless_sub uid s of
        None \<Rightarrow> Inr ((), s)
      | Some v \<Rightarrow>
          if list_ex (\<lambda>w. v_id w \<noteq> v_id v \<and> v_uuid w = new_uuid) (vless_subs s)
          then Inl IntegrityError
          else
            let s = set_vless (v\<lparr>v_is_active := False, version := next_version v, v_active_hwids := [],
                  node_traffic_snapshots := fresh_snapshots, v_uuid := new_uuid,
                  pending_revoked_uuids := add_pending (v_uuid v) (pending_revoked_uuids v)\<rparr>) s in
            Inr ((), if v_uuid v \<noteq> []
                 then s\<lparr>tasks := tasks s @ [Deprovision_vless (v_uuid v) (next_version v) (v_id v)]\<rparr>
                 else s))"

definition restore_vless :: "user \<Rightarrow> instant \<Rightarrow> db \<Rightarrow> db" where
  "restore_vless u now s =
     (case get_vless_sub (u_id u) s of
        None \<Rightarrow> s
      | Some v \<Rightarrow>
          if \<not> check_vpn_access u now then s
          else
            let pending = (if v_uuid v \<noteq> [] then filter (\<lambda>x. x \<noteq> v_uuid v) (pending_revoked_uuids v)
                  else pending_revoked_uuids v);
                s = set_vless (v\<lparr>v_is_active := True, version := next_version v,
                      pending_revoked_uuids := pending\<rparr>) s in
            s\<lparr>tasks := tasks s @ [Sync_vless (u_id u) True]\<rparr>)"

subsection \<open>The service\<close>

definition ban_locked :: "int \<Rightarrow> user \<Rightarrow> string option \<Rightarrow> string \<Rightarrow> instant \<Rightarrow> db \<Rightarrow> ban_result" where
  "ban_locked admin u reason new_uuid now s =
     (let (closed, s) = close_payments (u_id u) now s;
          (canceled, s) = close_orders (u_id u) s;
          s = set_user (u\<lparr>is_banned := True\<rparr>) s;
          (disabled, s) = deactivate_user_subscriptions (u_id u) ''user_banned'' None s in
      and_then (revoke_vless (u_id u) new_uuid s) (\<lambda>_ s.
        Inr ((True, BANNED), log_action admin BAN_USER ''user'' (u_id u)
          [''reason'' \<mapsto> JStr (case reason of None \<Rightarrow> ''admin_action''
                                | Some r \<Rightarrow> if r = [] then ''admin_action'' else r),
           ''profiles_deleted'' \<mapsto> JInt 0, ''payments_closed'' \<mapsto> JInt (closed + canceled),
           ''reconciliations_queued'' \<mapsto> JInt 0,
           ''white_internet_disabled'' \<mapsto> JInt (int (length disabled))] s)))"

definition ban_user_row :: "int \<Rightarrow> user \<Rightarrow> string option \<Rightarrow> string \<Rightarrow> instant \<Rightarrow> db \<Rightarrow> ban_result" where
  "ban_user_row admin u reason new_uuid now s =
     (case get_user s (u_id u) of
        None \<Rightarrow> Inr ((False, USER_NOT_FOUND), s)
      | Some locked \<Rightarrow>
          if is_deleted locked then Inr ((False, USER_NOT_FOUND), s)
          else ban_locked admin locked reason new_uuid now s)"

definition unban_user_row :: "int \<Rightarrow> user \<Rightarrow> instant \<Rightarrow> db \<Rightarrow> ban_result" where
  "unban_user_row admin u now s =
     (case get_user s (u_id u) of
        None \<Rightarrow> Inr ((False, USER_NOT_FOUND), s)
      | Some locked \<Rightarrow>
          if is_deleted locked then Inr ((False, USER_NOT_FOUND), s)
          else
            let locked = locked\<lparr>is_banned := False\<rparr>;
                s = restore_vless locked now (set_user locked s) in
            Inr ((True, UNBANNED), log_action admin UNBAN_USER ''user'' (u_id u)
              [''devices_restored'' \<mapsto> JBool False] s))"

definition ban_user :: "int \<Rightarrow> int \<Rightarrow> string option \<Rightarrow> string \<Rightarrow> instant \<Rightarrow> db \<Rightarrow> ban_result" where
  "ban_user admin tid reason new_uuid now s =
     (case get_user_by_telegram_id tid s of
        None \<Rightarrow> Inr ((False, USER_NOT_FOUND), s)
      | Some u \<Rightarrow>
          if is_banned u then Inr ((True, ALREADY_BANNED), s)
          else ban_user_row admin u reason new_uuid now s)"

definition unban_user :: "int \<Rightarrow> int \<Rightarrow> instant \<Rightarrow> db \<Rightarrow> ban_result" where
  "unban_user admin tid now s =
     (case get_user_by_telegram_id tid s of
        None \<Rightarrow> Inr ((False, USER_NOT_FOUND), s)
      | Some u \<Rightarrow>
          if \<not> is_banned u then Inr ((True, ALREADY_UNBANNED), s)
          else unban_user_row admin u now s)"

definition toggle_ban :: "int \<Rightarrow> int \<Rightarrow> string \<Rightarrow> instant \<Rightarrow> db \<Rightarrow> ban_result" where
  "toggle_ban admin tid new_uuid now s =
     (case get_user_by_telegram_id tid s of
        None \<Rightarrow> Inr ((False, USER_NOT_FOUND), s)
      | Some u \<Rightarrow>
          if \<not> is_banned u then ban_user_row admin u None new_uuid now s
          else unban_user_row admin u now s)"

subsection \<open>A ban is a step of the service\<close>

lemma find_orders_update:
  assumes "\<And>x. P x \<Longrightarrow> o_id (f x) = o_id x"
  shows "get_order (s\<lparr>orders := update_rows P f (orders s)\<rparr>) i =
    map_option (\<lambda>x. if P x then f x else x) (get_order s i)"
  unfolding get_order_def using assms by (simp add: find_update_rows)

text \<open>The constraints of an order read only the keys and the payment ids of the others.\<close>

lemma order_checks_keys:
  assumes "map (\<lambda>x. (o_id x, external_id x)) os' = map (\<lambda>x. (o_id x, external_id x)) os"
  shows "order_checks y os' = order_checks y os"
proof -
  have by_key: "list_ex (\<lambda>x. o_id x \<noteq> o_id y \<and> external_id x = external_id y) xs =
      list_ex (\<lambda>p. fst p \<noteq> o_id y \<and> snd p = external_id y) (map (\<lambda>x. (o_id x, external_id x)) xs)" for xs
    by (induction xs) simp_all
  show ?thesis
    unfolding order_checks_def uq_orders_external_id_def by_key [of os] by_key [of os'] assms by (rule refl)
qed

text \<open>Orders that move along the state machine, row by row.\<close>

lemma update_orders_evolves:
  assumes moves: "\<And>x. P x \<Longrightarrow> order_evolves x (f x)" and ext: "\<And>x. P x \<Longrightarrow> external_id (f x) = external_id x"
  shows "evolves s (s\<lparr>orders := update_rows P f (orders s)\<rparr>)" (is "evolves s ?t")
proof -
  let ?g = "\<lambda>x. if P x then f x else x"
  have g: "order_evolves x (?g x)" "external_id (?g x) = external_id x" for x
    using moves ext by simp_all
  have same: "o_id (f x) = o_id x" if "P x" for x
    using order_evolves_id [OF moves [OF that]] by simp
  have row: "get_order ?t i = map_option ?g (get_order s i)" for i
    by (rule find_orders_update) (rule same)
  have "\<exists>x'. get_order ?t i = Some x' \<and> order_evolves x x'" if "get_order s i = Some x" for i x
    using g(1) [of x] that by (simp add: row)
  moreover have "ledger_inv ?t" if "ledger_inv s"
  proof (rule ledger_inv_cong [OF _ _ _ _ that])
    fix i uid
    assume "order_owner s i = Some uid"
    moreover have "o_user_id (?g x) = o_user_id x" for x
      using order_evolves_id [OF g(1) [of x]] by simp
    ultimately show "order_owner ?t i = Some uid"
      by (cases "get_order s i") (simp_all add: order_owner_def row)
  qed simp_all
  moreover have "orders_ok ?t" if ok: "orders_ok s"
  proof -
    have ids: "map o_id (orders ?t) = map o_id (orders s)"
      by (simp add: map_update_rows same)
    have keys: "map (\<lambda>x. (o_id x, external_id x)) (orders ?t) = map (\<lambda>x. (o_id x, external_id x)) (orders s)"
      by (simp add: map_update_rows same ext)
    have "order_checks y (orders ?t)" if y: "y \<in> set (orders ?t)" for y
    proof -
      obtain x where x: "x \<in> set (orders s)" "y = ?g x"
        using y by (auto simp: set_update_rows)
      have "order_checks x (orders s)"
        using ok x(1) by (simp add: orders_ok_def)
      moreover have "order_terms y = order_terms x" "external_id y = external_id x"
        using g [of x] x(2) by (simp_all add: order_evolves_def)
      ultimately have "order_checks y (orders s)"
        by (rule order_checks_same)
      then show ?thesis
        by (simp only: order_checks_keys [OF keys])
    qed
    then show ?thesis
      using ok ids by (simp add: orders_ok_def)
  qed
  moreover have "wi_ok ?t" if "wi_ok s"
    using that by (simp add: wi_ok_def)
  ultimately show ?thesis
    by (simp add: evolves_def)
qed

lemma close_orders_evolves: "evolves s (snd (close_orders uid s))"
  by (auto simp: close_orders_def Let_def intro!: update_orders_evolves cancel_pending_evolves)

lemma close_payments_quiet: "quiet s (snd (close_payments uid now s))"
  by (rule quietI) (simp_all add: close_payments_def Let_def)

lemma quiet_tasks: "quiet s t \<Longrightarrow> quiet s (t\<lparr>tasks := ts\<rparr>)"
  by (simp add: quiet_def wi_ok_def)

lemma revoke_vless_quiet: "revoke_vless uid u s = Inr (x, t) \<Longrightarrow> quiet s t"
  by (auto simp: revoke_vless_def Let_def quiet_tasks split: option.split_asm if_split_asm)

lemma restore_vless_quiet: "quiet s (restore_vless u now s)"
  by (auto simp: restore_vless_def Let_def quiet_tasks split: option.split)

lemma ban_locked_ensures: "ensures evolves s (ban_locked admin u reason new_uuid now s)"
proof -
  obtain n s1 where s1: "close_payments (u_id u) now s = (n, s1)" by fastforce
  obtain k s2 where s2: "close_orders (u_id u) s1 = (k, s2)" by fastforce
  let ?s3 = "set_user (u\<lparr>is_banned := True\<rparr>) s2"
  obtain ws s4 where s4: "deactivate_user_subscriptions (u_id u) ''user_banned'' None ?s3 = (ws, s4)" by fastforce
  have "evolves s s1" "evolves s1 s2" "evolves s2 ?s3" "evolves ?s3 s4"
    using close_payments_quiet [of s "u_id u" now] close_orders_evolves [of s1 "u_id u"]
      deactivate_quiet [of ?s3 "u_id u" "''user_banned''" None] quiet_evolves [OF set_user_quiet]
    by (auto simp: s1 s2 s4 quiet_evolves)
  then have "evolves s s4"
    by (blast intro: evolves_trans)
  moreover have "evolves s4 t" if "revoke_vless (u_id u) new_uuid s4 = Inr (x, t)" for x t
    using that by (blast intro: quiet_evolves revoke_vless_quiet)
  moreover have "evolves t (log_action a b c d e t)" for a b c d e t
    by (rule quiet_evolves) (rule log_action_quiet)
  ultimately show ?thesis
    by (auto simp: ban_locked_def s1 s2 s4 Let_def and_then_eq_Inr intro!: ensuresI)
      (blast intro: evolves_trans)
qed

lemma ban_user_row_ensures: "ensures evolves s (ban_user_row admin u reason new_uuid now s)"
  by (simp add: ban_user_row_def ban_locked_ensures ensures_Inr split: option.split)

lemma unban_quiet: "unban_user_row admin u now s = Inr (x, t) \<Longrightarrow> quiet s t"
  by (auto simp: unban_user_row_def Let_def split: option.split_asm if_split_asm
      intro: quiet_trans [OF _ log_action_quiet] quiet_trans [OF set_user_quiet restore_vless_quiet])

lemma unban_user_row_ensures: "ensures evolves s (unban_user_row admin u now s)"
  by (rule ensuresI) (blast intro: quiet_evolves unban_quiet)

lemma ban_ensures:
  "ensures evolves s (ban_user admin tid reason new_uuid now s)"
  "ensures evolves s (unban_user admin tid now s)"
  "ensures evolves s (toggle_ban admin tid new_uuid now s)"
  by (simp_all add: ban_user_def unban_user_def toggle_ban_def ban_user_row_ensures
      unban_user_row_ensures ensures_Inr split: option.split)

end
