(* ===== verification/Pending_Orders.thy ===== *)
theory Pending_Orders
  imports Settlement PyText
begin

section \<open>bot/handlers/webhook.py and the pending orders of workers/cleanup.py\<close>

text \<open>
  The two ways a payment is learnt of: the endpoint YooKassa calls, with its inbox of events, and the
  pass of the cleanup worker over the pending orders, which asks the provider itself.  The address of
  the caller, the hash of a payload and the answers of the provider are arguments; the alerts, the
  log and the health check are not modelled.
\<close>

subsection \<open>The inbox\<close>

datatype WebhookInboxStatus = Inbox_PENDING | Inbox_PROCESSING | Inbox_RETRY | Inbox_SUCCEEDED | Inbox_DEAD

record inbox_row =
  ib_event_key :: string
  ib_event_type :: string
  ib_provider_object_id :: string
  ib_payment_external_id :: string
  ib_public_order_id :: json
  ib_payload :: json
  ib_status :: WebhookInboxStatus

definition get_inbox :: "inbox_row list \<Rightarrow> string \<Rightarrow> inbox_row option" where
  "get_inbox inbox key = find (\<lambda>r. ib_event_key r = key) inbox"

definition OFFICIAL_YOOKASSA_EVENTS :: "string list" where
  "OFFICIAL_YOOKASSA_EVENTS =
     [''payment.waiting_for_capture'', ''payment.succeeded'', ''payment.canceled'', ''refund.succeeded'']"

definition REFUND_EVENTS :: "string list" where
  "REFUND_EVENTS = [''refund.succeeded'']"

definition validate_webhook_object :: "json \<Rightarrow> string \<Rightarrow> (string \<times> string) option" where
  "validate_webhook_object obj event =
     (let pid = jget obj ''id''; ext = (if List.member REFUND_EVENTS event then jget obj ''payment_id'' else pid) in
      if truthy pid \<and> truthy ext
      then Some (py_str pid, py_str ext) else None)"

definition validate_webhook_payload :: "json \<Rightarrow> (string \<times> json \<times> string \<times> string) option" where
  "validate_webhook_payload payload =
     (case payload of
        JObj _ \<Rightarrow>
          if jget payload ''type'' \<noteq> JStr ''notification'' then None
          else (case (jget payload ''event'', jget payload ''object'') of
              (JStr event, JObj kvs) \<Rightarrow>
                if \<not> List.member OFFICIAL_YOOKASSA_EVENTS event then None
                else map_option (\<lambda>(p, x). (event, JObj kvs, p, x)) (validate_webhook_object (JObj kvs) event)
            | _ \<Rightarrow> None)
      | _ \<Rightarrow> None)"

text \<open>\<open>(obj.get("metadata") or {}).get("order_id")\<close>; \<open>None\<close> where it raises.\<close>

definition public_order_id :: "json \<Rightarrow> json option" where
  "public_order_id obj =
     (let md = jget obj ''metadata'' in
      if \<not> truthy md then Some JNull
      else (case md of JObj _ \<Rightarrow> Some (jget md ''order_id'') | _ \<Rightarrow> None))"

subsection \<open>The endpoint\<close>

record webhook_request =
  from_yookassa :: bool
  content_length :: "int option"
  body :: "json option"

text \<open>What a request is about; \<open>None\<close> where it is answered with 400.\<close>

definition read_webhook :: "webhook_request \<Rightarrow> (json \<times> string \<times> string \<times> string \<times> json) option" where
  "read_webhook rq =
     (case body rq of
        None \<Rightarrow> None
      | Some payload \<Rightarrow>
          (case validate_webhook_payload payload of
             None \<Rightarrow> None
           | Some (event, obj, pid, ext) \<Rightarrow>
               map_option (\<lambda>order. (payload, event, pid, ext, order)) (public_order_id obj)))"

definition inbox_status_of :: "settled \<Rightarrow> string \<Rightarrow> bool \<Rightarrow> WebhookInboxStatus" where
  "inbox_status_of ord event known =
     (case ord of
        Some _ \<Rightarrow> Inbox_SUCCEEDED
      | None \<Rightarrow> if event = ''refund.succeeded'' \<or> \<not> known then Inbox_PENDING else Inbox_DEAD)"

text \<open>The order is paid by this event: its owner is to be told.\<close>

definition newly_credited :: "settled \<Rightarrow> order option" where
  "newly_credited ord =
     (case ord of
        Some (x, newly_paid) \<Rightarrow> if o_status x = Order_PAID \<and> newly_paid then Some x else None
      | None \<Rightarrow> None)"

definition store_event ::
  "string \<Rightarrow> json \<Rightarrow> string \<Rightarrow> string \<Rightarrow> string \<Rightarrow> json \<Rightarrow> WebhookInboxStatus \<Rightarrow> inbox_row list \<Rightarrow> inbox_row list" where
  "store_event key payload event pid ext order status inbox =
     (if get_inbox inbox key \<noteq> None
      then update_rows (\<lambda>r. ib_event_key r = key)
             (\<lambda>r. r\<lparr>ib_status := status,
                 ib_public_order_id := (if truthy order then order else ib_public_order_id r)\<rparr>) inbox
      else inbox @ [\<lparr>ib_event_key = key, ib_event_type = event, ib_provider_object_id = pid,
                      ib_payment_external_id = ext, ib_public_order_id = order, ib_payload = payload,
                      ib_status = status\<rparr>])"

text \<open>The transaction of one event: the status stored, the order to tell of, and the tables.\<close>

definition process_inbox_event ::
  "env \<Rightarrow> string \<Rightarrow> json \<times> string \<times> string \<times> string \<times> json \<Rightarrow> db \<times> inbox_row list
   \<Rightarrow> pyerr + (WebhookInboxStatus \<times> order option) \<times> db \<times> inbox_row list" where
  "process_inbox_event e key request p =
     (let (payload, event, pid, ext, order) = request; (s, inbox) = p in
      and_then (process_webhook_event e payload s) (\<lambda>ord s.
        let status = inbox_status_of ord event (get_inbox inbox key \<noteq> None) in
        and_then (case newly_credited ord of None \<Rightarrow> Inr (None, s)
                  | Some x \<Rightarrow> and_then (save_order (mark_notify_pending x) s) (\<lambda>x s. Inr (Some x, s)))
          (\<lambda>told s. Inr ((status, told), s, store_event key payload event pid ext order status inbox))))"

text \<open>The message to the owner follows the transaction; what was delivered is no longer owed.\<close>

definition tell_owner :: "(order \<Rightarrow> bool) \<Rightarrow> order option \<Rightarrow> db \<Rightarrow> db" where
  "tell_owner delivered told s =
     (case told of
        None \<Rightarrow> s
      | Some x \<Rightarrow>
          (case (get_order s (o_id x), get_user s (o_user_id x)) of
             (Some y, Some _) \<Rightarrow> if delivered y then set_order (mark_notified y) s else s
           | _ \<Rightarrow> s))"

definition yookassa_webhook_handler ::
  "env \<Rightarrow> (json \<Rightarrow> string) \<Rightarrow> (order \<Rightarrow> bool) \<Rightarrow> webhook_request \<Rightarrow> db \<times> inbox_row list
   \<Rightarrow> int \<times> db \<times> inbox_row list" where
  "yookassa_webhook_handler e event_key delivered rq p =
     (if \<not> from_yookassa rq then (404, p)
      else if (case content_length rq of None \<Rightarrow> False | Some n \<Rightarrow> 262144 < n) then (413, p)
      else (case read_webhook rq of
          None \<Rightarrow> (400, p)
        | Some request \<Rightarrow>
            let key = event_key (fst request) in
            if (case get_inbox (snd p) key of None \<Rightarrow> False | Some r \<Rightarrow> ib_status r \<noteq> Inbox_PENDING) then (200, p)
            else (case process_inbox_event e key request p of
                Inl err \<Rightarrow> (500, p)
              | Inr ((status, told), s, inbox) \<Rightarrow>
                  (if status = Inbox_PENDING then 503 else 200, tell_owner delivered told s, inbox))))"

subsection \<open>The pass over the pending orders\<close>

text \<open>The identifiers not asked for again for now; an entry vanishes with time.\<close>

type_synonym backoff = "uuid list"

definition stale_candidates :: "instant \<Rightarrow> backoff \<Rightarrow> db \<Rightarrow> order list" where
  "stale_candidates now cache s =
     take 20 (sort_key o_created_at
       (filter (\<lambda>x. o_status x = Order_PENDING \<and> external_id x \<noteq> None \<and> now - days_us 1 \<le> o_created_at x
          \<and> o_created_at x \<le> now - minutes_us 3 \<and> \<not> List.member cache (o_id x)) (orders s)))"

definition get_payment_gateway :: "string \<Rightarrow> pyerr + unit" where
  "get_payment_gateway name =
     (if py_lower name = ''yookassa'' then Inr () else Inl (ValueError (''Unknown payment gateway: '' @ name)))"

text \<open>The transaction of one order whose payment succeeded or was canceled.\<close>

definition settle_stale ::
  "env \<Rightarrow> uuid \<Rightarrow> string option \<Rightarrow> payment_status_result \<Rightarrow> backoff \<Rightarrow> db \<Rightarrow> pyerr + backoff \<times> db" where
  "settle_stale e i ext st cache s =
     (case get_order s i of
        None \<Rightarrow> Inr (cache, s)
      | Some ord \<Rightarrow>
          if o_status ord \<noteq> Order_PENDING then Inr (cache, s)
          else if st_is_paid st
          then and_then (mark_order_paid e i ext (st_amount_rub st) s) (\<lambda>paid s.
                 Inr (if paid \<noteq> None then removeAll i cache else i # cache, s))
          else and_then (save_order (mark_order_canceled ord
                   (case nonempty (st_cancellation_reason st) of None \<Rightarrow> ''gateway_canceled'' | Some r \<Rightarrow> r)) s)
                 (\<lambda>ord s. Inr (removeAll i cache, s)))"

definition ask_gateway :: "env \<Rightarrow> (string \<Rightarrow> http_outcome) \<Rightarrow> order \<Rightarrow> backoff \<times> db \<Rightarrow> backoff \<times> db" where
  "ask_gateway e answers cand p =
     (let (cache, s) = p; i = o_id cand; ext = external_id cand in
      case get_payment_gateway (payment_method cand) of
        Inl err \<Rightarrow> (i # cache, s)
      | Inr _ \<Rightarrow>
          (case check_payment_status (answers (case ext of None \<Rightarrow> [] | Some x \<Rightarrow> x)) of
             Inl err \<Rightarrow> (i # cache, s)
           | Inr st \<Rightarrow>
               if \<not> (st_is_paid st \<or> st_is_canceled st) then (i # cache, s)
               else (case settle_stale e i ext st cache s of
                   Inl err \<Rightarrow> (i # cache, s)
                 | Inr q \<Rightarrow> q)))"

definition is_expired_pending :: "instant \<Rightarrow> order \<Rightarrow> bool" where
  "is_expired_pending now x \<longleftrightarrow>
     o_status x = Order_PENDING
     \<and> (o_created_at x < now - days_us 1
        \<or> (external_id x = None \<or> external_id x = Some []) \<and> o_created_at x < now - minutes_us 30)"

definition expired_pending :: "instant \<Rightarrow> db \<Rightarrow> order list" where
  "expired_pending now s = take 50 (sort_key o_created_at (filter (is_expired_pending now) (orders s)))"

definition expire_order :: "order \<Rightarrow> db \<Rightarrow> db" where
  "expire_order x s =
     set_order (mark_order_canceled x
       (if external_id x = None then ''ambiguous_creation_timeout'' else ''order_expired_24h'')) s"

definition expire_stale :: "instant \<Rightarrow> db \<Rightarrow> db" where
  "expire_stale now s = fold expire_order (expired_pending now s) s"

definition reconcile_stale_pending_orders ::
  "env \<Rightarrow> (string \<Rightarrow> http_outcome) \<Rightarrow> backoff \<times> db \<Rightarrow> backoff \<times> db" where
  "reconcile_stale_pending_orders e answers p =
     (let (cache, s) = fold (ask_gateway e answers) (stale_candidates (now_utc e) (fst p) (snd p)) p in
      (cache, expire_stale (now_utc e) s))"

end
