(* ===== verification/Credit_Notify.thy ===== *)
theory Credit_Notify
  imports Settlement PyText
begin

section \<open>services/workers/credit\_notifications.py\<close>

text \<open>
  The worker that delivers the messages an order still owes: to its owner once the money is there, and
  to the inviter for a bonus.  What Telegram answers and what others commit while a message is under
  way are arguments.  The texts, the keyboards, the log and the loop are not modelled, nor the expiry
  of the entries of the cache.  The note about an inviter and the counts of attempts are written by
  this code alone, with numbers as identifiers and counts.
\<close>

definition CREDIT_NOTIFY_BATCH_SIZE :: nat where "CREDIT_NOTIFY_BATCH_SIZE = 20"
definition MAX_NOTIFY_ATTEMPTS :: int where "MAX_NOTIFY_ATTEMPTS = 10"
definition CREDIT_NOTIFY_RETENTION_DAYS :: int where "CREDIT_NOTIFY_RETENTION_DAYS = 30"

abbreviation late_pending :: string where "late_pending \<equiv> ''late_notify_pending''"
abbreviation late_attempts :: string where "late_attempts \<equiv> ''late_notify_attempts''"
abbreviation referrer_pending :: string where "referrer_pending \<equiv> ''referrer_notify_pending''"
abbreviation referrer_attempts :: string where "referrer_attempts \<equiv> ''referrer_notify_attempts''"

datatype push_result = Push_Sent | Push_Failed | Push_Forbidden

subsection \<open>What an order owes\<close>

record owner_push =
  op_service :: OrderServiceType
  op_telegram_id :: int
  op_real :: int
  op_bonus :: int

record referrer_push =
  rp_telegram_id :: int
  rp_bonus :: int
  rp_bonus_balance :: int

datatype 'a debt = Anomaly | Dead | Due 'a

definition past_retention :: "order \<Rightarrow> instant \<Rightarrow> bool" where
  "past_retention ord now \<longleftrightarrow>
     days_us CREDIT_NOTIFY_RETENTION_DAYS < now - (case paid_at ord of Some t \<Rightarrow> t | None \<Rightarrow> o_created_at ord)"

definition owner_debt :: "instant \<Rightarrow> order \<Rightarrow> db \<Rightarrow> owner_push debt option" where
  "owner_debt now ord s =
     (if \<not> meta_truthy (o_metadata ord) late_pending then None
      else if o_status ord \<noteq> Order_PAID then Some Dead
      else if service_type ord = TOPUP \<and> \<not> has_credit ord s then Some Anomaly
      else (case get_user s (o_user_id ord) of
          None \<Rightarrow> Some Dead
        | Some u \<Rightarrow>
            if telegram_id u = 0 \<or> is_bot_blocked u \<and> past_retention ord now then Some Dead
            else if is_bot_blocked u then None
            else (let b = balance_snapshot s (u_id u) in
                  Some (Due \<lparr>op_service = service_type ord, op_telegram_id = telegram_id u,
                             op_real = trunc_rat (real_available b), op_bonus = trunc_rat (bonus_available b)\<rparr>))))"

text \<open>\<open>int(Decimal(str(debt.get("bonus", "0"))))\<close>, zero where it raises.\<close>

definition bonus_of :: "(string \<times> json) list \<Rightarrow> int" where
  "bonus_of kvs =
     (case parse_decimal (case map_of kvs ''bonus'' of None \<Rightarrow> JInt 0 | Some j \<Rightarrow> j) of
        Some (Finite d) \<Rightarrow> trunc_rat d
      | _ \<Rightarrow> 0)"

definition referrer_debt :: "instant \<Rightarrow> order \<Rightarrow> db \<Rightarrow> referrer_push debt option" where
  "referrer_debt now ord s =
     (case o_metadata ord referrer_pending of
        Some (JObj kvs) \<Rightarrow>
          (case map_of kvs ''user_id'' of
             Some (JInt i) \<Rightarrow>
               (case get_user s i of
                  None \<Rightarrow> Some Dead
                | Some u \<Rightarrow>
                    if o_status ord \<noteq> Order_PAID \<or> telegram_id u = 0 \<or> bonus_of kvs \<le> 0
                       \<or> is_bot_blocked u \<and> past_retention ord now then Some Dead
                    else if is_bot_blocked u then None
                    else Some (Due \<lparr>rp_telegram_id = telegram_id u, rp_bonus = bonus_of kvs,
                           rp_bonus_balance = trunc_rat (bonus_available (balance_snapshot s (u_id u)))\<rparr>))
           | _ \<Rightarrow> None)
      | _ \<Rightarrow> None)"

subsection \<open>Counting an attempt\<close>

definition attempts_of :: "json option \<Rightarrow> int" where
  "attempts_of j = (case j of Some (JInt i) \<Rightarrow> i | _ \<Rightarrow> 0)"

definition note_failed_owner :: "order \<Rightarrow> order" where
  "note_failed_owner ord =
     (let n = attempts_of (o_metadata ord late_attempts) + 1 in
      if MAX_NOTIFY_ATTEMPTS \<le> n then mark_notified ord
      else ord\<lparr>o_metadata := (o_metadata ord)(late_attempts \<mapsto> JInt n)\<rparr>)"

definition note_failed_referrer :: "order \<Rightarrow> order" where
  "note_failed_referrer ord =
     (let n = attempts_of (o_metadata ord referrer_attempts) + 1 in
      if MAX_NOTIFY_ATTEMPTS \<le> n then mark_referrer_notified ord
      else ord\<lparr>o_metadata := (o_metadata ord)(referrer_attempts \<mapsto> JInt n)\<rparr>)"

definition block_user :: "int \<Rightarrow> db \<Rightarrow> db" where
  "block_user uid s = s\<lparr>users := update_rows (\<lambda>u. u_id u = uid) (\<lambda>u. u\<lparr>is_bot_blocked := True\<rparr>) (users s)\<rparr>"

subsection \<open>The end of a delivery\<close>

text \<open>One debt of the locked order: the order, the tables, and whether the message was delivered.\<close>

definition finish_owner :: "push_result option \<Rightarrow> order \<times> db \<Rightarrow> bool \<times> order \<times> db" where
  "finish_owner result p =
     (let (ord, s) = p in
      if \<not> meta_truthy (o_metadata ord) late_pending then (False, ord, s)
      else (case result of
          None \<Rightarrow> (False, ord, s)
        | Some Push_Sent \<Rightarrow> (True, mark_notified ord, s)
        | Some Push_Forbidden \<Rightarrow> (False, ord, block_user (o_user_id ord) s)
        | Some Push_Failed \<Rightarrow> (False, note_failed_owner ord, s)))"

definition debtor :: "json option \<Rightarrow> int option" where
  "debtor j =
     (case j of
        Some (JObj kvs) \<Rightarrow> (case map_of kvs ''user_id'' of Some (JInt i) \<Rightarrow> if i = 0 then None else Some i | _ \<Rightarrow> None)
      | _ \<Rightarrow> None)"

definition finish_referrer :: "push_result option \<Rightarrow> order \<times> db \<Rightarrow> bool \<times> order \<times> db" where
  "finish_referrer result p =
     (let (ord, s) = p in
      if \<not> meta_truthy (o_metadata ord) referrer_pending then (False, ord, s)
      else (case result of
          None \<Rightarrow> (False, ord, s)
        | Some Push_Sent \<Rightarrow> (True, mark_referrer_notified ord, s)
        | Some Push_Forbidden \<Rightarrow>
            (False, ord, (case debtor (o_metadata ord referrer_pending) of None \<Rightarrow> s | Some i \<Rightarrow> block_user i s))
        | Some Push_Failed \<Rightarrow> (False, note_failed_referrer ord, s)))"

definition still_owes :: "order \<Rightarrow> bool" where
  "still_owes ord \<longleftrightarrow> meta_truthy (o_metadata ord) late_pending \<or> meta_truthy (o_metadata ord) referrer_pending"

type_synonym blocked_orders = "uuid list"

definition finalize_delivery ::
  "uuid \<Rightarrow> push_result option \<Rightarrow> push_result option \<Rightarrow> blocked_orders \<times> db \<Rightarrow> bool \<times> blocked_orders \<times> db" where
  "finalize_delivery i owner_ok ref_ok p =
     (let (cache, s) = p in
      case get_order s i of
        None \<Rightarrow> (False, cache, s)
      | Some ord \<Rightarrow>
          if o_status ord \<noteq> Order_PAID
          then (False, removeAll i cache, set_order (mark_referrer_notified (mark_notified ord)) s)
          else
            let (sent_owner, ord, s) = finish_owner owner_ok (ord, s);
                (sent_ref, ord, s) = finish_referrer ref_ok (ord, s);
                wait = (owner_ok = Some Push_Forbidden \<or> ref_ok = Some Push_Forbidden
                  \<or> owner_ok = None \<and> meta_truthy (o_metadata ord) late_pending
                  \<or> ref_ok = None \<and> meta_truthy (o_metadata ord) referrer_pending) in
            (sent_owner \<or> sent_ref,
             if still_owes ord then (if wait then i # cache else cache) else removeAll i cache,
             set_order ord s))"

definition drop_debts :: "uuid \<Rightarrow> bool \<Rightarrow> bool \<Rightarrow> blocked_orders \<times> db \<Rightarrow> blocked_orders \<times> db" where
  "drop_debts i owner referrer p =
     (let (cache, s) = p in
      case get_order s i of
        None \<Rightarrow> (cache, s)
      | Some ord \<Rightarrow>
          let ord = (if owner then mark_notified ord else ord);
              ord = (if referrer then mark_referrer_notified ord else ord) in
          (if still_owes ord then cache else removeAll i cache, set_order ord s))"

definition finalize_attempt :: "uuid \<Rightarrow> db \<Rightarrow> db" where
  "finalize_attempt i s =
     (case get_order s i of
        None \<Rightarrow> s
      | Some ord \<Rightarrow>
          if meta_truthy (o_metadata ord) late_pending then set_order (note_failed_owner ord) s else s)"

subsection \<open>One order, and one pass\<close>

text \<open>The messages go out with no transaction open; a debt not in the snapshot stays as it is.\<close>

definition send_pushes ::
  "(owner_push \<Rightarrow> push_result) \<Rightarrow> (referrer_push \<Rightarrow> push_result) \<Rightarrow> (db \<Rightarrow> db) \<Rightarrow> uuid
   \<Rightarrow> owner_push debt option \<Rightarrow> referrer_push debt option
   \<Rightarrow> blocked_orders \<times> db \<Rightarrow> bool \<times> blocked_orders \<times> db" where
  "send_pushes push_owner push_referrer meanwhile i owner ref p =
     (let owner_ok = (case owner of Some (Due x) \<Rightarrow> Some (push_owner x) | _ \<Rightarrow> None);
          ref_ok = (case ref of Some (Due x) \<Rightarrow> Some (push_referrer x) | _ \<Rightarrow> None) in
      finalize_delivery i owner_ok ref_ok (fst p, meanwhile (snd p)))"

definition owner_settled ::
  "(owner_push \<Rightarrow> push_result) \<Rightarrow> (referrer_push \<Rightarrow> push_result) \<Rightarrow> (db \<Rightarrow> db) \<Rightarrow> uuid
   \<Rightarrow> owner_push debt option \<Rightarrow> referrer_push debt option
   \<Rightarrow> blocked_orders \<times> db \<Rightarrow> bool \<times> blocked_orders \<times> db" where
  "owner_settled push_owner push_referrer meanwhile i owner ref p =
     (if ref = Some Dead
      then (let (cache, s) = drop_debts i False True p in
            if owner = None then (False, i # cache, s)
            else send_pushes push_owner push_referrer meanwhile i owner None (cache, s))
      else send_pushes push_owner push_referrer meanwhile i owner ref p)"

definition deliver_one ::
  "instant \<Rightarrow> (owner_push \<Rightarrow> push_result) \<Rightarrow> (referrer_push \<Rightarrow> push_result) \<Rightarrow> (db \<Rightarrow> db) \<Rightarrow> uuid
   \<Rightarrow> blocked_orders \<times> db \<Rightarrow> bool \<times> blocked_orders \<times> db" where
  "deliver_one now push_owner push_referrer meanwhile i p =
     (let (cache, s) = p;
          owner = (case get_order s i of None \<Rightarrow> None | Some ord \<Rightarrow> owner_debt now ord s);
          ref = (case get_order s i of None \<Rightarrow> None | Some ord \<Rightarrow> referrer_debt now ord s) in
      if owner = None \<and> ref = None then (False, i # cache, s)
      else if owner = Some Anomaly then (False, cache, finalize_attempt i s)
      else if owner = Some Dead
      then (let (cache, s) = drop_debts i True False p in
            if ref = None then (False, i # cache, s)
            else owner_settled push_owner push_referrer meanwhile i None ref (cache, s))
      else owner_settled push_owner push_referrer meanwhile i owner ref p)"

text \<open>The orders a pass looks at.\<close>

definition owing_orders :: "blocked_orders \<Rightarrow> db \<Rightarrow> uuid list" where
  "owing_orders cache s =
     map o_id (take CREDIT_NOTIFY_BATCH_SIZE (sort_key o_created_at
       (filter (\<lambda>x. o_status x = Order_PAID
          \<and> (o_metadata x late_pending = Some (JBool True) \<or> o_metadata x late_pending = Some (JStr ''true'')
             \<or> o_metadata x referrer_pending \<noteq> None)
          \<and> \<not> List.member cache (o_id x)) (orders s))))"

definition deliver_pending_credit_notifications ::
  "instant \<Rightarrow> (uuid \<Rightarrow> owner_push \<Rightarrow> push_result) \<Rightarrow> (uuid \<Rightarrow> referrer_push \<Rightarrow> push_result) \<Rightarrow> (db \<Rightarrow> db)
   \<Rightarrow> blocked_orders \<times> db \<Rightarrow> int \<times> blocked_orders \<times> db" where
  "deliver_pending_credit_notifications now push_owner push_referrer meanwhile p =
     fold (\<lambda>i (n, q). let (sent, q) = deliver_one now (push_owner i) (push_referrer i) meanwhile i q in
                      (if sent then n + 1 else n, q))
       (owing_orders (fst p) (snd p)) (0, p)"

end
