(* ===== verification/Pending_Steps.thy ===== *)
theory Pending_Steps
  imports Settlement_Invariant Pending_Orders Credit_Notify
begin

section \<open>The workers of orders keep the invariants\<close>

text \<open>
  Each order a pass settles, cancels, expires or marks has moved along its state machine, and the
  tables keep their invariants: each pass is one more request of the service.
\<close>

subsection \<open>The pass over the pending orders\<close>

lemma settle_stale_ensures: "ensures evolves s (settle_stale e i ext st cache s)"
proof (cases "get_order s i")
  case None
  then show ?thesis
    by (simp add: settle_stale_def evolves_step.ensures_return)
next
  case (Some ord)
  then have row: "stored ord s"
    using get_order_id [OF Some] by simp
  have "ensures evolves s (and_then (save_order (mark_order_canceled ord why) s)
      (\<lambda>ord s. Inr (removeAll i cache, s)))" if "o_status ord = Order_PENDING" for why
    using row save_row_ensures [of s "mark_order_canceled ord why" ord] cancel_pending_evolves [OF that]
    by (intro ensures_then_return) simp
  then show ?thesis
    using Some mark_order_paid_ensures
    by (auto simp: settle_stale_def evolves_step.ensures_return intro!: ensures_then_return)
qed

lemma ask_gateway_evolves: "evolves s (snd (ask_gateway e answers cand (cache, s)))"
proof -
  have "evolves s t" if "settle_stale e i ext st cache s = Inr (c, t)" for i ext st c t
    using settle_stale_ensures that by (rule ensuresD)
  then show ?thesis
    by (auto simp: ask_gateway_def Let_def intro: evolves_refl split: sum.split)
qed

lemma fold_ask_evolves: "evolves (snd p) (snd (fold (ask_gateway e answers) cands p))"
proof (induction cands arbitrary: p)
  case (Cons c cs)
  have "evolves (snd p) (snd (ask_gateway e answers c p))"
    using ask_gateway_evolves [of "snd p" e answers c "fst p"] by simp
  then show ?case
    using Cons.IH [of "ask_gateway e answers c p"] by (auto intro: evolves_trans)
qed (simp add: evolves_refl)

text \<open>The orders expired in one transaction are different rows.\<close>

lemma expire_order_evolves:
  assumes "stored x s" and "o_status x = Order_PENDING"
  shows "evolves s (expire_order x s)"
  unfolding expire_order_def using assms cancel_pending_evolves
  by (intro set_order_evolves [of _ _ x]) simp_all

lemma expire_orders_evolves:
  assumes "distinct (map o_id xs)" and "\<forall>x\<in>set xs. stored x s \<and> o_status x = Order_PENDING"
  shows "evolves s (fold expire_order xs s)"
  using assms
proof (induction xs arbitrary: s)
  case (Cons x xs)
  have "stored y (expire_order x s)" if y: "y \<in> set xs" for y
  proof -
    have "o_id y \<noteq> o_id x" and "stored y s"
      using Cons.prems y by (force, simp)
    then show ?thesis
      by (simp add: expire_order_def)
  qed
  then have rest: "evolves (expire_order x s) (fold expire_order xs (expire_order x s))"
    using Cons.prems by (intro Cons.IH) simp_all
  have "evolves s (expire_order x s)"
    using Cons.prems by (intro expire_order_evolves) simp_all
  then show ?case
    using rest by (simp add: evolves_trans)
qed (simp add: evolves_refl)

text \<open>The rows one batch takes.\<close>

lemma expired_pending_rows:
  assumes "orders_ok s"
  shows "distinct (map o_id (expired_pending now s))"
    and "x \<in> set (expired_pending now s) \<Longrightarrow> stored x s \<and> is_expired_pending now x"
proof -
  have "distinct (map o_id (filter P (orders s)))" for P
    using assms by (simp add: orders_ok_def distinct_map_filter)
  then have "distinct (map o_id (sort_key o_created_at (filter P (orders s))))" for P
    by (simp add: distinct_map)
  then show "distinct (map o_id (expired_pending now s))"
    unfolding expired_pending_def by (simp add: distinct_take flip: take_map)
  show "x \<in> set (expired_pending now s) \<Longrightarrow> stored x s \<and> is_expired_pending now x"
    using stored_member [OF assms] by (auto simp: expired_pending_def dest!: in_set_takeD)
qed

lemma expire_stale_evolves:
  assumes "orders_ok s"
  shows "evolves s (expire_stale now s)"
  unfolding expire_stale_def using expired_pending_rows [OF assms]
  by (intro expire_orders_evolves) (auto simp: is_expired_pending_def)

lemma reconcile_pending_evolves:
  assumes "orders_ok s"
  shows "evolves s (snd (reconcile_stale_pending_orders e answers (cache, s)))"
proof -
  obtain c t where asked: "fold (ask_gateway e answers) (stale_candidates (now_utc e) cache s) (cache, s) = (c, t)"
    by fastforce
  have st: "evolves s t"
    using fold_ask_evolves [of "(cache, s)" e answers "stale_candidates (now_utc e) cache s"] by (simp add: asked)
  then have "evolves t (expire_stale (now_utc e) t)"
    using assms by (intro expire_stale_evolves) (simp add: evolves_def)
  then show ?thesis
    using st by (auto simp: reconcile_stale_pending_orders_def asked intro: evolves_trans)
qed

subsection \<open>The notes of what an order owes\<close>

text \<open>Only metadata apart from the reason of a cancellation has changed.\<close>

definition remarked :: "order \<Rightarrow> order \<Rightarrow> bool" where
  "remarked ord ord' \<longleftrightarrow> (\<exists>m. ord' = ord\<lparr>o_metadata := m\<rparr>
     \<and> m ''cancellation_reason'' = o_metadata ord ''cancellation_reason'')"

lemma remarked_refl [simp]: "remarked ord ord"
  unfolding remarked_def by (rule exI [of _ "o_metadata ord"]) simp

lemma remarked_trans: "remarked a b \<Longrightarrow> remarked b c \<Longrightarrow> remarked a c"
  by (auto simp: remarked_def)

lemma remarked_row:
  "remarked ord ord' \<Longrightarrow> order_evolves ord ord' \<and> external_id ord' = external_id ord \<and> o_id ord' = o_id ord"
  by (auto simp: remarked_def order_evolves_def order_terms_def gateway_canceled_def)

lemma remarked_marks [simp]:
  "remarked ord (mark_notify_pending ord)" "remarked ord (mark_notified ord)"
  "remarked ord (mark_referrer_notified ord)" "remarked ord (note_failed_owner ord)"
  "remarked ord (note_failed_referrer ord)"
  by (auto simp: remarked_def mark_notify_pending_def mark_notified_def mark_referrer_notified_def
      note_failed_owner_def note_failed_referrer_def Let_def)

lemma remark_evolves: "stored ord s \<Longrightarrow> remarked ord ord' \<Longrightarrow> evolves s (set_order ord' s)"
  using remarked_row by (intro set_order_evolves [of _ _ ord]) simp_all

lemma block_user_quiet: "quiet s (block_user i s)"
  by (simp add: block_user_def quiet_def wi_ok_def)

lemma block_user_evolves: "evolves s (block_user i s)"
  by (rule quiet_evolves [OF block_user_quiet])

lemma block_user_order [simp]: "get_order (block_user i s) = get_order s"
  by (rule quiet_get_order [OF block_user_quiet])

lemma finish_owner_frame:
  "finish_owner r (ord, s) = (b, ord', t) \<Longrightarrow> remarked ord ord' \<and> get_order t = get_order s \<and> evolves s t"
  by (auto simp: finish_owner_def block_user_evolves split: if_split_asm option.split_asm push_result.split_asm)

lemma finish_referrer_frame:
  "finish_referrer r (ord, s) = (b, ord', t) \<Longrightarrow> remarked ord ord' \<and> get_order t = get_order s \<and> evolves s t"
  by (auto simp: finish_referrer_def block_user_evolves split: if_split_asm option.split_asm push_result.split_asm)

lemma finalize_delivery_evolves: "evolves s (snd (snd (finalize_delivery i a b (cache, s))))"
proof (cases "get_order s i")
  case None
  then show ?thesis
    by (simp add: finalize_delivery_def)
next
  case (Some ord)
  then have row: "stored ord s"
    using get_order_id [OF Some] by simp
  obtain x ord1 s1 where own: "finish_owner a (ord, s) = (x, ord1, s1)"
    by (metis prod_cases3)
  obtain y ord2 s2 where ref: "finish_referrer b (ord1, s1) = (y, ord2, s2)"
    by (metis prod_cases3)
  have marked: "remarked ord ord2" and "get_order s2 = get_order s" and "evolves s s2"
    using finish_owner_frame [OF own] finish_referrer_frame [OF ref]
    by (auto intro: remarked_trans evolves_trans)
  then have "evolves s (set_order ord2 s2)"
    using row remark_evolves [of s2 ord ord2] by (auto intro: evolves_trans)
  moreover have "evolves s (set_order (mark_referrer_notified (mark_notified ord)) s)"
    using row by (rule remark_evolves) (rule remarked_trans [OF remarked_marks(2,3)])
  ultimately show ?thesis
    by (simp add: finalize_delivery_def Some own ref Let_def)
qed

lemma drop_debts_evolves: "evolves s (snd (drop_debts i a b (cache, s)))"
proof (cases "get_order s i")
  case (Some ord)
  then have row: "stored ord s"
    using get_order_id [OF Some] by simp
  then have "evolves s (set_order (if b then mark_referrer_notified x else x) s)"
    if "x = (if a then mark_notified ord else ord)" for x
    using that by (intro remark_evolves [OF row]) (auto intro: remarked_trans [OF remarked_marks(2,3)])
  then show ?thesis
    by (simp add: drop_debts_def Some Let_def)
qed (simp add: drop_debts_def)

lemma finalize_attempt_evolves: "evolves s (finalize_attempt i s)"
proof (cases "get_order s i")
  case (Some ord)
  then show ?thesis
    using get_order_id [OF Some] by (auto simp: finalize_attempt_def intro: remark_evolves)
qed (simp add: finalize_attempt_def)

lemma send_pushes_evolves:
  assumes "\<And>t. evolves t (meanwhile t)"
  shows "evolves (snd p) (snd (snd (send_pushes f g meanwhile i owner ref p)))"
  unfolding send_pushes_def Let_def by (rule evolves_trans [OF assms finalize_delivery_evolves])

lemma drop_step:
  assumes "drop_debts i a b p = q" and "evolves (snd q) t"
  shows "evolves (snd p) t"
  using drop_debts_evolves [of "snd p" i a b "fst p"] assms by (auto intro: evolves_trans)

lemma owner_settled_evolves:
  assumes "\<And>t. evolves t (meanwhile t)"
  shows "evolves (snd p) (snd (snd (owner_settled f g meanwhile i owner ref p)))"
proof -
  have "evolves (snd p) (snd (snd (send_pushes f g meanwhile i owner None (drop_debts i False True p))))"
    "evolves (snd p) (snd (drop_debts i False True p))"
    using send_pushes_evolves [OF assms] by (blast intro: drop_step [OF refl] evolves_refl)+
  then show ?thesis
    using send_pushes_evolves [OF assms] by (simp add: owner_settled_def case_prod_beta)
qed

lemma deliver_one_evolves:
  assumes "\<And>t. evolves t (meanwhile t)"
  shows "evolves s (snd (snd (deliver_one now f g meanwhile i (cache, s))))"
proof -
  have drop: "evolves s t" if "evolves (snd (drop_debts i True False (cache, s))) t" for t
    using drop_step [OF refl that] by simp
  have "evolves s (snd (snd (owner_settled f g meanwhile i None ref (drop_debts i True False (cache, s)))))"
    "evolves s (snd (drop_debts i True False (cache, s)))" for ref
    using owner_settled_evolves [OF assms] by (blast intro: drop evolves_refl)+
  then show ?thesis
    using owner_settled_evolves [OF assms, where p = "(cache, s)"]
    by (simp add: deliver_one_def Let_def case_prod_beta finalize_attempt_evolves)
qed

lemma deliver_pending_evolves:
  assumes "\<And>t. evolves t (meanwhile t)"
  shows "evolves (snd p) (snd (snd (deliver_pending_credit_notifications now f g meanwhile p)))"
proof -
  let ?one = "\<lambda>i (n, q). let (sent, q) = deliver_one now (f i) (g i) meanwhile i q in
      (if sent then n + 1 else n, q)"
  have "evolves (snd (snd p)) (snd (snd (fold ?one is p)))" for "is" and p :: "int \<times> blocked_orders \<times> db"
  proof (induction "is" arbitrary: p)
    case (Cons i js)
    obtain n c s where p: "p = (n, c, s)"
      by (metis prod_cases3)
    have "evolves (snd (snd p)) (snd (snd (?one i p)))"
      using deliver_one_evolves [OF assms, of s now "f i" "g i" i c] by (simp add: p case_prod_beta)
    then show ?case
      using Cons.IH [of "?one i p"] by (auto intro: evolves_trans)
  qed simp
  from this [of "(0, p)"] show ?thesis
    by (simp add: deliver_pending_credit_notifications_def)
qed

end
