(* ===== verification/Service.thy ===== *)
theory Service
  imports Banning Pending_Steps
begin

section \<open>The service as a whole\<close>

text \<open>
  A request is one call of a service function in its own database transaction, as the bot's
  session middleware and the webhook endpoint make it.  \<open>service_exec\<close> runs it, and
  \<open>run_requests service_exec\<close> is any history of the service: what raises is rolled back.
  The exception is a payment whose creation ended ambiguously, which \<open>create_order\<close> commits
  before it raises.
\<close>

datatype order_call =
    Create_Order env http_outcome order_request
  | Pay_From_Wallet env order_request
  | Mark_Paid env uuid "string option" "decimal option"
  | Webhook env json
  | Adjust_Balance int money_arg string meta instant
  | Stale_Orders env "string \<Rightarrow> http_outcome" backoff
  | Credit_Notifications instant "uuid \<Rightarrow> owner_push \<Rightarrow> push_result"
      "uuid \<Rightarrow> referrer_push \<Rightarrow> push_result" blocked_orders

datatype user_call =
    Onboard int "string option" "string option" "int option" instant
  | Extend_Vpn int int "int option" "int option" instant
  | Replace_Vpn user instant int int instant
  | Ban_User int int "string option" string instant
  | Unban_User int int instant
  | Toggle_Ban int int string instant

datatype wi_call =
    WI_Purchase env int bool
  | WI_Renew env int bool
  | WI_Convert env int bool
  | WI_Slot env int "int option" bool
  | WI_Topup env int int "int option" bool
  | WI_Trial env int
  | WI_Deactivate int string "int option"
  | WI_Reset_Trial env int
  | WI_Extend env int int
  | WI_Expire int string
  | WI_Traffic int string int int "int option" "int option"
  | WI_Deduct int int int int
  | WI_Register_Device int string int int "(string \<times> json) list" instant
  | WI_Reset_Devices int int instant
  | WI_Reset_Token int "string option" bool string instant
  | WI_Set_Device_Limit int int
  | WI_Add_Traffic int int
  | WI_Set_Base int int
  | WI_Reset_Used int
  | WI_Finalize_Delete int

datatype vless_call =
    Vless_Create int int string string instant
  | Vless_Register_Device int string "int option" int "(string \<times> json) list" instant
  | Vless_Reset_Devices int string
  | Vless_Rotate int bool string string
  | Vless_Revoked int string
  | Vless_Bump int
  | Vless_Traffic int int string int int "string option" instant
  | Vless_Ensure_Synced node_net int "bool option" instant
  | Vless_Deprovision node_net string "int option" "int option" instant
  | Vless_Sync_Node node_net "int list" bool int instant

datatype node_call =
    Cleanup_Done int
  | Cleanup_Failed int string
  | Create_Server string string string "string option" string int "string list option"
      ServerLifecycleStatus instant
  | Update_Server server "server_field list"
  | Delete_Server server
  | Migrate_Origin int int
  | Node_Health int ServerHealthState ServerHealthState "int option" "int option" "server_field list"
  | Node_Epoch server http_answer
  | Reconcile_Node "reconcile_task \<Rightarrow> sync_response \<times> http_answer" int string "json list" instant
  | Sweeps "int \<Rightarrow> sync_response \<times> http_answer"

datatype request =
    Order_Call order_call
  | User_Call user_call
  | WI_Call wi_call
  | Vless_Call vless_call
  | Node_Call node_call

definition finished :: "pyerr + 'a \<times> db \<Rightarrow> pyerr + unit \<times> db" where
  "finished r = and_then r (\<lambda>_ s. Inr ((), s))"

primrec order_exec :: "order_call \<Rightarrow> db \<Rightarrow> pyerr + unit \<times> db" where
  "order_exec (Create_Order e http rq) s = Inr ((), snd (create_order e http rq s))"
| "order_exec (Pay_From_Wallet e rq) s = finished (pay_from_wallet e rq s)"
| "order_exec (Mark_Paid e oid ext paid) s = finished (mark_order_paid e oid ext paid s)"
| "order_exec (Webhook e payload) s = finished (process_webhook_event e payload s)"
| "order_exec (Adjust_Balance uid rub key md now) s =
     finished (create_admin_adjustment uid rub key md now s)"
| "order_exec (Stale_Orders e answers cache) s =
     Inr ((), snd (reconcile_stale_pending_orders e answers (cache, s)))"
| "order_exec (Credit_Notifications now push_owner push_referrer cache) s =
     Inr ((), snd (snd (deliver_pending_credit_notifications now push_owner push_referrer id (cache, s))))"

primrec user_exec :: "user_call \<Rightarrow> db \<Rightarrow> pyerr + unit \<times> db" where
  "user_exec (Onboard tid uname fname ref now) s =
     Inr ((), snd (process_onboarding tid uname fname ref now s))"
| "user_exec (Extend_Vpn tid days cap plan now) s =
     finished (extend_subscription tid days cap plan now s)"
| "user_exec (Replace_Vpn u sub_end cap plan now) s =
     finished (replace_subscription u sub_end cap plan now s)"
| "user_exec (Ban_User admin tid reason fresh now) s = finished (ban_user admin tid reason fresh now s)"
| "user_exec (Unban_User admin tid now) s = finished (unban_user admin tid now s)"
| "user_exec (Toggle_Ban admin tid fresh now) s = finished (toggle_ban admin tid fresh now s)"

primrec wi_exec :: "wi_call \<Rightarrow> db \<Rightarrow> pyerr + unit \<times> db" where
  "wi_exec (WI_Purchase e uid debit) s = finished (purchase_subscription e uid debit s)"
| "wi_exec (WI_Renew e uid debit) s = finished (renew_subscription e uid debit s)"
| "wi_exec (WI_Convert e uid debit) s = finished (convert_trial_to_paid e uid debit s)"
| "wi_exec (WI_Slot e uid actor debit) s = finished (purchase_device_slot e uid actor debit s)"
| "wi_exec (WI_Topup e uid gb actor debit) s = finished (topup_quota e uid gb actor debit s)"
| "wi_exec (WI_Trial e uid) s = finished (create_trial_subscription e uid s)"
| "wi_exec (WI_Deactivate uid why target) s =
     Inr ((), snd (deactivate_user_subscriptions uid why target s))"
| "wi_exec (WI_Reset_Trial e uid) s = Inr ((), snd (reset_user_trial e uid s))"
| "wi_exec (WI_Extend e uid days) s = finished (extend_wi_subscription e uid days s)"
| "wi_exec (WI_Expire i why) s = finished (expire_subscription_atomic i why s)"
| "wi_exec (WI_Traffic i epoch up down ub db) s =
     finished (record_and_deduct_traffic_atomic i epoch up down ub db s)"
| "wi_exec (WI_Deduct i d up down) s = finished (deduct_traffic_atomic i d up down s)"
| "wi_exec (WI_Register_Device i hwid m ttl info now) s =
     finished (register_hwid_atomic i hwid m ttl info now s)"
| "wi_exec (WI_Reset_Devices i cooldown now) s = finished (reset_active_hwids_atomic i cooldown now s)"
| "wi_exec (WI_Reset_Token i tok hw fresh now) s =
     finished (reset_subscription_token_atomic i tok hw fresh now s)"
| "wi_exec (WI_Set_Device_Limit i cap) s = finished (set_device_limit_atomic i cap s)"
| "wi_exec (WI_Add_Traffic i b) s = finished (add_extra_traffic_atomic i b s)"
| "wi_exec (WI_Set_Base i b) s = finished (set_base_traffic_quota_atomic i b s)"
| "wi_exec (WI_Reset_Used i) s = finished (reset_traffic_used_atomic i s)"
| "wi_exec (WI_Finalize_Delete i) s = Inr ((), snd (finalize_hard_delete_subscription i s))"

primrec vless_exec :: "vless_call \<Rightarrow> db \<Rightarrow> pyerr + unit \<times> db" where
  "vless_exec (Vless_Create uid i tok cuuid now) s = finished (get_or_create_vless uid i tok cuuid now s)"
| "vless_exec (Vless_Register_Device i hwid cap ttl info now) s =
     Inr ((), snd (register_vless_hwid i hwid cap ttl info now s))"
| "vless_exec (Vless_Reset_Devices i u) s = finished (reset_vless_hwids i u s)"
| "vless_exec (Vless_Rotate i hw tok u) s = finished (rotate_token i hw tok u s)"
| "vless_exec (Vless_Revoked i gone) s = Inr ((), pop_pending_revoked_uuid i gone s)"
| "vless_exec (Vless_Bump i) s = Inr ((), snd (bump_subscription_version i s))"
| "vless_exec (Vless_Traffic i srv epoch up down expected now) s =
     finished (record_vless_traffic_atomic i srv epoch up down expected now s)"
| "vless_exec (Vless_Ensure_Synced net uid active now) s =
     Inr ((), run_ensure_synced net uid active now s)"
| "vless_exec (Vless_Deprovision net u ver i now) s = Inr ((), run_deprovision net u ver i now s)"
| "vless_exec (Vless_Sync_Node net busy healthy i now) s =
     Inr ((), snd (sync_all_active_to_server net busy healthy i now s))"

primrec node_exec :: "node_call \<Rightarrow> db \<Rightarrow> pyerr + unit \<times> db" where
  "node_exec (Cleanup_Done i) s = Inr ((), mark_orphan_cleanup_done i s)"
| "node_exec (Cleanup_Failed i err) s = Inr ((), mark_orphan_cleanup_failed i err s)"
| "node_exec (Create_Server name url key flag proto clients caps life now) s =
     finished (create_server name url key flag proto clients caps life now s)"
| "node_exec (Update_Server srv kws) s = finished (update_server srv kws s)"
| "node_exec (Delete_Server srv) s = Inr ((), delete_server srv s)"
| "node_exec (Migrate_Origin source target) s = finished (migrate_origin_subscriptions source target s)"
| "node_exec (Node_Health i expected new fails succs kws) s =
     Inr ((), snd (update_server_health_snapshot i expected new fails succs kws s))"
| "node_exec (Node_Epoch n answer) s = Inr ((), snd (refresh_target n answer s))"
| "node_exec (Reconcile_Node replies i epoch relays now) s =
     finished (reconcile_node replies i epoch relays now s)"
| "node_exec (Sweeps replies) s = Inr ((), snd (run_sweeps replies s))"

primrec service_exec :: "request \<Rightarrow> db \<Rightarrow> pyerr + unit \<times> db" where
  "service_exec (Order_Call r) s = order_exec r s"
| "service_exec (User_Call r) s = user_exec r s"
| "service_exec (WI_Call r) s = wi_exec r s"
| "service_exec (Vless_Call r) s = vless_exec r s"
| "service_exec (Node_Call r) s = node_exec r s"

subsection \<open>Users and VPN subscriptions leave orders and money alone\<close>

lemma create_user_quiet: "create_user tid uname fname r now s = Inr (u, t) \<Longrightarrow> quiet s t"
  by (rule quietI) (auto simp: create_user_def Let_def returned)

lemma restore_user_quiet: "quiet s (snd (restore_user u s))"
  by (simp add: restore_user_def Let_def quiet_trans [OF set_user_quiet log_action_quiet])

lemma quiet_set_user: "quiet s t \<Longrightarrow> quiet s (set_user u t)"
  by (rule quiet_trans [OF _ set_user_quiet])

lemma onboarding_quiet: "quiet s (snd (process_onboarding tid uname fname r now s))"
proof (cases "get_user_by_telegram_id_any tid s")
  case None
  show ?thesis
  proof (cases "create_user tid uname fname (case r of None \<Rightarrow> None
      | Some x \<Rightarrow> if validate_referral tid x s then Some x else None) now s")
    case (Inl err)
    with None show ?thesis
      by (simp add: process_onboarding_def Let_def)
  next
    case (Inr p)
    with None create_user_quiet [of tid uname fname _ now s "fst p" "snd p"] show ?thesis
      by (simp add: process_onboarding_def Let_def case_prod_beta quiet_log)
  qed
next
  case (Some u)
  define p where "p = (if is_deleted u then restore_user u s else (u, s))"
  have "quiet s (snd p)"
    by (simp add: p_def restore_user_quiet)
  then have "quiet s (set_user v (snd p))" "quiet s (log_action a b c d e (set_user w (set_user v (snd p))))"
    for v w a b c d e
    by (simp_all add: quiet_log quiet_set_user)
  with Some show ?thesis
    by (simp add: process_onboarding_def Let_def p_def [symmetric] case_prod_beta split: option.split)
qed

lemma extend_vpn_quiet:
  "extend_subscription tid days cap plan now s = Inr (x, t) \<Longrightarrow> quiet s t"
  using quiet_trans [OF set_user_quiet sync_access_quiet]
  by (auto simp: extend_subscription_def Let_def split: option.split_asm if_split_asm)

lemma replace_vpn_quiet:
  "replace_subscription u sub_end cap plan now s = Inr (x, t) \<Longrightarrow> quiet s t"
  using quiet_trans [OF set_user_quiet sync_access_quiet]
  by (auto simp: replace_subscription_def Let_def split: if_split_asm)

lemma create_vless_quiet: "get_or_create_vless uid i tok cuuid now s = Inr (x, t) \<Longrightarrow> quiet s t"
  by (rule quietI) (auto simp: get_or_create_vless_def Let_def split: option.split_asm if_split_asm)

lemma register_vless_quiet: "quiet s (snd (register_vless_hwid i hwid cap ttl info now s))"
  by (simp add: register_vless_hwid_def Let_def split: option.split)

lemma reset_vless_quiet: "reset_vless_hwids i u s = Inr (x, t) \<Longrightarrow> quiet s t"
  by (auto simp: reset_vless_hwids_def split: option.split_asm if_split_asm)

lemma rotate_vless_quiet: "rotate_token i hw tok u s = Inr (x, t) \<Longrightarrow> quiet s t"
  by (auto simp: rotate_token_def split: option.split_asm if_split_asm)

lemma quiet_users: "quiet s t \<Longrightarrow> quiet s (t\<lparr>users := us\<rparr>)"
  by (simp add: quiet_def wi_ok_def)

lemma traffic_vless_quiet:
  "record_vless_traffic_atomic i srv epoch up down expected now s = Inr (x, t) \<Longrightarrow> quiet s t"
  by (auto simp: record_vless_traffic_atomic_def Let_def quiet_users
      split: option.split_asm if_split_asm sum.split_asm)

lemma adjustment_frame:
  assumes "create_admin_adjustment uid rub key md now s = Inr (x, t)"
  shows "orders t = orders s \<and> wi_subs t = wi_subs s \<and> wi_seq t = wi_seq s"
  using assms
  by (cases x, simp only:)
    (erule create_admin_adjustmentE; auto simp: appended_def with_allocs_def dest!: allocate_fifo_Inr(3))

lemma adjustment_evolves:
  assumes "create_admin_adjustment uid rub key md now s = Inr (x, t)"
  shows "evolves s t"
  using adjustment_frame [OF assms] admin_adjustment_inv assms
  by (intro evolves_ledger) (cases x; auto simp: wi_ok_def)+

subsection \<open>Every request keeps the invariant\<close>

definition service_inv :: "db \<Rightarrow> bool" where
  "service_inv s \<longleftrightarrow> ledger_inv s \<and> orders_ok s \<and> wi_ok s"

lemma finished_ensures: "ensures R s r \<Longrightarrow> ensures R s (finished r)"
  by (auto simp: finished_def ensures_def returned)

lemma quiet_return: "quiet s t \<Longrightarrow> ensures evolves s (Inr (x, t))"
  by (rule ensures_Inr) (rule quiet_evolves)

lemmas quiet_returns = quiet_return [OF onboarding_quiet] quiet_return [OF deactivate_quiet]
  quiet_return [OF reset_trial_quiet] quiet_return [OF finalize_quiet]
  quiet_return [OF cleanup_done_quiet] quiet_return [OF cleanup_failed_quiet]
  quiet_return [OF register_vless_quiet] quiet_return [OF revoked_vless_quiet]
  quiet_return [OF bump_vless_quiet]
  quiet_return [OF ensure_synced_quiet] quiet_return [OF run_deprovision_quiet]
  quiet_return [OF sync_node_quiet] quiet_return [OF delete_server_quiet]
  quiet_return [OF health_snapshot_quiet] quiet_return [OF refresh_target_quiet]
  quiet_return [OF run_sweeps_quiet]

lemmas quiet_calls =
  quiet_ensures [OF extend_vpn_quiet] quiet_ensures [OF replace_vpn_quiet]
  quiet_ensures [OF extend_wi_quiet] quiet_ensures [OF expire_quiet]
  quiet_ensures [OF record_quiet] quiet_ensures [OF deduct_quiet]
  quiet_ensures [OF register_quiet] quiet_ensures [OF reset_hwids_quiet]
  quiet_ensures [OF reset_token_quiet] quiet_ensures [OF set_limit_quiet]
  quiet_ensures [OF add_extra_quiet] quiet_ensures [OF set_base_quiet]
  quiet_ensures [OF reset_used_quiet] quiet_ensures [OF create_vless_quiet]
  quiet_ensures [OF reset_vless_quiet] quiet_ensures [OF rotate_vless_quiet]
  quiet_ensures [OF traffic_vless_quiet] quiet_ensures [OF create_server_quiet]
  quiet_ensures [OF update_server_quiet] quiet_ensures [OF migrate_origin_quiet]
  quiet_ensures [OF reconcile_node_quiet]

lemma paid_ensures: "ensures (charged b) s r \<Longrightarrow> ensures evolves s r"
  by (erule ensures_mono) (rule charged_evolves)

lemmas paid_calls = paid_ensures [OF purchase_ensures] paid_ensures [OF renew_ensures]
  paid_ensures [OF convert_ensures] paid_ensures [OF slot_ensures] paid_ensures [OF topup_ensures]

lemma trial_evolves: "ensures evolves s (create_trial_subscription e uid s)"
  by (rule ensures_mono [OF trial_ensures]) (rule charged_evolves)

lemma adjustment_ensures: "ensures evolves s (create_admin_adjustment uid rub key md now s)"
  by (rule ensuresI) (rule adjustment_evolves)

lemma order_call_ensures:
  assumes "orders_ok s"
  shows "ensures evolves s (order_exec r s)"
proof (cases r)
  case (Create_Order e http rq)
  then show ?thesis
    by (simp add: ensures_Inr create_order_evolves)
next
  case (Stale_Orders e answers cache)
  then show ?thesis
    by (simp add: ensures_Inr reconcile_pending_evolves [OF assms])
next
  case (Credit_Notifications now f g cache)
  then show ?thesis
    using deliver_pending_evolves [of id "(cache, s)" now f g] by (simp add: ensures_Inr)
qed (simp_all add: finished_ensures pay_from_wallet_ensures mark_order_paid_ensures
    webhook_ensures [OF assms] adjustment_ensures)

lemma user_call_ensures: "ensures evolves s (user_exec r s)"
  by (cases r) (simp_all add: quiet_returns finished_ensures quiet_calls ban_ensures)

lemma wi_call_ensures: "ensures evolves s (wi_exec r s)"
  by (cases r) (simp_all add: quiet_returns finished_ensures quiet_calls paid_calls trial_evolves)

lemma vless_call_ensures: "ensures evolves s (vless_exec r s)"
  by (cases r) (simp_all add: quiet_returns finished_ensures quiet_calls)

lemma node_call_ensures: "ensures evolves s (node_exec r s)"
  by (cases r) (simp_all add: quiet_returns finished_ensures quiet_calls)

lemma service_ensures: "orders_ok s \<Longrightarrow> ensures evolves s (service_exec r s)"
  by (cases r) (simp_all add: order_call_ensures user_call_ensures wi_call_ensures
      vless_call_ensures node_call_ensures)

lemma service_evolves:
  "service_inv s \<Longrightarrow> service_exec r s = Inr (x, t) \<Longrightarrow> evolves s t"
  using service_ensures by (auto simp: service_inv_def dest: ensuresD)

lemma evolves_inv: "service_inv s \<Longrightarrow> evolves s t \<Longrightarrow> service_inv t"
  by (auto simp: service_inv_def evolves_def)

text \<open>The orders a provider has refunded: none ever leaves that state.\<close>

definition refunded_orders :: "db \<Rightarrow> uuid set" where
  "refunded_orders s = {i. \<exists>ord. get_order s i = Some ord \<and> o_status ord = Order_REFUNDED}"

lemma evolves_refunded: "evolves s t \<Longrightarrow> refunded_orders s \<subseteq> refunded_orders t"
  unfolding refunded_orders_def by (auto elim!: evolvesD dest: order_evolves_refunded)

interpretation service_tx: transactional_mono service_exec service_inv refunded_orders
proof
  fix s r x t
  assume "service_inv s" and "service_exec r s = Inr (x, t)"
  then have "evolves s t"
    by (rule service_evolves)
  then show "service_inv t" and "refunded_orders s \<le> refunded_orders t"
    using \<open>service_inv s\<close> by (simp_all add: evolves_inv evolves_refunded)
qed

text \<open>The same contract, read relative to the state a history started from.\<close>

interpretation service_history: transactional service_exec "\<lambda>t. service_inv t \<and> evolves s0 t" for s0
  by unfold_locales (blast intro: evolves_inv service_evolves evolves_trans)

lemma run_evolves: "service_inv s \<Longrightarrow> evolves s (run_requests service_exec rs s)"
  using service_history.run_inv [of s s rs] by simp

subsection \<open>Properties of any history\<close>

text \<open>A database with users, tariffs and servers but no commercial history yet.\<close>

definition fresh_install :: "db \<Rightarrow> db" where
  "fresh_install s = s\<lparr>orders := [], entries := [], allocs := [], wi_subs := []\<rparr>"

lemma service_inv_fresh: "service_inv (fresh_install s)"
proof -
  have "ledger_inv (fresh_install s)"
    by (simp add: fresh_install_def ledger_inv_def entries_ok_def payers_ok_def allocs_ok_def
        lots_ok_def spends_ok_def spend_sum_def alloc_sum_def debits_ok_def debit_sum_def)
  then show ?thesis
    by (simp add: service_inv_def orders_ok_def wi_ok_def fresh_install_def)
qed

end
