(* ===== verification/Settlement_Theorems.thy ===== *)
theory Settlement_Theorems
  imports Settlement_Invariant Samples
begin

section \<open>Properties of payment, refund and order creation\<close>

text \<open>
  The functional behaviour of the order service, branch by branch: a full payment, one that
  is too small, withheld or repeated, the webhooks that are refused, and the creation of an
  order under failures of the provider.
\<close>

definition sample_env :: env where
  "sample_env = \<lparr>now_utc = 1700000000 * 1000000, fresh_order_id = ''order-9'',
     fresh_token = ''token-9'', fresh_uuid = ''uuid-9'', admin_ids = [], node_reply = None\<rparr>"

definition sample_request :: "OrderServiceType \<Rightarrow> money \<Rightarrow> string \<Rightarrow> order_request" where
  "sample_request ty rub how =
     \<lparr>rq_user_id = 1, rq_service_type = ty, rq_tariff_id = None, rq_traffic_bytes = 0,
      rq_payment_method = how,
      rq_terms = \<lparr>tm_amount = Some rub, tm_days = Some 30, tm_devices = Some 3,
        tm_description = None, tm_meta = Map.empty\<rparr>\<rparr>"

subsection \<open>Payments that are not settled\<close>

text \<open>The order a payment is taken for: pending, or canceled by anybody but the provider.\<close>

definition payable :: "order \<Rightarrow> bool" where
  "payable ord \<longleftrightarrow> o_status ord = Order_PENDING
     \<or> (o_status ord = Order_CANCELED \<and> \<not> gateway_canceled ord)"

lemma mark_order_payable:
  "get_order s oid = Some ord \<Longrightarrow> payable ord \<Longrightarrow>
   mark_order_paid e oid ext paid s = take_payment e ord ext paid s"
  by (cases "o_status ord") (auto simp: payable_def mark_order_paid_def)

definition with_ext :: "string option \<Rightarrow> order \<Rightarrow> order" where
  "with_ext ext ord = (case ext of None \<Rightarrow> ord
     | Some x \<Rightarrow> if x = [] then ord else ord\<lparr>external_id := Some x\<rparr>)"

lemma with_ext_sel [simp]:
  "o_id (with_ext ext ord) = o_id ord" "o_user_id (with_ext ext ord) = o_user_id ord"
  "o_status (with_ext ext ord) = o_status ord" "amount_rub (with_ext ext ord) = amount_rub ord"
  "o_metadata (with_ext ext ord) = o_metadata ord" "service_type (with_ext ext ord) = service_type ord"
  "order_terms (with_ext ext ord) = order_terms ord"
  by (auto simp: with_ext_def order_terms_def split: option.split)

lemma take_payment_eq:
  "take_payment e ord ext paid s =
     (let was_canceled = (o_status ord = Order_CANCELED); ord = with_ext ext ord in
      case is_underpaid paid ord of
        Inl err \<Rightarrow> Inl err
      | Inr True \<Rightarrow> and_then (save_order (note_underpaid paid ord) s) (\<lambda>ord s. Inr (Some (ord, False), s))
      | Inr False \<Rightarrow>
          let ord = note_paid e was_canceled ord in
          (case get_user s (o_user_id ord) of
             Some u \<Rightarrow>
               if is_withheld u ord
               then and_then (save_order (note_held u ord) s) (\<lambda>ord s. Inr (Some (ord, False), s))
               else and_then (settle_benefits e ord was_canceled s) (\<lambda>ord s. Inr (Some (ord, True), s))
           | None \<Rightarrow> and_then (settle_benefits e ord was_canceled s) (\<lambda>ord s. Inr (Some (ord, True), s))))"
  by (simp add: take_payment_def with_ext_def)

lemma note_sel [simp]:
  "order_terms (note_underpaid paid ord) = order_terms ord" "o_status (note_underpaid paid ord) = o_status ord"
  "o_metadata (note_underpaid paid ord) ''underpaid'' = Some (JBool True)"
  "o_metadata (note_underpaid paid ord) ''requires_manual_review'' = Some (JBool True)"
  "order_terms (note_held u ord) = order_terms ord" "o_status (note_held u ord) = o_status ord"
  "o_metadata (note_held u ord) ''settlement_held'' = Some (JBool True)"
  "o_metadata (note_held u ord) ''settlement_hold_reason'' = Some (JStr (hold_reason u))"
  "order_terms (note_paid e b ord) = order_terms ord" "o_status (note_paid e b ord) = Order_PAID"
  "o_user_id (note_paid e b ord) = o_user_id ord" "o_id (note_paid e b ord) = o_id ord"
  "is_withheld u (note_paid e b (with_ext ext ord)) = is_withheld u ord"
  by (auto simp: note_underpaid_def note_held_def note_paid_def order_terms_def is_withheld_def Let_def)

text \<open>Underpayment: when less than the price arrives for a payable order, the order alone is
  changed; it keeps its status, is flagged for manual review, and nothing is credited, granted
  or delivered.\<close>

theorem underpayment_only_flags:
  assumes "get_order s oid = Some ord" and "payable ord" and "p < amount_rub ord"
    and "mark_order_paid e oid ext (Some (Finite p)) s = Inr (r, t)"
  shows "\<exists>ord'. r = Some (ord', False) \<and> t = set_order ord' s \<and> order_terms ord' = order_terms ord
    \<and> o_status ord' = o_status ord
    \<and> o_metadata ord' ''underpaid'' = Some (JBool True)
    \<and> o_metadata ord' ''requires_manual_review'' = Some (JBool True)"
  using assms
  by (auto simp: mark_order_payable take_payment_eq is_underpaid_def Let_def returned save_order_Inr)

text \<open>Withheld payment: a full payment of a user who is banned or on hold marks the order paid and
  held, and changes nothing else.\<close>

theorem withheld_payment_only_marks:
  assumes "get_order s oid = Some ord" and "payable ord" and "amount_rub ord \<le> p"
    and "get_user s (o_user_id ord) = Some u" and "is_withheld u ord"
    and "mark_order_paid e oid ext (Some (Finite p)) s = Inr (r, t)"
  shows "\<exists>ord'. r = Some (ord', False) \<and> t = set_order ord' s \<and> order_terms ord' = order_terms ord
    \<and> o_status ord' = Order_PAID
    \<and> o_metadata ord' ''settlement_held'' = Some (JBool True)
    \<and> o_metadata ord' ''settlement_hold_reason'' = Some (JStr (hold_reason u))"
  using assms
  by (auto simp: mark_order_payable take_payment_eq is_underpaid_def Let_def returned save_order_Inr)

text \<open>Replayed payment: reporting the payment of a settled order again changes nothing
  and returns the order as not newly paid, whatever amount the repetition carries.\<close>

theorem replayed_payment_does_nothing:
  assumes "get_order s oid = Some ord" and "o_status ord = Order_PAID \<or> o_status ord = Order_REFUNDED"
    and "\<not> meta_truthy (o_metadata ord) ''settlement_held''"
  shows "mark_order_paid e oid ext paid s =
Inr (Some (ord, False), s)"
  using assms by (auto simp: mark_order_paid_def release_held_def Let_def)

subsection \<open>A full payment of a top-up\<close>

lemma has_credit_set_order [simp]: "has_credit ord (set_order x s) = has_credit ord s"
  by (simp add: has_credit_def)

lemma has_credit_id: "o_id a = o_id b \<Longrightarrow> has_credit a s = has_credit b s"
  by (simp add: has_credit_def)

lemma position_set_order [simp]: "position (set_order x s) = position s"
  by (simp add: position_def fun_eq_iff)

lemma credit_wallet_exact:
  assumes "credit_wallet e ord c s = Inr (x, t)" and "service_type ord = TOPUP"
    and "\<not> has_credit ord s"
  shows "position t k = position s k + (if k = o_user_id ord then amount_rub ord else 0)"
    and "users t = users s" and "orders t = orders s" and "payments t = payments s"
    and "bonus_booked r pid oid t = bonus_booked r pid oid s"
proof -
  obtain a created where r: "create_order_credit (o_user_id ord) (rubles (amount_rub ord)) (o_id ord)
      (credit_meta ord c) (now_utc e) s = Inr ((a, created), t)"
    using assms(1,2) by (auto simp: credit_wallet_def returned)
  then have "position t k = position s k + (if k = o_user_id ord then amount_rub ord else 0)
    \<and> users t = users s \<and> orders t = orders s \<and> payments t = payments s
    \<and> bonus_booked r pid oid t = bonus_booked r pid oid s"
  proof (cases rule: create_order_creditE)
    case unchanged
    then show ?thesis
      using assms(3) by (auto simp: has_credit_def list_ex_iff)
  next
    case (credited y)
    have "idempotency_key a \<noteq> bonus_key op i" for op i
      using credited(5) by (simp add: credit_entry_def bonus_key_def)
    moreover have "payments t = payments s"
      using credited by (simp add: appended_def)
    ultimately show ?thesis
      using credited by (simp add: bonus_booked_def)
  qed
  then show "position t k = position s k + (if k = o_user_id ord then amount_rub ord else 0)"
    and "users t = users s" and "orders t = orders s" and "payments t = payments s"
    and "bonus_booked r pid oid t = bonus_booked r pid oid s"
    by simp_all
qed

text \<open>What the inviter of the payer of a top-up is owed for it, in the state in which it is paid.\<close>

definition inviter_share :: "order \<Rightarrow> db \<Rightarrow> db \<Rightarrow> int \<Rightarrow> money" where
  "inviter_share ord s paid k =
     (case inviter_of (o_user_id ord) s of
        None \<Rightarrow> 0
      | Some r \<Rightarrow>
          if k = u_id r \<and> \<not> bonus_booked r None (Some (o_id ord)) s
          then due_bonus (o_user_id ord) r None (Some (o_id ord)) (amount_rub ord) paid else 0)"

lemma list_ex_update_same:
  "P x = P y \<Longrightarrow> list_ex P (update_rows q (\<lambda>_. x) xs) = list_ex P (update_rows q (\<lambda>_. y) xs)"
  by (induction xs) auto

text \<open>The bonus reads of an order only what its terms and its status say.\<close>

lemma due_bonus_same_terms:
  assumes "users t = users s" and "payments t = payments s" and "orders t = orders (set_order x s)"
    and "order_terms x = order_terms y" and "o_status x = o_status y"
  shows "due_bonus uid r pid oid topup t = due_bonus uid r pid oid topup (set_order y s)"
proof -
  have same: "o_id x = o_id y" "qualifying_order i x = qualifying_order i y" for i
    using assms(4,5) by (auto simp: order_terms_def qualifying_order_def real_money_order_def)
  have "list_ex (qualifying_order i) (orders t) = list_ex (qualifying_order i) (orders (set_order y s))" for i
    using same list_ex_update_same [of "qualifying_order i" x y] by (simp add: assms(3) set_order_def)
  moreover have "list_ex (\<lambda>ord. qualifying_order i ord \<and> oid \<noteq> Some (o_id ord)) (orders t)
      = list_ex (\<lambda>ord. qualifying_order i ord \<and> oid \<noteq> Some (o_id ord)) (orders (set_order y s))" for i
    using same list_ex_update_same [of "\<lambda>ord. qualifying_order i ord \<and> oid \<noteq> Some (o_id ord)" x y]
    by (simp add: assms(3) set_order_def)
  ultimately show ?thesis
    using assms(1,2)
    by (simp add: due_bonus_def counted_referrals_def get_user_active_referrals_count_def
        referral_paid_activity_def has_other_qualifying_topup_def)
qed

lemma grant_inviter_exact:
  assumes "grant_inviter e ord s = Inr (ord', t)" and "service_type ord = TOPUP"
  shows "position t k = position s k + inviter_share ord s s k"
    and "o_status ord' = o_status ord" and "service_type ord' = service_type ord"
    and "order_terms ord' = order_terms ord"
proof -
  obtain g m where g: "grant_referral_bonus_for_topup (o_user_id ord) None (Some (o_id ord))
        (amount_rub ord) (now_utc e) s = Inr (g, m)"
    and r: "ord' = note_referrer g ord" "t = set_order ord' m"
    using assms by (auto simp: grant_inviter_def real_money_order_def returned)
  show "position t k = position s k + inviter_share ord s s k"
    using grant_exact [OF g, of k] by (simp add: r inviter_share_def)
  show "o_status ord' = o_status ord" "service_type ord' = service_type ord" "order_terms ord' = order_terms ord"
    by (auto simp: r note_referrer_def order_terms_def split: option.split)
qed

lemma settle_topup_exact:
  assumes "settle_benefits e ord c s = Inr (ord', t)" and "service_type ord = TOPUP"
    and "\<not> has_credit ord s"
  shows "position t k = position s k + (if k = o_user_id ord then amount_rub ord else 0)
      + inviter_share ord s (set_order ord' s) k"
    and "o_status ord' = o_status ord" and "order_terms ord' = order_terms ord"
proof -
  let ?ord = "mark_notify_pending ord"
  obtain x s2 ord3 s3 where c: "credit_wallet e ?ord c (set_order ?ord s) = Inr (x, s2)"
    and g: "grant_inviter e ?ord s2 = Inr (ord3, s3)"
    and f: "(if o_status ord3 \<noteq> Order_REFUNDED then fulfill_order e ord3 s3 else Inr (ord3, s3))
        = Inr (ord', t)"
    using assms(1) by (auto simp: settle_benefits_def returned save_order_Inr)
  have pending: "order_terms ?ord = order_terms ord" "service_type ?ord = TOPUP" "o_id ?ord = o_id ord"
    "o_user_id ?ord = o_user_id ord" "amount_rub ?ord = amount_rub ord" "o_status ?ord = o_status ord"
    using assms(2) by (simp_all add: order_terms_def mark_notify_pending_def)
  note granted = grant_inviter_exact [OF g pending(2)]
  have same: "ord' = ord3" "t = s3"
    using f granted(3) pending(2)
    by (auto simp: fulfill_order_def is_standard_def returned split: option.split_asm if_split_asm)
  show "o_status ord' = o_status ord" "order_terms ord' = order_terms ord"
    using granted pending by (simp_all add: same)
  have fresh: "\<not> has_credit ?ord (set_order ?ord s)"
    using assms(3) has_credit_id [of ?ord ord] pending by simp
  note paid = credit_wallet_exact [OF c pending(2) fresh]
  have "due_bonus uid r None (Some i) a s2 = due_bonus uid r None (Some i) a (set_order ord' s)" for uid r i a
    using granted pending paid by (intro due_bonus_same_terms [of _ _ ?ord]) (simp_all add: same)
  moreover have "inviter_of uid s2 = inviter_of uid s" for uid
    by (simp only: inviter_of_def paid(2) set_order_frame)
  moreover have "bonus_booked r None i s2 = bonus_booked r None i s" for r i
    unfolding paid(5) by (simp add: bonus_booked_def)
  ultimately have "inviter_share ?ord s2 s2 k = inviter_share ord s (set_order ord' s) k"
    by (auto simp: inviter_share_def pending split: option.split)
  then show "position t k = position s k + (if k = o_user_id ord then amount_rub ord else 0)
      + inviter_share ord s (set_order ord' s) k"
    using granted(1) [of k] paid(1) [of k] pending by (simp add: same)
qed

text \<open>C6. Exact settlement of a top-up: when the full price arrives for a payable top-up that was not
  credited before, and its payer is neither banned nor on hold nor barred from topping up, the order
  is paid, the payer's balance rises by exactly the order's amount, and no other balance moves but
  that of the payer's inviter, if there is one: it rises by the inviter's tier of the amount, 15 to
  30 percent, at most once per top-up.\<close>

theorem topup_settlement_exact:
  assumes "get_order s oid = Some ord" and "payable ord" and "service_type ord = TOPUP"
    and "amount_rub ord \<le> p" and "\<not> has_credit ord s"
    and "get_user s (o_user_id ord) = Some u" and "\<not> is_withheld u ord"
    and "mark_order_paid e oid ext (Some (Finite p)) s = Inr (r, t)"
  shows "\<exists>ord'. r = Some (ord', True) \<and> o_status ord' = Order_PAID \<and> order_terms ord' = order_terms ord
    \<and> (\<forall>k. position t k = position s k + (if k = o_user_id ord then amount_rub ord else 0)
          + (case inviter_of (o_user_id ord) s of
               None \<Rightarrow> 0
             | Some v \<Rightarrow>
                 if k = u_id v \<and> \<not> bonus_booked v None (Some oid) s
                 then due_bonus (o_user_id ord) v None (Some oid) (amount_rub ord) (set_order ord' s)
                 else 0))"
proof -
  obtain c ord' where run: "settle_benefits e (note_paid e c (with_ext ext ord)) c s = Inr (ord', t)"
    and r: "r = Some (ord', True)"
    using assms
    by (auto simp: mark_order_payable take_payment_eq is_underpaid_def Let_def returned save_order_Inr)
  let ?ord = "note_paid e c (with_ext ext ord)"
  have sel: "service_type ?ord = TOPUP" "amount_rub ?ord = amount_rub ord" "o_id ?ord = oid"
    "o_user_id ?ord = o_user_id ord"
    using assms(1,3) by (simp_all add: note_paid_def get_order_id)
  have "\<not> has_credit ?ord s"
    using assms(1,5) sel has_credit_id [of ?ord ord] by (simp add: get_order_id)
  from settle_topup_exact [OF run sel(1) this] show ?thesis
    using r by (auto simp: inviter_share_def sel get_order_id [OF assms(1)] split: option.split)
qed

text \<open>The payment of the pending top-ups of the sample database.\<close>

definition pay_sample :: "uuid \<Rightarrow> money \<Rightarrow> db \<Rightarrow> pyerr + settled \<times> db" where
  "pay_sample oid p s = mark_order_paid sample_env oid None (Some (Finite p)) s"

definition banned_db :: db where
  "banned_db = set_user ((sample_user 1 None)\<lparr>is_banned := True\<rparr>) sample_db"

definition paid_db :: db where
  "paid_db = set_order (sample_order ''topup-1'' 1 TOPUP 1000 Order_PAID) sample_db"

lemma returns:
  "(case r of Inl _ \<Rightarrow> False | Inr p \<Rightarrow> P (fst p) (snd p)) \<longleftrightarrow> (\<exists>x t. r = Inr (x, t) \<and> P x t)"
  by (cases r) auto

lemma sample_payments:
  "\<exists>r t. pay_sample ''topup-2'' 400 sample_db = Inr (r, t) \<and> position t 2 = 0"
  "\<exists>r t. pay_sample ''topup-1'' 1000 banned_db = Inr (r, t) \<and> position t 1 = 0"
  "\<exists>r t. pay_sample ''topup-2'' 1000 sample_db = Inr (r, t) \<and> position t 1 = 150"
  unfolding returns [symmetric] by code_simp+

lemma sample_rows:
  "get_order sample_db ''topup-2'' = Some (sample_order ''topup-2'' 2 TOPUP 1000 Order_PENDING)"
  "get_order banned_db ''topup-1'' = Some (sample_order ''topup-1'' 1 TOPUP 1000 Order_PENDING)"
  "get_order paid_db ''topup-1'' = Some (sample_order ''topup-1'' 1 TOPUP 1000 Order_PAID)"
  "get_user banned_db 1 = Some ((sample_user 1 None)\<lparr>is_banned := True\<rparr>)"
  "get_user sample_db 2 = Some (sample_user 2 (Some 1001))"
  by (simp_all add: banned_db_def paid_db_def sample_db_def sample_order_def sample_user_def
      get_order_def get_user_def set_user_def set_order_def)

lemma sample_sel [simp]:
  "o_user_id (sample_order i uid ty rub st) = uid" "amount_rub (sample_order i uid ty rub st) = rub"
  "o_status (sample_order i uid ty rub st) = st" "service_type (sample_order i uid ty rub st) = ty"
  "o_metadata (sample_order i uid ty rub st) = Map.empty" "o_id (sample_order i uid ty rub st) = i"
  "payable (sample_order i uid ty rub Order_PENDING)"
  by (simp_all add: sample_order_def payable_def)

theorem underpayment_only_flags_witness:
  "\<exists>ord' t. pay_sample ''topup-2'' 400 sample_db = Inr (Some (ord', False), t) \<and> t = set_order ord' sample_db
     \<and> o_status ord' = Order_PENDING"
proof -
  obtain r t where run: "mark_order_paid sample_env ''topup-2'' None (Some (Finite 400)) sample_db = Inr (r, t)"
    using sample_payments(1) by (auto simp: pay_sample_def)
  from underpayment_only_flags [OF sample_rows(1) _ _ run] run show ?thesis
    by (auto simp: pay_sample_def)
qed

theorem withheld_payment_only_marks_witness:
  "\<exists>ord' t. pay_sample ''topup-1'' 1000 banned_db = Inr (Some (ord', False), t) \<and> t = set_order ord' banned_db
     \<and> o_metadata ord' ''settlement_hold_reason'' = Some (JStr ''user_banned'')"
proof -
  obtain r t where run: "mark_order_paid sample_env ''topup-1'' None (Some (Finite 1000)) banned_db = Inr (r, t)"
    using sample_payments(2) by (auto simp: pay_sample_def)
  from withheld_payment_only_marks [OF sample_rows(2) _ _ _ _ run] run sample_rows(4) show ?thesis
    by (auto simp: pay_sample_def is_withheld_def hold_reason_def)
qed

theorem replayed_payment_does_nothing_witness:
  "\<exists>ord'. pay_sample ''topup-1'' 1 paid_db = Inr (Some (ord', False), paid_db)"
  using replayed_payment_does_nothing [OF sample_rows(3), of sample_env None "Some (Finite 1)"]
  by (auto simp: pay_sample_def meta_truthy_def)

text \<open>User 2 tops up 1000 rubles; user 1, who invited user 2, gets 150 of them.\<close>

theorem topup_settlement_exact_witness:
  "\<exists>ord' t. pay_sample ''topup-2'' 1000 sample_db = Inr (Some (ord', True), t) \<and> o_status ord' = Order_PAID
     \<and> map_option u_id (inviter_of 2 sample_db) = Some 1
     \<and> position t 1 = 150 \<and> position t 2 = position sample_db 2 + 1000 \<and> position t 3 = position sample_db 3"
proof -
  let ?ord = "sample_order ''topup-2'' 2 TOPUP 1000 Order_PENDING"
  obtain r t where run: "mark_order_paid sample_env ''topup-2'' None (Some (Finite 1000)) sample_db = Inr (r, t)"
    and gain: "position t 1 = 150"
    using sample_payments(3) by (auto simp: pay_sample_def)
  have fresh: "\<not> has_credit (sample_order ''topup-2'' 2 TOPUP 1000 Order_PENDING) sample_db"
    and free: "\<not> is_withheld (sample_user 2 (Some 1001)) (sample_order ''topup-2'' 2 TOPUP 1000 Order_PENDING)"
    and inviter: "map_option u_id (inviter_of 2 sample_db) = Some 1"
    by code_simp+
  have payable: "payable ?ord" and topup: "service_type ?ord = TOPUP" and price: "amount_rub ?ord \<le> 1000"
    and payer: "get_user sample_db (o_user_id ?ord) = Some (sample_user 2 (Some 1001))"
    using sample_rows(5) by simp_all
  obtain ord' where ord': "r = Some (ord', True)" "o_status ord' = Order_PAID"
    and balances: "position t k = position sample_db k + (if k = o_user_id ?ord then amount_rub ?ord else 0)
          + (case inviter_of (o_user_id ?ord) sample_db of
               None \<Rightarrow> 0
             | Some v \<Rightarrow>
                 if k = u_id v \<and> \<not> bonus_booked v None (Some ''topup-2'') sample_db
                 then due_bonus (o_user_id ?ord) v None (Some ''topup-2'') (amount_rub ?ord) (set_order ord' sample_db)
                 else 0)" for k
    using topup_settlement_exact [OF sample_rows(1) payable topup price fresh payer free run] by blast
  show ?thesis
    using run ord' gain inviter balances [of 2] balances [of 3]
    by (auto simp: pay_sample_def split: option.split_asm)
qed

end
