(* ===== verification/Service_Theorems.thy ===== *)
theory Service_Theorems
  imports Service Settlement_Theorems
begin

section \<open>Properties of any history of the service\<close>

text \<open>
  What holds after any sequence of purchases, webhooks, renewals, administrative corrections
  and traffic reports, whichever of them raise.
\<close>

definition sample_start :: "request list" where
  "sample_start =
     [Order_Call (Create_Order sample_env Conn_failure (sample_request STANDARD 300 ''wallet''))]"

definition sample_payment :: "request list" where
  "sample_payment = [Order_Call (Mark_Paid sample_env ''order-9'' None None)]"

text \<open>C1. Service soundness: from an installation without commercial history, after any sequence of
  requests, each committed or rolled back, the ledger invariant holds, order ids are unique with
  amounts and external ids within their constraints, and every White Internet row satisfies its
  checks with at most one live subscription per user.\<close>

theorem service_runs_sound:
  "let t = run_requests service_exec rs (fresh_install s) in
     ledger_inv t
   \<and> distinct (map o_id (orders t)) \<and> list_all (\<lambda>x. order_checks x (orders t)) (orders t)
   \<and> distinct (map w_id (wi_subs t)) \<and> list_all (\<lambda>w. wi_checks w (wi_subs t)) (wi_subs t)"
  using service_tx.run_inv [OF service_inv_fresh, of rs s]
  by (simp add: Let_def service_inv_def orders_ok_def wi_ok_def list_all_iff)

text \<open>C2. The life of an order: whatever happens later, an order keeps the terms it was made with,
  moves only along pending to paid or canceled, canceled to paid, and paid to refunded, and a
  cancellation recorded as the gateway's, \<open>gateway_canceled\<close> in \<open>cancellation_reason\<close>, as the webhook
  records it, is final.  (The pass over the pending orders records the reason the provider gives: an
  order canceled with another reason may still be paid.)\<close>

theorem order_lifecycle:
  assumes "t = run_requests service_exec rs (fresh_install s)"
    and "u = run_requests service_exec rs' t" and "get_order t i = Some ord"
  shows "\<exists>ord'. get_order u i = Some ord' \<and> order_terms ord' = order_terms ord
    \<and> order_edge\<^sup>*\<^sup>* (o_status ord) (o_status ord')
    \<and> (o_status ord = Order_CANCELED \<and> gateway_canceled ord
        \<longrightarrow> o_status ord' = Order_CANCELED \<and> gateway_canceled ord')"
proof -
  have "service_inv t"
    unfolding assms(1) by (rule service_tx.run_inv [OF service_inv_fresh])
  then have "evolves t u"
    unfolding assms(2) by (rule run_evolves)
  then show ?thesis
    using assms(3) by (auto simp: evolves_def order_evolves_def)
qed

lemma sample_history:
  "map_option amount_rub (get_order (run_requests service_exec sample_start
     (fresh_install sample_db)) ''order-9'') = Some 300"
  "map_option o_status (get_order (run_requests service_exec sample_payment
     (run_requests service_exec sample_start (fresh_install sample_db))) ''order-9'') = Some Order_PAID"
  by code_simp+

theorem order_lifecycle_witness:
  "\<exists>ord'. get_order (run_requests service_exec sample_payment
       (run_requests service_exec sample_start (fresh_install sample_db))) ''order-9'' = Some ord'
     \<and> amount_rub ord' = 300 \<and> o_status ord' = Order_PAID"
proof -
  obtain ord where ord: "get_order (run_requests service_exec sample_start
      (fresh_install sample_db)) ''order-9'' = Some ord" "amount_rub ord = 300"
    using sample_history(1) by blast
  from order_lifecycle [OF refl refl ord(1), of sample_payment] show ?thesis
    using ord(2) sample_history(2) by (auto simp: order_terms_def)
qed

lemma unique_entries:
  assumes "sorted_wrt (\<lambda>e n. \<not> entry_conflict n e) es"
    and "\<And>e n. P e \<Longrightarrow> P n \<Longrightarrow> entry_conflict n e"
  shows "length (filter P es) \<le> 1"
  using assms(1)
proof (induction es)
  case (Cons e es)
  show ?case
  proof (cases "P e")
    case True
    then have "filter P es = []"
      using Cons.prems assms(2) by (auto simp: filter_empty_conv)
    then show ?thesis by simp
  qed (use Cons in simp)
qed simp

text \<open>C3. No double charge and no double credit: however often webhooks are repeated and orders
  retried, the ledger holds at most one debit and at most one credit of an order.\<close>

theorem one_debit_one_credit:
  "let t = run_requests service_exec rs (fresh_install s) in
     length (filter (\<lambda>e. order_id e = Some i \<and> entry_type e = PURCHASE_DEBIT) (entries t)) \<le> 1
   \<and> length (filter (\<lambda>e. order_id e = Some i \<and> entry_type e = PAYMENT_CREDIT) (entries t)) \<le> 1"
proof -
  have "sorted_wrt (\<lambda>e n. \<not> entry_conflict n e) (entries (run_requests service_exec rs (fresh_install s)))"
    using service_tx.run_inv [OF service_inv_fresh, of rs s]
    by (simp add: service_inv_def ledger_inv_def entries_ok_def)
  then show ?thesis
    unfolding Let_def by (intro conjI unique_entries) (auto simp: entry_conflict_def)
qed

end
