(* ===== verification/Webhook_Theorems.thy ===== *)
theory Webhook_Theorems
  imports Settlement_Theorems
begin

section \<open>Properties of the webhook\<close>

text \<open>
  What a webhook may not do: pay for another order's payment, revive what the provider
  canceled, or take back a partial refund; and what a refund does to a credited top-up.
\<close>

lemma update_rows_twice:
  "k x = k y \<Longrightarrow> update_rows (\<lambda>v. k v = k y) (\<lambda>_. y) (update_rows (\<lambda>v. k v = k x) (\<lambda>_. x) xs)
     = update_rows (\<lambda>v. k v = k y) (\<lambda>_. y) xs"
  by (induction xs) auto

lemma set_order_twice: "o_id x = o_id y \<Longrightarrow> set_order y (set_order x s) = set_order y s"
  using update_rows_twice [of o_id x y] by (simp add: set_order_def)

text \<open>Identity: a webhook whose payment is not the one of the order it names is refused without any
  effect, whatever it reports.\<close>

theorem foreign_payment_refused:
  assumes "webhook_order r s = Some ord" and "external_id ord = Some x" and "x \<noteq> []"
    and "(wh_is_paid r \<and> wh_external_id r \<notin> {[], x})
       \<or> (wh_is_refunded r \<and> (\<exists>y. related_external_id r = Some y \<and> y \<notin> {[], x}))"
  shows "apply_webhook e r s = Inr (None, s)"
  using assms by (auto simp: apply_webhook_def identity_mismatch_def nonempty_def)

text \<open>Finality of a gateway cancellation: a payment reported after the provider canceled the order
  is refused; the order stays canceled and is flagged with the payment, and nothing else in the
  database changes.\<close>

theorem late_payment_rejected:
  assumes "orders_ok s" and "webhook_order r s = Some ord" and "\<not> identity_mismatch r ord"
    and "wh_is_paid r" and "o_status ord = Order_CANCELED" and "gateway_canceled ord"
    and "apply_webhook e r s = Inr (x, t)"
  shows "\<exists>ord'. x = Some (ord', False) \<and> t = set_order ord' s \<and> order_terms ord' = order_terms ord
    \<and> o_status ord' = Order_CANCELED \<and> gateway_canceled ord'
    \<and> o_metadata ord' ''late_payment_attempt_rejected'' = Some (JStr (wh_external_id r))"
proof -
  have "stored ord s"
    using assms(1,2) by (rule webhook_order_stored)
  then have "mark_order_paid e (o_id ord) ext paid s = Inr (None, s)" for ext paid
    using assms(5,6) by (simp add: mark_order_paid_def)
  then show ?thesis
    using assms(2-7)
    by (auto simp: apply_webhook_def paid_webhook_def returned save_order_Inr set_order_twice
        order_terms_def gateway_canceled_def)
qed

text \<open>A partial refund only flags: when the refunded amount is not the order's, the order stays paid,
  is marked for manual review, and no money, bonus or subscription is taken back.\<close>

theorem partial_refund_only_flags:
  assumes "o_status ord = Order_PAID" and "wh_amount_rub r \<noteq> Some (Finite (amount_rub ord))"
    and "refund_webhook e r ord s = Inr (x, t)"
  shows "\<exists>ord'. x = Some ord' \<and> t = set_order ord' s \<and> order_terms ord' = order_terms ord
    \<and> o_status ord' = Order_PAID
    \<and> o_metadata ord' ''requires_manual_review'' = Some (JBool True)"
  using assms
  by (auto simp: refund_webhook_def returned save_order_Inr note_refund_mismatch_def Let_def
      order_terms_def)

text \<open>The refund of a credited top-up never succeeds: the handler passes the user positionally to
  a function that takes it by keyword, which raises, so the whole webhook is rolled back, the
  order stays paid and the credit stays on the balance.\<close>

theorem topup_refund_raises:
  assumes "o_status ord = Order_PAID" and "service_type ord = TOPUP" and "has_credit ord s"
    and "wh_amount_rub r = Some (Finite (amount_rub ord))"
  shows "\<exists>err. refund_webhook e r ord s = Inl err"
proof (cases "refund_webhook e r ord s")
  case (Inr p)
  have "service_type (note_refunded e r ord) = TOPUP" and "o_id (note_refunded e r ord) = o_id ord"
    using assms(2) by (simp_all add: note_refunded_def)
  then show ?thesis
    using Inr assms(1,3,4) has_credit_id [of "note_refunded e r ord" ord]
    by (cases p) (auto simp: refund_webhook_def refund_topup_def positional_balance_call_def returned
        save_order_Inr)
qed simp

text \<open>Webhooks on the sample database.\<close>

definition sample_webhook :: "uuid \<Rightarrow> money \<Rightarrow> string \<Rightarrow> bool \<Rightarrow> webhook_result" where
  "sample_webhook oid rub ext refund =
     \<lparr>wh_order_id = Some oid, wh_is_paid = (\<not> refund), wh_is_refunded = refund,
      wh_is_canceled = False, wh_external_id = ext, wh_amount_rub = Some (Finite rub),
      wh_event_type = [], related_external_id = None\<rparr>"

definition canceled_order :: order where
  "canceled_order = mark_order_canceled (sample_order ''topup-1'' 1 TOPUP 1000 Order_PENDING)
     ''gateway_canceled''"

definition canceled_db :: db where
  "canceled_db = sample_db\<lparr>orders := [canceled_order]\<rparr>"

theorem foreign_payment_refused_witness:
  "apply_webhook sample_env (sample_webhook ''topup-1'' 1000 ''ext-other'' False) paid_db
     = Inr (None, paid_db)"
proof (rule foreign_payment_refused)
  show "webhook_order (sample_webhook ''topup-1'' 1000 ''ext-other'' False) paid_db =
      Some (sample_order ''topup-1'' 1 TOPUP 1000 Order_PAID)"
    using sample_rows(3) by (simp add: webhook_order_def sample_webhook_def nonempty_def)
qed (auto simp: sample_order_def sample_webhook_def)

lemma sample_late:
  "\<exists>x t. apply_webhook sample_env (sample_webhook ''topup-1'' 1000 ''ext-topup-1'' False) canceled_db
     = Inr (x, t) \<and> position t 1 = 0"
  "\<exists>x t. refund_webhook sample_env (sample_webhook ''topup-1'' 400 ''r-1'' True)
     (sample_order ''topup-1'' 1 TOPUP 1000 Order_PAID) paid_db = Inr (x, t) \<and> position t 1 = 0"
  unfolding returns [symmetric] by code_simp+

lemma sample_late_facts:
  "orders_ok canceled_db"
  "webhook_order (sample_webhook ''topup-1'' 1000 ''ext-topup-1'' False) canceled_db = Some canceled_order"
  "\<not> identity_mismatch (sample_webhook ''topup-1'' 1000 ''ext-topup-1'' False) canceled_order"
  "wh_is_paid (sample_webhook ''topup-1'' 1000 ''ext-topup-1'' False)"
  "o_status canceled_order = Order_CANCELED" "gateway_canceled canceled_order"
  by (simp_all add: orders_ok_def canceled_db_def canceled_order_def mark_order_canceled_def
      sample_order_def webhook_order_def sample_webhook_def nonempty_def get_order_def
      identity_mismatch_def gateway_canceled_def meta_default_def order_checks_def
      ck_orders_amount_rub_def uq_orders_external_id_def is_whole_def)

theorem late_payment_rejected_witness:
  "\<exists>ord' t. apply_webhook sample_env (sample_webhook ''topup-1'' 1000 ''ext-topup-1'' False) canceled_db
     = Inr (Some (ord', False), t) \<and> o_status ord' = Order_CANCELED \<and> position t 1 = 0"
  using sample_late(1) late_payment_rejected [OF sample_late_facts] by blast

theorem partial_refund_only_flags_witness:
  "\<exists>ord' t. refund_webhook sample_env (sample_webhook ''topup-1'' 400 ''r-1'' True)
     (sample_order ''topup-1'' 1 TOPUP 1000 Order_PAID) paid_db = Inr (Some ord', t)
     \<and> o_status ord' = Order_PAID"
proof -
  have "wh_amount_rub (sample_webhook ''topup-1'' 400 ''r-1'' True) \<noteq>
      Some (Finite (amount_rub (sample_order ''topup-1'' 1 TOPUP 1000 Order_PAID)))"
    by (simp add: sample_webhook_def)
  from partial_refund_only_flags [OF _ this] sample_late(2) show ?thesis
    by fastforce
qed

theorem topup_refund_raises_witness:
  "\<exists>err. refund_webhook sample_env (sample_webhook ''topup-1'' 1000 ''r-1'' True)
     (sample_order ''topup-1'' 1 TOPUP 1000 Order_PAID)
     (snd (projr (create_order_credit 1 (rubles 1000) ''topup-1'' Map.empty 5 paid_db))) = Inl err"
  by (rule topup_refund_raises) (simp, simp, code_simp, simp add: sample_webhook_def)

end
