(* ===== verification/Creation_Theorems.thy ===== *)
theory Creation_Theorems
  imports Webhook_Theorems
begin

section \<open>Properties of order creation and wallet payments\<close>

text \<open>
  How an order comes to be under failures of the provider, how a repeated request finds the
  order it made before, and what a payment from the wallet takes.
\<close>

subsection \<open>Creation under failures\<close>

lemma get_order_appended:
  "o_id ord = i \<Longrightarrow> get_order s i = None \<Longrightarrow>
   get_order (s\<lparr>orders := orders s @ [ord]\<rparr>) i = Some ord"
  by (simp add: get_order_def find_append)

text \<open>C9. A creation that raises leaves either nothing or a record: after a definite failure the database
  is as before, and after an ambiguous one the new order is there, pending and flagged, for the
  provider's webhook to find.\<close>

theorem failed_creation:
  assumes "create_order e http rq s = (Inl err, t)"
  shows "(err \<noteq> PaymentCreationAmbiguousError \<and> t = s)
    \<or> (err = PaymentCreationAmbiguousError \<and> get_order s (fresh_order_id e) = None
       \<and> (\<exists>ord. get_order t (fresh_order_id e) = Some ord \<and> o_status ord = Order_PENDING
            \<and> o_user_id ord = rq_user_id rq
            \<and> o_metadata ord ''payment_creation_ambiguous'' = Some (JBool True)))"
proof -
  define ord where "ord = request_order rq
    (resolve_order_terms (get_user s (rq_user_id rq)) (rq_user_id rq) (rq_tariff_id rq)
       (rq_terms rq) (now_utc e) s) (fresh_order_id e) Order_PENDING (now_utc e)"
  have ord: "o_id ord = fresh_order_id e" "o_status ord = Order_PENDING" "o_user_id ord = rq_user_id rq"
    by (simp_all add: ord_def request_order_def)
  have "place_order e http ord s = (Inl err, t)"
    using assms by (simp add: create_order_def ord_def)
  then show ?thesis
    using ord
    by (auto simp: place_order_def Let_def add_order_def save_order_def returned get_order_appended
        split: option.split_asm sum.split_asm if_split_asm pyerr.split_asm)
qed

definition unanswered :: "(pyerr + order) \<times> db" where
  "unanswered = create_order sample_env Conn_timeout (sample_request STANDARD 300 ''yookassa'') sample_db"

theorem failed_creation_witness:
  "\<exists>t. unanswered = (Inl PaymentCreationAmbiguousError, t) \<and> get_order t ''order-9'' \<noteq> None"
proof -
  have "case fst unanswered of Inl err \<Rightarrow> err = PaymentCreationAmbiguousError | Inr _ \<Rightarrow> False"
    by code_simp
  then have "fst unanswered = Inl PaymentCreationAmbiguousError"
    by (auto split: sum.split_asm)
  then obtain t where t: "unanswered = (Inl PaymentCreationAmbiguousError, t)"
    by (metis prod.collapse)
  from failed_creation [OF t [unfolded unanswered_def]] have "get_order t ''order-9'' \<noteq> None"
    by (auto simp: sample_env_def)
  with t show ?thesis by blast
qed

subsection \<open>A repeated request\<close>

text \<open>The rows the duplicate check looks for.\<close>

definition duplicates :: "order \<Rightarrow> instant \<Rightarrow> order \<Rightarrow> bool" where
  "duplicates ord now x \<longleftrightarrow>
     o_user_id x = o_user_id ord \<and> service_type x = service_type ord
   \<and> tariff_id x = tariff_id ord \<and> duration_days x = duration_days ord
   \<and> traffic_bytes x = traffic_bytes ord \<and> o_device_limit x = o_device_limit ord
   \<and> payment_method x = payment_method ord \<and> amount_rub x = amount_rub ord
   \<and> o_status x = Order_PENDING \<and> now - minutes_us 15 \<le> o_created_at x
   \<and> payment_url x \<noteq> None"

lemma pending_duplicate_eq:
  "pending_duplicate ord now s =
     (case sort_key (\<lambda>x. - o_created_at x) (filter (duplicates ord now) (orders s)) of
        [] \<Rightarrow> None | x # _ \<Rightarrow> if payment_url x = Some [] then None else Some x)"
  by (simp add: pending_duplicate_def duplicates_def [abs_def])

lemma no_duplicates:
  assumes "pending_duplicate ord now s = None" and "\<forall>x\<in>set (orders s). payment_url x \<noteq> Some []"
  shows "filter (duplicates ord now) (orders s) = []"
proof (rule ccontr)
  let ?xs = "filter (duplicates ord now) (orders s)"
  assume "?xs \<noteq> []"
  then obtain y ys where y: "sort_key (\<lambda>x. - o_created_at x) ?xs = y # ys"
    by (metis list.exhaust set_empty set_sort)
  then have "y \<in> set ?xs"
    by (metis list.set_intros(1) set_sort)
  then show False
    using assms y by (auto simp: pending_duplicate_eq)
qed

lemma update_rows_append: "update_rows P f (xs @ ys) = update_rows P f xs @ update_rows P f ys"
  by (simp add: update_rows_def)

lemma update_rows_other: "find P xs = None \<Longrightarrow> update_rows P f xs = xs"
  by (rule update_rows_id) (auto dest: find_NoneD)

text \<open>The end of a creation that made an invoice.\<close>

lemma place_order_invoice:
  assumes "place_order e http ord s = (Inr ord1, t)" and "payment_method ord \<noteq> ''wallet''"
    and "get_order s (o_id ord1) = None"
  obtains i u where "ord1 = ord\<lparr>external_id := Some i, payment_url := Some u\<rparr>" and "u \<noteq> []"
    and "pending_duplicate ord (now_utc e) s = None"
    and "t = s\<lparr>orders := orders s @ [ord1]\<rparr>"
proof -
  have fresh: "pending_duplicate ord (now_utc e) s = None"
  proof (rule ccontr)
    assume "pending_duplicate ord (now_utc e) s \<noteq> None"
    then obtain x where x: "pending_duplicate ord (now_utc e) s = Some x" by blast
    then obtain ys where "sort_key (\<lambda>x. - o_created_at x)
        (filter (duplicates ord (now_utc e)) (orders s)) = x # ys"
      by (auto simp: pending_duplicate_eq split: list.split_asm if_split_asm)
    then have "x \<in> set (filter (duplicates ord (now_utc e)) (orders s))"
      by (metis list.set_intros(1) set_sort)
    then have "x \<in> set (orders s)" by simp
    moreover have "x = ord1"
      using assms(1,2) x by (simp add: place_order_def)
    ultimately show False
      using assms(3) by (auto simp: get_order_def dest: find_NoneD)
  qed
  obtain m where m: "add_order ord s = Inr (ord, m)"
    using assms fresh by (auto simp: place_order_def add_order_def split: if_split_asm)
  have new: "m = s\<lparr>orders := orders s @ [ord]\<rparr>" "get_order s (o_id ord) = None"
    using m by (simp_all add: add_order_Inr)
  obtain inv where inv: "create_payment_url (o_id ord) http = Inr inv"
    using assms(1,2) fresh m
    by (auto simp: place_order_def Let_def split: if_split_asm sum.split_asm pyerr.split_asm)
  let ?ord = "ord\<lparr>external_id := Some (inv_external_id inv), payment_url := Some (inv_payment_url inv)\<rparr>"
  have ord1: "ord1 = ?ord" "t = set_order ?ord m"
    using assms(1,2) fresh m inv
    by (auto simp: place_order_def Let_def save_order_def split: if_split_asm)
  have "inv_payment_url inv \<noteq> []"
    using inv by (auto simp: create_payment_url_def Let_def split: if_split_asm sum.split_asm)
  moreover have "set_order ?ord m = s\<lparr>orders := orders s @ [?ord]\<rparr>"
    using new by (simp add: set_order_def get_order_def update_rows_append update_rows_other)
  ultimately show ?thesis
    using ord1 fresh by (intro that) auto
qed

text \<open>C10. Double clicks: repeating a request for an invoice within 15 minutes, on the same terms, returns
  the order made before, without asking the provider again and without changing the database.\<close>

theorem repeated_creation_returns_same:
  assumes "create_order e http rq s = (Inr ord, t)" and "rq_payment_method rq \<noteq> ''wallet''"
    and "get_order s (o_id ord) = None" and "\<forall>x\<in>set (orders s). payment_url x \<noteq> Some []"
    and "now_utc e \<le> now_utc e'" and "now_utc e' \<le> now_utc e + minutes_us 15"
    and "resolve_order_terms (get_user t (rq_user_id rq)) (rq_user_id rq) (rq_tariff_id rq)
            (rq_terms rq) (now_utc e') t
         = resolve_order_terms (get_user s (rq_user_id rq)) (rq_user_id rq) (rq_tariff_id rq)
            (rq_terms rq) (now_utc e) s"
  shows "create_order e' http' rq t = (Inr ord, t)"
proof -
  define tm where "tm = resolve_order_terms (get_user s (rq_user_id rq)) (rq_user_id rq)
    (rq_tariff_id rq) (rq_terms rq) (now_utc e) s"
  define o1 where "o1 = request_order rq tm (fresh_order_id e) Order_PENDING (now_utc e)"
  define o2 where "o2 = request_order rq tm (fresh_order_id e') Order_PENDING (now_utc e')"
  have run: "place_order e http o1 s = (Inr ord, t)" and run': "create_order e' http' rq t = place_order e' http' o2 t"
    using assms(1,7) by (simp_all add: create_order_def Let_def tm_def o1_def o2_def)
  have wallet: "payment_method o1 \<noteq> ''wallet''" "payment_method o2 \<noteq> ''wallet''"
    using assms(2) by (simp_all add: o1_def o2_def request_order_def)
  obtain i u where ord: "ord = o1\<lparr>external_id := Some i, payment_url := Some u\<rparr>" "u \<noteq> []"
    and none: "pending_duplicate o1 (now_utc e) s = None" and t: "t = s\<lparr>orders := orders s @ [ord]\<rparr>"
    using place_order_invoice [OF run wallet(1) assms(3)] by blast
  have "duplicates o2 (now_utc e') x \<Longrightarrow> duplicates o1 (now_utc e) x" for x
    using assms(5) by (auto simp: duplicates_def o1_def o2_def request_order_def)
  then have "filter (duplicates o2 (now_utc e')) (orders s) = []"
    using no_duplicates [OF none assms(4)] by (auto simp: filter_empty_conv)
  moreover have "duplicates o2 (now_utc e') ord"
    using assms(6) by (simp add: duplicates_def ord o1_def o2_def request_order_def)
  ultimately have "pending_duplicate o2 (now_utc e') t = Some ord"
    using ord by (simp add: pending_duplicate_eq t)
  then show ?thesis
    using wallet(2) by (simp add: run' place_order_def)
qed

definition invoice_reply :: http_outcome where
  "invoice_reply = Response 200 (Body (JObj [(''id'', JStr ''pay-1''),
     (''confirmation'', JObj [(''confirmation_url'', JStr ''https://pay'')])]))"

definition first_click :: "(pyerr + order) \<times> db" where
  "first_click = create_order sample_env invoice_reply (sample_request STANDARD 300 ''yookassa'') sample_db"

definition second_env :: env where
  "second_env = sample_env\<lparr>now_utc := 1700000060 * 1000000, fresh_order_id := ''order-10''\<rparr>"

theorem repeated_creation_returns_same_witness:
  "\<exists>ord t. first_click = (Inr ord, t) \<and> o_id ord = ''order-9''
     \<and> create_order second_env Conn_failure (sample_request STANDARD 300 ''yookassa'') t = (Inr ord, t)"
proof -
  have "case fst first_click of Inl _ \<Rightarrow> False | Inr ord \<Rightarrow> o_id ord = ''order-9''"
    by code_simp
  then obtain ord where "fst first_click = Inr ord" and i: "o_id ord = ''order-9''"
    by (auto split: sum.split_asm)
  then obtain t where t: "first_click = (Inr ord, t)"
    by (metis prod.collapse)
  have terms: "resolve_order_terms u 1 None tm now s = tm" for u tm now s
    by (simp add: resolve_order_terms_def)
  have "create_order second_env Conn_failure (sample_request STANDARD 300 ''yookassa'') t = (Inr ord, t)"
  proof (rule repeated_creation_returns_same [OF t [unfolded first_click_def]])
    show "get_order sample_db (o_id ord) = None"
      by (simp add: i sample_db_def get_order_def sample_order_def)
    show "\<forall>x\<in>set (orders sample_db). payment_url x \<noteq> Some []"
      by (simp add: sample_db_def sample_order_def)
  qed (simp_all add: sample_request_def terms second_env_def sample_env_def minutes_us_def)
  with t i show ?thesis by blast
qed

subsection \<open>Payment from the wallet\<close>

lemma order_debit_created:
  assumes "create_order_debit uid (rubles x) oid md now s = Inr ((r, created), t)" and "0 < x"
    and "\<forall>y\<in>set (entries s). order_id y \<noteq> Some oid"
  shows created
proof -
  have none: "find (\<lambda>y. entry_type y = PURCHASE_DEBIT \<and> order_id y = Some oid) (entries s) = None"
    using assms(3) by (simp add: find_None_iff)
  show ?thesis
    using assms none
    by (auto simp: create_order_debit_def Let_def returned lock_account_user_Inr
        get_account_balance_def same_entry_def elim!: insert_or_get_entryE
        split: sum.split_asm if_split_asm dest!: whole_rubles_Inr)
qed

lemma rubles_debit_whole: "create_order_debit uid (rubles x) oid md now s = Inr (p, t) \<Longrightarrow> 0 \<le> x"
  by (auto simp: create_order_debit_def split: sum.split_asm dest!: whole_rubles_Inr)

lemma order_debit_position:
  assumes "create_order_debit uid (rubles x) oid md now s = Inr ((r, True), t)"
  shows "position t k = position s k - (if k = uid then x else 0)"
    and "x \<le> position s uid"
  using assms
  by (cases rule: create_order_debitE; auto dest!: allocate_fifo_Inr(3) simp: with_allocs_def position_def)+

text \<open>C7. A wallet payment is exact: the order is stored as paid, its price leaves the payer's balance,
  which covered it, no other balance moves, and a user on financial hold or in debt pays
  nothing.\<close>

theorem wallet_payment_exact:
  assumes "pay_from_wallet e rq s = Inr (ord, t)" and "ledger_inv s"
  shows "get_order t (o_id ord) = Some ord \<and> o_status ord = Order_PAID
    \<and> o_user_id ord = rq_user_id rq \<and> payment_method ord = ''wallet''
    \<and> 0 \<le> amount_rub ord \<and> amount_rub ord \<le> position s (rq_user_id rq)
    \<and> (\<forall>k. position t k = position s k - (if k = rq_user_id rq then amount_rub ord else 0))
    \<and> (\<forall>u. get_user s (rq_user_id rq) = Some u \<longrightarrow> \<not> financial_hold u)"
proof -
  define new where "new = request_order (rq\<lparr>rq_payment_method := ''wallet''\<rparr>)
    (resolve_order_terms (get_user s (rq_user_id rq)) (rq_user_id rq) (rq_tariff_id rq)
       (rq_terms rq) (now_utc e) s) (fresh_order_id e) Order_PAID (now_utc e)"
  have sel: "o_user_id new = rq_user_id rq" "payment_method new = ''wallet''" "o_status new = Order_PAID"
    by (simp_all add: new_def request_order_def)
  obtain m n where hold: "\<forall>u. get_user s (rq_user_id rq) = Some u \<longrightarrow> \<not> financial_hold u"
    and debt: "debt (balance_snapshot s (rq_user_id rq)) \<le> 0"
    and cover: "amount_rub new \<le> available (balance_snapshot s (rq_user_id rq))"
    and add: "add_order new s = Inr (new, m)"
    and pay: "if 0 < amount_rub new then \<exists>p. create_order_debit (rq_user_id rq) (rubles (amount_rub new))
        (o_id new) [''description'' \<mapsto> json_opt JStr (o_description new)] (now_utc e) m = Inr (p, n)
      else n = m"
    and ful: "fulfill_order e new n = Inr (ord, t)"
    using assms(1) unfolding pay_from_wallet_def Let_def new_def [symmetric]
    by (auto simp: returned get_account_balance_def lock_account_user_Inr add_order_Inr not_less
        split: option.split_asm if_split_asm)
  have m: "m = s\<lparr>orders := orders s @ [new]\<rparr>" and fresh: "get_order s (o_id new) = None"
    and nonneg: "0 \<le> amount_rub new" and row: "get_order m (o_id new) = Some new"
    using add add_order_evolves(2) [OF add]
    by (simp_all add: add_order_Inr order_checks_def ck_orders_amount_rub_def)
  have pos_m: "position m = position s"
    by (simp add: m position_def fun_eq_iff)
  have unbooked: "\<forall>y\<in>set (entries m). order_id y \<noteq> Some (o_id new)"
    using assms(2) fresh by (auto simp: m ledger_inv_def entries_ok_def entry_ok_def)
  have covered: "amount_rub new \<le> position s (rq_user_id rq)"
    using cover debt by (simp add: balance_snapshot_def Let_def max_def split: if_split_asm)
  have debited: "(\<forall>k. position n k = position s k - (if k = rq_user_id rq then amount_rub new else 0))
      \<and> get_order n (o_id new) = Some new"
  proof (cases "0 < amount_rub new")
    case True
    then obtain r c where d: "create_order_debit (rq_user_id rq) (rubles (amount_rub new)) (o_id new)
        [''description'' \<mapsto> json_opt JStr (o_description new)] (now_utc e) m = Inr ((r, c), n)"
      using pay by auto
    have c: c
      by (rule order_debit_created [OF d True unbooked])
    show ?thesis
      using order_debit_position(1) d row order_debit_frame [OF d] pos_m
      by (simp add: c get_order_def)
  next
    case False
    then show ?thesis
      using pay nonneg row pos_m by simp
  qed
  have "entries t = entries n \<and> get_order t (o_id ord) = Some ord \<and> order_terms ord = order_terms new
      \<and> o_status ord = o_status new"
    using debited ful by (intro fulfill_frame) auto
  then show ?thesis
    using debited hold nonneg covered sel by (auto simp: order_terms_def position_def)
qed

theorem wallet_payment_exact_witness:
  "\<exists>ord t. pay_from_wallet sample_env (sample_request STANDARD 300 ''wallet'') funded_db = Inr (ord, t)
     \<and> o_status ord = Order_PAID \<and> position t 1 = 750"
proof -
  have "\<exists>ord t. pay_from_wallet sample_env (sample_request STANDARD 300 ''wallet'') funded_db = Inr (ord, t)
      \<and> position t 1 = 750"
    unfolding returns [symmetric] by code_simp
  then show ?thesis
    using wallet_payment_exact [OF _ funded_inv] by blast
qed

end
