(* ===== verification/Pricing_Theorems.thy ===== *)
theory Pricing_Theorems
  imports Creation_Theorems
begin

section \<open>Properties of prices and of the payment gateway\<close>

text \<open>
  The price of a tariff change, the welcome discount, and what the gateway client concludes
  from the outcome of an HTTP exchange.
\<close>

subsection \<open>Prices\<close>

lemma daily_price_nonneg: "0 \<le> price_rub t \<Longrightarrow> 0 \<le> daily_price t"
  unfolding daily_price_def by (intro fl_nonneg divide_nonneg_nonneg) (auto intro: fl_nonneg)

lemma remaining_rub_nonneg: "0 \<le> price_rub c \<Longrightarrow> 0 \<le> left \<Longrightarrow> 0 \<le> remaining_rub c left"
  unfolding remaining_rub_def
  by (intro round_half_even_nonneg fl_nonneg mult_nonneg_nonneg daily_price_nonneg) simp_all

text \<open>A tariff change never costs more than the new tariff and never less than nothing, is a whole
  number of rubles, buys the full duration whenever something is due, and when nothing is due,
  because the unused days cover it, leaves at least one day.\<close>

theorem tariff_change_bounds:
  assumes "calculate_tariff_change current target sub_end now = (due, days)"
    and "0 \<le> price_rub target"
  shows "0 \<le> due \<and> due \<le> of_int (price_rub target) \<and> is_whole due
    \<and> (0 < due \<longrightarrow> days = t_duration_days target)
    \<and> (due = 0 \<and> 0 < price_rub target \<longrightarrow> 1 \<le> days)"
proof -
  have "0 \<le> remaining_rub c (days_left t now)" if "0 < price_rub c" for c t
    using that by (intro remaining_rub_nonneg) (simp_all add: days_left_def)
  then show ?thesis
    using assms
    by (fastforce simp: calculate_tariff_change_def Let_def is_whole_diff not_le
        split: option.split_asm if_split_asm)
qed

text \<open>The welcome discount: the first price of an invited user is a whole number of rubles, at
  least one, at most the tariff's price and at least three quarters of it; everybody else pays the
  price itself.\<close>

theorem welcome_price_bounds:
  assumes "tm_amount tm = None" and "1 \<le> price_rub t"
  shows "\<exists>a. tm_amount (purchase_terms uid renewal t tm s) = Some a \<and> is_whole a
    \<and> 1 \<le> a \<and> a \<le> of_int (price_rub t) \<and> of_int (price_rub t) * 3/4 \<le> a
    \<and> (\<not> is_eligible_for_referral_first_discount uid s \<longrightarrow> a = of_int (price_rub t))"
proof -
  let ?p = "of_int (price_rub t) :: rat"
  have p: "1 \<le> ?p"
    using assms(2) by simp
  have d: "0 \<le> welcome_discount t" "welcome_discount t \<le> ?p / 4" "is_whole (welcome_discount t)"
    using p quantize_down_le [of "?p * (25/100)"]
    by (simp_all add: welcome_discount_def REFERRAL_WELCOME_DISCOUNT_PERCENT_def)
  have one: "is_whole 1"
    using is_whole_of_int [of 1] by simp
  show ?thesis
    using assms(1) p d one
    by (cases "is_eligible_for_referral_first_discount uid s")
      (auto simp: purchase_terms_def Let_def is_whole_max is_whole_diff max_def)
qed

text \<open>Whole numbers below \<open>2 ^ 53\<close> are exact in floating point.\<close>

lemma pow2_neg: "e \<le> 0 \<Longrightarrow> x / pow2 e = x * 2 ^ nat (- e)"
  by (cases "e = 0") (simp_all add: pow2_def)

lemma fl_of_int:
  assumes "\<bar>i\<bar> < 2 ^ 53"
  shows "fl (of_int i) = of_int i"
proof (cases "i = 0")
  case False
  have "nat \<bar>i\<bar> < 2 ^ 53"
    using assms by (simp add: nat_less_iff)
  then have "floorlog 2 (nat \<bar>i\<bar>) \<le> 53"
    by (intro floorlog_leI) simp_all
  moreover have "quotient_of \<bar>of_int i\<bar> = (\<bar>i\<bar>, 1)"
    using quotient_of_int [of "\<bar>i\<bar>"] by (simp add: Rat.of_int_def)
  moreover have "floorlog 2 (nat 1) = 1"
    by (simp add: floorlog_def)
  ultimately have e: "ulp_exp (of_int i) \<le> 0"
    by (simp add: ulp_exp_def Let_def)
  let ?k = "nat (- ulp_exp (of_int i))"
  have "(of_int i :: rat) * 2 ^ ?k = of_int (i * 2 ^ ?k)"
    by simp
  then have "of_int (round_half_even (of_int i * 2 ^ ?k)) = (of_int i * 2 ^ ?k :: rat)"
    by (simp only: round_half_even_of_int)
  moreover have "pow2 (ulp_exp (of_int i)) = 1 / 2 ^ ?k"
    using e by (auto simp: pow2_def)
  ultimately show ?thesis
    using False by (simp add: fl_def)
qed simp

lemma fl_numeral: "(numeral n :: int) < 2 ^ 53 \<Longrightarrow> fl (numeral n) = numeral n"
  using fl_of_int [of "numeral n"] by simp

lemma round_half_even_numeral: "round_half_even (numeral n) = numeral n"
  using round_half_even_of_int [of "numeral n"] by simp

text \<open>A tariff of 600 for 30 days after ten unused days of the sample tariff of 300.\<close>

definition big_tariff :: tariff where
  "big_tariff = sample_tariff\<lparr>t_id := 2, price_rub := 600\<rparr>"

theorem tariff_change_bounds_witness:
  "\<exists>due days. calculate_tariff_change (Some sample_tariff) big_tariff (Some (days_us 10)) 0 = (due, days)
     \<and> due = 500 \<and> days = 30"
proof -
  have due: "fst (calculate_tariff_change (Some sample_tariff) big_tariff (Some (days_us 10)) 0) = 500"
    by (simp add: calculate_tariff_change_def Let_def days_left_def total_seconds_def days_us_def
        remaining_rub_def daily_price_def big_tariff_def sample_tariff_def fl_numeral usec_per_day_def round_half_even_numeral)
  then obtain days where run: "calculate_tariff_change (Some sample_tariff) big_tariff (Some (days_us 10)) 0
      = (500, days)"
    by (metis prod.collapse)
  from tariff_change_bounds [OF this] have "days = 30"
    by (simp add: big_tariff_def sample_tariff_def)
  with run show ?thesis by simp
qed

definition blank_terms :: terms where
  "blank_terms = \<lparr>tm_amount = None, tm_days = None, tm_devices = None, tm_description = None,
     tm_meta = Map.empty\<rparr>"

theorem welcome_price_bounds_witness:
  "\<exists>a. tm_amount (purchase_terms 2 False sample_tariff blank_terms sample_db) = Some a
     \<and> is_whole a \<and> 225 \<le> a \<and> a \<le> 300"
  using welcome_price_bounds [of blank_terms sample_tariff 2 False sample_db]
  by (auto simp: blank_terms_def sample_tariff_def)

subsection \<open>The gateway\<close>

lemma truthy_body: "truthy (JObj kvs) \<longleftrightarrow> kvs \<noteq> []"
  by (cases kvs) auto

text \<open>A definite failure means no payment: when the gateway reports a failure that is not ambiguous,
  the provider does not hold the payment, with two exceptions, both a success status with a
  malformed body: an empty object, and a confirmation that is not an object.\<close>

theorem definite_failure_means_no_payment:
  assumes "create_payment_url oid http = Inl err" and "err \<noteq> PaymentCreationAmbiguousError"
    and "length oid \<le> 58"
  shows "\<not> may_exist http
    \<or> (\<exists>code kvs. http = Response code (Body (JObj kvs)) \<and> 200 \<le> code \<and> code < 300
         \<and> (kvs = [] \<or> (\<forall>c. jget (JObj kvs) ''confirmation'' \<noteq> JObj c)))"
proof (cases http)
  case (Response code body)
  show ?thesis
  proof (cases "may_exist http")
    case True
    then have code: "(200 \<le> code \<and> code < 300) \<or> 500 \<le> code"
      using Response by (simp add: may_exist_def)
    have key: "\<not> 64 < length (''order_'' @ oid)"
      using assms(3) by simp
    show ?thesis
    proof (cases "\<exists>kvs. body = Body (JObj kvs) \<and> code < 300")
      case False
      then show ?thesis
        using assms(1,2) code key Response
        by (auto simp: create_payment_url_def yookassa_request_def yk_error_def Let_def
            split: body_outcome.split_asm json.split_asm if_split_asm)
    next
      case obj: True
      then obtain kvs where kvs: "body = Body (JObj kvs)" "code < 300" by blast
      show ?thesis
      proof (cases "kvs = []")
        case False
        then have "\<not> (\<exists>c. jget (JObj kvs) ''confirmation'' = JObj c)"
          using assms(1,2) code key Response kvs
          by (auto simp: create_payment_url_def yookassa_request_def Let_def truthy_body dict_or_empty_def
              split: if_split_asm)
        then show ?thesis
          using code kvs Response by auto
      qed (use code kvs Response in auto)
    qed
  qed simp
qed (use assms in \<open>auto simp: create_payment_url_def yookassa_request_def yk_error_def may_exist_def Let_def\<close>)

text \<open>A success without a payment id is ambiguous, so the order is kept for the webhook, unless its
  body is the empty object: that one is taken for a definite failure and the order is lost.\<close>

theorem reply_without_id:
  assumes "200 \<le> code" and "code < 300" and "length oid \<le> 58"
    and "jget (JObj kvs) ''id'' = JNull" and "jget (JObj kvs) ''confirmation'' = JNull"
  shows "create_payment_url oid (Response code (Body (JObj kvs))) =
    Inl (if kvs = [] then RuntimeError ''YooKassa payment creation error''
         else PaymentCreationAmbiguousError)"
proof -
  have "\<not> 64 < length (''order_'' @ oid)"
    using assms(3) by simp
  then show ?thesis
    using assms by (auto simp: create_payment_url_def yookassa_request_def Let_def truthy_body
        text_or_empty_def dict_or_empty_def py_strip_def)
qed

theorem definite_failure_means_no_payment_witness:
  "create_payment_url ''order-9'' Conn_failure = Inl (RuntimeError ''YooKassa payment creation error'')
     \<and> \<not> may_exist Conn_failure"
proof
  show run: "create_payment_url ''order-9'' Conn_failure =
      Inl (RuntimeError ''YooKassa payment creation error'')"
    by code_simp
  from definite_failure_means_no_payment [OF run] show "\<not> may_exist Conn_failure"
    by simp
qed

theorem reply_without_id_witness:
  "create_payment_url ''order-9'' (Response 200 (Body (JObj []))) =
     Inl (RuntimeError ''YooKassa payment creation error'')
   \<and> create_payment_url ''order-9'' (Response 200 (Body (JObj [(''status'', JStr ''pending'')]))) =
     Inl PaymentCreationAmbiguousError"
  using reply_without_id [of 200 "''order-9''" "[]"]
    reply_without_id [of 200 "''order-9''" "[(''status'', JStr ''pending'')]"]
  by (simp add: jget_def)

end
