(* ===== verification/Delivery_Theorems.thy ===== *)
theory Delivery_Theorems
  imports Creation_Theorems
begin

section \<open>Properties of the services that are sold\<close>

text \<open>
  White Internet subscriptions: devices, renewals, metering and the wallet checkout; and VPN
  subscriptions: a refund gives back what the order changed.
\<close>

subsection \<open>Rows\<close>

lemma get_wi_row_save:
  assumes "save_wi v s = Inr (x, t)" and "get_wi_row (w_id v) s \<noteq> None"
  shows "get_wi_row (w_id v) t = Some v"
  using assms
  by (auto simp: save_wi_Inr get_wi_row_def set_wi_sub_def find_update_self)

lemma get_wi_by_id_row: "get_wi_by_id i s = Some w \<Longrightarrow> get_wi_row i s = Some w \<and> w_id w = i"
  by (auto simp: get_wi_by_id_def get_wi_row_def dest: find_SomeD split: if_split_asm)

lemma get_wi_by_id_save:
  assumes "save_wi v s = Inr (x, t)" and "get_wi_by_id i s = Some w" and "w_id v = i"
  shows "get_wi_by_id i t = Some v"
  using get_wi_row_save [OF assms(1)] get_wi_by_id_row [OF assms(2)] assms(2,3)
  by (auto simp: get_wi_by_id_def get_wi_row_def split: if_split_asm)

lemma get_wi_row_id: "get_wi_row i s = Some w \<Longrightarrow> w_id w = i"
  by (auto simp: get_wi_row_def dest: find_SomeD)

subsection \<open>Devices\<close>

lemma refresh_hwid_None: "refresh_hwid prev info pruned now = None \<Longrightarrow> \<not> pruned"
  by (auto simp: refresh_hwid_def Let_def split: json.split_asm if_split_asm)

text \<open>The device limit: a registration that is answered yes leaves the device among at most as many
  as the limit of the subscription; one that is answered no registers nothing.\<close>

theorem registration_within_limit:
  assumes "register_hwid_atomic i hwid m ttl info now s = Inr ((ok, n, limit), t)"
    and "get_wi_row i t = Some w"
  shows "(ok \<longrightarrow> take 128 (py_strip hwid) \<in> set (map fst (w_active_hwids w))
        \<and> int (length (w_active_hwids w)) \<le> limit)
    \<and> (\<not> ok \<longrightarrow> (\<exists>v. get_wi_row i s = Some v \<and> set (w_active_hwids w) \<subseteq> set (w_active_hwids v)))
    \<and> limit = (if 0 < w_device_limit w then w_device_limit w else max 1 m)"
proof -
  obtain v where v: "get_wi_row i s = Some v"
    using assms by (auto simp: register_hwid_atomic_def split: option.split_asm)
  define lim where "lim = (if 0 < w_device_limit v then w_device_limit v else max 1 m)"
  define active where "active = lru_prune lim (fresh_hwids (w_active_hwids v) ttl now)"
  have lim: "0 < lim"
    by (auto simp: lim_def less_max_iff_disj)
  have len: "int (length active) \<le> lim" and sub: "set active \<subseteq> set (w_active_hwids v)"
    using length_lru_prune [OF lim] set_lru_prune [of lim "fresh_hwids (w_active_hwids v) ttl now"]
    by (auto simp: active_def fresh_hwids_def)
  have key: "map_of active c = Some x \<Longrightarrow> c \<in> set (map fst active)" for c x
    by (force dest: map_of_SomeD)
  have saved: "w = v\<lparr>w_active_hwids := hs\<rparr>"
    if "save_wi (v\<lparr>w_active_hwids := hs\<rparr>) s = Inr (x, t)" for hs x
    using get_wi_row_save [OF that] get_wi_row_id [OF v] v assms(2) by simp
  let ?c = "take 128 (py_strip hwid)"
  have run: "(if ?c = [] then Inr ((False, int (length (fresh_hwids (w_active_hwids v) ttl now)), lim), s)
      else case map_of active ?c of
         Some prev \<Rightarrow>
           (case refresh_hwid prev info (length active \<noteq> length (w_active_hwids v)) now of
              None \<Rightarrow> Inr ((True, int (length active), lim), s)
            | Some val \<Rightarrow> and_then (save_wi (v\<lparr>w_active_hwids := dict_set ?c val active\<rparr>) s)
                  (\<lambda>_ s. Inr ((True, int (length active), lim), s)))
       | None \<Rightarrow>
           if lim \<le> int (length active)
           then and_then (save_wi (v\<lparr>w_active_hwids := active\<rparr>) s)
                  (\<lambda>_ s. Inr ((False, int (length active), lim), s))
           else let val = (if info \<noteq> [] then JObj (enrich info [(''last_seen'', JTime now)]) else JTime now);
                    registered = dict_set ?c val active in
             and_then (save_wi (v\<lparr>w_active_hwids := registered\<rparr>) s)
               (\<lambda>_ s. Inr ((True, int (length registered), lim), s))) = Inr ((ok, n, limit), t)"
    using assms(1) unfolding register_hwid_atomic_def Let_def v lim_def active_def
    by (simp only: option.case)
  consider (same) "t = s" "w = v" "limit = lim"
      "ok \<longrightarrow> ?c \<in> set (map fst active) \<and> length active = length (w_active_hwids v)"
    | (full) "\<not> ok" "w = v\<lparr>w_active_hwids := active\<rparr>" "limit = lim"
    | (known) val where "ok" "w = v\<lparr>w_active_hwids := dict_set ?c val active\<rparr>" "limit = lim"
        "?c \<in> set (map fst active) \<or> int (length active) < lim"
  proof (cases "?c = []")
    case True
    then show ?thesis
      using run v assms(2) by (intro same) auto
  next
    case named: False
    show ?thesis
    proof (cases "map_of active ?c")
      case None
      then show ?thesis
        using run named saved
        by (cases "lim \<le> int (length active)") (auto simp: Let_def returned intro: full known)
    next
      case (Some prev)
      show ?thesis
      proof (cases "refresh_hwid prev info (length active \<noteq> length (w_active_hwids v)) now")
        case None
        then show ?thesis
          using run named Some v assms(2) key [OF Some] refresh_hwid_None [OF None] by (intro same) auto
      next
        case (Some val)
        then show ?thesis
          using run named \<open>map_of active ?c = Some prev\<close> saved key
          by (auto simp: returned intro: known)
      qed
    qed
  qed
  then show ?thesis
  proof cases
    case same
    then show ?thesis
      using len sub v by (force simp: lim_def)
  next
    case full
    then show ?thesis
      using sub v by (auto simp: lim_def)
  next
    case known
    then show ?thesis
      using len by (auto simp: lim_def length_dict_set dict_set_keys)
  qed
qed

subsection \<open>Renewals\<close>

text \<open>C29. A renewal is bounded: it moves the end by exactly its days from the later of now and the old
  end, never beyond the horizon, starts the period with nothing used, and rolls over no more than
  the extra traffic that was left and the cap of the subscription; a trial rolls over nothing.\<close>

theorem renewal_bounded:
  assumes "renew_subscription_atomic i d base horizon now s = Inr (v, t)"
  shows "\<exists>w. get_wi_by_id i s = Some w \<and> get_wi_by_id i t = Some v
    \<and> w_status w \<notin> {WI_DISABLED, WI_PENDING} \<and> w_status v = WI_ACTIVE \<and> \<not> is_trial v
    \<and> expires_at v = max now (expires_at w) + days_us d \<and> expires_at v \<le> now + days_us horizon
    \<and> traffic_used_bytes v = 0 \<and> traffic_overage_bytes v = 0
    \<and> extra_traffic_bytes v \<le> max 0 (extra_traffic_bytes w)
    \<and> extra_traffic_bytes v \<le> max 0 (total_quota w - used_quota w)
    \<and> extra_traffic_bytes v \<le> effective_device_limit v * WHITE_INTERNET_MAX_QUOTA_BYTES
    \<and> (is_trial w \<longrightarrow> extra_traffic_bytes v = 0)"
proof -
  obtain w where w: "get_wi_by_id i s = Some w"
    using assms by (auto simp: renew_subscription_atomic_def returned)
  have row: "get_wi_by_id i t' = Some x" if "save_wi x s = Inr (y, t')" "w_id x = w_id w" for x y t'
    using get_wi_by_id_save [OF that(1) w] get_wi_by_id_row [OF w] that(2) by simp
  have cap: "0 \<le> effective_device_limit w * WHITE_INTERNET_MAX_QUOTA_BYTES"
    by (simp add: effective_device_limit_def WHITE_INTERNET_MAX_QUOTA_BYTES_def)
  have extra: "renewed_extra w now \<le> max 0 (extra_traffic_bytes w)"
    "renewed_extra w now \<le> max 0 (total_quota w - used_quota w)"
    "renewed_extra w now \<le> effective_device_limit w * WHITE_INTERNET_MAX_QUOTA_BYTES"
    "is_trial w \<Longrightarrow> renewed_extra w now = 0"
    using cap by (auto simp: renewed_extra_def Let_def)
  have "get_wi_by_id i t = Some v"
    using assms w
    by (auto simp: renew_subscription_atomic_def Let_def returned save_wi_Inr
        intro!: row [unfolded save_wi_Inr])
  then show ?thesis
    using assms w extra
    by (intro exI [of _ w]) (auto simp: renew_subscription_atomic_def Let_def returned save_wi_Inr
        max_def effective_device_limit_def)
qed

subsection \<open>Metering\<close>

text \<open>A sequence of reports of one node, each with its uplink and downlink counters.\<close>

fun report_all :: "int \<Rightarrow> string \<Rightarrow> (int \<times> int) list \<Rightarrow> db \<Rightarrow> pyerr + unit \<times> db" where
  "report_all i epoch [] s = Inr ((), s)"
| "report_all i epoch ((up, down) # rs) s =
     and_then (record_and_deduct_traffic_atomic i epoch up down None None s)
       (\<lambda>_ s. report_all i epoch rs s)"

lemma one_report:
  assumes "record_and_deduct_traffic_atomic i epoch up down None None s = Inr (r, t)"
    and "get_wi_by_id i s = Some w" and "last_downlink_snapshot w \<le> down"
  shows "\<exists>v. get_wi_by_id i t = Some v \<and> last_downlink_snapshot v = down
    \<and> traffic_used_bytes v = traffic_used_bytes w + (down - last_downlink_snapshot w)"
proof (cases "counter_delta (last_uplink_snapshot w) up \<le> 0 \<and> down = last_downlink_snapshot w")
  case True
  then show ?thesis
    using assms by (auto simp: record_and_deduct_traffic_atomic_def counter_delta_def Let_def)
next
  case False
  then have more: "\<not> (counter_delta (last_uplink_snapshot w) up \<le> 0
      \<and> counter_delta (last_downlink_snapshot w) down \<le> 0)"
    using assms(3) by (auto simp: counter_delta_def)
  have delta: "counter_delta (last_downlink_snapshot w) down = down - last_downlink_snapshot w"
    using assms(3) by (simp add: counter_delta_def)
  have row: "get_wi_by_id i t' = Some x" if "save_wi x s = Inr (y, t')" "w_id x = w_id w" for x y t'
    using get_wi_by_id_save [OF that(1) assms(2)] get_wi_by_id_row [OF assms(2)] that(2) by simp
  define over where "over = (if w_status w = WI_DISABLED \<or> w_status w = WI_EXPIRED
    then max 0 (down - last_downlink_snapshot w)
    else max 0 (max 0 (down - last_downlink_snapshot w) - max 0 (total_quota w - used_quota w)))"
  define v where "v = w\<lparr>traffic_used_bytes := traffic_used_bytes w + max 0 (down - last_downlink_snapshot w),
     traffic_overage_bytes := traffic_overage_bytes w + over,
     traffic_uplink_bytes := traffic_uplink_bytes w + counter_delta (last_uplink_snapshot w) up,
     traffic_downlink_bytes := traffic_downlink_bytes w + (down - last_downlink_snapshot w),
     last_uplink_snapshot := up, last_downlink_snapshot := down, traffic_stats_epoch := Some epoch\<rparr>"
  have "(\<exists>y. save_wi v s = Inr (y, t)) \<or> (\<exists>y. save_wi ((exhaust v)\<lparr>notified_90p := True\<rparr>) s = Inr (y, t))"
    using assms(1) more unfolding record_and_deduct_traffic_atomic_def Let_def assms(2) option.case delta
      over_def [symmetric] v_def [symmetric]
    by (auto simp: returned)
  then show ?thesis
    using row assms(3) by (auto simp: v_def exhaust_def)
qed

text \<open>C28. Metering neither loses nor doubles traffic: after any sequence of reports whose downlink counter
  does not fall, however they are cut or repeated, the traffic used has grown by exactly the last
  counter less the snapshot before the first report.\<close>

theorem metering_telescopes:
  assumes "report_all i epoch rs s = Inr (x, t)" and "get_wi_by_id i s = Some w"
    and "sorted (last_downlink_snapshot w # map snd rs)"
  shows "\<exists>v. get_wi_by_id i t = Some v
    \<and> last_downlink_snapshot v = last (last_downlink_snapshot w # map snd rs)
    \<and> traffic_used_bytes v =
        traffic_used_bytes w + (last_downlink_snapshot v - last_downlink_snapshot w)"
  using assms
proof (induction rs arbitrary: s w)
  case (Cons r rs)
  obtain up down where r: "r = (up, down)" by (cases r)
  then obtain a m where m: "record_and_deduct_traffic_atomic i epoch up down None None s = Inr (a, m)"
    and rest: "report_all i epoch rs m = Inr (x, t)"
    using Cons.prems(1) by (auto simp: returned)
  have "last_downlink_snapshot w \<le> down" and srt: "sorted (down # map snd rs)"
    using Cons.prems(3) r by simp_all
  then obtain v where v: "get_wi_by_id i m = Some v" "last_downlink_snapshot v = down"
    "traffic_used_bytes v = traffic_used_bytes w + (down - last_downlink_snapshot w)"
    using one_report [OF m Cons.prems(2)] by blast
  from Cons.IH [OF rest v(1)] srt v(2,3) r show ?case
    by auto
qed auto

subsection \<open>The wallet checkout\<close>

text \<open>C8. A checkout is all or nothing: when it succeeds its order is stored as paid and exactly its price
  has left the user's balance, which covered it; when it is refused no balance has moved, and an
  order it has stored is canceled for want of money.\<close>

theorem checkout_all_or_nothing:
  assumes "checkout_wallet_order e u ty tid due d tr dev op trial ins s = Inr (msg, t)"
    and "ledger_inv s" and "0 \<le> due" and "is_whole due"
  shows "case msg of
      None \<Rightarrow> (\<exists>ord. get_order t (fresh_order_id e) = Some ord \<and> o_status ord = Order_PAID
               \<and> amount_rub ord = due)
           \<and> (\<forall>k. position t k = position s k - (if k = u_id u then due else 0))
           \<and> due \<le> max 0 (position s (u_id u))
    | Some m \<Rightarrow> entries t = entries s
           \<and> (orders t = orders s
              \<or> (\<exists>ord. get_order t (fresh_order_id e) = Some ord \<and> o_status ord = Order_CANCELED))"
proof (cases "financial_hold u \<or> topup_blocked u")
  case True
  then show ?thesis
    using assms(1) by (auto simp: checkout_wallet_order_def split: if_split_asm)
next
  case False
  define ord where "ord = \<lparr>o_id = fresh_order_id e, o_user_id = u_id u, service_type = ty,
      tariff_id = tid, amount_rub = due, duration_days = d, traffic_bytes = tr, o_device_limit = dev,
      payment_method = ''wallet'', external_id = None, payment_url = None,
      o_status = Order_PENDING, o_description = None,
      o_metadata = (if trial then [''operation'' \<mapsto> JStr op, ''is_trial'' \<mapsto> JBool True]
         else [''operation'' \<mapsto> JStr op]),
      o_created_at = now_utc e, paid_at = None, refunded_at = None,
      o_expires_at = Some (now_utc e + minutes_us 15)\<rparr>"
  let ?paid = "ord\<lparr>o_status := Order_PAID, paid_at := Some (now_utc e)\<rparr>"
  let ?canceled = "mark_order_canceled ord ''insufficient_balance''"
  let ?debit = "create_order_debit (u_id u) (rubles due) (o_id ord) [''operation'' \<mapsto> JStr op] (now_utc e)"
  have "whole_rubles (rubles due) True = Inr due"
    using assms(3,4) by (simp add: whole_rubles_rubles)
  then have "and_then (add_order ord s) (\<lambda>_ s.
        if due = 0 then Inr (None, set_order ?paid s)
        else (case ?debit s of
            Inr (_, s) \<Rightarrow> Inr (None, set_order ?paid s)
          | Inl (InsufficientAccountBalanceError _) \<Rightarrow>
              let s = set_order ?canceled s; available = available (balance_snapshot s (u_id u)) in
              Inr (Some (ins due available (max (due - available) 0)), s)
          | Inl err \<Rightarrow> Inl err)) = Inr (msg, t)"
    using assms(1) False
    by (simp only: checkout_wallet_order_def Let_def ord_def de_Morgan_disj if_False sum.case)
  then obtain m where add: "add_order ord s = Inr (ord, m)"
    and rest: "(if due = 0 then Inr (None, set_order ?paid m)
        else (case ?debit m of
            Inr (_, s) \<Rightarrow> Inr (None, set_order ?paid s)
          | Inl (InsufficientAccountBalanceError _) \<Rightarrow>
              let s = set_order ?canceled m; available = available (balance_snapshot s (u_id u)) in
              Inr (Some (ins due available (max (due - available) 0)), s)
          | Inl err \<Rightarrow> Inl err)) = Inr (msg, t)"
    by (auto simp: and_then_eq_Inr add_order_Inr)
  have m: "m = s\<lparr>orders := orders s @ [ord]\<rparr>" and fresh: "get_order s (o_id ord) = None"
    and row: "get_order m (o_id ord) = Some ord"
    using add add_order_evolves(2) [OF add] by (simp_all add: add_order_Inr)
  have id: "o_id ord = fresh_order_id e" "amount_rub ord = due" "o_status ord = Order_PENDING"
    by (simp_all add: ord_def)
  have pos_m: "position m = position s"
    by (simp add: m position_def fun_eq_iff)
  have unbooked: "\<forall>y\<in>set (entries m). order_id y \<noteq> Some (o_id ord)"
    using assms(2) fresh by (auto simp: m ledger_inv_def entries_ok_def entry_ok_def)
  consider (free) "due = 0" "msg = None" "t = set_order ?paid m"
    | (paid) p n where "due \<noteq> 0" "?debit m = Inr (p, n)" "msg = None" "t = set_order ?paid n"
    | (poor) x where "msg = Some x" "t = set_order ?canceled m"
    using rest by (auto simp: Let_def split: if_split_asm sum.split_asm pyerr.split_asm)
  then show ?thesis
  proof cases
    case free
    then show ?thesis
      using row id pos_m by simp
  next
    case (paid p n)
    obtain r c where d: "?debit m = Inr ((r, c), n)"
      using paid(2) by (cases p) auto
    have "0 < due"
      using paid(1) assms(3) by simp
    then have c: c
      by (rule order_debit_created [OF d _ unbooked])
    have "due \<le> position s (u_id u)"
      and "\<forall>k. position n k = position s k - (if k = u_id u then due else 0)"
      using order_debit_position [of "u_id u" due _ _ _ m r n] d c pos_m by simp_all
    moreover have "get_order n (o_id ord) = Some ord"
      using order_debit_frame [OF d] row by (simp add: get_order_def)
    ultimately show ?thesis
      using paid id by simp
  next
    case (poor x)
    have "o_status ?canceled = Order_CANCELED"
      by (simp add: mark_order_canceled_def id)
    then show ?thesis
      using poor row id by (simp add: m)
  qed
qed

subsection \<open>Refunds of VPN orders\<close>

lemma revoke_user_id: "u_id (revoke_user v ord now) = u_id v"
  by (cases "o_metadata ord ''previous_subscription_end''")
    (simp_all add: revoke_user_def restore_previous_def split: json.split)

text \<open>C27. A refund undoes the order it follows: when an order of at least one day is fulfilled for a user
  whose subscription was running, and is taken back with nothing in between, the subscription ends
  when it would have ended; for a change of tariff, whenever it is taken back, the tariff and the
  device limit are what they were too, and for any other order it is taken back before the old end.\<close>

theorem refund_restores_subscription:
  assumes "fulfill_standard u ord now s = (ord', s1)" and "get_user s (u_id u) = Some u"
    and "subscription_end u = Some stop" and "now \<le> stop" and "0 < duration_days ord"
    and "o_metadata ord ''is_tariff_change'' = (if change then Some (JBool True) else None)"
    and "change \<longrightarrow> (\<exists>i. current_tariff_id u = Some i \<and> i \<noteq> 0)" and "\<not> change \<longrightarrow> later < stop"
    and "get_user s1 (u_id u) = Some u1"
  shows "\<exists>u2. get_user (revoke_standard u1 ord' later s1) (u_id u) = Some u2
    \<and> subscription_end u2 = subscription_end u
    \<and> (change \<longrightarrow> current_tariff_id u2 = current_tariff_id u \<and> u_device_limit u2 = u_device_limit u)"
proof -
  let ?ord = "ord\<lparr>o_metadata := remember u (o_metadata ord)\<rparr>"
  have sync: "get_user (sync_access_state v n m) = get_user m" for v n m
    by (simp add: sync_access_state_def Let_def get_user_def fun_eq_iff split: option.split)
  have ord': "ord' = ?ord" and s1: "s1 = sync_access_state (grant_standard u ?ord now) now
      (set_user (grant_standard u ?ord now) (set_order ?ord s))"
    using assms(1) by (auto simp: fulfill_standard_def Let_def)
  have id: "u_id (grant_standard u ?ord now) = u_id u"
    by (simp add: grant_standard_def reset_notifications_def)
  have u1: "u1 = grant_standard u ?ord now"
    using assms(2,9) id by (simp add: s1 sync)
  let ?u2 = "revoke_user u1 ord' later"
  have u2_id: "u_id ?u2 = u_id u"
    using id by (simp add: revoke_user_id u1)
  have stored: "get_user (revoke_standard u1 ord' later s1) (u_id u) = Some ?u2"
    using assms(9) u2_id by (simp add: revoke_standard_def Let_def sync)
  show ?thesis
  proof (cases change)
    case True
    then obtain i where i: "current_tariff_id u = Some i" "i \<noteq> 0"
      using assms(7) by blast
    have "meta_truthy (o_metadata ord') ''is_tariff_change''"
      "meta_truthy (o_metadata ord') ''previous_subscription_end''"
      using assms(3,6) True i by (simp_all add: ord' remember_def meta_truthy_def Let_def)
    then show ?thesis
      using stored assms(3) i True
      by (simp add: revoke_user_def restore_previous_def ord' remember_def Let_def)
  next
    case False
    have "\<not> meta_truthy (o_metadata ord') ''is_tariff_change''"
      using assms(6) False by (simp add: ord' remember_def meta_truthy_def Let_def split: option.split)
    then have "subscription_end ?u2 = revoked_end u1 ord' later"
      and "subscription_end u1 = Some (stop + days_us (duration_days ord))"
      using assms(3-5) by (simp_all add: revoke_user_def u1 grant_standard_def reset_notifications_def
          granted_end_def ord' max_def)
    then show ?thesis
      using stored assms(3,5,8) False by (simp add: revoked_end_def ord')
  qed
qed

subsection \<open>Refunds of device slots\<close>

lemma get_wi_by_user_id_row:
  assumes "get_wi_by_user_id uid s = Some w"
  shows "get_wi_row (w_id w) s \<noteq> None"
proof -
  have "w \<in> set (wi_subs s)"
    using assms
    by (auto simp: get_wi_by_user_id_def split: if_split_asm list.split_asm)
      (metis filter_is_subset list.set_intros(1) set_sort subsetD)
  then show ?thesis
    unfolding get_wi_row_def by (metis (mono_tags, lifting) find_NoneD)
qed

text \<open>The refund of a device slot keeps the slot: an order for a slot as the checkout makes it carries
  traffic and no days, which the revocation takes for a pack of traffic before it asks for a slot,
  so the traffic is taken back and the device limit stays raised.\<close>

theorem slot_refund_keeps_slot:
  assumes "service_type ord = WHITE_INTERNET" and "operation_is ord ''add_device_slot''"
    and "0 < traffic_bytes ord" and "duration_days ord = 0"
    and "get_user s (o_user_id ord) = Some u" and "get_wi_by_user_id (u_id u) s = Some w"
    and "revoke_order e ord s = Inr (x, t)"
  shows "\<exists>v. get_wi_row (w_id w) t = Some v \<and> w_device_limit v = w_device_limit w
    \<and> extra_traffic_bytes v = max 0 (extra_traffic_bytes w - traffic_bytes ord)"
proof -
  let ?v = "w\<lparr>extra_traffic_bytes := max 0 (extra_traffic_bytes w - traffic_bytes ord),
     desired_version := desired_version w + 1\<rparr>"
  obtain y where "save_wi ?v s = Inr (y, t)"
    using assms by (auto simp: revoke_order_def is_standard_def revoke_white_internet_def
        looks_like_topup_def returned)
  then have "get_wi_row (w_id w) t = Some ?v"
    using get_wi_row_save [of ?v s y t] get_wi_by_user_id_row [OF assms(6)] by simp
  then show ?thesis by simp
qed

subsection \<open>The properties on a concrete subscription\<close>

definition sample_wi :: wi_sub where
  "sample_wi = (fst (projr (create_white_internet_subscription 1 7 ''tok'' ''uuid'' 30 1000 False 0
     sample_db)))\<lparr>w_status := WI_ACTIVE\<rparr>"

definition wi_db :: db where
  "wi_db = funded_db\<lparr>wi_subs := [sample_wi], wi_seq := 1\<rparr>"

lemma sample_wi_row: "get_wi_by_id 1 wi_db = Some sample_wi"
  by code_simp

lemma sample_wi_snapshot: "last_downlink_snapshot sample_wi = 0" "traffic_used_bytes sample_wi = 0"
  by code_simp+

theorem registration_within_limit_witness:
  "\<exists>n limit t w. register_hwid_atomic 1 ''phone'' 1 48 [] 0 wi_db = Inr ((True, n, limit), t)
     \<and> get_wi_row 1 t = Some w \<and> ''phone'' \<in> set (map fst (w_active_hwids w)) \<and> limit = 1"
proof -
  have "\<exists>r t. register_hwid_atomic 1 ''phone'' 1 48 [] 0 wi_db = Inr (r, t) \<and> fst r
      \<and> snd (snd r) = 1 \<and> get_wi_row 1 t \<noteq> None \<and> take 128 (py_strip ''phone'') = ''phone''"
    unfolding returns [symmetric] by code_simp
  then obtain n t w where "register_hwid_atomic 1 ''phone'' 1 48 [] 0 wi_db = Inr ((True, n, 1), t)"
    "get_wi_row 1 t = Some w" "take 128 (py_strip ''phone'') = ''phone''"
    by (auto simp: prod_eq_iff)
  with registration_within_limit [OF this(1,2)] show ?thesis
    by auto
qed

theorem renewal_bounded_witness:
  "\<exists>v t. renew_subscription_atomic 1 30 None 60 0 wi_db = Inr (v, t)
     \<and> expires_at v \<le> days_us 60 \<and> traffic_used_bytes v = 0"
proof -
  have "\<exists>v t. renew_subscription_atomic 1 30 None 60 0 wi_db = Inr (v, t) \<and> w_id v = 1"
    unfolding returns [symmetric] by code_simp
  then obtain v t where run: "renew_subscription_atomic 1 30 None 60 0 wi_db = Inr (v, t)"
    by blast
  from renewal_bounded [OF run] run show ?thesis
    by auto
qed

theorem metering_telescopes_witness:
  "\<exists>t v. report_all 1 ''e'' [(5, 1000), (5, 1000)] wi_db = Inr ((), t)
     \<and> get_wi_by_id 1 t = Some v \<and> traffic_used_bytes v = 1000"
proof -
  have "\<exists>x t. report_all 1 ''e'' [(5, 1000), (5, 1000)] wi_db = Inr (x, t) \<and> wi_seq t = 1"
    unfolding returns [symmetric] by code_simp
  then obtain t where run: "report_all 1 ''e'' [(5, 1000), (5, 1000)] wi_db = Inr ((), t)"
    by auto
  from metering_telescopes [OF run sample_wi_row] run show ?thesis
    by (auto simp: sample_wi_snapshot)
qed

definition bob :: user where
  "bob = sample_user 1 None"

theorem checkout_all_or_nothing_witness:
  "\<exists>t t'. checkout_wallet_order sample_env bob WHITE_INTERNET None 250 30 0 (Some 1) ''buy'' False
       (\<lambda>_ _ _. OK_TEXT) funded_db = Inr (None, t) \<and> position t 1 = 800
     \<and> checkout_wallet_order sample_env bob WHITE_INTERNET None 2000 30 0 (Some 1) ''buy'' False
       (\<lambda>_ _ _. OK_TEXT) funded_db = Inr (Some OK_TEXT, t') \<and> entries t' = entries funded_db"
proof -
  have "\<exists>r t. checkout_wallet_order sample_env bob WHITE_INTERNET None 250 30 0 (Some 1) ''buy'' False
       (\<lambda>_ _ _. OK_TEXT) funded_db = Inr (r, t) \<and> r = None"
    "\<exists>r t. checkout_wallet_order sample_env bob WHITE_INTERNET None 2000 30 0 (Some 1) ''buy'' False
       (\<lambda>_ _ _. OK_TEXT) funded_db = Inr (r, t) \<and> r = Some OK_TEXT"
    unfolding returns [symmetric] by code_simp+
  then obtain t t' where
    ok: "checkout_wallet_order sample_env bob WHITE_INTERNET None 250 30 0 (Some 1) ''buy'' False
       (\<lambda>_ _ _. OK_TEXT) funded_db = Inr (None, t)"
    and poor: "checkout_wallet_order sample_env bob WHITE_INTERNET None 2000 30 0 (Some 1) ''buy'' False
       (\<lambda>_ _ _. OK_TEXT) funded_db = Inr (Some OK_TEXT, t')"
    by blast
  have whole: "is_whole 250" "is_whole 2000"
    by (simp_all add: is_whole_def)
  have "position t 1 = 800"
    using checkout_all_or_nothing [OF ok funded_inv _ whole(1)] funded_facts
    by (simp add: bob_def sample_user_def)
  moreover have "entries t' = entries funded_db"
    using checkout_all_or_nothing [OF poor funded_inv _ whole(2)] by simp
  ultimately show ?thesis
    using ok poor by blast
qed

definition month_order :: order where
  "month_order = (sample_order ''vpn-1'' 1 STANDARD 300 Order_PAID)\<lparr>duration_days := 30\<rparr>"

definition subscriber :: user where
  "subscriber = (sample_user 1 None)\<lparr>subscription_end := Some 500\<rparr>"

theorem refund_restores_subscription_witness:
  "\<exists>ord' s1 u1 u2. fulfill_standard subscriber month_order 100 (set_user subscriber sample_db) = (ord', s1)
     \<and> get_user s1 1 = Some u1 \<and> get_user (revoke_standard u1 ord' 200 s1) 1 = Some u2
     \<and> subscription_end u2 = Some 500"
proof -
  obtain ord' s1 where run: "fulfill_standard subscriber month_order 100 (set_user subscriber sample_db) = (ord', s1)"
    by (cases "fulfill_standard subscriber month_order 100 (set_user subscriber sample_db)")
  have "get_user (snd (fulfill_standard subscriber month_order 100 (set_user subscriber sample_db))) 1 \<noteq> None"
    by code_simp
  then obtain u1 where u1: "get_user s1 1 = Some u1"
    using run by auto
  have "u_id subscriber = 1" and row: "get_user (set_user subscriber sample_db) 1 = Some subscriber"
    by (simp_all add: subscriber_def sample_user_def get_user_def set_user_def sample_db_def)
  then have "\<exists>u2. get_user (revoke_standard u1 ord' 200 s1) (u_id subscriber) = Some u2
      \<and> subscription_end u2 = subscription_end subscriber
      \<and> (False \<longrightarrow> current_tariff_id u2 = current_tariff_id subscriber
           \<and> u_device_limit u2 = u_device_limit subscriber)"
    using u1 by (intro refund_restores_subscription [OF run, of 500])
      (simp_all add: subscriber_def month_order_def sample_order_def)
  then show ?thesis
    using run u1 \<open>u_id subscriber = 1\<close> by (auto simp: subscriber_def)
qed

definition slot_order :: order where
  "slot_order = (sample_order ''slot-1'' 1 WHITE_INTERNET 100 Order_REFUNDED)
     \<lparr>traffic_bytes := WHITE_INTERNET_EXTRA_DEVICE_TRAFFIC_BYTES, o_device_limit := Some 2,
      o_metadata := [''operation'' \<mapsto> JStr ''add_device_slot'']\<rparr>"

definition slot_db :: db where
  "slot_db = wi_db\<lparr>wi_subs := [sample_wi\<lparr>w_device_limit := 2\<rparr>]\<rparr>"

theorem slot_refund_keeps_slot_witness:
  "\<exists>x t v. revoke_order sample_env slot_order slot_db = Inr (x, t) \<and> get_wi_row 1 t = Some v
     \<and> w_device_limit v = 2"
proof -
  have "\<exists>x t. revoke_order sample_env slot_order slot_db = Inr (x, t) \<and> wi_seq t = 1"
    unfolding returns [symmetric] by code_simp
  then obtain x t where run: "revoke_order sample_env slot_order slot_db = Inr (x, t)"
    by blast
  have "case get_user slot_db (o_user_id slot_order) of None \<Rightarrow> False | Some u \<Rightarrow> u_id u = 1"
    by code_simp
  then obtain u where user: "get_user slot_db (o_user_id slot_order) = Some u" and u: "u_id u = 1"
    by (auto split: option.split_asm)
  have w: "get_wi_by_user_id 1 slot_db = Some (sample_wi\<lparr>w_device_limit := 2\<rparr>)" "w_id sample_wi = 1"
    by code_simp+
  have "\<exists>v. get_wi_row (w_id (sample_wi\<lparr>w_device_limit := 2\<rparr>)) t = Some v
      \<and> w_device_limit v = w_device_limit (sample_wi\<lparr>w_device_limit := 2\<rparr>)
      \<and> extra_traffic_bytes v = max 0 (extra_traffic_bytes (sample_wi\<lparr>w_device_limit := 2\<rparr>)
          - traffic_bytes slot_order)"
    using w(1) u by (intro slot_refund_keeps_slot [OF _ _ _ _ user _ run])
      (simp_all add: slot_order_def sample_order_def operation_is_def
        WHITE_INTERNET_EXTRA_DEVICE_TRAFFIC_BYTES_def)
  with run w(2) show ?thesis by auto
qed

end
