(* ===== verification/Access_Theorems.thy ===== *)
theory Access_Theorems
  imports Subscription Samples
begin

section \<open>Properties of referral links and VPN access\<close>

text \<open>
  Onboarding with a referral link never closes a cycle of inviters, and after an extension
  the state of the user's VPN credentials agrees with the user's right of access.
\<close>

subsection \<open>Chains of inviters\<close>

text \<open>The inviter of a registered user that is not deleted.\<close>

definition inviter :: "db \<Rightarrow> int \<Rightarrow> int \<Rightarrow> bool" where
  "inviter s a b \<longleftrightarrow>
     (\<exists>u. get_user_by_telegram_id a s = Some u \<and> referred_by u = Some b \<and> b \<noteq> 0)"

lemma no_inviter_0: "\<not> inviter s 0 b"
  by (simp add: inviter_def get_user_by_telegram_id_def)

lemma inviter_unique: "inviter s a b \<Longrightarrow> inviter s a c \<Longrightarrow> b = c"
  by (auto simp: inviter_def)

text \<open>Whatever is above a chain that passed the loop was not visited before.\<close>

lemma chain_ok_reach:
  assumes "chain_ok s visited a n" and "(inviter s)\<^sup>*\<^sup>* a b"
  shows "b = a \<or> b \<notin> set visited"
  using assms
proof (induction s visited a n rule: chain_ok.induct)
  case (1 s visited current)
  then show ?case
    by (auto elim: converse_rtranclpE simp: no_inviter_0)
next
  case (2 s visited current n)
  from 2(3) show ?case
  proof (cases rule: converse_rtranclpE)
    case base
    then show ?thesis by simp
  next
    case (step c)
    then obtain u where u: "get_user_by_telegram_id current s = Some u" "referred_by u = Some c" "c \<noteq> 0"
      by (auto simp: inviter_def)
    have "current \<noteq> 0"
      using step(1) no_inviter_0 by blast
    then have c: "c \<notin> set visited" "chain_ok s (c # visited) c n"
      using 2(2) u by (auto split: if_split_asm)
    have "b = c \<or> b \<notin> set (c # visited)"
      by (rule 2(1) [OF _ u(1,2)]) (use \<open>current \<noteq> 0\<close> u(3) c step(2) in auto)
    then show ?thesis
      using c(1) by auto
  qed
qed

lemma valid_link:
  assumes "validate_referral tid r s"
  shows "r \<noteq> tid \<and> \<not> (inviter s)\<^sup>*\<^sup>* r tid"
  using assms chain_ok_reach [of s "[r, tid]" r MAX_REFERRAL_CHAIN_DEPTH tid]
  by (auto simp: validate_referral_def split: if_split_asm option.split_asm)

abbreviation no_cycle :: "db \<Rightarrow> bool" where
  "no_cycle s \<equiv> \<forall>x. \<not> (inviter s)\<^sup>+\<^sup>+ x x"

text \<open>One link more closes no cycle when its user is not above the linked inviter.\<close>

lemma one_link_more:
  assumes "no_cycle s" and "\<And>a b. inviter t a b \<Longrightarrow> inviter s a b \<or> a = tid \<and> b = r"
    and "\<not> (inviter s)\<^sup>*\<^sup>* r tid"
  shows "no_cycle t"
proof -
  have "(inviter s)\<^sup>+\<^sup>+ x y \<or> (inviter s)\<^sup>*\<^sup>* x tid \<and> (inviter s)\<^sup>*\<^sup>* r y" if "(inviter t)\<^sup>+\<^sup>+ x y" for x y
    using that
  proof (induction rule: tranclp_induct)
    case (base y)
    then show ?case
      using assms(2) by blast
  next
    case (step y z)
    then show ?case
      using assms(2) [OF step(2)] by (meson rtranclp.simps tranclp.simps tranclp_into_rtranclp)
  qed
  then show ?thesis
    using assms(1,3) by (meson rtranclp_trans)
qed

lemma no_link_more:
  assumes "no_cycle s" and "\<And>a b. inviter t a b \<Longrightarrow> inviter s a b"
  shows "no_cycle t"
proof -
  have "(inviter s)\<^sup>+\<^sup>+ x y" if "(inviter t)\<^sup>+\<^sup>+ x y" for x y
    using that by (induction rule: tranclp_induct) (blast intro: assms(2) tranclp.trancl_into_trancl)+
  with assms(1) show ?thesis
    by blast
qed

lemma inviter_users: "users t = users s \<Longrightarrow> inviter t = inviter s"
  by (simp add: inviter_def get_user_by_telegram_id_def fun_eq_iff)

text \<open>What writing the row of a registered user over changes of the links.\<close>

lemma links_of_set_user:
  assumes "distinct (map u_id (users s))" and "get_user_by_telegram_id_any tid s = Some u"
    and "u_id u' = u_id u" and "telegram_id u' = telegram_id u" and "is_deleted u' = is_deleted u"
    and "inviter (set_user u' s) a b"
  shows "inviter s a b \<or> a = tid \<and> referred_by u' = Some b \<and> referred_by u' \<noteq> referred_by u"
proof -
  have u: "u \<in> set (users s)" "telegram_id u = tid"
    using assms(2) by (auto simp: get_user_by_telegram_id_any_def dest: find_SomeD split: if_split_asm)
  have "v = u" if "v \<in> set (users s)" "u_id v = u_id u" for v
    using assms(1) u(1) that by (auto simp: distinct_map dest: inj_onD)
  then have "users (set_user u' s) = update_rows (\<lambda>v. v = u) (\<lambda>_. u') (users s)"
    unfolding set_user_def update_rows_def assms(3) by (auto intro!: map_cong)
  moreover have "find (\<lambda>v. telegram_id v = a \<and> \<not> is_deleted v) (update_rows (\<lambda>v. v = u) (\<lambda>_. u') (users s))
      = map_option (\<lambda>v. if v = u then u' else v) (find (\<lambda>v. telegram_id v = a \<and> \<not> is_deleted v) (users s))"
    by (rule find_update_rows) (use assms(4,5) in auto)
  ultimately obtain v where v: "find (\<lambda>v. telegram_id v = a \<and> \<not> is_deleted v) (users s) = Some v"
    "referred_by (if v = u then u' else v) = Some b" "b \<noteq> 0" "\<not> (a < 1 \<or> MAX_INT64 < a)"
    using assms(6) by (auto simp: inviter_def get_user_by_telegram_id_def split: if_split_asm)
  show ?thesis
  proof (cases "v = u")
    case True
    then have "a = tid" "referred_by u' = Some b"
      using v u(2) by (auto dest: find_SomeD)
    moreover have "inviter s a b" if "referred_by u = Some b"
      using v that True by (simp add: inviter_def get_user_by_telegram_id_def)
    ultimately show ?thesis
      by auto
  next
    case False
    then show ?thesis
      using v by (auto simp: inviter_def get_user_by_telegram_id_def)
  qed
qed

lemma set_user_any:
  assumes "distinct (map u_id (users s))" and "get_user_by_telegram_id_any tid s = Some u"
    and "u_id u' = u_id u" and "telegram_id u' = telegram_id u"
  shows "get_user_by_telegram_id_any tid (set_user u' s) = Some u'"
proof -
  have u: "u \<in> set (users s)" "telegram_id u = tid"
    using assms(2) by (auto simp: get_user_by_telegram_id_any_def dest: find_SomeD split: if_split_asm)
  have "v = u" if "v \<in> set (users s)" "u_id v = u_id u" for v
    using assms(1) u(1) that by (auto simp: distinct_map dest: inj_onD)
  then have "users (set_user u' s) = update_rows (\<lambda>v. v = u) (\<lambda>_. u') (users s)"
    unfolding set_user_def update_rows_def assms(3) by (auto intro!: map_cong)
  moreover have "find (\<lambda>v. telegram_id v = tid) (update_rows (\<lambda>v. v = u) (\<lambda>_. u') (users s))
      = map_option (\<lambda>v. if v = u then u' else v) (find (\<lambda>v. telegram_id v = tid) (users s))"
    by (rule find_update_rows) (use assms(4) in auto)
  ultimately show ?thesis
    using assms(2) by (simp add: get_user_by_telegram_id_any_def split: if_split_asm)
qed

lemma refresh_profile_sel [simp]:
  "u_id (refresh_profile n f u) = u_id u" "telegram_id (refresh_profile n f u) = telegram_id u"
  "is_deleted (refresh_profile n f u) = is_deleted u" "referred_by (refresh_profile n f u) = referred_by u"
  by (simp_all add: refresh_profile_def)

lemma onboarding_of_known:
  assumes "distinct (map u_id (users s))" and "get_user_by_telegram_id_any tid s = Some u"
    and "\<not> is_deleted u" and "no_cycle s" and "process_onboarding tid uname fname ref_id now s = (res, t)"
  shows "no_cycle t"
proof -
  let ?u = "refresh_profile uname fname u"
  let ?s = "set_user ?u s"
  have "inviter ?s a b \<Longrightarrow> inviter s a b" for a b
    using links_of_set_user [OF assms(1,2), of ?u] by auto
  then have refreshed: "no_cycle ?s"
    by (rule no_link_more [OF assms(4)])
  show ?thesis
  proof (cases "\<exists>r. ref_id = Some r \<and> referred_by u = None \<and> \<not> has_successful_topup (u_id u) ?s
      \<and> validate_referral tid r ?s")
    case False
    then have "t = ?s"
      using assms(2,3,5) by (auto simp: process_onboarding_def Let_def split: option.split_asm if_split_asm)
    then show ?thesis
      using refreshed by simp
  next
    case True
    then obtain r where r: "ref_id = Some r" "referred_by u = None" "\<not> has_successful_topup (u_id u) ?s"
      "validate_referral tid r ?s"
      by blast
    let ?l = "?u\<lparr>referred_by := Some r\<rparr>"
    have "users t = users (set_user ?l ?s)"
      using assms(2,3,5) r by (auto simp: process_onboarding_def Let_def log_action_def)
    then have links: "inviter t = inviter (set_user ?l ?s)"
      by (rule inviter_users)
    have "map u_id (users ?s) = map u_id (users s)"
      by (simp add: set_user_def) (rule map_update_rows, simp)
    then have "distinct (map u_id (users ?s))"
      using assms(1) by simp
    moreover have "get_user_by_telegram_id_any tid ?s = Some ?u"
      by (rule set_user_any [OF assms(1,2)]) simp_all
    ultimately have "inviter t a b \<Longrightarrow> inviter ?s a b \<or> a = tid \<and> b = r" for a b
      unfolding links using links_of_set_user [of ?s tid ?u ?l a b] by auto
    then show ?thesis
      using one_link_more [OF refreshed] valid_link [OF r(4)] by blast
  qed
qed

lemma onboarding_of_new:
  assumes "get_user_by_telegram_id_any tid s = None" and "no_cycle s"
    and "process_onboarding tid uname fname ref_id now s = (res, t)"
  shows "no_cycle t"
proof -
  define ref where "ref = (case ref_id of None \<Rightarrow> None
      | Some r \<Rightarrow> if validate_referral tid r s then Some r else None)"
  show ?thesis
  proof (cases "create_user tid uname fname ref now s")
    case (Inl err)
    then have "t = s"
      using assms(1,3) by (simp add: process_onboarding_def Let_def ref_def [symmetric])
    then show ?thesis
      using assms(2) by simp
  next
    case (Inr p)
    obtain u where u: "users (snd p) = users s @ [u]" "telegram_id u = tid" "referred_by u = ref"
      using Inr by (auto simp: create_user_def Let_def split: if_split_asm)
    have "users t = users s @ [u]"
      using assms(1,3) Inr u(1) by (cases p) (auto simp: process_onboarding_def Let_def ref_def [symmetric] log_action_def)
    then have links: "inviter t a b \<Longrightarrow> inviter s a b \<or> a = tid \<and> ref = Some b" for a b
      using u(2,3)
      by (auto simp: inviter_def get_user_by_telegram_id_def find_append split: option.split_asm if_split_asm)
    show ?thesis
    proof (cases ref)
      case None
      then show ?thesis
        using no_link_more [OF assms(2)] links by simp
    next
      case (Some r)
      then have "validate_referral tid r s"
        by (auto simp: ref_def split: option.split_asm if_split_asm)
      then show ?thesis
        using one_link_more [OF assms(2), of t tid r] links Some valid_link by auto
    qed
  qed
qed

text \<open>C30. Onboarding closes no cycle of invitations: when no user is his own direct or indirect inviter,
  none is after anybody, new or registered, was onboarded with any invitation link.  The chains go
  through users that are not deleted, as those of the code do, and the onboarded user is not one that
  comes back from deletion.\<close>

theorem accepted_referral_is_acyclic:
  assumes "process_onboarding tid uname fname ref_id now s = (res, t)"
    and "\<forall>x. \<not> (inviter s)\<^sup>+\<^sup>+ x x"
    and "distinct (map u_id (users s))"
    and "\<not> (\<exists>u. get_user_by_telegram_id_any tid s = Some u \<and> is_deleted u)"
  shows "\<not> (inviter t)\<^sup>+\<^sup>+ x x"
  using onboarding_of_known [OF assms(3) _ _ assms(2,1)] onboarding_of_new [OF _ assms(2,1)] assms(4)
  by (cases "get_user_by_telegram_id_any tid s") auto

lemma sample_links: "inviter sample_db a b \<longleftrightarrow> a = 1002 \<and> b = 1001"
  by (auto simp: inviter_def get_user_by_telegram_id_def sample_db_def sample_user_def MAX_INT64_def
      split: if_split_asm)

lemma sample_no_cycle: "no_cycle sample_db"
proof -
  have "x = 1002 \<and> y = 1001" if "(inviter sample_db)\<^sup>+\<^sup>+ x y" for x y
    using that by (induction rule: tranclp_induct) (auto simp: sample_links)
  then show ?thesis
    by fastforce
qed

text \<open>User 2, invited by user 1, invites a new user; user 1 cannot be linked to user 2.\<close>

theorem accepted_referral_is_acyclic_witness:
  "\<exists>res t. process_onboarding 1003 None None (Some 1002) 0 sample_db = (res, t)
     \<and> inviter t 1003 1002 \<and> \<not> (inviter t)\<^sup>+\<^sup>+ 1003 1003
     \<and> \<not> validate_referral 1001 1002 sample_db"
proof -
  obtain res t where run: "process_onboarding 1003 None None (Some 1002) 0 sample_db = (res, t)"
    by fastforce
  have "case get_user_by_telegram_id 1003 (snd (process_onboarding 1003 None None (Some 1002) 0 sample_db)) of
      None \<Rightarrow> False | Some u \<Rightarrow> referred_by u = Some 1002"
    and refused: "\<not> validate_referral 1001 1002 sample_db"
    by code_simp+
  then have link: "inviter t 1003 1002"
    using run by (auto simp: inviter_def split: option.split_asm)
  have "distinct (map u_id (users sample_db))"
    and "\<not> (\<exists>u. get_user_by_telegram_id_any 1003 sample_db = Some u \<and> is_deleted u)"
    by (simp_all add: sample_db_def sample_user_def get_user_by_telegram_id_any_def)
  from accepted_referral_is_acyclic [OF run sample_no_cycle this, of 1003] link refused run show ?thesis
    by blast
qed

subsection \<open>Access\<close>

lemma sync_access_vless:
  assumes "distinct (map v_id (vless_subs s))" and "get_vless_sub (u_id u) (sync_access_state u now s) = Some v"
  shows "v_is_active v = check_vpn_access u now"
proof (cases "get_vless_sub (u_id u) s")
  case None
  then show ?thesis
    using assms(2) by (simp add: sync_access_state_def)
next
  case (Some w)
  let ?active = "check_vpn_access u now"
  let ?w = "w\<lparr>v_is_active := ?active, version := (if version w = 0 then 1 else version w) + 1\<rparr>"
  have w: "w \<in> set (vless_subs s)" "v_user_id w = u_id u"
    using Some by (auto simp: get_vless_sub_def dest: find_SomeD)
  have same: "x = w" if "x \<in> set (vless_subs s)" "v_id x = v_id w" for x
    using assms(1) w(1) that by (auto simp: distinct_map dest: inj_onD)
  show ?thesis
  proof (cases "v_is_active w = ?active")
    case True
    then show ?thesis
      using Some assms(2) by (simp add: sync_access_state_def Let_def)
  next
    case False
    let ?rows = "update_rows (\<lambda>x. v_id x = v_id w) (\<lambda>_. ?w) (vless_subs s)"
    have "?rows = update_rows (\<lambda>x. x = w) (\<lambda>_. ?w) (vless_subs s)"
      unfolding update_rows_def using same by (intro map_cong) auto
    moreover have "find (\<lambda>x. v_user_id x = u_id u) (update_rows (\<lambda>x. x = w) (\<lambda>_. ?w) (vless_subs s))
        = map_option (\<lambda>x. if x = w then ?w else x) (find (\<lambda>x. v_user_id x = u_id u) (vless_subs s))"
      by (rule find_update_rows) (simp add: w(2))
    ultimately have "get_vless_sub (u_id u) (sync_access_state u now s) = Some ?w"
      using Some False by (simp add: sync_access_state_def Let_def get_vless_sub_def)
    then show ?thesis
      using assms(2) by simp
  qed
qed

text \<open>An extension is exact and takes effect: a returned extension adds exactly the days to the later
  of now and the old end (or sets the permanent end), never leaves more devices than the new
  limit allows, and leaves the VPN credentials active exactly when the user has access.\<close>

theorem extension_exact:
  assumes "extend_subscription tid days new_limit new_tariff now s = Inr (Some u, t)"
    and "distinct (map v_id (vless_subs s))"
  shows "\<exists>old. old \<in> set (users s) \<and> telegram_id old = tid \<and> \<not> is_deleted old
    \<and> subscription_end u =
        (if days = 0 then subscription_end old
         else if PERMANENT_SUBSCRIPTION_DAYS \<le> days then Some PERMANENT_END_DATE
         else Some (max now (case subscription_end old of None \<Rightarrow> now | Some e \<Rightarrow> e) + days_us days))
    \<and> (\<forall>l. new_limit = Some l \<longrightarrow> int (get_active_hwid_count (u_id u) now s) \<le> l)
    \<and> (\<forall>v. get_vless_sub (u_id u) t = Some v \<longrightarrow> v_is_active v = check_vpn_access u now)"
proof -
  obtain old where old: "find (\<lambda>u. telegram_id u = tid \<and> \<not> is_deleted u) (users s) = Some old"
    and t: "t = sync_access_state u now (set_user u s)" and id: "u_id u = u_id old"
    and sub_end: "subscription_end u =
        (if days = 0 then subscription_end old
         else if PERMANENT_SUBSCRIPTION_DAYS \<le> days then Some PERMANENT_END_DATE
         else Some ((case subscription_end old of Some e \<Rightarrow> if now < e then e else now | None \<Rightarrow> now)
                + days_us days))"
    and cap: "\<forall>l. new_limit = Some l \<longrightarrow> int (get_active_hwid_count (u_id old) now s) \<le> l"
    using assms(1)
    by (auto simp: extend_subscription_def Let_def reset_notifications_def not_less
        split: if_split_asm option.split_asm)
  have "v_is_active v = check_vpn_access u now" if "get_vless_sub (u_id u) t = Some v" for v
    using sync_access_vless [of "set_user u s" u now v] assms(2) that t by (simp add: set_user_def)
  then show ?thesis
    using find_SomeD [OF old] sub_end cap id
    by (intro exI [of _ old]) (auto simp: max_def split: option.split)
qed

definition vless_db :: db where
  "vless_db = sample_db\<lparr>vless_subs := [\<lparr>v_id = 1, v_user_id = 1, v_token = ''t'', v_uuid = ''u'',
     v_is_active = False, version = 1, v_active_hwids = [], pending_revoked_uuids = [],
     traffic_down = 0, traffic_up = 0, node_traffic_snapshots = Map.empty, v_last_synced_at = None,
     last_synced_version = 0, v_created_at = 0\<rparr>]\<rparr>"

theorem extension_exact_witness:
  "\<exists>u t v. extend_subscription 1001 30 (Some 3) (Some 1) 0 vless_db = Inr (Some u, t)
     \<and> subscription_end u = Some (days_us 30) \<and> get_vless_sub (u_id u) t = Some v \<and> v_is_active v"
proof -
  have "case extend_subscription 1001 30 (Some 3) (Some 1) 0 vless_db of
      Inr (Some u, t) \<Rightarrow> get_vless_sub (u_id u) t \<noteq> None \<and> check_vpn_access u 0
        \<and> subscription_end u = Some (days_us 30)
    | _ \<Rightarrow> False"
    by code_simp
  then obtain u t v where run: "extend_subscription 1001 30 (Some 3) (Some 1) 0 vless_db = Inr (Some u, t)"
    and v: "get_vless_sub (u_id u) t = Some v" and ok: "check_vpn_access u 0"
    and sub_end: "subscription_end u = Some (days_us 30)"
    by (auto split: sum.split_asm option.split_asm)
  have "distinct (map v_id (vless_subs vless_db))"
    by (simp add: vless_db_def)
  from extension_exact [OF run this] v ok have "v_is_active v"
    by blast
  with run v sub_end show ?thesis by blast
qed

end
