(* ===== verification/VLESS_Theorems.thy ===== *)
theory VLESS_Theorems
  imports VLESS Samples
begin

section \<open>Properties of the VLESS credentials\<close>

text \<open>
  Traffic is billed once, to the credentials and to the user alike; a revoked UUID stays in the
  outbox until its node confirmed.
\<close>

lemma get_vless_row_id: "get_vless_row i s = Some v \<Longrightarrow> v_id v = i"
  by (auto simp: get_vless_row_def dest: find_SomeD)

lemma get_vless_row_set:
  "get_vless_row i s \<noteq> None \<Longrightarrow> v_id v = i \<Longrightarrow> get_vless_row i (set_vless v s) = Some v"
proof -
  assume "get_vless_row i s \<noteq> None" and i: "v_id v = i"
  moreover have "find (\<lambda>w. v_id w = v_id v) (update_rows (\<lambda>w. v_id w = v_id v) (\<lambda>_. v) xs) =
      map_option (\<lambda>_. v) (find (\<lambda>w. v_id w = v_id v) xs)" for xs
    by (induction xs) auto
  ultimately show ?thesis
    by (auto simp: get_vless_row_def set_vless_def)
qed

lemma get_vless_row_users [simp]: "get_vless_row i (s\<lparr>users := us\<rparr>) = get_vless_row i s"
  by (simp add: get_vless_row_def)

lemma set_vless_users [simp]: "users (set_vless v s) = users s"
  by (simp add: set_vless_def)

lemma get_user_billed:
  assumes "get_user s j = Some u"
  shows "get_user (s\<lparr>users := update_rows (\<lambda>u. u_id u = i) (bill_vless d now) (users s)\<rparr>) j =
    Some (if j = i then bill_vless d now u else u)"
proof -
  have "find (\<lambda>u. u_id u = j) (update_rows (\<lambda>u. u_id u = i) (bill_vless d now) (users s))
      = map_option (\<lambda>u. if u_id u = i then bill_vless d now u else u) (find (\<lambda>u. u_id u = j) (users s))"
    by (rule find_update_rows) (simp add: bill_vless_def Let_def)
  then show ?thesis
    using assms get_user_id [OF assms] by (simp add: get_user_def)
qed

text \<open>What a report writes, if it writes.\<close>

definition reported :: "vless_sub \<Rightarrow> string \<Rightarrow> string \<Rightarrow> int \<Rightarrow> int \<Rightarrow> int \<Rightarrow> int \<Rightarrow> instant \<Rightarrow> vless_sub" where
  "reported v node epoch up down du dd now =
     v\<lparr>traffic_up := traffic_up v + du, traffic_down := traffic_down v + dd,
       node_traffic_snapshots := (node_traffic_snapshots v)(node \<mapsto>
         JObj [(''epoch'', JStr epoch), (''up'', JInt up), (''down'', JInt down),
               (''updated_at'', JInt (now div 1000000))])\<rparr>"

lemma record_vlessE:
  assumes "record_vless_traffic_atomic i srv epoch ru rd None now s = Inr ((d, dd, du), t)"
    and "get_vless_row i s = Some v"
  obtains (unchanged) "d = 0" "t = s"
      "\<And>n. record_vless_traffic_atomic i srv epoch ru rd None n s = Inr ((0, 0, 0), s)"
  | (written) "0 \<le> dd" "0 \<le> du" "d = du + dd"
      "t = (let m = set_vless (reported v (str_int srv) epoch (max 0 ru) (max 0 rd) du dd now) s in
            if 0 < d then m\<lparr>users := update_rows (\<lambda>u. u_id u = v_user_id v) (bill_vless d now) (users m)\<rparr>
            else m)"
proof -
  let ?snaps = "node_traffic_snapshots v" and ?node = "str_int srv"
  obtain pu pd where p: "snap_count (?snaps ?node) ''up'' = Inr pu" "snap_count (?snaps ?node) ''down'' = Inr pd"
    using assms by (auto simp: record_vless_traffic_atomic_def Let_def split: sum.split_asm)
  have run: "du = grown ?snaps ?node (JStr epoch) pu (max 0 ru)" "dd = grown ?snaps ?node (JStr epoch) pd (max 0 rd)"
    "d = du + dd"
    using assms p by (auto simp: record_vless_traffic_atomic_def Let_def split: if_split_asm)
  let ?stored = "0 < d \<or> snap_epoch (?snaps ?node) \<noteq> JStr epoch \<or> pu \<noteq> max 0 ru \<or> pd \<noteq> max 0 rd
      \<or> ?snaps ?node = None"
  let ?v = "reported v ?node epoch (max 0 ru) (max 0 rd) du dd"
  have pos: "0 \<le> du" "0 \<le> dd"
    using run by (simp_all add: grown_def)
  have eq: "record_vless_traffic_atomic i srv epoch ru rd None n s =
      (if ?stored then Inr ((d, dd, du),
         if 0 < d then (set_vless (?v n) s)\<lparr>users :=
              update_rows (\<lambda>u. u_id u = v_user_id v) (bill_vless d n) (users (set_vless (?v n) s))\<rparr>
         else set_vless (?v n) s)
       else Inr ((d, dd, du), s))" for n
    unfolding record_vless_traffic_atomic_def Let_def assms(2) option.case p sum.case
      run(1,2) [symmetric] run(3) [symmetric] reported_def
    by (simp only: if_False)
  show ?thesis
  proof (cases ?stored)
    case True
    then have "t = (if 0 < d then (set_vless (?v now) s)\<lparr>users :=
              update_rows (\<lambda>u. u_id u = v_user_id v) (bill_vless d now) (users (set_vless (?v now) s))\<rparr>
         else set_vless (?v now) s)"
      using assms(1) unfolding eq by simp
    then show ?thesis
      using pos run(3) by (intro written) (simp_all only: Let_def)
  next
    case False
    then have "d = 0" "dd = 0" "du = 0"
      using pos run(3) by auto
    moreover have "record_vless_traffic_atomic i srv epoch ru rd None n s = Inr ((d, dd, du), s)" for n
      unfolding eq using False by (rule if_not_P)
    ultimately show ?thesis
      using assms(1) by (intro unchanged) auto
  qed
qed

text \<open>Traffic is billed once and to both: a report of a node adds the same amount, never negative, to
  the credentials and to their user, and repeating the report adds nothing and changes nothing.\<close>

theorem vless_traffic_billed_once:
  assumes "record_vless_traffic_atomic i srv epoch ru rd None now s = Inr ((d, dd, du), t)"
    and "get_vless_row i s = Some v" and "get_user s (v_user_id v) = Some u"
  shows "\<exists>v' u'. get_vless_row i t = Some v' \<and> get_user t (v_user_id v) = Some u' \<and> 0 \<le> d
    \<and> traffic_up v' + traffic_down v' = traffic_up v + traffic_down v + d
    \<and> total_traffic_bytes u' = total_traffic_bytes u + d
    \<and> record_vless_traffic_atomic i srv epoch ru rd None now' t = Inr ((0, 0, 0), t)"
  using assms(1,2)
proof (cases rule: record_vlessE)
  case unchanged
  then show ?thesis
    using assms(2,3) by auto
next
  case written
  let ?v = "reported v (str_int srv) epoch (max 0 ru) (max 0 rd) du dd now"
  have row: "get_vless_row i t = Some ?v"
    using written(4) get_vless_row_set [of i s ?v] assms(2) get_vless_row_id [OF assms(2)]
    by (simp add: Let_def reported_def)
  have user: "get_user t (v_user_id v) = Some (if 0 < d then bill_vless d now u else u)"
    using written(4) get_user_billed [of "set_vless ?v s" "v_user_id v" u "v_user_id v" d now] assms(3)
    by (auto simp: Let_def get_user_def)
  have "record_vless_traffic_atomic i srv epoch ru rd None now' t = Inr ((0, 0, 0), t)"
    using row by (simp add: record_vless_traffic_atomic_def Let_def reported_def snap_count_def grown_def
        snap_epoch_def)
  then show ?thesis
    using row user written(1-3) by (auto simp: reported_def bill_vless_def Let_def)
qed

text \<open>A revoked client stays revoked: rotating the token replaces the UUID, keeps the old one in the
  outbox of revocations with everything that was there, raises the version, and forgets the devices
  when asked to.\<close>

theorem rotation_keeps_revocations:
  assumes "rotate_token i forget token new_uuid s = Inr ((tok, old, new), t)" and "get_vless_row i s = Some v"
    and "0 \<le> version v"
  shows "\<exists>v'. get_vless_row i t = Some v' \<and> tok = token \<and> v_token v' = token \<and> v_uuid v' = new_uuid
    \<and> old = v_uuid v \<and> set (pending_revoked_uuids v) \<subseteq> set (pending_revoked_uuids v')
    \<and> (v_uuid v = [] \<or> v_uuid v \<in> set (pending_revoked_uuids v'))
    \<and> (distinct (pending_revoked_uuids v) \<longrightarrow> distinct (pending_revoked_uuids v'))
    \<and> version v < version v' \<and> (forget \<longrightarrow> v_active_hwids v' = [])"
proof -
  let ?v = "v\<lparr>v_token := token, v_uuid := new_uuid, version := next_version v,
     node_traffic_snapshots := fresh_snapshots,
     v_active_hwids := (if forget then [] else v_active_hwids v),
     pending_revoked_uuids := add_pending (v_uuid v) (pending_revoked_uuids v)\<rparr>"
  have t: "t = set_vless ?v s" "tok = token" "old = v_uuid v"
    using assms(1,2) by (auto simp: rotate_token_def split: if_split_asm)
  have "get_vless_row i t = Some ?v"
    unfolding t(1) using assms(2) get_vless_row_id [OF assms(2)] by (intro get_vless_row_set) simp_all
  then show ?thesis
    using t(2,3) assms(3) by (auto simp: add_pending_def next_version_def)
qed

definition vless_row :: vless_sub where
  "vless_row = \<lparr>v_id = 1, v_user_id = 1, v_token = ''t'', v_uuid = ''u1'',
     v_is_active = False, version = 1, v_active_hwids = [(''phone'', JNull)], pending_revoked_uuids = [''u0''],
     traffic_down = 0, traffic_up = 0, node_traffic_snapshots = fresh_snapshots, v_last_synced_at = None,
     last_synced_version = 0, v_created_at = 0\<rparr>"

definition billed_db :: db where
  "billed_db = sample_db\<lparr>vless_subs := [vless_row]\<rparr>"

lemma billed_db_rows:
  "get_vless_row 1 billed_db = Some vless_row" "v_user_id vless_row = 1" "traffic_up vless_row = 0"
  "traffic_down vless_row = 0" "get_user billed_db 1 = Some (sample_user 1 None)"
  "total_traffic_bytes (sample_user 1 None) = 0"
  by (simp_all add: billed_db_def vless_row_def get_vless_row_def get_user_def sample_db_def sample_user_def)

theorem vless_traffic_billed_once_witness:
  "\<exists>t v'. record_vless_traffic_atomic 1 5 ''e'' 30 70 None 0 billed_db = Inr ((100, 70, 30), t)
     \<and> get_vless_row 1 t = Some v' \<and> traffic_up v' + traffic_down v' = 100
     \<and> record_vless_traffic_atomic 1 5 ''e'' 30 70 None 9 t = Inr ((0, 0, 0), t)"
proof -
  have "case record_vless_traffic_atomic 1 5 ''e'' 30 70 None 0 billed_db of
      Inl _ \<Rightarrow> False | Inr p \<Rightarrow> fst p = (100, 70, 30)"
    by code_simp
  then obtain t where run: "record_vless_traffic_atomic 1 5 ''e'' 30 70 None 0 billed_db = Inr ((100, 70, 30), t)"
    by (auto split: sum.split_asm)
  show ?thesis
    using vless_traffic_billed_once [OF run billed_db_rows(1), of "sample_user 1 None" 9] run billed_db_rows
    by auto
qed

theorem rotation_keeps_revocations_witness:
  "\<exists>t v'. rotate_token 1 True ''t2'' ''u2'' billed_db = Inr ((''t2'', ''u1'', ''u2''), t)
     \<and> get_vless_row 1 t = Some v' \<and> ''u1'' \<in> set (pending_revoked_uuids v')
     \<and> ''u0'' \<in> set (pending_revoked_uuids v')"
proof -
  have "case rotate_token 1 True ''t2'' ''u2'' billed_db of
      Inl _ \<Rightarrow> False | Inr p \<Rightarrow> fst p = (''t2'', ''u1'', ''u2'')"
    by code_simp
  then obtain t where run: "rotate_token 1 True ''t2'' ''u2'' billed_db = Inr ((''t2'', ''u1'', ''u2''), t)"
    by (auto split: sum.split_asm)
  show ?thesis
    using rotation_keeps_revocations [OF run billed_db_rows(1)] run
    by (auto simp: vless_row_def)
qed

end
