(* ===== verification/Servers_Theorems.thy ===== *)
theory Servers_Theorems
  imports Servers Samples
begin

section \<open>Properties of the node repository\<close>

text \<open>
  A move of an origin node takes every subscription along, within the capacity of the target,
  and leaves one cleanup per credential behind; the generation of a node only moves forward.
\<close>

lemma get_server_id: "get_server s i = Some srv \<Longrightarrow> s_id srv = i"
  by (auto simp: get_server_def dest: find_SomeD)

lemma get_server_set [simp]:
  "get_server (set_server srv s) i =
     (if i = s_id srv then map_option (\<lambda>_. srv) (get_server s i) else get_server s i)"
proof (cases "i = s_id srv")
  case True
  have "find (\<lambda>v. s_id v = s_id srv) (update_rows (\<lambda>v. s_id v = s_id srv) (\<lambda>_. srv) xs) =
      map_option (\<lambda>_. srv) (find (\<lambda>v. s_id v = s_id srv) xs)" for xs
    by (induction xs) auto
  then show ?thesis
    using True by (simp add: get_server_def set_server_def)
next
  case False
  then show ?thesis
    by (auto simp: get_server_def set_server_def intro!: find_update_rows_other)
qed

lemma set_server_frame [simp]:
  "wi_subs (set_server srv s) = wi_subs s" "orphans (set_server srv s) = orphans s"
  "users (set_server srv s) = users s" "orders (set_server srv s) = orders s"
  by (simp_all add: set_server_def)

lemma get_server_wi_subs [simp]: "get_server (s\<lparr>wi_subs := ws\<rparr>) i = get_server s i"
  by (simp add: get_server_def)

subsection \<open>The move of an origin node\<close>

lemma enqueue_all_frame [simp]:
  "wi_subs (enqueue_all i ws s) = wi_subs s" "servers (enqueue_all i ws s) = servers s"
  "get_server (enqueue_all i ws s) j = get_server s j"
  by (induction ws arbitrary: s)
    (simp_all add: enqueue_all_def enqueue_orphan_cleanup_def Let_def get_server_def)

lemma enqueue_all_Cons:
  "enqueue_all i (v # ws) s =
     enqueue_all i ws (snd (enqueue_orphan_cleanup (Some i) (w_uuid v) (desired_version v) s))"
  by (simp add: enqueue_all_def)

lemma enqueue_orphan_rows:
  "orphans (snd (enqueue_orphan_cleanup sid c v s)) = orphans s @ [\<lparr>c_id = orphan_seq s + 1,
     c_server_id = sid, client_uuid = c, c_desired_version = v, attempts = 0, c_done = False,
     last_error = None\<rparr>]"
  by (simp add: enqueue_orphan_cleanup_def Let_def)

lemma enqueue_all_keeps: "set (orphans s) \<subseteq> set (orphans (enqueue_all i ws s))"
proof (induction ws arbitrary: s)
  case Nil
  show ?case by (simp add: enqueue_all_def)
next
  case (Cons v ws)
  show ?case
    unfolding enqueue_all_Cons
    by (rule order_trans [OF _ Cons.IH]) (simp add: enqueue_orphan_rows subset_insertI)
qed

lemma enqueue_all_orphans:
  "w \<in> set ws \<Longrightarrow> \<exists>c\<in>set (orphans (enqueue_all i ws s)). c_server_id c = Some i
     \<and> client_uuid c = w_uuid w \<and> c_desired_version c = desired_version w \<and> \<not> c_done c"
proof (induction ws arbitrary: s)
  case (Cons v ws)
  show ?case
  proof (cases "w \<in> set ws")
    case True
    then show ?thesis
      unfolding enqueue_all_Cons by (rule Cons.IH)
  next
    case False
    with Cons.prems show ?thesis
      unfolding enqueue_all_Cons
      by (intro bexI [OF _ set_mp [OF enqueue_all_keeps]]) (auto simp: enqueue_orphan_rows)
  qed
qed simp

lemma moved_load:
  assumes "source \<noteq> target"
  defines "P \<equiv> \<lambda>w. origin_node_id w = Some source \<and> capacity_consuming w"
  shows "origin_load source (t\<lparr>wi_subs := update_rows P (moved target) ws\<rparr>) = 0"
    and "origin_load target (t\<lparr>wi_subs := update_rows P (moved target) ws\<rparr>) =
      origin_load target (t\<lparr>wi_subs := ws\<rparr>) + int (length (filter P ws))"
  using assms(1) unfolding origin_load_def P_def
  by (induction ws) (auto simp: moved_def capacity_consuming_def)

lemma migrateE:
  assumes "migrate_origin_subscriptions source target s = Inr (n, t)" and "0 < n"
  obtains src dst where "source \<noteq> target" "get_server s source = Some src"
    "get_server s target = Some dst" "n = origin_load source s"
    "origin_load target s + n \<le> max_clients dst"
    "t = (let m = enqueue_all source
             (filter (\<lambda>w. origin_node_id w = Some source \<and> capacity_consuming w) (wi_subs s))
             (set_server (src\<lparr>lifecycle_status := Life_DECOMMISSIONING\<rparr>) s) in
          m\<lparr>wi_subs := update_rows (\<lambda>w. origin_node_id w = Some source \<and> capacity_consuming w)
             (moved target) (wi_subs s)\<rparr>)"
  using assms
  by (auto simp: migrate_origin_subscriptions_def Let_def origin_load_def
      split: if_split_asm option.split_asm)

text \<open>C32. A move of an origin node takes all its live subscriptions: none is left on the source,
  the target holds what it held and all of them, within its capacity; each moved subscription is a
  version ahead of the cleanup of its credential that waits for the source; and the source takes no
  new subscription.\<close>

theorem origin_migration_exact:
  assumes "migrate_origin_subscriptions source target s = Inr (n, t)" and "0 < n"
  shows "n = origin_load source s \<and> origin_load source t = 0
    \<and> origin_load target t = origin_load target s + n
    \<and> (\<exists>dst. get_server s target = Some dst \<and> origin_load target t \<le> max_clients dst)
    \<and> (\<exists>src. get_server t source = Some src \<and> \<not> origin_candidate t src)
    \<and> (\<forall>w\<in>set (wi_subs s). origin_node_id w = Some source \<and> capacity_consuming w \<longrightarrow>
         moved target w \<in> set (wi_subs t)
       \<and> (\<exists>c\<in>set (orphans t). c_server_id c = Some source \<and> client_uuid c = w_uuid w
            \<and> c_desired_version c < desired_version (moved target w) \<and> \<not> c_done c))"
  using assms
proof (cases rule: migrateE)
  case (1 src dst)
  let ?P = "\<lambda>w. origin_node_id w = Some source \<and> capacity_consuming w"
  let ?m = "enqueue_all source (filter ?P (wi_subs s))
    (set_server (src\<lparr>lifecycle_status := Life_DECOMMISSIONING\<rparr>) s)"
  have t: "t = ?m\<lparr>wi_subs := update_rows ?P (moved target) (wi_subs s)\<rparr>"
    using 1(6) by (simp add: Let_def)
  have load: "origin_load source t = 0" "origin_load target t = origin_load target s + n"
    using moved_load [OF 1(1), where t = ?m and ws = "wi_subs s"] 1(4) by (simp_all add: t origin_load_def)
  have "get_server t source = Some (src\<lparr>lifecycle_status := Life_DECOMMISSIONING\<rparr>)"
    using 1(2) get_server_id [OF 1(2)] by (simp add: t)
  moreover have "\<not> origin_candidate t (src\<lparr>lifecycle_status := Life_DECOMMISSIONING\<rparr>)"
    by (simp add: origin_candidate_def)
  moreover have "moved target w \<in> set (wi_subs t)" if "w \<in> set (wi_subs s)" "?P w" for w
    using that by (auto simp: t set_update_rows)
  moreover have "\<exists>c\<in>set (orphans t). c_server_id c = Some source \<and> client_uuid c = w_uuid w
      \<and> c_desired_version c < desired_version (moved target w) \<and> \<not> c_done c"
    if "w \<in> set (wi_subs s)" "?P w" for w
    using enqueue_all_orphans [of w "filter ?P (wi_subs s)" source
        "set_server (src\<lparr>lifecycle_status := Life_DECOMMISSIONING\<rparr>) s"] that
    by (auto simp: t moved_def)
  ultimately show ?thesis
    using 1(3-5) load by auto
qed

subsection \<open>The generation of a node\<close>

text \<open>Two generations of a node: another boot, or the same boot not started earlier.\<close>

definition generation_le :: "server \<Rightarrow> server \<Rightarrow> bool" where
  "generation_le a b \<longleftrightarrow>
     xray_instance_boot_id a = None
   \<or> xray_instance_boot_id b \<noteq> xray_instance_boot_id a
   \<or> or_zero (xray_instance_starttime a) \<le> or_zero (xray_instance_starttime b)"

text \<open>The generation of a node only moves forward: an accepted report stores its epoch and never
  an earlier start of the same boot; of two reports that both expect the generation stored now, the
  second of another generation is refused once the first is stored; a refused report changes nothing.\<close>

theorem epoch_cas_monotone:
  assumes "update_server_xray_epoch_cas i eb est epoch boot st s = ((ok, r), t)"
    and "get_server s i = Some srv"
  shows "(ok \<longrightarrow> (\<exists>new. r = Some new \<and> get_server t i = Some new \<and> generation_le srv new
         \<and> xray_instance_epoch new = Some epoch))
    \<and> (\<not> ok \<longrightarrow> t = s)
    \<and> (ok \<and> boot \<noteq> None \<and> (boot, or_zero st) \<noteq> (eb, or_zero est) \<longrightarrow>
         update_server_xray_epoch_cas i eb est epoch' boot' st' t = ((False, None), t))"
proof -
  have sid: "s_id srv = i"
    by (rule get_server_id [OF assms(2)])
  consider (refused) "\<not> ok" "t = s"
    | (same) "ok" "t = s" "r = Some srv" "xray_instance_epoch srv = Some epoch"
        "boot = xray_instance_boot_id srv" "or_zero st = or_zero (xray_instance_starttime srv)"
        "(xray_instance_boot_id srv, or_zero (xray_instance_starttime srv)) = (eb, or_zero est)"
    | (stored) "ok" "t = set_server (install_epoch epoch boot st srv) s"
        "r = Some (install_epoch epoch boot st srv)" "generation_le srv (install_epoch epoch boot st srv)"
    using assms
    by (auto simp: update_server_xray_epoch_cas_def Let_def generation_le_def install_epoch_def
        split: if_split_asm)
  then show ?thesis
  proof cases
    case refused
    then show ?thesis by simp
  next
    case same
    then show ?thesis
      using assms(2) by (auto simp: generation_le_def)
  next
    case stored
    then have row: "get_server t i = Some (install_epoch epoch boot st srv)"
      using assms(2) sid by (simp add: install_epoch_def)
    then have "update_server_xray_epoch_cas i eb est epoch' boot' st' t = ((False, None), t)"
      if "boot \<noteq> None" "(boot, or_zero st) \<noteq> (eb, or_zero est)"
      using that by (auto simp: update_server_xray_epoch_cas_def install_epoch_def Let_def)
    then show ?thesis
      using stored row by (auto simp: install_epoch_def)
  qed
qed

subsection \<open>Concrete nodes\<close>

definition sample_node :: "int \<Rightarrow> server" where
  "sample_node i = \<lparr>s_id = i, s_name = ''node'', country_flag = None, api_url = ''https://'' @ str_int i,
     api_key = ''key'', protocol = ''xray'', max_clients = 5, s_is_active = True,
     disabled_reason = None, disabled_at = None, last_successful_check = None, health_state = ONLINE,
     lifecycle_status = Life_ACTIVE, problem_started_at = None, next_check_at = None,
     consecutive_fails = 0, consecutive_successes = 0, last_alert_sent_state = None,
     capabilities = [''xray_origin''], extra_data = [''relays'' \<mapsto> JArr [JStr ''r1'']],
     xray_instance_epoch = Some ''e1'', xray_instance_boot_id = Some ''b1'',
     xray_instance_starttime = Some 7, s_created_at = 0\<rparr>"

definition placed_sub :: wi_sub where
  "placed_sub = (fst (projr (create_white_internet_subscription 1 1 ''tok'' ''uuid'' 30 1000 False 0
     empty_db)))"

definition nodes_db :: db where
  "nodes_db = sample_db\<lparr>servers := [sample_node 1, sample_node 2], server_seq := 2,
     wi_subs := [placed_sub], wi_seq := 1\<rparr>"

lemma nodes_db_node: "get_server nodes_db 1 = Some (sample_node 1)"
  by (simp add: nodes_db_def get_server_def sample_node_def)

theorem origin_migration_exact_witness:
  "\<exists>t. migrate_origin_subscriptions 1 2 nodes_db = Inr (1, t) \<and> origin_load 1 t = 0"
proof -
  have "case migrate_origin_subscriptions 1 2 nodes_db of Inl _ \<Rightarrow> False | Inr p \<Rightarrow> fst p = 1"
    by code_simp
  then obtain t where run: "migrate_origin_subscriptions 1 2 nodes_db = Inr (1, t)"
    by (auto split: sum.split_asm)
  show ?thesis
    using origin_migration_exact [OF run] run by simp
qed

theorem epoch_cas_monotone_witness:
  "\<exists>t new. update_server_xray_epoch_cas 1 (Some ''b1'') (Some 7) ''e2'' (Some ''b1'') (Some 9) nodes_db
       = ((True, Some new), t) \<and> get_server t 1 = Some new
     \<and> update_server_xray_epoch_cas 1 (Some ''b1'') (Some 7) ''e0'' (Some ''b0'') (Some 3) t = ((False, None), t)"
proof -
  obtain r t where run: "update_server_xray_epoch_cas 1 (Some ''b1'') (Some 7) ''e2'' (Some ''b1'') (Some 9)
      nodes_db = ((True, r), t)"
    by (simp add: update_server_xray_epoch_cas_def nodes_db_node Let_def install_epoch_def or_zero_def
        sample_node_def)
  show ?thesis
    using epoch_cas_monotone [OF run nodes_db_node, of "''e0''" "Some ''b0''" "Some 3"] run
    by (auto simp: or_zero_def)
qed

end
