(* ===== verification/Banning_Theorems.thy ===== *)
theory Banning_Theorems
  imports Banning Samples
begin

section \<open>Properties of a ban\<close>

text \<open>
  What a ban leaves of a user's rights, and that it touches nobody else.  The first lemmas say what
  each part of the handler changes.
\<close>

lemma close_orders_rows:
  "orders (snd (close_orders uid s)) =
     update_rows (\<lambda>x. o_user_id x = uid \<and> o_status x = Order_PENDING)
       (\<lambda>x. mark_order_canceled x ''user_banned'') (orders s)"
  by (simp add: close_orders_def Let_def)

lemma close_payments_rows:
  "payments (snd (close_payments uid now s)) =
     update_rows (\<lambda>p. p_user_id p = uid \<and> unfinished_payment p) (close_payment now) (payments s)"
  by (simp add: close_payments_def Let_def)

lemma filter_others:
  assumes "\<And>x. P x \<Longrightarrow> \<not> Q x" and "\<And>x. P x \<Longrightarrow> \<not> Q (f x)"
  shows "filter Q (update_rows P f xs) = filter Q xs"
  by (induction xs) (auto simp: assms)

lemma close_frames [simp]:
  "payments (snd (close_orders uid s)) = payments s"
  "orders (snd (close_payments uid now s)) = orders s" "users (snd (close_payments uid now s)) = users s"
  "users (snd (close_orders uid s)) = users s" "entries (snd (close_orders uid s)) = entries s"
  "allocs (snd (close_orders uid s)) = allocs s" "entries (snd (close_payments uid now s)) = entries s"
  "allocs (snd (close_payments uid now s)) = allocs s"
  "vless_subs (snd (close_payments uid now s)) = vless_subs s"
  "vless_subs (snd (close_orders uid s)) = vless_subs s"
  by (simp_all add: close_payments_def close_orders_def Let_def)

lemma deprovision_all_frame:
  "users (deprovision_all ws s) = users s \<and> vless_subs (deprovision_all ws s) = vless_subs s
   \<and> wi_subs (deprovision_all ws s) = wi_subs s \<and> orders (deprovision_all ws s) = orders s
   \<and> payments (deprovision_all ws s) = payments s \<and> entries (deprovision_all ws s) = entries s"
  by (induction ws arbitrary: s)
    (simp_all add: deprovision_all_def dispatch_deprovision_def split: option.split)

lemma deactivate_frame [simp]:
  "users (snd (deactivate_user_subscriptions uid why tgt s)) = users s"
  "vless_subs (snd (deactivate_user_subscriptions uid why tgt s)) = vless_subs s"
  "orders (snd (deactivate_user_subscriptions uid why tgt s)) = orders s"
  "payments (snd (deactivate_user_subscriptions uid why tgt s)) = payments s"
  "entries (snd (deactivate_user_subscriptions uid why tgt s)) = entries s"
  by (simp_all add: deactivate_user_subscriptions_def Let_def deprovision_all_frame)

lemma deactivate_rows:
  "wi_subs (snd (deactivate_user_subscriptions uid why None s)) =
     update_rows (\<lambda>w. w_user_id w = uid \<and> w_status w \<noteq> WI_DISABLED) (disable_sub why) (wi_subs s)"
  by (simp add: deactivate_user_subscriptions_def Let_def deprovision_all_frame)

lemma deactivate_all_disabled:
  assumes "w \<in> set (wi_subs (snd (deactivate_user_subscriptions uid why None s)))" and "w_user_id w = uid"
  shows "w_status w = WI_DISABLED"
proof -
  obtain x where "w = (if w_user_id x = uid \<and> w_status x \<noteq> WI_DISABLED then disable_sub why x else x)"
    using assms(1) unfolding deactivate_rows set_update_rows by blast
  then show ?thesis
    using assms(2) by (simp add: disable_sub_def split: if_split_asm)
qed

text \<open>The row of a user that is written over is that user's alone.\<close>

lemma revoked_row_only_own:
  assumes "distinct (map v_id (vless_subs s))" and "get_vless_sub uid s = Some v"
    and "v_user_id v' = uid" and "v_id v' = v_id v"
  shows "filter (\<lambda>w. v_user_id w \<noteq> uid) (update_rows (\<lambda>w. v_id w = v_id v) (\<lambda>_. v') (vless_subs s))
    = filter (\<lambda>w. v_user_id w \<noteq> uid) (vless_subs s)"
proof -
  have v: "v \<in> set (vless_subs s)" "v_user_id v = uid"
    using assms(2) by (auto simp: get_vless_sub_def dest: find_SomeD)
  have "\<not> v_user_id w \<noteq> uid" if "w \<in> set (vless_subs s)" "v_id w = v_id v" for w
    using inj_onD [OF conjunct2 [OF assms(1) [unfolded distinct_map]] that(2,1) v(1)] v(2) by simp
  then have "filter (\<lambda>w. v_user_id w \<noteq> uid) (map (\<lambda>w. if v_id w = v_id v then v' else w) xs)
      = filter (\<lambda>w. v_user_id w \<noteq> uid) xs" if "set xs \<subseteq> set (vless_subs s)" for xs
    using that assms(3) by (induction xs) auto
  then show ?thesis
    by (simp add: update_rows_def)
qed

lemma revoke_vless_frame:
  assumes "revoke_vless uid new_uuid s = Inr (x, t)"
  shows "users t = users s" and "orders t = orders s" and "wi_subs t = wi_subs s"
    and "payments t = payments s" and "entries t = entries s"
    and "distinct (map v_id (vless_subs s)) \<Longrightarrow>
      filter (\<lambda>v. v_user_id v \<noteq> uid) (vless_subs t) = filter (\<lambda>v. v_user_id v \<noteq> uid) (vless_subs s)"
    and "get_vless_sub uid s = Some v \<Longrightarrow> \<exists>v'. get_vless_sub uid t = Some v' \<and> \<not> v_is_active v'
      \<and> v_active_hwids v' = [] \<and> v_uuid v' = new_uuid
      \<and> set (pending_revoked_uuids v) \<subseteq> set (pending_revoked_uuids v')
      \<and> (v_uuid v = [] \<or> v_uuid v \<in> set (pending_revoked_uuids v'))"
proof -
  show "users t = users s" and "orders t = orders s" and "wi_subs t = wi_subs s"
    and "payments t = payments s" and "entries t = entries s"
    using assms by (auto simp: revoke_vless_def set_vless_def Let_def split: option.split_asm if_split_asm)
  show "filter (\<lambda>v. v_user_id v \<noteq> uid) (vless_subs t) = filter (\<lambda>v. v_user_id v \<noteq> uid) (vless_subs s)"
    if "distinct (map v_id (vless_subs s))"
  proof (cases "get_vless_sub uid s")
    case (Some v)
    then have "v_user_id v = uid"
      by (auto simp: get_vless_sub_def dest: find_SomeD)
    then show ?thesis
      using assms Some revoked_row_only_own [OF that Some]
      by (auto simp: revoke_vless_def set_vless_def Let_def split: if_split_asm)
  qed (use assms in \<open>simp add: revoke_vless_def\<close>)
  assume v: "get_vless_sub uid s = Some v"
  let ?v = "v\<lparr>v_is_active := False, version := next_version v, v_active_hwids := [],
      node_traffic_snapshots := fresh_snapshots, v_uuid := new_uuid,
      pending_revoked_uuids := add_pending (v_uuid v) (pending_revoked_uuids v)\<rparr>"
  have "find (\<lambda>w. v_user_id w = uid) (update_rows (\<lambda>w. v_id w = v_id v) (\<lambda>_. ?v) xs) = Some ?v"
    if "find (\<lambda>w. v_user_id w = uid) xs = Some v" for xs
    using that by (induction xs) (auto split: if_split_asm)
  then have "get_vless_sub uid t = Some ?v"
    using assms v
    by (auto simp: revoke_vless_def get_vless_sub_def set_vless_def Let_def split: if_split_asm)
  then show "\<exists>v'. get_vless_sub uid t = Some v' \<and> \<not> v_is_active v'
      \<and> v_active_hwids v' = [] \<and> v_uuid v' = new_uuid
      \<and> set (pending_revoked_uuids v) \<subseteq> set (pending_revoked_uuids v')
      \<and> (v_uuid v = [] \<or> v_uuid v \<in> set (pending_revoked_uuids v'))"
    by (auto simp: add_pending_def next_version_def)
qed

definition before_revocation :: "user \<Rightarrow> instant \<Rightarrow> db \<Rightarrow> db" where
  "before_revocation u now s =
     snd (deactivate_user_subscriptions (u_id u) ''user_banned'' None (set_user (u\<lparr>is_banned := True\<rparr>)
       (snd (close_orders (u_id u) (snd (close_payments (u_id u) now s))))))"

lemma log_action_tables [simp]:
  "orders (log_action a b c d e s) = orders s" "users (log_action a b c d e s) = users s"
  "wi_subs (log_action a b c d e s) = wi_subs s" "vless_subs (log_action a b c d e s) = vless_subs s"
  "payments (log_action a b c d e s) = payments s" "entries (log_action a b c d e s) = entries s"
  by (simp_all add: log_action_def)

lemma ban_lockedE:
  assumes "ban_locked admin u reason new_uuid now s = Inr (r, t)"
  obtains t' where "revoke_vless (u_id u) new_uuid (before_revocation u now s) = Inr ((), t')"
    "orders t = orders t'" "users t = users t'" "wi_subs t = wi_subs t'" "vless_subs t = vless_subs t'"
    "payments t = payments t'" "entries t = entries t'"
  using assms unfolding ban_locked_def Let_def case_prod_beta before_revocation_def [symmetric]
  by (elim and_then_InrE) auto

lemma ban_userE:
  assumes "ban_user admin tid reason new_uuid now s = Inr ((True, BANNED), t)"
  obtains u0 u where "get_user_by_telegram_id tid s = Some u0" "get_user s (u_id u0) = Some u"
    "ban_locked admin u reason new_uuid now s = Inr ((True, BANNED), t)"
  using assms
  by (auto simp: ban_user_def ban_user_row_def split: option.split_asm if_split_asm)

text \<open>C31. A ban takes effect at once and only on the banned user.  The user is marked and loses access;
  no order of the user is left pending, no unfinished payment of the user is left visible; every White
  Internet subscription of the user is disabled; the VPN credentials are inactive under a fresh UUID
  without devices, and the old UUID waits in the outbox of revocations.  The rows of everybody else,
  users, orders, payments, White Internet and VPN subscriptions, stay what they were, and so does the
  whole ledger.\<close>

theorem ban_freezes_user:
  assumes "ban_user admin tid reason new_uuid now s = Inr ((True, BANNED), t)"
    and "get_user_by_telegram_id tid s = Some u" and "distinct (map v_id (vless_subs s))"
  shows "(\<exists>u'. get_user t (u_id u) = Some u' \<and> is_banned u' \<and> \<not> check_vpn_access u' later)
    \<and> \<not> (\<exists>x\<in>set (orders t). o_user_id x = u_id u \<and> o_status x = Order_PENDING)
    \<and> (\<forall>x\<in>set (orders s). o_user_id x = u_id u \<and> o_status x = Order_PENDING \<or> x \<in> set (orders t))
    \<and> (\<forall>p\<in>set (payments t). p_user_id p = u_id u \<and> unfinished_payment p
         \<longrightarrow> checkout_status p = Checkout_ABANDONED \<and> \<not> ui_visible p)
    \<and> (\<forall>w\<in>set (wi_subs t). w_user_id w = u_id u \<longrightarrow> w_status w = WI_DISABLED)
    \<and> (\<forall>v. get_vless_sub (u_id u) s = Some v \<longrightarrow>
         (\<exists>v'. get_vless_sub (u_id u) t = Some v' \<and> \<not> v_is_active v' \<and> v_active_hwids v' = []
            \<and> v_uuid v' = new_uuid \<and> (v_uuid v = [] \<or> v_uuid v \<in> set (pending_revoked_uuids v'))))
    \<and> filter (\<lambda>x. u_id x \<noteq> u_id u) (users t) = filter (\<lambda>x. u_id x \<noteq> u_id u) (users s)
    \<and> filter (\<lambda>x. o_user_id x \<noteq> u_id u) (orders t) = filter (\<lambda>x. o_user_id x \<noteq> u_id u) (orders s)
    \<and> filter (\<lambda>p. p_user_id p \<noteq> u_id u) (payments t) = filter (\<lambda>p. p_user_id p \<noteq> u_id u) (payments s)
    \<and> filter (\<lambda>w. w_user_id w \<noteq> u_id u) (wi_subs t) = filter (\<lambda>w. w_user_id w \<noteq> u_id u) (wi_subs s)
    \<and> filter (\<lambda>v. v_user_id v \<noteq> u_id u) (vless_subs t) = filter (\<lambda>v. v_user_id v \<noteq> u_id u) (vless_subs s)
    \<and> entries t = entries s"
  using assms(1)
proof (cases rule: ban_userE)
  case (1 u0 locked)
  have id: "u_id locked = u_id u" "get_user s (u_id u) = Some locked"
    using 1(1,2) assms(2) get_user_id by auto
  let ?m = "before_revocation locked now s"
  obtain t' where run: "revoke_vless (u_id u) new_uuid ?m = Inr ((), t')" and t: "orders t = orders t'"
      "users t = users t'" "wi_subs t = wi_subs t'" "vless_subs t = vless_subs t'"
      "payments t = payments t'" "entries t = entries t'"
    using ban_lockedE [OF 1(3)] unfolding id(1) by metis
  let ?P = "\<lambda>x. o_user_id x = u_id u \<and> o_status x = Order_PENDING"
  have rows: "orders t = update_rows ?P (\<lambda>x. mark_order_canceled x ''user_banned'') (orders s)"
    using revoke_vless_frame(2) [OF run] t(1) by (simp add: before_revocation_def close_orders_rows id(1))
  have pending: "\<not> (\<exists>x\<in>set (orders t). ?P x)"
    unfolding rows by (auto simp: update_rows_def mark_order_canceled_def split: if_split_asm)
  have kept: "\<forall>x\<in>set (orders s). ?P x \<or> x \<in> set (orders t)"
    unfolding rows by (force simp: update_rows_def)
  have others: "filter (\<lambda>x. o_user_id x \<noteq> u_id u) (orders t) = filter (\<lambda>x. o_user_id x \<noteq> u_id u) (orders s)"
    unfolding rows by (rule filter_others) (simp_all add: mark_order_canceled_def)
  have payments: "payments t = update_rows (\<lambda>p. p_user_id p = u_id u \<and> unfinished_payment p)
      (close_payment now) (payments s)"
    using revoke_vless_frame(4) [OF run] t(5) by (simp add: before_revocation_def close_payments_rows id(1))
  have closed: "\<forall>p\<in>set (payments t). p_user_id p = u_id u \<and> unfinished_payment p
         \<longrightarrow> checkout_status p = Checkout_ABANDONED \<and> \<not> ui_visible p"
    unfolding payments by (auto simp: update_rows_def close_payment_def split: if_split_asm)
  have other_payments: "filter (\<lambda>p. p_user_id p \<noteq> u_id u) (payments t) = filter (\<lambda>p. p_user_id p \<noteq> u_id u) (payments s)"
    unfolding payments by (rule filter_others) (simp_all add: close_payment_def)
  have users: "users t = users (set_user (locked\<lparr>is_banned := True\<rparr>) s)"
    using revoke_vless_frame(1) [OF run] t(2) by (simp add: before_revocation_def set_user_def)
  then have user: "get_user t (u_id u) = Some (locked\<lparr>is_banned := True\<rparr>)"
    using id get_user_set_user [of "locked\<lparr>is_banned := True\<rparr>" s "u_id u"] by (simp add: get_user_def)
  have other_users: "filter (\<lambda>x. u_id x \<noteq> u_id u) (users t) = filter (\<lambda>x. u_id x \<noteq> u_id u) (users s)"
    unfolding users set_user_def by (simp add: filter_others id(1))
  have subs: "wi_subs t = update_rows (\<lambda>w. w_user_id w = u_id u \<and> w_status w \<noteq> WI_DISABLED)
      (disable_sub ''user_banned'') (wi_subs s)"
    using revoke_vless_frame(3) [OF run] t(3)
    by (simp add: before_revocation_def id(1) deactivate_rows set_user_def close_orders_def close_payments_def
        Let_def)
  have other_subs: "filter (\<lambda>w. w_user_id w \<noteq> u_id u) (wi_subs t) = filter (\<lambda>w. w_user_id w \<noteq> u_id u) (wi_subs s)"
    unfolding subs by (rule filter_others) (simp_all add: disable_sub_def)
  have wi: "\<forall>w\<in>set (wi_subs t). w_user_id w = u_id u \<longrightarrow> w_status w = WI_DISABLED"
    using revoke_vless_frame(3) [OF run] t(3) deactivate_all_disabled
    unfolding before_revocation_def id(1) by metis
  have vs: "vless_subs ?m = vless_subs s"
    by (simp add: before_revocation_def)
  then have same: "get_vless_sub (u_id u) ?m = get_vless_sub (u_id u) s" "get_vless_sub (u_id u) t = get_vless_sub (u_id u) t'"
    using t(4) by (simp_all add: get_vless_sub_def)
  have vless: "\<exists>v'. get_vless_sub (u_id u) t = Some v' \<and> \<not> v_is_active v' \<and> v_active_hwids v' = []
      \<and> v_uuid v' = new_uuid \<and> (v_uuid v = [] \<or> v_uuid v \<in> set (pending_revoked_uuids v'))"
    if "get_vless_sub (u_id u) s = Some v" for v
    using revoke_vless_frame(7) [OF run, of v] that unfolding same by blast
  have other_vless: "filter (\<lambda>v. v_user_id v \<noteq> u_id u) (vless_subs t) = filter (\<lambda>v. v_user_id v \<noteq> u_id u) (vless_subs s)"
    using revoke_vless_frame(6) [OF run] assms(3) unfolding vs t(4) by simp
  have ledger: "entries t = entries s"
    using revoke_vless_frame(5) [OF run] t(6) by (simp add: before_revocation_def set_user_def)
  have access: "\<exists>u'. get_user t (u_id u) = Some u' \<and> is_banned u' \<and> \<not> check_vpn_access u' later"
    using user by (simp add: check_vpn_access_def)
  show ?thesis
    by (intro conjI access pending kept closed wi other_users others other_payments other_subs other_vless ledger)
      (use vless in blast)
qed

theorem ban_freezes_user_witness:
  "\<exists>t u'. ban_user 9 1001 None ''fresh'' 0 sample_db = Inr ((True, BANNED), t)
     \<and> get_user t 1 = Some u' \<and> is_banned u' \<and> \<not> (\<exists>x\<in>set (orders t). o_user_id x = 1 \<and> o_status x = Order_PENDING)
     \<and> filter (\<lambda>x. o_user_id x \<noteq> 1) (orders t) = filter (\<lambda>x. o_user_id x \<noteq> 1) (orders sample_db)"
proof -
  have "case ban_user 9 1001 None ''fresh'' 0 sample_db of Inl _ \<Rightarrow> False | Inr p \<Rightarrow> fst p = (True, BANNED)"
    by code_simp
  then obtain t where run: "ban_user 9 1001 None ''fresh'' 0 sample_db = Inr ((True, BANNED), t)"
    by (auto split: sum.split_asm)
  moreover have "get_user_by_telegram_id 1001 sample_db = Some (sample_user 1 None)"
    by (simp add: get_user_by_telegram_id_def sample_db_def sample_user_def MAX_INT64_def)
  moreover have "u_id (sample_user 1 None) = 1"
    by (simp add: sample_user_def)
  moreover have "distinct (map v_id (vless_subs sample_db))"
    by (simp add: sample_db_def empty_db_def)
  ultimately show ?thesis
    using ban_freezes_user [OF run, of "sample_user 1 None" 0] by auto
qed

end
