(* ===== verification/VLESS_Sync_Theorems.thy ===== *)
theory VLESS_Sync_Theorems
  imports VLESS_Sync VLESS_Theorems Servers_Theorems
begin

section \<open>Properties of the synchronisation with the nodes\<close>

text \<open>
  The outbox of revoked credentials: how the tasks change its rows, and what a retry has confirmed
  when a UUID leaves it.
\<close>

lemma get_vless_row_upd:
  "get_vless_row i (set_vless w s) =
     (if i = v_id w then map_option (\<lambda>_. w) (get_vless_row i s) else get_vless_row i s)"
proof -
  have "find (\<lambda>v. v_id v = i) (update_rows (\<lambda>v. v_id v = v_id w) (\<lambda>_. w) xs) =
      (if i = v_id w then map_option (\<lambda>_. w) (find (\<lambda>v. v_id v = i) xs) else find (\<lambda>v. v_id v = i) xs)" for xs
    by (induction xs) auto
  then show ?thesis
    by (simp add: get_vless_row_def set_vless_def)
qed

lemma get_vless_sub_row:
  assumes "distinct (map v_id (vless_subs s))" and "get_vless_sub uid s = Some v"
  shows "get_vless_row (v_id v) s = Some v"
  using assms by (auto simp: get_vless_sub_def get_vless_row_def intro: find_key dest: find_SomeD)

lemma servers_set_vless [simp]: "servers (set_vless w s) = servers s"
  by (simp add: set_vless_def)

text \<open>A step that may change the rows of the credentials but not what is revoked.\<close>

definition keeps_pending :: "db \<Rightarrow> db \<Rightarrow> bool" where
  "keeps_pending s t \<longleftrightarrow> servers t = servers s
     \<and> (\<forall>i. map_option pending_revoked_uuids (get_vless_row i t) =
             map_option pending_revoked_uuids (get_vless_row i s))"

lemma keeps_pending_refl [simp]: "keeps_pending s s"
  by (simp add: keeps_pending_def)

lemma keeps_pending_set:
  assumes "get_vless_row (v_id v) s = Some v" and "v_id w = v_id v"
    and "pending_revoked_uuids w = pending_revoked_uuids v"
  shows "keeps_pending s (set_vless w s)"
  using assms by (auto simp: keeps_pending_def get_vless_row_upd)

lemma keeps_pending_trans: "keeps_pending s t \<Longrightarrow> keeps_pending t u \<Longrightarrow> keeps_pending s u"
  by (simp add: keeps_pending_def)

lemma bump_version_Some:
  assumes "get_vless_row i s = Some v"
  shows "bump_subscription_version i s =
    (Some (v\<lparr>version := next_version v\<rparr>), set_vless (v\<lparr>version := next_version v\<rparr>) s)"
  using assms by (simp add: bump_subscription_version_def Let_def)

lemma sync_user_keeps_pending:
  assumes "distinct (map v_id (vless_subs s))"
  shows "keeps_pending s (snd (sync_user_to_nodes net uid active now s))"
proof (cases "get_vless_sub uid s")
  case None
  then show ?thesis by (simp add: sync_user_to_nodes_def)
next
  case (Some v)
  have row: "get_vless_row (v_id v) s = Some v"
    by (rule get_vless_sub_row [OF assms Some])
  let ?w = "v\<lparr>version := next_version v\<rparr>"
  have bumped: "keeps_pending s (set_vless ?w s)" "get_vless_row (v_id ?w) (set_vless ?w s) = Some ?w"
    using row by (auto intro: keeps_pending_set simp: get_vless_row_upd)
  have "keeps_pending s (set_vless (v\<lparr>v_last_synced_at := a, last_synced_version := n\<rparr>) s)" for a n
    using row by (rule keeps_pending_set) simp_all
  moreover have "keeps_pending s (set_vless (?w\<lparr>v_last_synced_at := a, last_synced_version := n\<rparr>) (set_vless ?w s))" for a n
    using bumped(2) by (intro keeps_pending_trans [OF bumped(1)] keeps_pending_set [of ?w]) simp_all
  ultimately show ?thesis
    using bumped(1)
    by (simp add: sync_user_to_nodes_def Some Let_def case_prod_beta bump_version_Some [OF row])
qed

lemma revocation_targets_cong:
  "servers t = servers s \<Longrightarrow> get_revocation_target_servers t = get_revocation_target_servers s"
  by (simp add: get_revocation_target_servers_def)

lemma revoked_everywhere_cong:
  "servers t = servers s \<Longrightarrow> revoked_everywhere net x ver t = revoked_everywhere net x ver s"
  by (simp add: revoked_everywhere_def revocation_targets_cong [of t s])

lemma pop_pending_row:
  "map_option pending_revoked_uuids (get_vless_row j (pop_pending_revoked_uuid i x s)) =
     (if j = i then map_option (filter (\<lambda>u. u \<noteq> x)) (map_option pending_revoked_uuids (get_vless_row j s))
      else map_option pending_revoked_uuids (get_vless_row j s))"
  by (auto simp: pop_pending_revoked_uuid_def get_vless_row_upd get_vless_row_id split: option.split)

lemma pop_pending_servers [simp]: "servers (pop_pending_revoked_uuid i x s) = servers s"
  by (simp add: pop_pending_revoked_uuid_def split: option.split)

lemma retries_leave_unconfirmed:
  assumes "x \<in> set pend" and "map_option pending_revoked_uuids (get_vless_row j s) = Some pend"
    and "map_option pending_revoked_uuids (get_vless_row j (fold (retry_revocation net i ver) us s)) = Some pend'"
    and "x \<notin> set pend'"
  shows "revoked_everywhere net x (Some ver) s"
  using assms
proof (induction us arbitrary: s pend)
  case (Cons u us)
  let ?t = "retry_revocation net i ver u s"
  show ?case
  proof (cases "revoked_everywhere net u (Some ver) s \<and> u = x")
    case True
    then show ?thesis by blast
  next
    case False
    have srv: "servers ?t = servers s"
      by (simp add: retry_revocation_def)
    have "map_option pending_revoked_uuids (get_vless_row j ?t) = Some pend
        \<or> u \<noteq> x \<and> map_option pending_revoked_uuids (get_vless_row j ?t) = Some (filter (\<lambda>y. y \<noteq> u) pend)"
      using False Cons.prems(2) pop_pending_row [of j i u s]
      by (cases "revoked_everywhere net u (Some ver) s"; cases "j = i") (auto simp: retry_revocation_def)
    then obtain pend1 where "map_option pending_revoked_uuids (get_vless_row j ?t) = Some pend1" "x \<in> set pend1"
      using Cons.prems(1) by auto
    from Cons.IH [OF this(2,1)] Cons.prems(3,4) show ?thesis
      by (simp add: revoked_everywhere_cong [OF srv])
  qed
qed auto

definition confirms_disabled :: "sync_response \<Rightarrow> bool" where
  "confirms_disabled r \<longleftrightarrow> has_vless_inbound r \<and> rs_all_verified r
     \<and> (rs_result r = APPLIED \<or> rs_result r = ALREADY_NEWER \<and> jget (rs_raw r) ''state'' = JStr ''disabled'')"

lemma deprov_one_confirms: "deprov_one reply \<longleftrightarrow> (\<exists>r. reply = Some r \<and> confirms_disabled r)"
  by (auto simp: deprov_one_def confirms_disabled_def split: option.split sync_result.split)

lemma revoked_everywhere_confirms:
  assumes "revoked_everywhere net x ver s" and "n \<in> set (get_revocation_target_servers s)"
  shows "\<exists>r. net (s_id n) x False ver = Some r \<and> confirms_disabled r"
proof -
  let ?ns = "get_revocation_target_servers s"
  have len: "length (extract_node_targets ?ns) = length ?ns"
    and all: "list_all snd (execute_deprovision_on_nodes net (extract_node_targets ?ns) x ver)"
    using assms(1) by (simp_all add: revoked_everywhere_def all_confirmed_def Let_def)
  have "extract_node_targets ?ns = ?ns"
    using len unfolding extract_node_targets_def by (metis filter_id_conv length_filter_less less_irrefl)
  then have "deprov_one (net (s_id n) x False ver)"
    using all assms(2) by (auto simp: execute_deprovision_on_nodes_def list_all_iff)
  then show ?thesis
    by (simp add: deprov_one_confirms)
qed

end
