(* ===== verification/Reconciliation_Theorems.thy ===== *)
theory Reconciliation_Theorems
  imports Reconciliation Servers_Theorems Order_Evolution
begin

section \<open>Properties of the reconciliation\<close>

text \<open>
  What a reply of a node does to a subscription, when an outbox row is closed, and how the sweep
  that places subscriptions keeps every node within its capacity.
\<close>

subsection \<open>One subscription\<close>

lemma get_wi_row_set:
  assumes "get_wi_row i s = Some w" and "w_id v = i"
  shows "get_wi_row i (set_wi_sub v s) = Some v"
proof -
  have "find (\<lambda>x. w_id x = i) (update_rows (\<lambda>x. w_id x = w_id v) (\<lambda>_. v) xs) = Some v"
    if "find (\<lambda>x. w_id x = i) xs = Some w" for xs
    using that assms(2) by (induction xs) (auto split: if_split_asm)
  then show ?thesis
    using assms(1) by (simp add: get_wi_row_def set_wi_sub_def)
qed

lemma get_wi_row_key: "get_wi_row i s = Some w \<Longrightarrow> w_id w = i"
  by (auto simp: get_wi_row_def dest: find_SomeD)

lemma row_changes_sel [simp]:
  "w_id (retry_later e now w) = w_id w" "w_id (force_newer n x now w) = w_id w"
  "w_id (mark_synced a ep b now w) = w_id w"
  "origin_node_id (retry_later e now w) = origin_node_id w"
  "origin_node_id (force_newer n x now w) = origin_node_id w"
  "origin_node_id (mark_synced a ep b now w) = origin_node_id w"
  "desired_version (retry_later e now w) = desired_version w"
  "desired_version (mark_synced a ep b now w) = desired_version w"
  "desired_version (force_newer n x now w) = max (desired_version w) n + 1"
  "provisioning_status (retry_later e now w) = Node_PENDING_UPDATE"
  "provisioning_status (force_newer n x now w) = Node_PENDING_UPDATE"
  "expires_at (mark_synced a ep b now w) = expires_at w"
  by (simp_all add: retry_later_def force_newer_def mark_synced_def Let_def)

text \<open>When the node has confirmed the desired state of a client.\<close>

definition node_confirms :: "string \<Rightarrow> reconcile_task \<Rightarrow> sync_response \<Rightarrow> http_answer \<Rightarrow> wi_sub \<Rightarrow> bool" where
  "node_confirms epoch k r stock w \<longleftrightarrow>
     (rs_result r = APPLIED \<and> desired_version w = task_version k
        \<and> (rs_inbounds r = [] \<or> missing_tags (task_relays k) (rs_inbounds r) = [])
        \<and> verified_epoch_of epoch r = JStr epoch)
   \<or> (rs_result r = ALREADY_NEWER
        \<and> observed_client stock (task_uuid k) = Some (state_text (task_active k)))"

lemma reconciled_confirmed:
  assumes "node_confirms epoch k r stock w"
  shows "\<exists>a. reconciled epoch k r stock now w = (True, mark_synced a (Some epoch) (task_active k) now w)
    \<and> (a = task_version k \<or> a = max (actual_version w) (task_version k))"
  using assms by (cases "rs_result r") (auto simp: reconciled_def node_confirms_def)

lemma reconciled_unconfirmed:
  assumes "\<not> node_confirms epoch k r stock w"
  shows "(\<exists>e. reconciled epoch k r stock now w = (False, retry_later e now w))
    \<or> (\<exists>x. reconciled epoch k r stock now w = (False, force_newer (task_version k) x now w))"
  using assms by (cases "rs_result r") (auto simp: reconciled_def node_confirms_def Let_def)

text \<open>C33. A subscription counts as synchronised exactly when its node confirmed the desired state; then,
  unless a newer version was asked for meanwhile or its time is over, nothing is left to do on the node;
  otherwise it stays due. The desired version never falls.\<close>

theorem reconciliation_exact:
  assumes "reconcile_single_subscription epoch k r stock now s = (ok, t)"
    and "get_wi_row (task_sub k) s = Some w" and "origin_node_id w = Some i"
  shows "\<exists>v. get_wi_row (task_sub k) t = Some v \<and> (ok \<longleftrightarrow> node_confirms epoch k r stock w)
    \<and> desired_version w \<le> desired_version v \<and> (\<not> ok \<longrightarrow> needs_sync i epoch now v)
    \<and> (ok \<and> desired_version w = task_version k \<and> actual_version w \<le> task_version k \<and> now < expires_at w
         \<longrightarrow> \<not> needs_sync i epoch now v)"
proof -
  obtain v where v: "reconciled epoch k r stock now w = (ok, v)" "t = set_wi_sub v s"
    using assms(1,2) by (auto simp: reconcile_single_subscription_def Let_def split: prod.split_asm)
  have "w_id v = w_id w"
    using reconciled_confirmed [of epoch k r stock w now] reconciled_unconfirmed [of epoch k r stock w now] v(1)
    by (cases "node_confirms epoch k r stock w") auto
  then have row: "get_wi_row (task_sub k) t = Some v"
    unfolding v(2) using get_wi_row_key [OF assms(2)] by (intro get_wi_row_set [OF assms(2)]) simp
  show ?thesis
  proof (cases "node_confirms epoch k r stock w")
    case True
    then obtain a where "ok" "v = mark_synced a (Some epoch) (task_active k) now w"
        "a = task_version k \<or> a = max (actual_version w) (task_version k)"
      using reconciled_confirmed [OF True, of now] v(1) by auto
    then show ?thesis
      using True row by (auto simp: needs_sync_def mark_synced_def Let_def split: if_split_asm)
  next
    case False
    then show ?thesis
      using reconciled_unconfirmed [OF False, of now] v(1) row assms(3) by (auto simp: needs_sync_def)
  qed
qed

subsection \<open>The outbox\<close>

lemma mark_done_rows:
  "orphans (mark_orphan_cleanup_done i s) =
     update_rows (\<lambda>c. c_id c = i \<and> \<not> c_done c) (\<lambda>c. c\<lparr>c_done := True, last_error := None\<rparr>) (orphans s)"
  by (simp add: mark_orphan_cleanup_done_def)

text \<open>A cleanup is never dropped: a sweep keeps every row of the outbox, and it closes one only
  when the node is gone, the client lives on that node again, or the node confirmed it disabled.\<close>

theorem cleanup_closed_when_confirmed:
  assumes "sweep_orphan_cleanup r stock i s = (ok, t)"
  shows "map c_id (orphans t) = map c_id (orphans s) \<and> wi_subs t = wi_subs s
    \<and> (ok \<longrightarrow> (\<exists>c. pending_cleanup i s = Some c
          \<and> ((case c_server_id c of None \<Rightarrow> None | Some j \<Rightarrow> get_server s j) = None \<or> reassigned c s
             \<or> rs_result r = APPLIED
             \<or> rs_result r = ALREADY_NEWER \<and> observed_client stock (client_uuid c) = Some (JStr ''disabled''))))
    \<and> (\<not> ok \<longrightarrow> map c_done (orphans t) = map c_done (orphans s))"
proof -
  have failed: "map c_id (orphans (mark_orphan_cleanup_failed j err s)) = map c_id (orphans s)
      \<and> map c_done (orphans (mark_orphan_cleanup_failed j err s)) = map c_done (orphans s)
      \<and> wi_subs (mark_orphan_cleanup_failed j err s) = wi_subs s" for j err
    by (simp add: mark_orphan_cleanup_failed_def map_update_rows)
  have closed: "map c_id (orphans (mark_orphan_cleanup_done j s)) = map c_id (orphans s)
      \<and> wi_subs (mark_orphan_cleanup_done j s) = wi_subs s" for j
    by (simp add: mark_orphan_cleanup_done_def map_update_rows)
  show ?thesis
    using assms failed closed
    unfolding sweep_orphan_cleanup_def Let_def
    by (cases "pending_cleanup i s"; cases "rs_result r")
      (auto split: option.split_asm if_split_asm)
qed

subsection \<open>Placement\<close>

lemma update_rows_absent: "(\<And>x. x \<in> set xs \<Longrightarrow> \<not> P x) \<Longrightarrow> update_rows P f xs = xs"
  by (induction xs) auto

lemma length_filter_replace:
  assumes "distinct (map w_id ws)" and "find (\<lambda>x. w_id x = w_id v) ws = Some w" and "\<not> Q w"
  shows "length (filter Q (update_rows (\<lambda>x. w_id x = w_id v) (\<lambda>_. v) ws)) =
    length (filter Q ws) + (if Q v then 1 else 0)"
  using assms
proof (induction ws)
  case (Cons x ws)
  show ?case
  proof (cases "w_id x = w_id v")
    case True
    then have "w_id v \<notin> w_id ` set ws"
      using Cons.prems(1) by auto
    then have "update_rows (\<lambda>y. w_id y = w_id v) (\<lambda>_. v) ws = ws"
      by (intro update_rows_absent) (metis image_eqI)
    then show ?thesis
      using True Cons.prems(2,3) by auto
  next
    case False
    then show ?thesis
      using Cons by auto
  qed
qed simp

lemma origin_load_place:
  assumes "distinct (map w_id (wi_subs s))" and "get_wi_row i s = Some w" and "origin_node_id w = None"
    and "w_id v = i" and "origin_node_id v = Some n" and "capacity_consuming v"
  shows "origin_load j (set_wi_sub v s) = origin_load j s + (if j = n then 1 else 0)"
  using assms length_filter_replace [of "wi_subs s" v w "\<lambda>x. origin_node_id x = Some j \<and> capacity_consuming x"]
  by (auto simp: origin_load_def set_wi_sub_def get_wi_row_def)

lemma map_id_set_wi_sub: "map w_id (wi_subs (set_wi_sub v s)) = map w_id (wi_subs s)"
  by (auto simp: set_wi_sub_def intro!: map_update_rows)

lemma place_subs_within:
  assumes "distinct (map w_id (wi_subs s))" and "distinct (map s_id (servers s))" and "n \<in> set (servers s)"
    and "place_subs is s = (k, t)"
  shows "origin_load (s_id n) t \<le> max (origin_load (s_id n) s) (max_clients n) \<and> 0 \<le> k"
  using assms(1,2,4,3)
proof (induction "is" arbitrary: s k)
  case (Cons i rest)
  show ?case
  proof (cases "place_subs (i # rest) s = place_subs rest s \<or> place_subs (i # rest) s = (0, s)")
    case True
    then have "place_subs rest s = (k, t) \<or> k = 0 \<and> t = s"
      using Cons.prems(3) by auto
    then show ?thesis
      using Cons.IH [OF Cons.prems(1,2) _ Cons.prems(4), of k] by auto
  next
    case False
    obtain w where w: "get_wi_row i s = Some w" "origin_node_id w = None"
      using False by (cases "get_wi_row i s") (auto split: if_split_asm)
    obtain m where m: "allocate_origin_server_atomic s = Some m"
      using False w by (cases "allocate_origin_server_atomic s") (auto split: if_split_asm)
    let ?v = "w\<lparr>origin_node_id := Some (s_id m), desired_version := desired_version w + 1,
        provisioning_status := Node_PENDING_UPDATE, last_reconciled_node_epoch := None\<rparr>"
    let ?s = "set_wi_sub ?v s"
    obtain k' where k': "place_subs rest ?s = (k', t)" "k = k' + 1"
      using False w m Cons.prems(3) by (auto split: if_split_asm prod.split_asm)
    have load: "origin_load j ?s = origin_load j s + (if j = s_id m then 1 else 0)" for j
      using Cons.prems(1) w get_wi_row_key [OF w(1)]
      by (intro origin_load_place [of s i w]) (simp_all add: capacity_consuming_def)
    have "m \<in> set (servers s)" "origin_load (s_id m) s < max_clients m"
      using m by (auto simp: allocate_origin_server_atomic_def origin_candidate_def origin_load_def
          dest!: find_SomeD)
    then have "origin_load (s_id n) ?s \<le> max (origin_load (s_id n) s) (max_clients n)"
    proof (cases "s_id n = s_id m")
      case True
      then have "n = m"
        using Cons.prems(2,4) \<open>m \<in> set (servers s)\<close> by (metis distinct_map inj_onD)
      then show ?thesis
        using load [of "s_id n"] \<open>origin_load (s_id m) s < max_clients m\<close> by simp
    next
      case False
      then show ?thesis
        using load [of "s_id n"] by simp
    qed
    moreover have "origin_load (s_id n) t \<le> max (origin_load (s_id n) ?s) (max_clients n) \<and> 0 \<le> k'"
      using Cons.prems(1,2,4) k'(1) by (intro Cons.IH) (simp_all add: map_id_set_wi_sub)
    ultimately show ?thesis
      using k'(2) by auto
  qed
qed simp

text \<open>Placing subscriptions never overfills a node: whatever was on a node, the sweep adds a
  subscription only while the node is below its capacity.\<close>

theorem placement_within_capacity:
  assumes "sweep_unallocated_subscriptions s = (k, t)" and "wi_ok s" and "distinct (map s_id (servers s))"
    and "n \<in> set (servers s)"
  shows "origin_load (s_id n) t \<le> max (origin_load (s_id n) s) (max_clients n)"
  using place_subs_within [of s n] assms by (auto simp: sweep_unallocated_subscriptions_def wi_ok_def)

subsection \<open>Concrete cycles\<close>

definition applied_reply :: sync_response where
  "applied_reply = \<lparr>rs_result = APPLIED, rs_error = None, rs_epoch = JNull, rs_inbounds = [],
     rs_all_verified = True, rs_raw = []\<rparr>"

definition placed_task :: reconcile_task where
  "placed_task = \<lparr>task_sub = 1, task_uuid = ''uuid'', task_active = True,
     task_version = desired_version placed_sub, task_relays = []\<rparr>"

lemma placed_sub_facts:
  "get_wi_row 1 nodes_db = Some placed_sub" "origin_node_id placed_sub = Some 1"
  "actual_version placed_sub \<le> desired_version placed_sub" "0 < expires_at placed_sub"
  by (simp add: nodes_db_def get_wi_row_def, code_simp) code_simp+

theorem reconciliation_exact_witness:
  "\<exists>t v. reconcile_single_subscription ''e1'' placed_task applied_reply (0, None, None) 0 nodes_db = (True, t)
     \<and> get_wi_row 1 t = Some v \<and> \<not> needs_sync 1 ''e1'' 0 v"
proof -
  have "fst (reconcile_single_subscription ''e1'' placed_task applied_reply (0, None, None) 0 nodes_db)"
    by code_simp
  then obtain t where run: "reconcile_single_subscription ''e1'' placed_task applied_reply (0, None, None) 0
      nodes_db = (True, t)"
    by (metis prod.collapse)
  have task: "task_sub placed_task = 1" "task_version placed_task = desired_version placed_sub"
    by (simp_all add: placed_task_def)
  show ?thesis
    using reconciliation_exact [OF run, of placed_sub 1] run placed_sub_facts by (auto simp: task)
qed

definition outbox_db :: db where
  "outbox_db = snd (enqueue_orphan_cleanup (Some 2) ''gone'' 4 nodes_db)"

theorem cleanup_closed_when_confirmed_witness:
  "\<exists>t. sweep_orphan_cleanup applied_reply (0, None, None) 1 outbox_db = (True, t)
     \<and> map c_id (orphans t) = map c_id (orphans outbox_db)"
proof -
  have "fst (sweep_orphan_cleanup applied_reply (0, None, None) 1 outbox_db)"
    by code_simp
  then obtain t where run: "sweep_orphan_cleanup applied_reply (0, None, None) 1 outbox_db = (True, t)"
    by (metis prod.collapse)
  show ?thesis
    using cleanup_closed_when_confirmed [OF run] run by simp
qed

definition unplaced_db :: db where
  "unplaced_db = nodes_db\<lparr>wi_subs := [placed_sub\<lparr>origin_node_id := None\<rparr>]\<rparr>"

theorem placement_within_capacity_witness:
  "\<exists>t. sweep_unallocated_subscriptions unplaced_db = (1, t) \<and> origin_load 1 t \<le> 5"
proof -
  have "fst (sweep_unallocated_subscriptions unplaced_db) = 1"
    by code_simp
  then obtain t where run: "sweep_unallocated_subscriptions unplaced_db = (1, t)"
    by (metis prod.collapse)
  let ?w = "placed_sub\<lparr>origin_node_id := None\<rparr>"
  have rows: "wi_subs unplaced_db = [?w]" "wi_seq unplaced_db = 1" "servers unplaced_db = [sample_node 1, sample_node 2]"
    by (simp_all add: unplaced_db_def nodes_db_def)
  have "w_id ?w = 1" "wi_checks ?w [?w]"
    by code_simp+
  then have "wi_ok unplaced_db"
    by (simp add: wi_ok_def rows)
  moreover have "distinct (map s_id (servers unplaced_db))" "s_id (sample_node 1) = 1"
      "max_clients (sample_node 1) = 5" "origin_load 1 unplaced_db = 0"
    by (simp_all add: rows sample_node_def origin_load_def)
  ultimately show ?thesis
    using placement_within_capacity [OF run, of "sample_node 1"] run rows by auto
qed

end
