(* ===== verification/Node_Monitor.thy ===== *)
theory Node_Monitor
  imports Reconciliation
begin

section \<open>services/workers/node\_monitor.py: the core of a node\<close>

text \<open>
  The monitor keeps a state per node: ONLINE, WAITING\_CONFIRMATION, PROBLEM and back to ONLINE, or
  MANUAL\_DISABLED.  A check reads two clocks: \<open>tick\<close> is \<open>time.monotonic\<close>, \<open>now\<close>
  the wall clock (\<open>now\_utc\<close> and \<open>time.time\<close>), both in microseconds.  The answers of a
  node and the outcome of every message to an administrator are arguments; the texts of the
  messages are not modelled.
\<close>

definition CONFIRMATION_DELAY :: int where "CONFIRMATION_DELAY = 60 * 1000000"
definition REQUIRED_STABLE_SUCCESSES :: int where "REQUIRED_STABLE_SUCCESSES = 3"
definition DISK_ALERT_COOLDOWN :: int where "DISK_ALERT_COOLDOWN = 3600 * 1000000"
definition OUTAGE_REMINDER_INTERVAL :: int where "OUTAGE_REMINDER_INTERVAL = 3600 * 1000000"

text \<open>The members of the enum are their names.\<close>

fun state_name_of :: "ServerHealthState \<Rightarrow> string" where
  "state_name_of ONLINE = ''ONLINE''"
| "state_name_of WAITING_CONFIRMATION = ''WAITING_CONFIRMATION''"
| "state_name_of PROBLEM = ''PROBLEM''"
| "state_name_of MANUAL_DISABLED = ''MANUAL_DISABLED''"

subsection \<open>The state of the monitor\<close>

text \<open>One public endpoint, the origin itself or its CDN.\<close>

record endpoint_state =
  e_problem :: bool
  e_fails :: int
  e_succs :: int
  e_started :: "instant option"
  e_reminder :: "instant option"

definition fresh_endpoint :: endpoint_state where
  "fresh_endpoint = \<lparr>e_problem = False, e_fails = 0, e_succs = 0, e_started = None, e_reminder = None\<rparr>"

text \<open>A relay is a dict, as it is stored.\<close>

type_synonym relay_state = "(string \<times> json) list"

record monitor_state =
  m_health :: ServerHealthState
  m_fails :: int
  m_succs :: int
  m_problem_at :: "instant option"
  m_next_check :: "instant option"
  m_last_alert :: "string option"
  m_disk_alert :: "instant option"
  m_core_reminder :: "instant option"
  m_ingress :: endpoint_state
  m_cdn :: endpoint_state
  m_relays :: "(string \<times> relay_state) list"

definition new_monitor_state :: monitor_state where
  "new_monitor_state = \<lparr>m_health = ONLINE, m_fails = 0, m_succs = 0, m_problem_at = None,
     m_next_check = None, m_last_alert = None, m_disk_alert = None, m_core_reminder = None,
     m_ingress = fresh_endpoint, m_cdn = fresh_endpoint, m_relays = []\<rparr>"

text \<open>The keys of \<open>extra\_data\<close> an endpoint has.\<close>

datatype endpoint = Ingress | CDN

fun endpoint_name :: "endpoint \<Rightarrow> string" where
  "endpoint_name Ingress = ''ingress''"
| "endpoint_name CDN = ''cdn''"

definition problem_key :: "endpoint \<Rightarrow> string" where
  "problem_key k = endpoint_name k @ ''_problem''"

definition fails_key :: "endpoint \<Rightarrow> string" where
  "fails_key k = ''consecutive_'' @ endpoint_name k @ ''_fails''"

definition succs_key :: "endpoint \<Rightarrow> string" where
  "succs_key k = ''consecutive_'' @ endpoint_name k @ ''_successes''"

definition started_key :: "endpoint \<Rightarrow> string" where
  "started_key k = endpoint_name k @ ''_problem_started_at''"

definition json_int :: "json option \<Rightarrow> int" where
  "json_int j = (case j of Some (JInt i) \<Rightarrow> i | _ \<Rightarrow> 0)"

text \<open>A stored wall-clock time, read on the monotonic clock.\<close>

definition since :: "instant \<Rightarrow> instant \<Rightarrow> instant \<Rightarrow> instant" where
  "since tick now t = tick - max 0 (now - t)"

text \<open>\<open>sync\_from\_db\_server\<close>: the reminders of a dict \<open>extra\_data\<close>, which every row has, stay.\<close>

definition endpoint_from_row :: "endpoint \<Rightarrow> instant \<Rightarrow> instant \<Rightarrow> meta \<Rightarrow> endpoint_state \<Rightarrow> endpoint_state" where
  "endpoint_from_row k tick now extra ep =
     ep\<lparr>e_problem := meta_truthy extra (problem_key k), e_fails := json_int (extra (fails_key k)),
        e_succs := json_int (extra (succs_key k)),
        e_started := (case extra (started_key k) of Some (JInt t) \<Rightarrow> Some (since tick now t) | _ \<Rightarrow> None)\<rparr>"

definition stored_dicts :: "json option \<Rightarrow> (string \<times> relay_state) list" where
  "stored_dicts j =
     (case j of Some (JObj kvs) \<Rightarrow> map (\<lambda>(k, v). (k, case v of JObj xs \<Rightarrow> xs | _ \<Rightarrow> [])) kvs | _ \<Rightarrow> [])"

definition sync_from_db_server :: "instant \<Rightarrow> instant \<Rightarrow> server \<Rightarrow> monitor_state \<Rightarrow> monitor_state" where
  "sync_from_db_server tick now n st =
     st\<lparr>m_health := (if s_is_active n then health_state n else MANUAL_DISABLED),
        m_fails := consecutive_fails n, m_succs := consecutive_successes n,
        m_last_alert := last_alert_sent_state n,
        m_ingress := endpoint_from_row Ingress tick now (extra_data n) (m_ingress st),
        m_cdn := endpoint_from_row CDN tick now (extra_data n) (m_cdn st),
        m_relays := stored_dicts (extra_data n ''relays_probe_state''),
        m_problem_at := map_option (since tick now) (problem_started_at n),
        m_next_check := map_option (\<lambda>t. tick + max 0 (t - now)) (next_check_at n)\<rparr>"

definition get_server_monitor_state ::
  "instant \<Rightarrow> instant \<Rightarrow> server \<Rightarrow> (int \<rightharpoonup> monitor_state) \<Rightarrow> monitor_state" where
  "get_server_monitor_state tick now n states =
     (case states (s_id n) of Some st \<Rightarrow> st | None \<Rightarrow> sync_from_db_server tick now n new_monitor_state)"

definition clear_server_monitor_state :: "int \<Rightarrow> (int \<rightharpoonup> monitor_state) \<Rightarrow> int \<rightharpoonup> monitor_state" where
  "clear_server_monitor_state i states = states(i := None)"

definition reset_server_monitor_state ::
  "int \<Rightarrow> ServerHealthState \<Rightarrow> (int \<rightharpoonup> monitor_state) \<Rightarrow> int \<rightharpoonup> monitor_state" where
  "reset_server_monitor_state i new_state states = states(i \<mapsto> new_monitor_state\<lparr>m_health := new_state\<rparr>)"

subsection \<open>One check of the core\<close>

text \<open>\<open>if x\<close> of an optional clock reading, which is false at zero.\<close>

definition set_time :: "instant option \<Rightarrow> instant option" where
  "set_time t = (if t = Some 0 then None else t)"

datatype core_alert = Server_Problem | Server_Restored | Disk_Critical rat | Outage_Reminder int

fun alert_target :: "core_alert \<Rightarrow> ServerHealthState option" where
  "alert_target Server_Problem = Some PROBLEM"
| "alert_target Server_Restored = Some ONLINE"
| "alert_target (Disk_Critical d) = None"
| "alert_target (Outage_Reminder d) = None"

text \<open>The administrator's switch: a node that was disabled and is active again starts afresh.\<close>

definition enabled_again :: "monitor_state \<Rightarrow> monitor_state" where
  "enabled_again st =
     (if m_health st = MANUAL_DISABLED
      then st\<lparr>m_health := ONLINE, m_fails := 0, m_succs := 0, m_problem_at := None,
              m_next_check := None, m_last_alert := None\<rparr>
      else st)"

definition confirmation_due :: "instant \<Rightarrow> monitor_state \<Rightarrow> bool" where
  "confirmation_due tick st \<longleftrightarrow>
     \<not> (m_health st = WAITING_CONFIRMATION
        \<and> (case set_time (m_next_check st) of None \<Rightarrow> False | Some t \<Rightarrow> tick < t))"

definition disk_check :: "instant \<Rightarrow> rat option \<Rightarrow> monitor_state \<Rightarrow> monitor_state \<times> core_alert list" where
  "disk_check tick disk st =
     (case disk of
        None \<Rightarrow> (st, [])
      | Some d \<Rightarrow>
          if 85 < d
          then (if (case m_disk_alert st of None \<Rightarrow> True | Some t \<Rightarrow> DISK_ALERT_COOLDOWN \<le> tick - t)
                then (st\<lparr>m_disk_alert := Some tick\<rparr>, [Disk_Critical d]) else (st, []))
          else if d \<le> 80 then (st\<lparr>m_disk_alert := None\<rparr>, [])
          else (st, []))"

definition core_success :: "instant \<Rightarrow> rat option \<Rightarrow> monitor_state \<Rightarrow> monitor_state \<times> core_alert list" where
  "core_success tick disk st =
     (case m_health st of
        WAITING_CONFIRMATION \<Rightarrow>
          (st\<lparr>m_health := ONLINE, m_fails := 0, m_succs := 0, m_next_check := None,
              m_problem_at := None\<rparr>, [])
      | ONLINE \<Rightarrow>
          let st = st\<lparr>m_fails := 0, m_succs := m_succs st + 1, m_next_check := None, m_problem_at := None\<rparr>;
              restored = (if m_last_alert st = Some (state_name_of PROBLEM) then [Server_Restored] else []);
              (st, full) = disk_check tick disk st in
          (st, restored @ full)
      | PROBLEM \<Rightarrow>
          let st = st\<lparr>m_fails := 0, m_succs := m_succs st + 1\<rparr> in
          if REQUIRED_STABLE_SUCCESSES \<le> m_succs st
          then (st\<lparr>m_health := ONLINE, m_problem_at := None, m_next_check := None,
                   m_core_reminder := None\<rparr>, [Server_Restored])
          else (st, [])
      | MANUAL_DISABLED \<Rightarrow> (st, []))"

definition core_failure :: "instant \<Rightarrow> monitor_state \<Rightarrow> monitor_state \<times> core_alert list" where
  "core_failure tick st =
     (let st = st\<lparr>m_succs := 0\<rparr> in
      case m_health st of
        ONLINE \<Rightarrow>
          (st\<lparr>m_health := WAITING_CONFIRMATION, m_fails := 1,
              m_next_check := Some (tick + CONFIRMATION_DELAY)\<rparr>, [])
      | WAITING_CONFIRMATION \<Rightarrow>
          (st\<lparr>m_health := PROBLEM, m_fails := 2, m_problem_at := Some tick, m_next_check := None\<rparr>,
           [Server_Problem])
      | PROBLEM \<Rightarrow> (st\<lparr>m_fails := m_fails st + 1, m_next_check := None\<rparr>, [])
      | MANUAL_DISABLED \<Rightarrow> (st, []))"

text \<open>An alert that was not delivered is sent again; an outage is recalled every hour.\<close>

definition core_remind :: "instant \<Rightarrow> monitor_state \<Rightarrow> monitor_state \<times> core_alert list" where
  "core_remind tick st =
     (if m_health st \<noteq> PROBLEM then (st, [])
      else if m_last_alert st \<noteq> Some (state_name_of PROBLEM) then (st, [Server_Problem])
      else (case m_core_reminder st of
          None \<Rightarrow> (st\<lparr>m_core_reminder := Some tick\<rparr>, [])
        | Some t \<Rightarrow>
            if OUTAGE_REMINDER_INTERVAL \<le> tick - t
            then (st\<lparr>m_core_reminder := Some tick\<rparr>,
                  [Outage_Reminder (case set_time (m_problem_at st) of Some p \<Rightarrow> tick - p | None \<Rightarrow> tick - t)])
            else (st, [])))"

definition core_step :: "instant \<Rightarrow> bool \<Rightarrow> rat option \<Rightarrow> monitor_state \<Rightarrow> monitor_state \<times> core_alert list" where
  "core_step tick healthy disk st =
     (let (st, alerts) = (if healthy then core_success tick disk st else core_failure tick st) in
      if alerts = [] then core_remind tick st else (st, alerts))"

subsection \<open>Saving a check\<close>

text \<open>The columns the check writes; \<open>kvs\<close> is the health answer of a healthy node.\<close>

definition reported_extra :: "(string \<times> json) list \<Rightarrow> meta" where
  "reported_extra kvs =
     (let m = Map.empty;
          m = (case map_of kvs ''relays'' of
                 Some v \<Rightarrow> if truthy (jget kvs ''relays_error'') then m else m(''relays'' \<mapsto> v) | None \<Rightarrow> m);
          m = (case map_of kvs ''secret_base_path'' of
                 Some v \<Rightarrow> m(''secret_base_path'' \<mapsto> v) | None \<Rightarrow> m) in
      (case map_of kvs ''sub_path_prefix'' of
         Some v \<Rightarrow> if truthy v then m(''sub_path_prefix'' \<mapsto> v) else m | None \<Rightarrow> m))"

definition check_columns ::
  "instant \<Rightarrow> instant \<Rightarrow> bool \<Rightarrow> (string \<times> json) list option \<Rightarrow> monitor_state \<Rightarrow> server_field list" where
  "check_columns tick now healthy data st =
     [F_health_state (m_health st), F_consecutive_fails (m_fails st),
      F_consecutive_successes (m_succs st), F_last_alert_sent_state (m_last_alert st)]
     @ (if healthy
        then F_last_successful_check (Some now)
             # (case data of Some kvs \<Rightarrow> [F_extra_data (reported_extra kvs)] | None \<Rightarrow> [])
             @ (if m_health st = ONLINE then [F_problem_started_at None, F_next_check_at None] else [])
        else [])
     @ (case set_time (m_next_check st) of
          Some t \<Rightarrow> if m_health st = WAITING_CONFIRMATION
                     then [F_next_check_at (Some (now + max 0 (t - tick)))] else []
        | None \<Rightarrow> [])
     @ (if m_health st = PROBLEM \<and> m_fails st = 2
        then [F_problem_started_at (Some now), F_next_check_at None] else [])"

text \<open>The generation of the node, and what the node reports of itself.\<close>

definition dynamic_extra :: "(string \<times> json) list \<Rightarrow> meta \<Rightarrow> meta" where
  "dynamic_extra kvs extra =
     fold (\<lambda>k e. if k = ''relays'' \<and> truthy (jget kvs ''relays_error'') then e
                 else (case map_of kvs k of
                     Some v \<Rightarrow> if truthy v then e(k \<mapsto> v) else e | None \<Rightarrow> e))
       [''cdn_domain'', ''relays'', ''secret_base_path''] extra"

definition synced_epoch :: "server \<Rightarrow> string option" where
  "synced_epoch n = (case extra_data n ''vless_synced_epoch'' of Some (JStr e) \<Rightarrow> Some e | _ \<Rightarrow> None)"

definition refresh_generation :: "server \<Rightarrow> (string \<times> json) list \<Rightarrow> string \<Rightarrow> db \<Rightarrow> db" where
  "refresh_generation n kvs epoch s =
     (case update_server_xray_epoch_cas (s_id n) (xray_instance_boot_id n) (xray_instance_starttime n)
             epoch (opt_str (jget kvs ''boot_id'')) (opt_int (jget kvs ''starttime'')) s of
        ((True, Some cur), s) \<Rightarrow>
          let cur = cur\<lparr>extra_data := dynamic_extra kvs (extra_data cur)\<rparr>;
              s = set_server cur s in
          if is_vless_capable_server cur
             \<and> (xray_instance_epoch n \<noteq> xray_instance_epoch cur \<or> synced_epoch cur \<noteq> xray_instance_epoch cur)
          then s\<lparr>tasks := tasks s @ [Sync_node_vless (s_id cur)]\<rparr> else s
      | (_, s) \<Rightarrow> s)"

definition note_generation :: "server \<Rightarrow> bool \<times> json \<times> (string \<times> json) list option \<Rightarrow> db \<Rightarrow> db" where
  "note_generation n health s =
     (case health of
        (True, JStr e, Some kvs) \<Rightarrow> if e = [] then s else refresh_generation n kvs e s
      | _ \<Rightarrow> s)"

text \<open>
  \<open>before\<close> is the state the check started from: the row is written only if it still holds it,
  and otherwise the monitor takes over the row.
\<close>

definition save_check ::
  "instant \<Rightarrow> instant \<Rightarrow> server \<Rightarrow> bool \<times> json \<times> (string \<times> json) list option \<Rightarrow> monitor_state
   \<Rightarrow> monitor_state \<Rightarrow> db \<Rightarrow> (monitor_state \<times> bool) \<times> db" where
  "save_check tick now n health before st s =
     (case update_server_health_snapshot (s_id n) (m_health before) (m_health st)
             (Some (m_fails before)) (Some (m_succs before))
             (check_columns tick now (fst health) (snd (snd health)) st) (note_generation n health s) of
        ((Some row, applied), s) \<Rightarrow>
          ((if applied then st else sync_from_db_server tick now row st, applied), s)
      | ((None, applied), s) \<Rightarrow> ((st, applied), s))"

subsection \<open>Telling the administrators\<close>

text \<open>A message counts as sent when one of the administrators received it.\<close>

definition send_admin_alert :: "int list \<Rightarrow> (int \<Rightarrow> bool) \<Rightarrow> bool" where
  "send_admin_alert admins received = list_ex received admins"

text \<open>\<open>sent\<close> tells which alerts were delivered.  These columns cannot break a constraint.\<close>

definition dispatch_core_alert ::
  "(core_alert \<Rightarrow> bool) \<Rightarrow> int \<Rightarrow> core_alert \<Rightarrow> monitor_state \<times> db \<Rightarrow> monitor_state \<times> db" where
  "dispatch_core_alert sent i a p =
     (let (st, s) = p in
      if \<not> sent a then (st, s)
      else
        let st = (case alert_target a of Some t \<Rightarrow> st\<lparr>m_last_alert := Some (state_name_of t)\<rparr> | None \<Rightarrow> st) in
        (st, case get_server s i of
               Some n \<Rightarrow> if health_state n \<noteq> MANUAL_DISABLED
                         then set_server (n\<lparr>last_alert_sent_state := m_last_alert st\<rparr>) s else s
             | None \<Rightarrow> s))"

definition check_core ::
  "instant \<Rightarrow> instant \<Rightarrow> (core_alert \<Rightarrow> bool) \<Rightarrow> server \<Rightarrow> bool \<times> json \<times> (string \<times> json) list option
   \<Rightarrow> rat option \<Rightarrow> monitor_state \<Rightarrow> monitor_state \<Rightarrow> db \<Rightarrow> monitor_state \<times> db" where
  "check_core tick now sent n health disk before st s =
     (let (st, alerts) = core_step tick (fst health) disk st;
          ((st, applied), s) = save_check tick now n health before st s in
      if applied then fold (dispatch_core_alert sent (s_id n)) alerts (st, s) else (st, s))"

end
