(* ===== verification/Endpoint_Monitor.thy ===== *)
theory Endpoint_Monitor
  imports Node_Monitor WI_Devices
begin

section \<open>services/workers/node\_monitor.py: endpoints and relays\<close>

text \<open>
  Beside the core of a node the monitor probes its public endpoints and asks an origin node for
  the health of its relays.  Their counters live in \<open>extra\_data\<close> and in the state of the
  monitor.  \<open>time.time()\<close> is stored as a number of microseconds.  The button under an alert and
  the log are not modelled; addresses in brackets are not read from a URL.
\<close>

definition REQUIRED_INGRESS_FAILS :: int where "REQUIRED_INGRESS_FAILS = 3"
definition REQUIRED_CDN_FAILS :: int where "REQUIRED_CDN_FAILS = 5"
definition REQUIRED_INGRESS_SUCCESSES :: int where "REQUIRED_INGRESS_SUCCESSES = 2"
definition REQUIRED_RELAY_FAILS :: int where "REQUIRED_RELAY_FAILS = 15"
definition REQUIRED_RELAY_SUCCESSES :: int where "REQUIRED_RELAY_SUCCESSES = 3"

datatype side_alert =
    Endpoint_Problem endpoint string
  | Endpoint_Reminder endpoint int
  | Endpoint_Restored endpoint
  | Relay_Problem string string
  | Relay_Reminder string int
  | Relay_Restored string

fun says_problem :: "side_alert \<Rightarrow> bool" where
  "says_problem (Endpoint_Restored k) = False"
| "says_problem (Relay_Restored r) = False"
| "says_problem _ = True"

subsection \<open>The probe of an endpoint\<close>

text \<open>A status, or an exception with the text reported for it.\<close>

datatype probe_try = Probe_Status int | Probe_Failure string

fun probe_from :: "(nat \<Rightarrow> probe_try) \<Rightarrow> nat \<Rightarrow> nat \<Rightarrow> bool \<times> string" where
  "probe_from tries i 0 = (False, ''UNKNOWN'')"
| "probe_from tries i (Suc left) =
     (case tries i of
        Probe_Status status \<Rightarrow>
          if status = 200 then (True, ''200'')
          else if left \<noteq> 0 \<and> (status = 502 \<or> status = 503 \<or> status = 504)
          then probe_from tries (Suc i) left
          else (False, str_int status)
      | Probe_Failure err \<Rightarrow> if left \<noteq> 0 then probe_from tries (Suc i) left else (False, err))"

definition probe_single_ingress_endpoint :: "(nat \<Rightarrow> probe_try) \<Rightarrow> bool \<times> string" where
  "probe_single_ingress_endpoint tries = probe_from tries 0 3"

text \<open>\<open>urlsplit(url).hostname\<close>; the empty text stands for None.\<close>

definition url_hostname :: "string \<Rightarrow> string" where
  "url_hostname url =
     (let rest = (if CHR '':'' \<in> set url then tl (dropWhile (\<lambda>c. c \<noteq> CHR '':'') url) else url) in
      if starts_with ''//'' rest
      then
        let net = takeWhile (\<lambda>c. c \<notin> {CHR ''/'', CHR ''?'', CHR ''#''}) (drop 2 rest);
            host = rev (takeWhile (\<lambda>c. c \<noteq> CHR ''@'') (rev net)) in
        py_lower (takeWhile (\<lambda>c. c \<noteq> CHR '':'') host)
      else [])"

definition text_of :: "json option \<Rightarrow> string" where
  "text_of j = (case j of Some v \<Rightarrow> if truthy v then py_strip (py_str v) else [] | None \<Rightarrow> [])"

definition probed_origin :: "server \<Rightarrow> bool" where
  "probed_origin n \<longleftrightarrow> List.member (capabilities n) ''xray_origin''
     \<or> meta_truthy (extra_data n) ''relays'' \<or> meta_truthy (extra_data n) ''cdn_domain''"

definition origin_domain :: "server \<Rightarrow> string" where
  "origin_domain n =
     (if meta_truthy (extra_data n) ''domain'' then text_of (extra_data n ''domain'')
      else
        let h = url_hostname (api_url n); bare = filter (\<lambda>c. c \<noteq> CHR ''.'') h in
        if h \<noteq> [] \<and> \<not> (bare \<noteq> [] \<and> list_all is_digit bare) \<and> h \<noteq> ''localhost''
        then py_strip h else [])"

text \<open>What was learnt of the origin and, when both are probed, of the CDN.\<close>

definition ingress_probes ::
  "(string \<Rightarrow> nat \<Rightarrow> probe_try) \<Rightarrow> server \<Rightarrow> (bool \<times> string) option \<times> (bool \<times> string) option" where
  "ingress_probes tries n =
     (let origin = origin_domain n; cdn = text_of (extra_data n ''cdn_domain'');
          probe = (\<lambda>d. Some (probe_single_ingress_endpoint (tries d))) in
      if \<not> probed_origin n then (None, None)
      else if origin \<noteq> [] \<and> cdn \<noteq> [] \<and> origin \<noteq> cdn then (probe origin, probe cdn)
      else (let target = (if cdn \<noteq> [] then cdn else origin) in
            (if target \<noteq> [] then probe target else None, None)))"

subsection \<open>The counters of an endpoint\<close>

fun required_fails :: "endpoint \<Rightarrow> int" where
  "required_fails Ingress = REQUIRED_INGRESS_FAILS"
| "required_fails CDN = REQUIRED_CDN_FAILS"

text \<open>The counters of the row take precedence over those in memory.\<close>

definition load_endpoint :: "endpoint \<Rightarrow> instant \<Rightarrow> instant \<Rightarrow> meta \<Rightarrow> endpoint_state \<Rightarrow> endpoint_state" where
  "load_endpoint k tick now extra ep =
     (let stored = meta_truthy extra (problem_key k);
          ep = (if stored then ep\<lparr>e_problem := True\<rparr> else ep);
          ep = (if extra (fails_key k) \<noteq> None then ep\<lparr>e_fails := json_int (extra (fails_key k))\<rparr> else ep);
          ep = (if extra (succs_key k) \<noteq> None then ep\<lparr>e_succs := json_int (extra (succs_key k))\<rparr> else ep) in
      case extra (started_key k) of
        Some (JInt t) \<Rightarrow>
          if e_started ep = None then ep\<lparr>e_started := Some (since tick now t)\<rparr> else ep
      | _ \<Rightarrow> if \<not> stored \<and> \<not> e_problem ep then ep\<lparr>e_started := None\<rparr> else ep)"

type_synonym endpoint_result = "(endpoint_state \<times> meta) \<times> side_alert list"

definition endpoint_remind :: "endpoint \<Rightarrow> instant \<Rightarrow> endpoint_state \<Rightarrow> meta \<Rightarrow> endpoint_result" where
  "endpoint_remind k tick ep extra =
     (case e_reminder ep of
        None \<Rightarrow> ((ep\<lparr>e_reminder := Some tick\<rparr>, extra), [])
      | Some t \<Rightarrow>
          if OUTAGE_REMINDER_INTERVAL \<le> tick - t
          then ((ep\<lparr>e_reminder := Some tick\<rparr>, extra),
                [Endpoint_Reminder k (case set_time (e_started ep) of
                    Some p \<Rightarrow> tick - p | None \<Rightarrow> OUTAGE_REMINDER_INTERVAL)])
          else ((ep, extra), []))"

definition endpoint_fail ::
  "endpoint \<Rightarrow> instant \<Rightarrow> instant \<Rightarrow> string \<Rightarrow> bool \<Rightarrow> endpoint_state \<Rightarrow> meta \<Rightarrow> endpoint_result" where
  "endpoint_fail k tick now detail known ep extra =
     (let ep = ep\<lparr>e_fails := e_fails ep + 1, e_succs := 0\<rparr>;
          extra = extra(fails_key k \<mapsto> JInt (e_fails ep), succs_key k \<mapsto> JInt 0) in
      if \<not> known \<and> required_fails k \<le> e_fails ep
      then ((ep\<lparr>e_started := Some tick, e_reminder := Some tick\<rparr>, extra(started_key k \<mapsto> JInt now)),
            [Endpoint_Problem k detail])
      else if known \<and> (k = CDN \<longrightarrow> required_fails k \<le> e_fails ep) then endpoint_remind k tick ep extra
      else ((ep, extra), []))"

definition endpoint_success :: "endpoint \<Rightarrow> bool \<Rightarrow> endpoint_state \<Rightarrow> meta \<Rightarrow> endpoint_result" where
  "endpoint_success k known ep extra =
     (let ep = ep\<lparr>e_succs := e_succs ep + 1, e_fails := 0\<rparr>;
          extra = extra(succs_key k \<mapsto> JInt (e_succs ep), fails_key k \<mapsto> JInt 0) in
      if known \<and> REQUIRED_INGRESS_SUCCESSES \<le> e_succs ep
      then ((ep\<lparr>e_started := None, e_reminder := None\<rparr>, extra(started_key k := None)), [Endpoint_Restored k])
      else ((ep, extra), []))"

definition endpoint_step ::
  "endpoint \<Rightarrow> instant \<Rightarrow> instant \<Rightarrow> bool \<times> string \<Rightarrow> bool \<Rightarrow> endpoint_state \<Rightarrow> meta \<Rightarrow> endpoint_result" where
  "endpoint_step k tick now r known ep extra =
     (if fst r then endpoint_success k known ep extra
      else endpoint_fail k tick now (snd r) known ep extra)"

text \<open>The CDN counts only while its origin is reachable.\<close>

definition eval_endpoints ::
  "instant \<Rightarrow> instant \<Rightarrow> (bool \<times> string) option \<Rightarrow> (bool \<times> string) option
   \<Rightarrow> monitor_state \<Rightarrow> meta \<Rightarrow> (monitor_state \<times> meta) \<times> side_alert list" where
  "eval_endpoints tick now origin cdn st extra =
     (let known_ingress = meta_truthy extra (problem_key Ingress) \<or> e_problem (m_ingress st);
          known_cdn = meta_truthy extra (problem_key CDN) \<or> e_problem (m_cdn st) in
      case origin of
        None \<Rightarrow> ((st, extra), [])
      | Some r \<Rightarrow>
          let ((ep, extra), alerts) = endpoint_step Ingress tick now r known_ingress (m_ingress st) extra;
              st = st\<lparr>m_ingress := ep\<rparr> in
          (case cdn of
             Some c \<Rightarrow>
               if fst r
               then
                 let ((ep, extra), more) = endpoint_step CDN tick now c known_cdn (m_cdn st) extra in
                 ((st\<lparr>m_cdn := ep\<rparr>, extra), alerts @ more)
               else ((st, extra), alerts)
           | None \<Rightarrow> ((st, extra), alerts)))"

subsection \<open>The relays of an origin\<close>

definition flag :: "json option \<Rightarrow> bool" where
  "flag j = (case j of Some v \<Rightarrow> truthy v | None \<Rightarrow> False)"

definition dict_del :: "'k \<Rightarrow> ('k \<times> 'v) list \<Rightarrow> ('k \<times> 'v) list" where
  "dict_del k = filter (\<lambda>kv. fst kv \<noteq> k)"

definition fresh_relay :: relay_state where
  "fresh_relay = [(''consecutive_fails'', JInt 0), (''consecutive_successes'', JInt 0),
     (''is_problem'', JBool False)]"

text \<open>The stored state fills what the state in memory lacks.\<close>

definition fill :: "string \<Rightarrow> bool \<Rightarrow> relay_state \<Rightarrow> relay_state \<Rightarrow> relay_state" where
  "fill k missing d r = (case map_of d k of Some v \<Rightarrow> if missing then dict_set k v r else r | None \<Rightarrow> r)"

definition merge_relay :: "relay_state \<Rightarrow> relay_state \<Rightarrow> relay_state" where
  "merge_relay d r =
     (let r = dict_set ''is_problem''
                (JBool (flag (map_of r ''is_problem'') \<or> flag (map_of d ''is_problem''))) r;
          r = fill ''consecutive_fails'' (\<not> flag (map_of r ''consecutive_fails'')) d r;
          r = fill ''consecutive_successes'' (\<not> flag (map_of r ''consecutive_successes'')) d r;
          r = fill ''problem_started_at'' (map_of r ''problem_started_at'' = None) d r in
      fill ''last_reminder_at'' (map_of r ''last_reminder_at'' = None) d r)"

definition relay_failed :: "instant \<Rightarrow> string \<Rightarrow> string \<Rightarrow> relay_state \<Rightarrow> relay_state \<times> side_alert list" where
  "relay_failed now key err r =
     (let known = flag (map_of r ''is_problem'');
          fails = min (json_int (map_of r ''consecutive_fails'') + 1) (REQUIRED_RELAY_FAILS + 1);
          r = dict_set ''consecutive_successes'' (JInt 0) (dict_set ''consecutive_fails'' (JInt fails) r) in
      if fails < REQUIRED_RELAY_FAILS then (r, [])
      else if \<not> known
      then (dict_set ''last_reminder_at'' (JInt now) (dict_set ''problem_started_at'' (JInt now)
              (dict_set ''is_problem'' (JBool True) r)), [Relay_Problem key err])
      else (case map_of r ''last_reminder_at'' of
          Some (JInt t) \<Rightarrow>
            if OUTAGE_REMINDER_INTERVAL \<le> now - t
            then
              let started = (if flag (map_of r ''problem_started_at'')
                             then json_int (map_of r ''problem_started_at'')
                             else now - OUTAGE_REMINDER_INTERVAL) in
              (dict_set ''last_reminder_at'' (JInt now) r, [Relay_Reminder key (max 0 (now - started))])
            else (r, [])
        | _ \<Rightarrow> (dict_set ''last_reminder_at'' (JInt now) r, [])))"

definition relay_recovered :: "string \<Rightarrow> relay_state \<Rightarrow> relay_state \<times> side_alert list" where
  "relay_recovered key r =
     (let known = flag (map_of r ''is_problem'');
          succs = min (json_int (map_of r ''consecutive_successes'') + 1) (REQUIRED_RELAY_SUCCESSES + 1);
          r = dict_set ''consecutive_fails'' (JInt 0) (dict_set ''consecutive_successes'' (JInt succs) r) in
      if REQUIRED_RELAY_SUCCESSES \<le> succs \<and> known
      then (dict_del ''last_reminder_at'' (dict_del ''problem_started_at''
              (dict_set ''is_problem'' (JBool False) r)), [Relay_Restored key])
      else (r, []))"

definition relay_step ::
  "instant \<Rightarrow> string \<Rightarrow> bool \<Rightarrow> string \<Rightarrow> relay_state \<Rightarrow> relay_state \<times> side_alert list" where
  "relay_step now key ok err r = (if ok then relay_recovered key r else relay_failed now key err r)"

text \<open>What an origin reports of a relay.\<close>

definition relay_key :: "(string \<times> json) list \<Rightarrow> string" where
  "relay_key r =
     (let ip = text_of (map_of r ''ip'') in
      if ip \<noteq> []
      then ip @ '':'' @ (if flag (map_of r ''port'') then py_str (jget r ''port'') else ''10443'')
      else if flag (map_of r ''name'') then text_of (map_of r ''name'')
      else text_of (map_of r ''code''))"

definition relay_error :: "(string \<times> json) list \<Rightarrow> string" where
  "relay_error r = (if flag (map_of r ''error'') then text_of (map_of r ''error'') else ''Timeout / Unreachable'')"

definition relay_row ::
  "instant \<Rightarrow> (string \<times> relay_state) list \<Rightarrow> (string \<times> json) list
   \<Rightarrow> (string \<times> relay_state) list \<times> side_alert list \<Rightarrow> (string \<times> relay_state) list \<times> side_alert list" where
  "relay_row now stored item p =
     (let (states, alerts) = p;
          key = relay_key item;
          r = (case map_of states key of Some r \<Rightarrow> r | None \<Rightarrow> fresh_relay);
          r = (case map_of stored key of Some d \<Rightarrow> merge_relay d r | None \<Rightarrow> r);
          (r, more) = relay_step now key (flag (map_of item ''healthy'')) (relay_error item) r in
      (dict_set key r states, alerts @ more))"

definition object_items :: "json list \<Rightarrow> (string \<times> json) list list" where
  "object_items = map (\<lambda>j. case j of JObj kvs \<Rightarrow> kvs | _ \<Rightarrow> [])"

definition same_dict :: "relay_state \<Rightarrow> relay_state \<Rightarrow> bool" where
  "same_dict a b \<longleftrightarrow> set a = set b"

definition same_states :: "(string \<times> relay_state) list \<Rightarrow> (string \<times> relay_state) list \<Rightarrow> bool" where
  "same_states a b \<longleftrightarrow> set (map fst a) = set (map fst b)
     \<and> list_all (\<lambda>(k, r). case map_of b k of Some r' \<Rightarrow> same_dict r r' | None \<Rightarrow> False) a"

definition relays_json :: "(string \<times> relay_state) list \<Rightarrow> json" where
  "relays_json states = JObj (map (\<lambda>(k, r). (k, JObj r)) states)"

text \<open>Relays the origin no longer lists are forgotten.\<close>

definition eval_relays ::
  "instant \<Rightarrow> json option \<Rightarrow> monitor_state \<Rightarrow> meta \<Rightarrow> (monitor_state \<times> meta) \<times> side_alert list" where
  "eval_relays now reported st extra =
     (case reported of
        Some (JArr js) \<Rightarrow>
          let stored = stored_dicts (extra ''relays_probe_state'');
              items = object_items js;
              (states, alerts) = fold (relay_row now stored) items (m_relays st, []);
              states = filter (\<lambda>kr. List.member (map relay_key items) (fst kr)) states in
          ((st\<lparr>m_relays := states\<rparr>,
            if same_states stored states then extra
            else extra(''relays_probe_state'' \<mapsto> relays_json states)), alerts)
      | _ \<Rightarrow> ((st, extra), []))"

subsection \<open>Saving and telling\<close>

text \<open>
  One transaction under an advisory lock.  Only keys are added or replaced: what the step took out
  of \<open>extra\_data\<close> is still in the row it is merged into.
\<close>

definition eval_side ::
  "instant \<Rightarrow> instant \<Rightarrow> server \<Rightarrow> (bool \<times> string) option \<Rightarrow> (bool \<times> string) option \<Rightarrow> json option
   \<Rightarrow> monitor_state \<Rightarrow> db \<Rightarrow> (monitor_state \<times> side_alert list) \<times> db" where
  "eval_side tick now n origin cdn reported st s =
     (let fresh = get_server s (s_id n);
          extra = extra_data (case fresh of Some f \<Rightarrow> f | None \<Rightarrow> n);
          st = st\<lparr>m_ingress := load_endpoint Ingress tick now extra (m_ingress st),
                  m_cdn := load_endpoint CDN tick now extra (m_cdn st)\<rparr>;
          ((st, extra), alerts) = eval_endpoints tick now origin cdn st extra;
          ((st, extra), more) = eval_relays now reported st extra in
      ((st, alerts @ more),
       case fresh of Some f \<Rightarrow> set_server (f\<lparr>extra_data := extra_data f ++ extra\<rparr>) s | None \<Rightarrow> s))"

definition set_endpoint_problem :: "endpoint \<Rightarrow> bool \<Rightarrow> monitor_state \<Rightarrow> monitor_state" where
  "set_endpoint_problem k b st =
     (case k of Ingress \<Rightarrow> st\<lparr>m_ingress := (m_ingress st)\<lparr>e_problem := b\<rparr>\<rparr>
      | CDN \<Rightarrow> st\<lparr>m_cdn := (m_cdn st)\<lparr>e_problem := b\<rparr>\<rparr>)"

definition change_extra :: "int \<Rightarrow> (meta \<Rightarrow> meta) \<Rightarrow> db \<Rightarrow> db" where
  "change_extra i f s =
     (case get_server s i of Some n \<Rightarrow> set_server (n\<lparr>extra_data := f (extra_data n)\<rparr>) s | None \<Rightarrow> s)"

definition dispatch_endpoint ::
  "instant \<Rightarrow> bool \<Rightarrow> int \<Rightarrow> endpoint \<Rightarrow> bool \<Rightarrow> monitor_state \<times> db \<Rightarrow> monitor_state \<times> db" where
  "dispatch_endpoint now sent i k is_problem p =
     (let (st, s) = p in
      if \<not> sent then (st, s)
      else
        (set_endpoint_problem k is_problem st,
         change_extra i (\<lambda>m.
           if is_problem
           then let m = m(problem_key k \<mapsto> JBool True) in
                (if m (started_key k) = None then m(started_key k \<mapsto> JInt now) else m)
           else m(problem_key k := None, started_key k := None)) s))"

text \<open>A message about a relay that was not delivered sets the flag to the opposite of what it said.\<close>

definition dispatch_relay ::
  "bool \<Rightarrow> int \<Rightarrow> string \<Rightarrow> bool \<Rightarrow> monitor_state \<times> db \<Rightarrow> monitor_state \<times> db" where
  "dispatch_relay sent i key is_problem p =
     (let (st, s) = p;
          b = JBool (if sent then is_problem else \<not> is_problem);
          st = (case map_of (m_relays st) key of
                  Some r \<Rightarrow> st\<lparr>m_relays := dict_set key (dict_set ''is_problem'' b r) (m_relays st)\<rparr>
                | None \<Rightarrow> st) in
      (st, change_extra i (\<lambda>m.
         let stored = stored_dicts (m ''relays_probe_state'') in
         (case map_of stored key of
            Some r \<Rightarrow> m(''relays_probe_state'' \<mapsto> relays_json (dict_set key (dict_set ''is_problem'' b r) stored))
          | None \<Rightarrow> if sent then m(''relays_probe_state'' \<mapsto> relays_json (dict_set key [(''is_problem'', b)] stored))
                    else m)) s))"

fun dispatch_side ::
  "instant \<Rightarrow> (side_alert \<Rightarrow> bool) \<Rightarrow> int \<Rightarrow> side_alert \<Rightarrow> monitor_state \<times> db \<Rightarrow> monitor_state \<times> db" where
  "dispatch_side now sent i (Endpoint_Problem k d) p =
     dispatch_endpoint now (sent (Endpoint_Problem k d)) i k True p"
| "dispatch_side now sent i (Endpoint_Reminder k d) p =
     dispatch_endpoint now (sent (Endpoint_Reminder k d)) i k True p"
| "dispatch_side now sent i (Endpoint_Restored k) p =
     dispatch_endpoint now (sent (Endpoint_Restored k)) i k False p"
| "dispatch_side now sent i (Relay_Problem key err) p =
     dispatch_relay (sent (Relay_Problem key err)) i key True p"
| "dispatch_side now sent i (Relay_Reminder key d) p =
     dispatch_relay (sent (Relay_Reminder key d)) i key True p"
| "dispatch_side now sent i (Relay_Restored key) p =
     dispatch_relay (sent (Relay_Restored key)) i key False p"

subsection \<open>A check and a cycle\<close>

text \<open>
  What the world answers during one check of a node: its health and its relays, the probes of each
  domain, whether the lock of the alerts was free, the disk usage of the health answer (a number
  between 0 and 100), and which messages were delivered.
\<close>

record node_world =
  nw_health :: http_answer
  nw_relays :: http_answer
  nw_probe :: "string \<Rightarrow> nat \<Rightarrow> probe_try"
  nw_lock :: bool
  nw_disk :: "rat option"
  nw_core_sent :: "core_alert \<Rightarrow> bool"
  nw_side_sent :: "side_alert \<Rightarrow> bool"

definition core_health :: "server \<Rightarrow> http_answer \<Rightarrow> bool \<times> json \<times> (string \<times> json) list option" where
  "core_health n answer = (if flag (get_server_xray_api_url n) then check_health answer else (False, JNull, None))"

definition reported_relays :: "server \<Rightarrow> bool \<Rightarrow> http_answer \<Rightarrow> json option" where
  "reported_relays n healthy answer =
     (if healthy \<and> (List.member (capabilities n) ''xray_origin'' \<or> meta_truthy (extra_data n) ''relays'')
      then (case get_relays_health answer of
          (True, Some kvs, _) \<Rightarrow> (case jget kvs ''relays'' of JNull \<Rightarrow> None | j \<Rightarrow> Some j)
        | _ \<Rightarrow> None)
      else None)"

definition check_side ::
  "instant \<Rightarrow> instant \<Rightarrow> node_world \<Rightarrow> server \<Rightarrow> bool \<Rightarrow> monitor_state \<Rightarrow> db \<Rightarrow> monitor_state \<times> db" where
  "check_side tick now w n healthy st s =
     (let (origin, cdn) = ingress_probes (nw_probe w) n;
          reported = reported_relays n healthy (nw_relays w) in
      if (origin = None \<and> reported = None) \<or> \<not> nw_lock w then (st, s)
      else
        let ((st, alerts), s) = eval_side tick now n origin cdn reported st s in
        fold (dispatch_side now (nw_side_sent w) (s_id n)) alerts (st, s))"

definition check_one ::
  "instant \<Rightarrow> instant \<Rightarrow> node_world \<Rightarrow> server \<Rightarrow> monitor_state \<Rightarrow> db \<Rightarrow> monitor_state \<times> db" where
  "check_one tick now w n st s =
     (if \<not> s_is_active n then (st\<lparr>m_health := MANUAL_DISABLED\<rparr>, s)
      else
        let st = enabled_again st in
        if \<not> confirmation_due tick st \<or> \<not> (is_vless_capable_server n \<or> is_white_internet_origin_server n)
        then (st, s)
        else
          let before = st;
              health = core_health n (nw_health w);
              (st, s) = check_side tick now w n (fst health) st s in
          check_core tick now (nw_core_sent w) n health (nw_disk w) before st s)"

text \<open>
  One cycle over the nodes as they were read at its start.  The checks of a batch run side by side,
  each on its own row and its own state.
\<close>

definition check_node ::
  "instant \<Rightarrow> instant \<Rightarrow> (int \<Rightarrow> node_world) \<Rightarrow> server
   \<Rightarrow> (int \<rightharpoonup> monitor_state) \<times> db \<Rightarrow> (int \<rightharpoonup> monitor_state) \<times> db" where
  "check_node tick now worlds n p =
     (let (states, s) = p;
          st = get_server_monitor_state tick now n states;
          (st, s) = check_one tick now (worlds (s_id n)) n st s in
      (states(s_id n \<mapsto> st), s))"

definition check_node_resources_and_alerts ::
  "instant \<Rightarrow> instant \<Rightarrow> (int \<Rightarrow> node_world) \<Rightarrow> (int \<rightharpoonup> monitor_state) \<times> db
   \<Rightarrow> (int \<rightharpoonup> monitor_state) \<times> db" where
  "check_node_resources_and_alerts tick now worlds p =
     fold (check_node tick now worlds) (get_all_servers (snd p)) p"

end
