(* ===== verification/Hysteresis.thy ===== *)
theory Hysteresis
  imports Main "HOL-Library.Sublist"
begin

section \<open>Alarms with hysteresis\<close>

text \<open>
  The contract the alarms of the monitor share.  An alarm is raised after \<open>f\<close> failures in a row and
  withdrawn after \<open>s\<close> successes in a row.  \<open>declared_down\<close> says so of a whole history; a
  component that counts is an instance of the locale \<open>hysteresis\<close> if each of its steps does what
  \<open>hstep\<close> does to the abstract counters.
\<close>

definition declared_down :: "nat \<Rightarrow> nat \<Rightarrow> bool list \<Rightarrow> bool" where
  "declared_down f s h \<longleftrightarrow>
     list_ex (\<lambda>i. take f (drop i h) = replicate f False \<and> \<not> sublist (replicate s True) (drop (i + f) h))
       [0..<length h]"

definition trailing :: "bool \<Rightarrow> bool list \<Rightarrow> nat" where
  "trailing b h = length (takeWhile (\<lambda>x. x = b) (rev h))"

lemma trailing_Nil [simp]: "trailing b [] = 0"
  by (simp add: trailing_def)

lemma trailing_snoc [simp]: "trailing b (h @ [x]) = (if x = b then trailing b h + 1 else 0)"
  by (simp add: trailing_def)

lemma prefix_replicate: "prefix (replicate n b) l \<longleftrightarrow> n \<le> length (takeWhile (\<lambda>x. x = b) l)"
  by (induction l arbitrary: n) (case_tac n; auto)+

lemma suffix_replicate: "suffix (replicate n b) h \<longleftrightarrow> n \<le> trailing b h"
  by (simp add: suffix_to_prefix prefix_replicate trailing_def)

lemma declared_down_split:
  assumes "0 < f"
  shows "declared_down f s h \<longleftrightarrow>
    (\<exists>xs ys. h = xs @ replicate f False @ ys \<and> \<not> sublist (replicate s True) ys)"
proof
  assume "declared_down f s h"
  then obtain i where i: "take f (drop i h) = replicate f False" "\<not> sublist (replicate s True) (drop (i + f) h)"
    by (auto simp: declared_down_def list_ex_iff)
  have "h = take i h @ take f (drop i h) @ drop f (drop i h)"
    by (simp only: append_take_drop_id)
  then show "\<exists>xs ys. h = xs @ replicate f False @ ys \<and> \<not> sublist (replicate s True) ys"
    using i by (metis add.commute drop_drop)
next
  assume "\<exists>xs ys. h = xs @ replicate f False @ ys \<and> \<not> sublist (replicate s True) ys"
  then obtain xs ys where "h = xs @ replicate f False @ ys" "\<not> sublist (replicate s True) ys"
    by blast
  then show "declared_down f s h"
    using assms by (auto simp: declared_down_def list_ex_iff intro!: bexI [of _ "length xs"])
qed

lemma sublist_snoc_replicate:
  "sublist (replicate s b) (ys @ [x]) \<longleftrightarrow>
     sublist (replicate s b) ys \<or> s \<le> trailing b (ys @ [x])"
  by (metis sublist_snoc suffix_replicate)

lemma declared_down_success:
  assumes "0 < f" and "0 < s"
  shows "declared_down f s (h @ [True]) \<longleftrightarrow> declared_down f s h \<and> trailing True h + 1 < s"
proof
  assume "declared_down f s (h @ [True])"
  then obtain xs ys where h: "h @ [True] = xs @ replicate f False @ ys" "\<not> sublist (replicate s True) ys"
    using assms(1) by (auto simp: declared_down_split)
  obtain zs where ys: "ys = zs @ [True]"
  proof (cases ys rule: rev_cases)
    case Nil
    then have "last (h @ [True]) = last (replicate f False)"
      using h(1) assms(1) by (simp add: last_append)
    then show ?thesis
      using assms(1) by simp
  next
    case (snoc zs z)
    then show ?thesis
      using h(1) that by (metis append_assoc last_snoc)
  qed
  have down: "declared_down f s h"
    using h assms(1) by (auto simp: declared_down_split ys sublist_snoc)
  moreover have "trailing True h + 1 < s"
  proof (rule ccontr)
    assume "\<not> trailing True h + 1 < s"
    then have "suffix (replicate s True) (h @ [True])"
      unfolding suffix_replicate by simp
    then have suf: "suffix (replicate s True) (xs @ replicate f False @ ys)"
      by (simp only: h(1))
    have "suffix (replicate s True) ys"
    proof (rule ccontr)
      assume "\<not> suffix (replicate s True) ys"
      then have "suffix ys (replicate s True)" and "ys \<noteq> replicate s True"
        using suf suffix_same_cases [of "replicate s True" "(xs @ replicate f False) @ ys" ys]
        by (auto simp: suffix_def)
      then obtain us where us: "replicate s True = us @ ys" "us \<noteq> []"
        by (auto simp: suffix_def)
      then have "suffix us (xs @ replicate f False)"
        using suf by (auto simp: suffix_def)
      then obtain zs where zs: "xs @ replicate f False = zs @ us"
        by (auto simp: suffix_def)
      have "last us = last (xs @ replicate f False)"
        by (simp only: zs) (simp add: us(2))
      then have "last us = False"
        using assms(1) by (simp add: last_append)
      moreover have "set us \<subseteq> {True}"
        using us(1) by (metis Un_upper1 set_append set_replicate_conv_if order_refl order_trans subset_insertI)
      ultimately show False
        using us(2) last_in_set by fastforce
    qed
    then show False
      using h(2) by (simp add: suffix_imp_sublist)
  qed
  ultimately show "declared_down f s h \<and> trailing True h + 1 < s"
    by blast
next
  assume a: "declared_down f s h \<and> trailing True h + 1 < s"
  then obtain xs ys where h: "h = xs @ replicate f False @ ys" "\<not> sublist (replicate s True) ys"
    using assms(1) by (auto simp: declared_down_split)
  have "\<not> suffix (replicate s True) (ys @ [True])"
  proof
    assume "suffix (replicate s True) (ys @ [True])"
    then have "suffix (replicate s True) (h @ [True])"
      by (auto simp: h(1) suffix_def)
    then show False
      using a suffix_replicate [of s True "h @ [True]"] by simp
  qed
  then have "\<not> sublist (replicate s True) (ys @ [True])"
    using h(2) by (simp add: sublist_snoc)
  then show "declared_down f s (h @ [True])"
    using assms(1) h(1) by (auto simp: declared_down_split)
qed

lemma declared_down_failure:
  assumes "0 < f" and "0 < s"
  shows "declared_down f s (h @ [False]) \<longleftrightarrow> declared_down f s h \<or> f \<le> trailing False h + 1"
proof
  assume "declared_down f s (h @ [False])"
  then obtain xs ys where h: "h @ [False] = xs @ replicate f False @ ys" "\<not> sublist (replicate s True) ys"
    using assms(1) by (auto simp: declared_down_split)
  show "declared_down f s h \<or> f \<le> trailing False h + 1"
  proof (cases ys rule: rev_cases)
    case Nil
    then have "suffix (replicate f False) (h @ [False])"
      using h(1) by (simp add: suffix_def)
    then show ?thesis
      using suffix_replicate [of f False "h @ [False]"] by simp
  next
    case (snoc zs z)
    then show ?thesis
      using h assms(1) by (auto simp: declared_down_split sublist_snoc)
  qed
next
  assume "declared_down f s h \<or> f \<le> trailing False h + 1"
  then show "declared_down f s (h @ [False])"
  proof
    assume "declared_down f s h"
    then obtain xs ys where h: "h = xs @ replicate f False @ ys" "\<not> sublist (replicate s True) ys"
      using assms(1) by (auto simp: declared_down_split)
    have "trailing True (ys @ [False]) = 0"
      by simp
    then have "\<not> sublist (replicate s True) (ys @ [False])"
      using h(2) assms(2) suffix_replicate [of s True "ys @ [False]"] sublist_snoc
      by (metis less_le_not_le)
    then show ?thesis
      using assms(1) h(1) by (auto simp: declared_down_split)
  next
    assume "f \<le> trailing False h + 1"
    then have "suffix (replicate f False) (h @ [False])"
      using suffix_replicate [of f False "h @ [False]"] by simp
    then obtain xs where "h @ [False] = xs @ replicate f False @ []"
      by (auto simp: suffix_def)
    moreover have "\<not> sublist (replicate s True) []"
      using assms(2) by simp
    ultimately show ?thesis
      using assms(1) declared_down_split by blast
  qed
qed

subsection \<open>Counting\<close>

text \<open>Whether the alarm is raised, the failures and the successes in a row.\<close>

type_synonym counters = "bool \<times> nat \<times> nat"

definition hstep :: "nat \<Rightarrow> nat \<Rightarrow> bool \<Rightarrow> counters \<Rightarrow> counters" where
  "hstep f s b c =
     (let (down, fails, succs) = c in
      if b then (down \<and> succs + 1 < s, 0, succs + 1) else (down \<or> f \<le> fails + 1, fails + 1, 0))"

lemma fold_hstep:
  assumes "0 < f" and "0 < s"
  shows "fold (hstep f s) h (False, 0, 0) = (declared_down f s h, trailing False h, trailing True h)"
proof (induction h rule: rev_induct)
  case Nil
  show ?case by (simp add: declared_down_def)
next
  case (snoc b h)
  then show ?case
    using assms by (cases b) (simp_all add: hstep_def declared_down_success declared_down_failure)
qed

locale hysteresis =
  fixes step :: "'o \<Rightarrow> 'st \<Rightarrow> 'st"
    and ok :: "'o \<Rightarrow> bool"
    and simulates :: "'st \<Rightarrow> counters \<Rightarrow> bool"
    and start :: 'st
    and fails_needed :: nat
    and succs_needed :: nat
  assumes start_simulates: "simulates start (False, 0, 0)"
    and step_simulates: "simulates st c \<Longrightarrow> simulates (step x st) (hstep fails_needed succs_needed (ok x) c)"
    and fails_pos: "0 < fails_needed" and succs_pos: "0 < succs_needed"
begin

lemma fold_simulates:
  "simulates st c \<Longrightarrow> simulates (fold step xs st) (fold (hstep fails_needed succs_needed) (map ok xs) c)"
  by (induction xs arbitrary: st c) (simp_all only: fold.simps list.map comp_apply id_apply step_simulates)

lemma run_declared:
  "simulates (fold step xs start)
     (declared_down fails_needed succs_needed (map ok xs), trailing False (map ok xs), trailing True (map ok xs))"
  using fold_simulates [OF start_simulates, of xs] by (simp only: fold_hstep [OF fails_pos succs_pos])

end

end
