(* ===== verification/Monitor_Theorems.thy ===== *)
theory Monitor_Theorems
  imports Endpoint_Monitor Hysteresis Servers_Theorems
begin

section \<open>Properties of the monitor\<close>

text \<open>
  The three alarms of the monitor are instances of \<open>hysteresis\<close>: a history of checks alone says
  whether an outage is declared.  A check whose row nobody else changed is written and leaves the
  monitor and the row in agreement; an administrator's switch wins over it.
\<close>

subsection \<open>The core of a node\<close>

definition core_run :: "(instant \<times> bool \<times> rat option) list \<Rightarrow> monitor_state \<Rightarrow> monitor_state" where
  "core_run = fold (\<lambda>(tick, ok, disk) st. fst (core_step tick ok disk st))"

definition core_simulates :: "monitor_state \<Rightarrow> counters \<Rightarrow> bool" where
  "core_simulates st c \<longleftrightarrow> (let (down, fails, succs) = c in
     (if down then m_health st = PROBLEM \<and> m_succs st = int succs \<and> succs < 3
      else m_health st = ONLINE \<and> fails = 0 \<or> m_health st = WAITING_CONFIRMATION \<and> fails = 1))"

lemma remind_frame [simp]:
  "m_health (fst (core_remind tick st)) = m_health st" "m_succs (fst (core_remind tick st)) = m_succs st"
  "m_fails (fst (core_remind tick st)) = m_fails st" "m_next_check (fst (core_remind tick st)) = m_next_check st"
  "m_last_alert (fst (core_remind tick st)) = m_last_alert st"
  by (simp_all add: core_remind_def split: option.split)

lemma disk_frame [simp]:
  "m_health (fst (disk_check tick disk st)) = m_health st" "m_succs (fst (disk_check tick disk st)) = m_succs st"
  "m_fails (fst (disk_check tick disk st)) = m_fails st" "m_next_check (fst (disk_check tick disk st)) = m_next_check st"
  "m_last_alert (fst (disk_check tick disk st)) = m_last_alert st"
  by (simp_all add: disk_check_def split: option.split)

lemma core_step_fst [simp]:
  "m_health (fst (core_step tick ok disk st)) =
     m_health (fst (if ok then core_success tick disk st else core_failure tick st))"
  "m_succs (fst (core_step tick ok disk st)) =
     m_succs (fst (if ok then core_success tick disk st else core_failure tick st))"
  "m_fails (fst (core_step tick ok disk st)) =
     m_fails (fst (if ok then core_success tick disk st else core_failure tick st))"
  "m_next_check (fst (core_step tick ok disk st)) =
     m_next_check (fst (if ok then core_success tick disk st else core_failure tick st))"
  "m_last_alert (fst (core_step tick ok disk st)) =
     m_last_alert (fst (if ok then core_success tick disk st else core_failure tick st))"
  by (simp_all add: core_step_def case_prod_beta Let_def)

interpretation core_alarm: hysteresis
  "\<lambda>(tick, ok, disk) st. fst (core_step tick ok disk st)" "\<lambda>x. fst (snd x)" core_simulates
  new_monitor_state 2 3
proof
  show "core_simulates new_monitor_state (False, 0, 0)"
    by (simp add: core_simulates_def new_monitor_state_def)
next
  fix st and c :: counters and x :: "instant \<times> bool \<times> rat option"
  obtain tick ok disk where x: "x = (tick, ok, disk)"
    by (cases x)
  obtain down fails succs where c: "c = (down, fails, succs)"
    by (cases c)
  assume "core_simulates st c"
  then show "core_simulates ((\<lambda>(tick, ok, disk) st. fst (core_step tick ok disk st)) x st)
      (hstep 2 3 (fst (snd x)) c)"
    by (cases ok; cases down)
      (auto simp: x c core_simulates_def hstep_def core_success_def core_failure_def Let_def
        case_prod_beta REQUIRED_STABLE_SUCCESSES_def)
qed simp_all

subsection \<open>Endpoints and relays\<close>

text \<open>A round of an endpoint whose messages are all delivered.\<close>

definition endpoint_round ::
  "endpoint \<Rightarrow> instant \<times> instant \<times> bool \<times> string \<Rightarrow> endpoint_state \<times> meta \<Rightarrow> endpoint_state \<times> meta" where
  "endpoint_round k x p =
     (let (tick, now, r) = x; (ep, extra) = p;
          ((ep', extra), alerts) = endpoint_step k tick now r (e_problem ep) ep extra in
      (ep'\<lparr>e_problem := fold (\<lambda>a _. says_problem a) alerts (e_problem ep)\<rparr>, extra))"

definition endpoint_simulates :: "endpoint_state \<times> meta \<Rightarrow> counters \<Rightarrow> bool" where
  "endpoint_simulates p c \<longleftrightarrow> (let (down, fails, succs) = c in
     e_problem (fst p) = down \<and> e_fails (fst p) = int fails \<and> e_succs (fst p) = int succs)"

lemmas endpoint_limits = REQUIRED_INGRESS_FAILS_def REQUIRED_CDN_FAILS_def REQUIRED_INGRESS_SUCCESSES_def

lemma endpoint_hstep:
  assumes "endpoint_simulates p c"
  shows "endpoint_simulates (endpoint_round k x p)
           (hstep (nat (required_fails k)) 2 (fst (snd (snd x))) c)"
proof -
  obtain tick now ok detail where x: "x = (tick, now, ok, detail)"
    by (cases x)
  obtain ep extra where p: "p = (ep, extra)"
    by (cases p)
  obtain down fails succs where c: "c = (down, fails, succs)"
    by (cases c)
  show ?thesis
    using assms
    by (cases k; cases ok; cases down)
      (auto simp: x p c endpoint_simulates_def endpoint_round_def endpoint_step_def hstep_def
        endpoint_success_def endpoint_fail_def endpoint_remind_def endpoint_limits Let_def
        split: option.split if_split_asm)
qed

interpretation endpoint_alarm: hysteresis "endpoint_round k" "\<lambda>x. fst (snd (snd x))" endpoint_simulates
  "(fresh_endpoint, extra)" "nat (required_fails k)" 2 for k extra
proof
  show "endpoint_simulates (fresh_endpoint, extra) (False, 0, 0)"
    by (simp add: endpoint_simulates_def fresh_endpoint_def)
  show "0 < nat (required_fails k)"
    by (cases k) (simp_all add: endpoint_limits)
qed (simp_all add: endpoint_hstep)

definition relay_simulates :: "relay_state \<Rightarrow> counters \<Rightarrow> bool" where
  "relay_simulates r c \<longleftrightarrow> (let (down, fails, succs) = c in
     flag (map_of r ''is_problem'') = down
     \<and> map_of r ''consecutive_fails'' = Some (JInt (min (int fails) 16))
     \<and> map_of r ''consecutive_successes'' = Some (JInt (min (int succs) 4)))"

lemma map_of_dict_del [simp]: "map_of (dict_del k r) = (map_of r)(k := None)"
  by (induction r) (auto simp: dict_del_def)

lemmas relay_limits = REQUIRED_RELAY_FAILS_def REQUIRED_RELAY_SUCCESSES_def

text \<open>A reminder changes nothing but when it was sent.\<close>

lemma relay_failed_reads:
  fixes r :: relay_state
  defines "fails \<equiv> min (json_int (map_of r ''consecutive_fails'') + 1) 16"
  shows "map_of (fst (relay_failed now key err r)) ''consecutive_fails'' = Some (JInt fails)"
    and "map_of (fst (relay_failed now key err r)) ''consecutive_successes'' = Some (JInt 0)"
    and "flag (map_of (fst (relay_failed now key err r)) ''is_problem'')
           = (flag (map_of r ''is_problem'') \<or> 15 \<le> fails)"
proof -
  define r' where "r' = dict_set ''consecutive_successes'' (JInt 0) (dict_set ''consecutive_fails'' (JInt fails) r)"
  have fails: "min (json_int (map_of r ''consecutive_fails'') + 1) (REQUIRED_RELAY_FAILS + 1) = fails"
    by (simp add: fails_def relay_limits)
  have "fst (relay_failed now key err r) = (if 15 \<le> fails \<and> \<not> flag (map_of r ''is_problem'')
      then dict_set ''last_reminder_at'' (JInt now) (dict_set ''problem_started_at'' (JInt now)
             (dict_set ''is_problem'' (JBool True) r')) else r')
    \<or> 15 \<le> fails \<and> flag (map_of r ''is_problem'')
       \<and> fst (relay_failed now key err r) = dict_set ''last_reminder_at'' (JInt now) r'"
    unfolding relay_failed_def fails Let_def r'_def [symmetric]
    by (auto simp: relay_limits split: option.split json.split)
  then show "map_of (fst (relay_failed now key err r)) ''consecutive_fails'' = Some (JInt fails)"
    and "map_of (fst (relay_failed now key err r)) ''consecutive_successes'' = Some (JInt 0)"
    and "flag (map_of (fst (relay_failed now key err r)) ''is_problem'')
           = (flag (map_of r ''is_problem'') \<or> 15 \<le> fails)"
    by (auto simp: r'_def flag_def)
qed

lemma relay_hstep:
  assumes "relay_simulates r c"
  shows "relay_simulates (fst (relay_step now key ok err r)) (hstep 15 3 ok c)"
proof -
  obtain down fails succs where c: "c = (down, fails, succs)"
    by (cases c)
  have r: "flag (map_of r ''is_problem'') = down"
    "map_of r ''consecutive_fails'' = Some (JInt (min (int fails) 16))"
    "map_of r ''consecutive_successes'' = Some (JInt (min (int succs) 4))"
    using assms by (simp_all add: c relay_simulates_def)
  have reads: "json_int (Some (JInt i)) = i" "flag (Some (JBool b)) = b" for i b
    by (simp_all add: json_int_def flag_def)
  show ?thesis
  proof (cases ok)
    case True
    then show ?thesis
      by (simp add: c relay_step_def relay_recovered_def r reads relay_limits Let_def hstep_def
          relay_simulates_def) linarith
  next
    case False
    then show ?thesis
      by (simp add: c relay_step_def relay_failed_reads r reads Let_def hstep_def relay_simulates_def)
  qed
qed

interpretation relay_alarm: hysteresis
  "\<lambda>(now, ok, err) r. fst (relay_step now key ok err r)" "\<lambda>x. fst (snd x)" relay_simulates
  fresh_relay 15 3 for key
proof
  show "relay_simulates fresh_relay (False, 0, 0)"
    by (simp add: relay_simulates_def fresh_relay_def flag_def)
qed (auto simp: relay_hstep)

subsection \<open>The monitor and the row\<close>

definition core_columns :: "server \<Rightarrow> bool \<times> ServerHealthState \<times> int \<times> int \<times> string option" where
  "core_columns r = (s_is_active r, health_state r, consecutive_fails r, consecutive_successes r,
     last_alert_sent_state r)"

definition core_of :: "monitor_state \<Rightarrow> bool \<times> ServerHealthState \<times> int \<times> int \<times> string option" where
  "core_of st = (True, m_health st, m_fails st, m_succs st, m_last_alert st)"

text \<open>The row of an active node holds what the monitor holds.\<close>

definition in_step :: "int \<Rightarrow> monitor_state \<times> db \<Rightarrow> bool" where
  "in_step i p \<longleftrightarrow> (\<exists>r. get_server (snd p) i = Some r \<and> core_columns r = core_of (fst p))"

lemma in_step_set:
  assumes "in_step i (st, s)" and "get_server s j = Some x" and "s_id y = s_id x"
    and "core_columns y = core_columns x"
  shows "in_step i (st, set_server y s)"
  using assms get_server_id [OF assms(2)] by (cases "i = j") (auto simp: in_step_def)

lemma in_step_core: "in_step i (st, s) \<Longrightarrow> core_of st' = core_of st \<Longrightarrow> in_step i (st', s)"
  by (simp add: in_step_def)

lemma in_step_set_extra:
  assumes "in_step i (st, s)" and "core_of st' = core_of st"
  shows "in_step i (st', change_extra j f s)"
  using in_step_core [OF assms] in_step_set [OF in_step_core [OF assms]]
  by (auto simp: change_extra_def core_columns_def split: option.split)

lemma core_of_side [simp]:
  "core_of (set_endpoint_problem k b st) = core_of st" "core_of (st\<lparr>m_relays := rs\<rparr>) = core_of st"
  "core_of (st\<lparr>m_ingress := ep\<rparr>) = core_of st" "core_of (st\<lparr>m_cdn := ep\<rparr>) = core_of st"
  by (simp_all add: core_of_def set_endpoint_problem_def split: endpoint.split)

lemma dispatch_side_step: "in_step i p \<Longrightarrow> in_step i (dispatch_side now sent j a p)"
  by (cases a; cases p)
    (auto simp: dispatch_endpoint_def dispatch_relay_def Let_def intro!: in_step_set_extra split: option.split)

lemma dispatch_sides_step: "in_step i p \<Longrightarrow> in_step i (fold (dispatch_side now sent j) as p)"
  by (induction as arbitrary: p) (simp_all add: dispatch_side_step)

lemma eval_endpoints_core: "core_of (fst (fst (eval_endpoints tick now o1 o2 st extra))) = core_of st"
  by (simp add: eval_endpoints_def Let_def case_prod_beta split: option.split)

lemma eval_relays_core: "core_of (fst (fst (eval_relays now reported st extra))) = core_of st"
  by (simp add: eval_relays_def Let_def case_prod_beta split: option.split json.split)

lemma eval_side_step:
  assumes "in_step (s_id n) (st, s)" and "eval_side tick now n o1 o2 rep st s = ((st', as), t)"
  shows "in_step (s_id n) (st', t)"
proof -
  obtain r where r: "get_server s (s_id n) = Some r" "core_columns r = core_of st"
    using assms(1) by (auto simp: in_step_def)
  have "core_of st' = core_of st"
    using assms(2) by (auto simp: eval_side_def Let_def case_prod_beta eval_relays_core eval_endpoints_core)
  moreover have "\<exists>e. t = set_server (r\<lparr>extra_data := e\<rparr>) s"
    using assms(2) by (auto simp: eval_side_def Let_def case_prod_beta r(1))
  ultimately show ?thesis
    using r get_server_id [OF r(1)] by (auto simp: in_step_def core_columns_def)
qed

lemma check_side_step:
  assumes "in_step (s_id n) (st, s)"
  shows "in_step (s_id n) (check_side tick now w n healthy st s)"
proof -
  obtain o1 o2 where probes: "ingress_probes (nw_probe w) n = (o1, o2)" by fastforce
  obtain st1 as s1 where eval: "eval_side tick now n o1 o2 (reported_relays n healthy (nw_relays w)) st s = ((st1, as), s1)"
    by (metis prod.exhaust)
  show ?thesis
    using assms dispatch_sides_step [OF eval_side_step [OF assms eval]]
    by (simp add: check_side_def probes eval Let_def)
qed

lemma epoch_cas_row:
  assumes "update_server_xray_epoch_cas i eb est epoch boot started s = ((ok, r), t)"
  shows "t = s \<and> (\<forall>c. r = Some c \<longrightarrow> get_server s i = Some c)
    \<or> (\<exists>x c. get_server s i = Some x \<and> c = install_epoch epoch boot started x \<and> r = Some c \<and> t = set_server c s)"
  using assms by (auto simp: update_server_xray_epoch_cas_def Let_def split: option.split_asm if_split_asm)

lemma refresh_generation_columns:
  assumes "get_server s i = Some r"
  shows "\<exists>r'. get_server (refresh_generation n kvs e s) i = Some r' \<and> core_columns r' = core_columns r"
proof -
  define same where "same = (\<lambda>u. \<exists>r'. get_server u i = Some r' \<and> core_columns r' = core_columns r)"
  have set: "same (set_server y u)" if "same u" "get_server u j = Some x" "s_id y = s_id x"
    "core_columns y = core_columns x" for u j x y
    using that get_server_id [OF that(2)] by (cases "i = j") (auto simp: same_def)
  have tasks: "same (u\<lparr>tasks := ts\<rparr>) = same u" for u ts
    by (simp add: same_def get_server_def)
  let ?cas = "update_server_xray_epoch_cas (s_id n) (xray_instance_boot_id n) (xray_instance_starttime n)
    e (opt_str (jget kvs ''boot_id'')) (opt_int (jget kvs ''starttime'')) s"
  obtain ok c t where cas: "?cas = ((ok, c), t)"
    by (metis prod.exhaust)
  have "same t \<and> (\<forall>x. c = Some x \<longrightarrow> get_server t (s_id n) = Some x)"
  proof (cases "t = s \<and> (\<forall>x. c = Some x \<longrightarrow> get_server s (s_id n) = Some x)")
    case True
    then show ?thesis
      using assms by (simp add: same_def)
  next
    case False
    then obtain x y where x: "get_server s (s_id n) = Some x"
      "y = install_epoch e (opt_str (jget kvs ''boot_id'')) (opt_int (jget kvs ''starttime'')) x"
      "c = Some y" "t = set_server y s"
      using epoch_cas_row [OF cas] by blast
    then have y: "s_id y = s_id n" "core_columns y = core_columns x" "s_id y = s_id x"
      using get_server_id [OF x(1)] by (simp_all add: install_epoch_def core_columns_def)
    have "same s"
      using assms by (simp add: same_def)
    then show ?thesis
      using set [OF _ x(1) y(3) y(2)] x y(1) by simp
  qed
  then have "same t" and row: "\<And>x. c = Some x \<Longrightarrow> get_server t (s_id n) = Some x"
    by blast+
  then have "same (set_server (x\<lparr>extra_data := dynamic_extra kvs (extra_data x)\<rparr>) t)" if "c = Some x" for x
    using set [OF \<open>same t\<close> row [OF that]] by (simp add: core_columns_def)
  then have "same (refresh_generation n kvs e s)"
    using \<open>same t\<close> by (simp add: refresh_generation_def cas Let_def tasks split: option.split bool.split)
  then show ?thesis
    by (simp add: same_def)
qed

lemma note_generation_columns:
  assumes "get_server s i = Some r"
  shows "\<exists>r'. get_server (note_generation n health s) i = Some r' \<and> core_columns r' = core_columns r"
proof -
  have "note_generation n health s = s \<or> (\<exists>kvs e. note_generation n health s = refresh_generation n kvs e s)"
    by (auto simp: note_generation_def split: prod.split json.split option.split bool.split)
  then show ?thesis
    using assms refresh_generation_columns [OF assms] by metis
qed

lemma refresh_generation_step: "in_step i (st, s) \<Longrightarrow> in_step i (st, refresh_generation n kvs e s)"
  using refresh_generation_columns by (fastforce simp: in_step_def)

text \<open>The columns of a check, written into the row that still holds the state it started from.\<close>

fun is_core_field :: "server_field \<Rightarrow> bool" where
  "is_core_field (F_is_active x) = True"
| "is_core_field (F_health_state x) = True"
| "is_core_field (F_consecutive_fails x) = True"
| "is_core_field (F_consecutive_successes x) = True"
| "is_core_field (F_last_alert_sent_state x) = True"
| "is_core_field _ = False"

lemma merge_other_field: "\<not> is_core_field f \<Longrightarrow> core_columns (merge_field f r) = core_columns r \<and> s_id (merge_field f r) = s_id r"
  by (cases f) (simp_all add: core_columns_def)

lemma merge_other_fields:
  "list_all (\<lambda>f. \<not> is_core_field f) fs \<Longrightarrow>
   core_columns (fold merge_field fs r) = core_columns r \<and> s_id (fold merge_field fs r) = s_id r"
  by (induction fs arbitrary: r) (auto dest: merge_other_field)

lemma check_columns_row:
  fixes st :: monitor_state and tick now :: instant and healthy :: bool and data :: "(string \<times> json) list option"
  assumes "s_is_active r"
  defines "r' \<equiv> fold merge_field (filter is_health_field
    (F_health_state (m_health st) # check_columns tick now healthy data st)) r"
  shows "core_columns r' = core_of st" and "s_id r' = s_id r"
proof -
  define rest where "rest = drop 4 (check_columns tick now healthy data st)"
  have other: "list_all (\<lambda>f. \<not> is_core_field f) (filter is_health_field rest)"
    by (auto simp: rest_def check_columns_def list_all_iff split: option.split)
  have "check_columns tick now healthy data st
      = [F_health_state (m_health st), F_consecutive_fails (m_fails st),
         F_consecutive_successes (m_succs st), F_last_alert_sent_state (m_last_alert st)] @ rest"
    by (simp add: rest_def check_columns_def)
  then show "core_columns r' = core_of st" and "s_id r' = s_id r"
    using merge_other_fields [OF other] assms(1) by (simp_all add: r'_def core_columns_def core_of_def)
qed

lemma save_check_step:
  assumes "in_step (s_id n) (before, s)" and "m_health before \<noteq> MANUAL_DISABLED"
    and "save_check tick now n health before st s = ((st', applied), t)"
  shows "applied \<and> st' = st \<and> in_step (s_id n) (st, t)"
proof -
  let ?kws = "check_columns tick now (fst health) (snd (snd health)) st"
  define row where "row = (\<lambda>r. fold merge_field (filter is_health_field (F_health_state (m_health st) # ?kws)) r)"
  have "in_step (s_id n) (before, note_generation n health s)"
    using assms(1) refresh_generation_step [OF assms(1)]
    by (auto simp: note_generation_def split: prod.split json.split option.split bool.split)
  then obtain r where r: "get_server (note_generation n health s) (s_id n) = Some r" "core_columns r = core_of before"
    by (auto simp: in_step_def)
  have cols: "s_is_active r" "health_state r = m_health before" "consecutive_fails r = m_fails before"
    "consecutive_successes r = m_succs before"
    using r(2) by (auto simp: core_columns_def core_of_def)
  have row: "core_columns (row r) = core_of st" "s_id (row r) = s_id n"
    using check_columns_row [OF cols(1), of st tick now "fst health" "snd (snd health)"] get_server_id [OF r(1)]
    by (simp_all only: row_def)
  have "update_server_health_snapshot (s_id n) (m_health before) (m_health st) (Some (m_fails before))
      (Some (m_succs before)) ?kws (note_generation n health s)
    = ((Some (row r), True), set_server (row r) (note_generation n health s))"
    using cols assms(2) by (simp add: update_server_health_snapshot_def r(1) Let_def row_def del: fold.simps filter.simps)
  then have "applied" "st' = st" "t = set_server (row r) (note_generation n health s)"
    using assms(3) by (simp_all add: save_check_def)
  then show ?thesis
    using row r(1) by (simp add: in_step_def)
qed

lemma dispatch_core_step:
  assumes "in_step i (st, s)" and "m_health st \<noteq> MANUAL_DISABLED"
  shows "in_step i (dispatch_core_alert sent i a (st, s)) \<and> m_health (fst (dispatch_core_alert sent i a (st, s))) \<noteq> MANUAL_DISABLED"
  using assms get_server_id
  by (auto simp: dispatch_core_alert_def in_step_def core_columns_def core_of_def Let_def split: option.split)

text \<open>C36. When a node is declared down is decided by its history of checks alone: the monitor is in PROBLEM
  exactly when two checks in a row failed and no three checks in a row have succeeded since, and it
  waits for a confirmation exactly when only the last check failed.  An alert of a check tells the
  state the check led to.\<close>

theorem outage_declared_exactly:
  "let h = map (\<lambda>x. fst (snd x)) obs; st = core_run obs new_monitor_state in
   (m_health st = PROBLEM) = declared_down 2 3 h
   \<and> (m_health st = WAITING_CONFIRMATION) = (trailing False h = 1 \<and> \<not> declared_down 2 3 h)
   \<and> list_all (\<lambda>a. alert_target a = None
                 \<or> alert_target a = Some (m_health (fst (core_step tick ok disk st))))
       (snd (core_step tick ok disk st))"
proof -
  let ?h = "map (\<lambda>x. fst (snd x)) obs" and ?st = "core_run obs new_monitor_state"
  have "core_simulates ?st (declared_down 2 3 ?h, trailing False ?h, trailing True ?h)"
    using core_alarm.run_declared [of obs] by (simp add: core_run_def)
  moreover have "list_all (\<lambda>a. alert_target a = None
       \<or> alert_target a = Some (m_health (fst (core_step tick ok disk ?st)))) (snd (core_step tick ok disk ?st))"
    by (cases "m_health ?st"; cases ok)
      (auto simp: core_step_def core_success_def core_failure_def core_remind_def disk_check_def Let_def
        list_all_iff split: option.split if_split_asm)
  ultimately show ?thesis
    by (auto simp: core_simulates_def Let_def split: if_split_asm)
qed

text \<open>C37. The alarms of the public endpoints and of the relays, when every message is delivered, are
  decided by the history of probes alone: the origin is a problem exactly after three failures in a row
  not followed by two successes in a row, its CDN after five and two, a relay after fifteen and three.\<close>

theorem side_alarms_exact:
  "e_problem (fst (fold (endpoint_round k) obs (fresh_endpoint, extra)))
     = declared_down (case k of Ingress \<Rightarrow> 3 | CDN \<Rightarrow> 5) 2 (map (\<lambda>x. fst (snd (snd x))) obs)
   \<and> flag (map_of (fold (\<lambda>(now, ok, err) r. fst (relay_step now key ok err r)) probes fresh_relay) ''is_problem'')
     = declared_down 15 3 (map (\<lambda>x. fst (snd x)) probes)"
proof -
  have "nat (required_fails k) = (case k of Ingress \<Rightarrow> 3 | CDN \<Rightarrow> 5)"
    by (cases k) (simp_all add: endpoint_limits)
  then show ?thesis
    using endpoint_alarm.run_declared [of k obs extra] relay_alarm.run_declared [of key probes]
    by (simp add: endpoint_simulates_def relay_simulates_def)
qed

lemma dispatch_cores_step:
  "in_step i (st, s) \<Longrightarrow> m_health st \<noteq> MANUAL_DISABLED \<Longrightarrow>
   in_step i (fold (dispatch_core_alert sent i) as (st, s))
     \<and> m_health (fst (fold (dispatch_core_alert sent i) as (st, s))) \<noteq> MANUAL_DISABLED"
proof (induction as arbitrary: st s)
  case (Cons a as)
  obtain u v where d: "dispatch_core_alert sent i a (st, s) = (u, v)"
    by fastforce
  then show ?case
    using dispatch_core_step [OF Cons.prems, of sent a] Cons.IH [of u v] by simp
qed simp

lemma core_step_enabled: "m_health st \<noteq> MANUAL_DISABLED \<Longrightarrow> m_health (fst (core_step tick ok disk st)) \<noteq> MANUAL_DISABLED"
  by (cases "m_health st") (simp_all add: core_success_def core_failure_def Let_def case_prod_beta)

lemma check_core_step:
  assumes "in_step (s_id n) (st, s)" and "core_of st = core_of before" and "m_health before \<noteq> MANUAL_DISABLED"
  shows "in_step (s_id n) (check_core tick now sent n health disk before st s)
    \<and> m_health (fst (check_core tick now sent n health disk before st s)) \<noteq> MANUAL_DISABLED"
proof -
  obtain st1 as where step: "core_step tick (fst health) disk st = (st1, as)"
    by fastforce
  obtain st2 applied t where save: "save_check tick now n health before st1 s = ((st2, applied), t)"
    by (metis prod.exhaust)
  have before: "in_step (s_id n) (before, s)"
    using assms(1,2) by (simp add: in_step_def)
  have "m_health st1 \<noteq> MANUAL_DISABLED"
    using core_step_enabled [of st tick "fst health" disk] assms(2,3) by (simp add: step core_of_def)
  then show ?thesis
    using save_check_step [OF before assms(3) save] dispatch_cores_step [of "s_id n" st1 t sent as]
    by (simp add: check_core_def step save)
qed

lemma core_of_check_side: "core_of (fst (check_side tick now w n healthy st s)) = core_of st"
proof -
  have one: "core_of (fst (dispatch_side now sent j a p)) = core_of (fst p)" for sent j a p
    by (cases a; cases p) (auto simp: dispatch_endpoint_def dispatch_relay_def Let_def split: option.split)
  have all: "core_of (fst (fold (dispatch_side now sent j) as p)) = core_of (fst p)" for sent j as p
    by (induction as arbitrary: p) (simp_all add: one)
  obtain o1 o2 where probes: "ingress_probes (nw_probe w) n = (o1, o2)" by fastforce
  obtain st1 as s1 where eval: "eval_side tick now n o1 o2 (reported_relays n healthy (nw_relays w)) st s = ((st1, as), s1)"
    by (metis prod.exhaust)
  then have "core_of st1 = core_of st"
    by (auto simp: eval_side_def Let_def case_prod_beta eval_relays_core eval_endpoints_core)
  then show ?thesis
    by (simp add: check_side_def probes eval all Let_def)
qed

text \<open>C35. The core columns of a node stay in step with the monitor: if the health, the two counters and the
  state last announced in the row of an active node are the monitor's when a check starts and nobody
  else changes the row, then after the check, whatever the node answers and whatever messages are
  lost, these columns are again the monitor's, so no check of the monitor is ever fenced by its own
  last one.  The columns of the endpoints and the relays and the times of the alarms and reminders are
  outside it.\<close>

theorem monitor_stays_in_step:
  assumes "get_server s (s_id n) = Some n" and "core_columns n = core_of st"
    and "health_state n \<noteq> MANUAL_DISABLED" and "check_one tick now w n st s = (st', t)"
  shows "\<exists>r. get_server t (s_id n) = Some r \<and> s_is_active r \<and> health_state r = m_health st'
    \<and> consecutive_fails r = m_fails st' \<and> consecutive_successes r = m_succs st'
    \<and> last_alert_sent_state r = m_last_alert st' \<and> health_state r \<noteq> MANUAL_DISABLED"
proof -
  have start: "in_step (s_id n) (st, s)" "m_health st \<noteq> MANUAL_DISABLED" "s_is_active n"
    using assms(1-3) by (auto simp: in_step_def core_columns_def core_of_def)
  have same: "enabled_again st = st"
    using start(2) by (simp add: enabled_again_def)
  obtain st1 s1 where side: "check_side tick now w n (fst (core_health n (nw_health w))) st s = (st1, s1)"
    by fastforce
  have "in_step (s_id n) (st1, s1)" and "core_of st1 = core_of st"
    using check_side_step [OF start(1)] core_of_check_side side by (metis fst_conv)+
  then have "in_step (s_id n) (check_core tick now (nw_core_sent w) n (core_health n (nw_health w)) (nw_disk w) st st1 s1)
    \<and> m_health (fst (check_core tick now (nw_core_sent w) n (core_health n (nw_health w)) (nw_disk w) st st1 s1))
        \<noteq> MANUAL_DISABLED"
    using start(2) by (intro check_core_step)
  then have "in_step (s_id n) (st', t) \<and> m_health st' \<noteq> MANUAL_DISABLED"
    using assms(4) start by (auto simp: check_one_def same Let_def side split: if_split_asm)
  then show ?thesis
    by (auto simp: in_step_def core_columns_def core_of_def)
qed

text \<open>The administrator wins: if the node was switched off while its check was running, the check
  writes none of the columns of the state machine, sends no message about the core, and the monitor
  takes over the switch.\<close>

theorem switched_off_during_check:
  assumes "get_server s (s_id n) = Some r" and "\<not> s_is_active r"
    and "check_core tick now sent n health disk before st s = (st', t)"
  shows "m_health st' = MANUAL_DISABLED
    \<and> (\<exists>r'. get_server t (s_id n) = Some r' \<and> core_columns r' = core_columns r)
    \<and> check_core tick now (\<lambda>_. b) n health disk before st s = (st', t)"
proof -
  obtain st1 as where step: "core_step tick (fst health) disk st = (st1, as)"
    by fastforce
  obtain r' where r': "get_server (note_generation n health s) (s_id n) = Some r'" "core_columns r' = core_columns r"
    using note_generation_columns [OF assms(1)] by blast
  then have "\<not> s_is_active r'"
    using assms(2) by (simp add: core_columns_def)
  then have "save_check tick now n health before st1 s
      = ((sync_from_db_server tick now r' st1, False), note_generation n health s)"
    by (simp add: save_check_def update_server_health_snapshot_def r'(1))
  then show ?thesis
    using assms(3) r' \<open>\<not> s_is_active r'\<close> by (auto simp: check_core_def step sync_from_db_server_def)
qed

subsection \<open>A reminder that is lost\<close>

lemma stored_dicts_json [simp]: "stored_dicts (Some (relays_json states)) = states"
proof -
  have "map (\<lambda>(k, v). (k, case v of JObj xs \<Rightarrow> xs | _ \<Rightarrow> [])) (map (\<lambda>(k, r). (k, JObj r)) states) = states"
    by (induction states) auto
  then show ?thesis
    by (simp add: stored_dicts_def relays_json_def)
qed

lemma flag_fill:
  "k \<noteq> ''is_problem'' \<Longrightarrow> map_of (fill k missing d r) ''is_problem'' = map_of r ''is_problem''"
  by (simp add: fill_def split: option.split)

lemma flag_merge:
  "flag (map_of (merge_relay d r) ''is_problem'') = (flag (map_of r ''is_problem'') \<or> flag (map_of d ''is_problem''))"
  by (simp add: merge_relay_def Let_def flag_fill) (simp add: flag_def)

lemma recovered_unannounced:
  assumes "\<not> flag (map_of r ''is_problem'')"
  shows "snd (relay_recovered key r) = [] \<and> \<not> flag (map_of (fst (relay_recovered key r)) ''is_problem'')"
  using assms by (simp add: relay_recovered_def Let_def)

lemma healthy_rows_silent:
  assumes "list_all (\<lambda>item. relay_key item = key \<and> flag (map_of item ''healthy'')) items"
    and "map_of states key = Some r" and "\<not> flag (map_of r ''is_problem'')"
    and "map_of stored key = Some d" and "\<not> flag (map_of d ''is_problem'')"
  shows "snd (fold (relay_row now stored) items (states, alerts)) = alerts"
  using assms
proof (induction items arbitrary: states r)
  case (Cons item items)
  obtain r' as where step: "relay_recovered key (merge_relay d r) = (r', as)"
    by fastforce
  have "as = []" and "\<not> flag (map_of r' ''is_problem'')"
    using recovered_unannounced [of "merge_relay d r" key] Cons.prems by (auto simp: step flag_merge)
  moreover have "relay_row now stored item (states, alerts) = (dict_set key r' states, alerts @ as)"
    using Cons.prems by (simp add: relay_row_def relay_step_def step Let_def)
  ultimately show ?case
    using Cons.IH [of "dict_set key r' states" r'] Cons.prems by simp
qed simp

text \<open>A reminder that is not delivered makes the monitor forget the outage it reminds of: the relay is
  no longer marked as a problem, in memory and in the row, so when the relay recovers the administrators,
  who were told of the outage, are not told of its end.\<close>

theorem lost_reminder_silences_recovery:
  assumes "map_of (m_relays st) key = Some r" and "get_server s i = Some n"
    and "map_of (stored_dicts (extra_data n ''relays_probe_state'')) key = Some d"
    and "dispatch_side now (\<lambda>_. False) i (Relay_Reminder key outage) (st, s) = (st', t)"
    and "list_all (\<lambda>item. relay_key item = key \<and> flag (map_of item ''healthy'')) items"
  shows "\<exists>n'. get_server t i = Some n'
    \<and> snd (fold (relay_row later (stored_dicts (extra_data n' ''relays_probe_state''))) items (m_relays st', [])) = []"
proof -
  define off where "off = (\<lambda>x::relay_state. dict_set ''is_problem'' (JBool False) x)"
  have off: "\<not> flag (map_of (off x) ''is_problem'')" for x
    by (simp add: off_def flag_def)
  let ?m = "(extra_data n)(''relays_probe_state'' \<mapsto> relays_json (dict_set key (off d)
      (stored_dicts (extra_data n ''relays_probe_state''))))"
  have "t = set_server (n\<lparr>extra_data := ?m\<rparr>) s" and "m_relays st' = dict_set key (off r) (m_relays st)"
    using assms(1-4) by (auto simp: dispatch_relay_def change_extra_def Let_def off_def)
  then show ?thesis
    using assms(2,5) get_server_id [OF assms(2)]
      healthy_rows_silent [OF assms(5), of "m_relays st'" "off r"
        "dict_set key (off d) (stored_dicts (extra_data n ''relays_probe_state''))" "off d"] off
    by simp
qed

subsection \<open>Concrete checks\<close>

text \<open>A node that does not answer, and a row an administrator switched off.\<close>

definition dead_world :: node_world where
  "dead_world = \<lparr>nw_health = (0, None, Some (JStr ''timeout'')), nw_relays = (0, None, None),
     nw_probe = (\<lambda>_ _. Probe_Failure ''timeout''), nw_lock = False, nw_disk = None,
     nw_core_sent = (\<lambda>_. True), nw_side_sent = (\<lambda>_. True)\<rparr>"

definition switched_off :: db where
  "switched_off = set_server ((sample_node 1)\<lparr>s_is_active := False\<rparr>) nodes_db"

lemma switched_off_node: "get_server switched_off 1 = Some ((sample_node 1)\<lparr>s_is_active := False\<rparr>)"
  by (simp add: switched_off_def nodes_db_node sample_node_def)

theorem monitor_stays_in_step_witness:
  "\<exists>st t r. check_one 5 5 dead_world (sample_node 1) new_monitor_state nodes_db = (st, t)
     \<and> m_health st = WAITING_CONFIRMATION
     \<and> get_server t 1 = Some r \<and> health_state r = WAITING_CONFIRMATION \<and> consecutive_fails r = 1"
proof -
  obtain st t where run: "check_one 5 5 dead_world (sample_node 1) new_monitor_state nodes_db = (st, t)"
    by fastforce
  have i: "s_id (sample_node 1) = 1"
    by (simp add: sample_node_def)
  have "m_health (fst (check_one 5 5 dead_world (sample_node 1) new_monitor_state nodes_db)) = WAITING_CONFIRMATION
      \<and> m_fails (fst (check_one 5 5 dead_world (sample_node 1) new_monitor_state nodes_db)) = 1"
    by code_simp
  then have "m_health st = WAITING_CONFIRMATION" "m_fails st = 1"
    by (simp_all add: run)
  then show ?thesis
    using monitor_stays_in_step [of nodes_db "sample_node 1" new_monitor_state 5 5 dead_world st t]
      nodes_db_node run
    by (auto simp: i core_columns_def core_of_def new_monitor_state_def sample_node_def)
qed

theorem switched_off_during_check_witness:
  "\<exists>st t. check_core 5 5 (\<lambda>_. True) (sample_node 1) (False, JNull, None) None new_monitor_state
      new_monitor_state switched_off = (st, t) \<and> m_health st = MANUAL_DISABLED"
proof -
  obtain st t where run: "check_core 5 5 (\<lambda>_. True) (sample_node 1) (False, JNull, None) None
      new_monitor_state new_monitor_state switched_off = (st, t)"
    by fastforce
  have "get_server switched_off (s_id (sample_node 1)) = Some ((sample_node 1)\<lparr>s_is_active := False\<rparr>)"
    using switched_off_node by (simp add: sample_node_def)
  then show ?thesis
    using switched_off_during_check [OF _ _ run, of "(sample_node 1)\<lparr>s_is_active := False\<rparr>"] run by simp
qed

definition announced_relay :: relay_state where
  "announced_relay = [(''consecutive_fails'', JInt 16), (''consecutive_successes'', JInt 0),
     (''is_problem'', JBool True), (''problem_started_at'', JInt 0), (''last_reminder_at'', JInt 0)]"

definition healthy_report :: "(string \<times> json) list" where
  "healthy_report = [(''ip'', JStr ''10.0.0.1''), (''healthy'', JBool True)]"

definition outage_key :: string where "outage_key = ''10.0.0.1:10443''"

definition outage_node :: server where
  "outage_node = (sample_node 1)\<lparr>extra_data := [''relays_probe_state'' \<mapsto> relays_json [(outage_key, announced_relay)]]\<rparr>"

theorem lost_reminder_silences_recovery_witness:
  "\<exists>st t n'. dispatch_side 9 (\<lambda>_. False) 1 (Relay_Reminder outage_key 3600)
       (new_monitor_state\<lparr>m_relays := [(outage_key, announced_relay)]\<rparr>, set_server outage_node nodes_db) = (st, t)
     \<and> get_server t 1 = Some n'
     \<and> snd (fold (relay_row 10 (stored_dicts (extra_data n' ''relays_probe_state'')))
         [healthy_report, healthy_report, healthy_report] (m_relays st, [])) = []"
proof -
  let ?st = "new_monitor_state\<lparr>m_relays := [(outage_key, announced_relay)]\<rparr>"
  obtain st t where run: "dispatch_side 9 (\<lambda>_. False) 1 (Relay_Reminder outage_key 3600) (?st, set_server outage_node nodes_db) = (st, t)"
    by fastforce
  have node: "get_server (set_server outage_node nodes_db) 1 = Some outage_node"
    by (simp add: nodes_db_node outage_node_def sample_node_def)
  have row: "map_of (stored_dicts (extra_data outage_node ''relays_probe_state'')) outage_key = Some announced_relay"
    by (simp add: outage_node_def)
  have healthy: "list_all (\<lambda>item. relay_key item = outage_key \<and> flag (map_of item ''healthy''))
      [healthy_report, healthy_report, healthy_report]"
    by code_simp
  show ?thesis
    using lost_reminder_silences_recovery [OF _ node row run healthy, of announced_relay 10] run by auto
qed

end
