(* ===== verification/Traffic_Workers.thy ===== *)
theory Traffic_Workers
  imports Reconciliation VLESS
begin

section \<open>utils/traffic\_helpers.py and the traffic workers\<close>

text \<open>
  The workers that read the counters of the nodes (\<open>services/workers/white\_internet\_traffic.py\<close>
  and \<open>services/workers/traffic.py\<close>).  What a node answers and what becomes of a message are
  arguments, and a node reports its epoch as a text.  The loops with their pauses, the texts and the
  log are not modelled.
\<close>

subsection \<open>Host traffic of a node\<close>

text \<open>The month's bytes of a node: whether anything changed, and the new \<open>extra\_data\<close>.\<close>

definition accumulate_host_traffic_cycle :: "meta \<Rightarrow> int \<Rightarrow> int \<Rightarrow> string \<Rightarrow> bool \<times> meta" where
  "accumulate_host_traffic_cycle extra host_tx host_rx cycle =
     (let raw = max 0 host_tx + max 0 host_rx;
          last_raw = (case extra ''host_last_raw_bytes'' of Some (JInt i) \<Rightarrow> Some i | _ \<Rightarrow> None);
          delta = (case last_raw of Some l \<Rightarrow> if l \<le> raw then raw - l else raw | None \<Rightarrow> 0) in
      if raw \<le> 0 then (False, extra)
      else if extra ''host_traffic_cycle'' \<noteq> Some (JStr cycle)
      then (True, extra(''host_traffic_cycle'' \<mapsto> JStr cycle, ''host_monthly_traffic_bytes'' \<mapsto> JInt delta,
                  ''host_last_raw_bytes'' \<mapsto> JInt raw))
      else if last_raw = None then (True, extra(''host_last_raw_bytes'' \<mapsto> JInt raw))
      else if 0 < delta
      then (True, extra(''host_monthly_traffic_bytes'' \<mapsto>
                      JInt ((case extra ''host_monthly_traffic_bytes'' of Some (JInt i) \<Rightarrow> i | _ \<Rightarrow> 0) + delta),
                    ''host_last_raw_bytes'' \<mapsto> JInt raw))
      else (False, extra))"

subsection \<open>Device slots\<close>

text \<open>The key of a name that ends with a number sign and digits.\<close>

definition get_device_slot_key :: "string \<Rightarrow> string" where
  "get_device_slot_key name =
     (let digits = rev (takeWhile is_digit (rev name)); rest = dropWhile is_digit (rev name) in
      if name = [] then ''slot_1''
      else if digits \<noteq> [] \<and> rest \<noteq> [] \<and> hd rest = CHR ''#'' then ''slot_'' @ digits
      else ''slot_'' @ py_lower (py_strip name))"

definition stored_bytes :: "json option \<Rightarrow> int" where
  "stored_bytes j = (case j of Some (JInt i) \<Rightarrow> i | _ \<Rightarrow> 0)"

definition get_archived_traffic_for_device :: "(string \<times> json) list \<Rightarrow> string \<Rightarrow> int" where
  "get_archived_traffic_for_device archived name =
     (if archived = [] \<or> name = [] then 0
      else if map_of archived (get_device_slot_key name) \<noteq> None
      then stored_bytes (map_of archived (get_device_slot_key name))
      else if map_of archived name \<noteq> None then stored_bytes (map_of archived name)
      else stored_bytes (map_option snd (find (\<lambda>(k, v). py_lower k = py_lower name) archived)))"

definition record_device_traffic_archive ::
  "(string \<rightharpoonup> json) \<Rightarrow> string \<Rightarrow> int \<Rightarrow> (string \<rightharpoonup> json)" where
  "record_device_traffic_archive archived name cur =
     (if cur \<le> 0 \<and> name = [] then archived
      else
        let slot = get_device_slot_key name;
            legacy = (if name \<noteq> [] \<and> name \<noteq> slot then stored_bytes (archived name) else 0);
            archived = (if name \<noteq> [] \<and> name \<noteq> slot then archived(name := None) else archived) in
        archived(slot \<mapsto> JInt (stored_bytes (archived slot) + legacy + max 0 cur)))"

definition get_user_monthly_standard_traffic :: "user option \<Rightarrow> string \<Rightarrow> int" where
  "get_user_monthly_standard_traffic u cycle =
     (case u of
        None \<Rightarrow> 0
      | Some u \<Rightarrow> if traffic_cycle u = Some cycle then max 0 (monthly_vless_bytes u) else 0)"

subsection \<open>The counters of a client\<close>

text \<open>\<open>int(raw) if raw is not None else 0\<close>, and not below zero; \<open>None\<close> where it raises.\<close>

definition read_counter :: "json option \<Rightarrow> int option" where
  "read_counter j =
     map_option (max 0)
       (case j of
          None \<Rightarrow> Some 0
        | Some JNull \<Rightarrow> Some 0
        | Some (JInt i) \<Rightarrow> Some i
        | Some (JBool b) \<Rightarrow> Some (if b then 1 else 0)
        | Some (JDec d) \<Rightarrow> Some (trunc_rat d)
        | Some (JStr x) \<Rightarrow> parse_int x
        | _ \<Rightarrow> None)"

definition client_counters :: "json \<Rightarrow> (int \<times> int) option" where
  "client_counters stats =
     (case stats of
        JObj kvs \<Rightarrow>
          (case (read_counter (map_of kvs ''uplink''), read_counter (map_of kvs ''downlink'')) of
             (Some up, Some down) \<Rightarrow> Some (up, down)
           | _ \<Rightarrow> None)
      | _ \<Rightarrow> None)"

subsection \<open>One client of a White Internet node\<close>

text \<open>
  The counters a report is measured against: zero in a new epoch, and zero for a counter that fell
  within an epoch.  The states RESET and NORMAL differ only in a line of the log.
\<close>

definition baseline :: "wi_sub \<Rightarrow> string \<Rightarrow> int \<Rightarrow> int \<Rightarrow> int \<times> int" where
  "baseline w epoch up down =
     (if traffic_stats_epoch w \<noteq> Some epoch then (0, 0)
      else (if last_uplink_snapshot w \<le> up then last_uplink_snapshot w else 0,
            if last_downlink_snapshot w \<le> down then last_downlink_snapshot w else 0))"

text \<open>The user's totals; the month does not go back.\<close>

definition bill_wi :: "int \<Rightarrow> instant \<Rightarrow> user \<Rightarrow> user" where
  "bill_wi consumed now u =
     (let current = cycle_of now;
          later = (case traffic_cycle u of None \<Rightarrow> False | Some c \<Rightarrow> text_less current c);
          same = (traffic_cycle u = Some current) in
      u\<lparr>total_wi_traffic_bytes := total_wi_traffic_bytes u + consumed,
        monthly_wi_bytes :=
          (if later then monthly_wi_bytes u
           else if same then monthly_wi_bytes u + consumed else consumed),
        monthly_vless_bytes :=
          (if later then monthly_vless_bytes u else if same then monthly_vless_bytes u else 0),
        traffic_cycle := (if later then traffic_cycle u else Some current)\<rparr>)"

record client_outcome =
  oc_processed :: int
  oc_consumed :: int
  oc_exhausted :: "(int \<times> bool) list"
  oc_warned :: "(int \<times> int \<times> bool \<times> int) list"

definition no_outcome :: client_outcome where
  "no_outcome = \<lparr>oc_processed = 0, oc_consumed = 0, oc_exhausted = [], oc_warned = []\<rparr>"

definition version_of :: "wi_sub \<Rightarrow> int" where
  "version_of w = (if desired_version w = 0 then 1 else desired_version w)"

definition warning :: "wi_sub \<Rightarrow> int \<times> int \<times> bool \<times> int" where
  "warning w = (w_id w, w_user_id w, is_trial w, version_of w)"

definition due_for_warning :: "wi_sub \<Rightarrow> bool" where
  "due_for_warning w \<longleftrightarrow> \<not> notified_90p w \<and> w_status w = WI_ACTIVE \<and> 0 < total_quota w
     \<and> ninety_percent (total_quota w) \<le> of_int (used_quota w)"

definition report_client ::
  "int \<Rightarrow> string \<Rightarrow> instant \<Rightarrow> string \<Rightarrow> int \<Rightarrow> int \<Rightarrow> db \<Rightarrow> pyerr + client_outcome \<times> db" where
  "report_client server epoch now cuuid up down s =
     (case find (\<lambda>w. w_uuid w = cuuid \<and> origin_node_id w = Some server) (wi_subs s) of
        None \<Rightarrow> Inr (no_outcome, s)
      | Some w \<Rightarrow>
          let (before_up, before_down) = baseline w epoch up down;
              delta = (up - before_up) + (down - before_down) in
          if delta \<le> 0
          then Inr (no_outcome\<lparr>oc_warned := (if due_for_warning w then [warning w] else [])\<rparr>, s)
          else and_then (record_and_deduct_traffic_atomic (w_id w) epoch up down
                   (Some before_up) (Some before_down) s)
            (\<lambda>(consumed, exhausted, available, event) s.
               let billed = 0 < consumed \<and> w_user_id w \<noteq> 0;
                   s = (if billed
                        then s\<lparr>users := update_rows (\<lambda>u. u_id u = w_user_id w) (bill_wi consumed now) (users s)\<rparr>
                        else s) in
               Inr (\<lparr>oc_processed = 1, oc_consumed = (if billed then consumed else 0),
                     oc_exhausted = (if exhausted then [(w_user_id w, is_trial w)] else []),
                     oc_warned = (if \<not> exhausted \<and> event = Some ''traffic_90p'' then [warning w] else [])\<rparr>, s)))"

definition add_outcome :: "client_outcome \<Rightarrow> client_outcome \<Rightarrow> client_outcome" where
  "add_outcome a b =
     \<lparr>oc_processed = oc_processed a + oc_processed b, oc_consumed = oc_consumed a + oc_consumed b,
      oc_exhausted = oc_exhausted a @ oc_exhausted b, oc_warned = oc_warned a @ oc_warned b\<rparr>"

text \<open>Each client has its own transaction; one that raises is logged and skipped.\<close>

definition report_item ::
  "int \<Rightarrow> string \<Rightarrow> instant \<Rightarrow> string \<times> json \<Rightarrow> client_outcome \<times> db \<Rightarrow> client_outcome \<times> db" where
  "report_item server epoch now item p =
     (let (cuuid, stats) = item; (out, s) = p in
      if py_strip cuuid = [] then (out, s)
      else (case client_counters stats of
          None \<Rightarrow> (out, s)
        | Some (up, down) \<Rightarrow>
            (case report_client server epoch now cuuid up down s of
               Inl err \<Rightarrow> (out, s)
             | Inr (one, s) \<Rightarrow> (add_outcome out one, s))))"

subsection \<open>One White Internet node\<close>

definition add_monthly :: "int \<Rightarrow> string \<Rightarrow> meta \<Rightarrow> meta" where
  "add_monthly consumed cycle extra =
     (if extra ''traffic_cycle'' \<noteq> Some (JStr cycle)
      then extra(''traffic_cycle'' \<mapsto> JStr cycle, ''monthly_traffic_bytes'' \<mapsto> JInt consumed)
      else extra(''monthly_traffic_bytes'' \<mapsto> JInt (stored_bytes (extra ''monthly_traffic_bytes'') + consumed)))"

definition account_node :: "int \<Rightarrow> int \<Rightarrow> int \<Rightarrow> int \<Rightarrow> instant \<Rightarrow> db \<Rightarrow> db" where
  "account_node i consumed host_tx host_rx now s =
     (if consumed \<le> 0 \<and> host_tx \<le> 0 \<and> host_rx \<le> 0 then s
      else (case get_server s i of
          None \<Rightarrow> s
        | Some n \<Rightarrow>
            let cycle = cycle_of now; extra = extra_data n;
                extra = (if 0 < consumed then add_monthly consumed cycle extra else extra);
                extra = (if 0 < host_tx \<or> 0 < host_rx
                         then snd (accumulate_host_traffic_cycle extra host_tx host_rx cycle) else extra) in
            set_server (n\<lparr>extra_data := extra\<rparr>) s))"

definition generation_accepted :: "server \<Rightarrow> string \<Rightarrow> traffic_snapshot \<Rightarrow> db \<Rightarrow> bool \<times> db" where
  "generation_accepted n epoch snap s =
     (let boot = opt_str (ts_boot_id snap); st = opt_int (ts_starttime snap) in
      if xray_instance_epoch n \<noteq> Some epoch \<or> xray_instance_boot_id n \<noteq> boot
         \<or> xray_instance_starttime n \<noteq> st
      then (let ((ok, _), s) = update_server_xray_epoch_cas (s_id n) (xray_instance_boot_id n)
                   (xray_instance_starttime n) epoch boot st s in (ok, s))
      else (True, s))"

definition report_node ::
  "instant \<Rightarrow> server \<Rightarrow> traffic_snapshot \<Rightarrow> client_outcome \<times> db \<Rightarrow> client_outcome \<times> db" where
  "report_node now n snap p =
     (let (out, s) = p in
      case (ts_epoch snap, ts_users snap) of
        (JStr epoch, JObj stats) \<Rightarrow>
          if epoch = [] then (out, s)
          else
            let (ok, s) = generation_accepted n epoch snap s in
            if \<not> ok then (out, s)
            else
              let (mine, s) = fold (report_item (s_id n) epoch now) stats (no_outcome, s) in
              (add_outcome out mine,
               account_node (s_id n) (oc_consumed mine) (host_tx_bytes snap) (host_rx_bytes snap) now s)
      | _ \<Rightarrow> (out, s))"

definition wi_traffic_servers :: "db \<Rightarrow> server list" where
  "wi_traffic_servers s =
     filter (\<lambda>n. origin_server n \<and> lifecycle_status n = Life_ACTIVE) (sort_key s_id (servers s))"

text \<open>
  A snapshot that cannot be read raises, and with it the cycle: what was committed before stays, the
  nodes after it are not reached and nothing is told to the users.
\<close>

fun report_nodes ::
  "instant \<Rightarrow> (int \<Rightarrow> http_answer) \<Rightarrow> server list \<Rightarrow> client_outcome \<times> db
   \<Rightarrow> (pyerr + client_outcome) \<times> db" where
  "report_nodes now answers [] (out, s) = (Inr out, s)"
| "report_nodes now answers (n # ns) (out, s) =
     (case get_traffic_snapshot (answers (s_id n)) of
        Inl err \<Rightarrow> (Inl err, s)
      | Inr snap \<Rightarrow> report_nodes now answers ns (report_node now n snap (out, s)))"

subsection \<open>Telling the users\<close>

datatype delivery = Delivered | Blocked | Undelivered

definition mark_blocked :: "int \<Rightarrow> db \<Rightarrow> db" where
  "mark_blocked uid s = s\<lparr>users := update_rows (\<lambda>u. u_id u = uid) (\<lambda>u. u\<lparr>is_bot_blocked := True\<rparr>) (users s)\<rparr>"

text \<open>Up to three attempts, of which the first that was not lost decides.\<close>

definition tell_exhausted :: "(int \<Rightarrow> nat \<Rightarrow> delivery) \<Rightarrow> int \<times> bool \<Rightarrow> db \<Rightarrow> db" where
  "tell_exhausted told item s =
     (let (uid, trial) = item in
      case get_user s uid of
        None \<Rightarrow> s
      | Some u \<Rightarrow>
          if telegram_id u = 0 then s
          else (case find (\<lambda>d. d \<noteq> Undelivered) (map (told uid) [0, 1, 2]) of
              Some Blocked \<Rightarrow> mark_blocked uid s
            | _ \<Rightarrow> s))"

definition mark_warned :: "int \<Rightarrow> int \<Rightarrow> db \<Rightarrow> db" where
  "mark_warned i ver s =
     s\<lparr>wi_subs := update_rows (\<lambda>w. w_id w = i \<and> desired_version w = ver)
        (\<lambda>w. w\<lparr>notified_90p := True\<rparr>) (wi_subs s)\<rparr>"

definition tell_warned :: "(int \<Rightarrow> delivery) \<Rightarrow> int \<times> int \<times> bool \<times> int \<Rightarrow> db \<Rightarrow> db" where
  "tell_warned told item s =
     (let (i, uid, trial, ver) = item in
      if (case get_user s uid of None \<Rightarrow> True | Some u \<Rightarrow> telegram_id u = 0) then mark_warned i ver s
      else (case told i of
          Delivered \<Rightarrow> mark_warned i ver s
        | Blocked \<Rightarrow> mark_warned i ver (mark_blocked uid s)
        | Undelivered \<Rightarrow> s))"

definition run_traffic_cycle ::
  "instant \<Rightarrow> (int \<Rightarrow> http_answer) \<Rightarrow> (int \<Rightarrow> nat \<Rightarrow> delivery) \<Rightarrow> (int \<Rightarrow> delivery) \<Rightarrow> db
   \<Rightarrow> (pyerr + int) \<times> db" where
  "run_traffic_cycle now answers told_exhausted told_warned s =
     (case report_nodes now answers (wi_traffic_servers s) (no_outcome, s) of
        (Inl err, s) \<Rightarrow> (Inl err, s)
      | (Inr out, s) \<Rightarrow>
          let s = fold (tell_exhausted told_exhausted) (remdups (oc_exhausted out)) s;
              s = fold (tell_warned told_warned) (remdups (oc_warned out)) s in
          (Inr (oc_processed out), s))"

subsection \<open>The VPN nodes\<close>

definition WORKER_ERROR_SLEEP_INTERVAL :: int where "WORKER_ERROR_SLEEP_INTERVAL = 60"
definition TRAFFIC_QUOTA_BYTES :: int where "TRAFFIC_QUOTA_BYTES = 1024 * 1024 * 1024 * 1024"

definition vless_traffic_servers :: "db \<Rightarrow> server list" where
  "vless_traffic_servers s =
     filter (\<lambda>n. s_is_active n \<and> lifecycle_status n = Life_ACTIVE
        \<and> (health_state n = ONLINE \<or> health_state n = WAITING_CONFIRMATION)
        \<and> is_vless_capable_server n
        \<and> (case get_server_xray_api_url n of Some url \<Rightarrow> truthy url | None \<Rightarrow> False) \<and> api_key n \<noteq> [])
       (sort_key s_id (servers s))"

text \<open>The credentials a snapshot lists, in the order of their users.\<close>

definition listed_subs :: "(string \<times> json) list \<Rightarrow> db \<Rightarrow> vless_sub list" where
  "listed_subs stats s =
     sort_key v_user_id (sort_key v_id
       (filter (\<lambda>v. py_strip (v_uuid v) \<noteq> [] \<and> List.member (map fst stats) (v_uuid v)) (vless_subs s)))"

text \<open>One transaction: the bytes billed, and whose they are.\<close>

fun report_subs ::
  "int \<Rightarrow> string \<Rightarrow> instant \<Rightarrow> (string \<times> json) list \<Rightarrow> vless_sub list \<Rightarrow> int \<times> int list \<Rightarrow> db
   \<Rightarrow> pyerr + (int \<times> int list) \<times> db" where
  "report_subs server epoch now stats [] acc s = Inr (acc, s)"
| "report_subs server epoch now stats (v # vs) acc s =
     (case client_counters (case map_of stats (v_uuid v) of Some j \<Rightarrow> j | None \<Rightarrow> JNull) of
        None \<Rightarrow> report_subs server epoch now stats vs acc s
      | Some (up, down) \<Rightarrow>
          and_then (record_vless_traffic_atomic (v_id v) server epoch up down (Some (v_uuid v)) now s)
            (\<lambda>(delta, delta_down, delta_up) s.
               report_subs server epoch now stats vs
                 (if 0 < delta
                  then (fst acc + delta, if v_user_id v \<noteq> 0 then snd acc @ [v_user_id v] else snd acc)
                  else acc) s))"

text \<open>
  A user over the quota is reported once a month; the mark is taken back when none of the
  administrators could be told.  The expiry of the marks is not modelled.
\<close>

definition check_user_quota_alert ::
  "int list \<Rightarrow> (int \<Rightarrow> int \<Rightarrow> bool) \<Rightarrow> string \<Rightarrow> user \<Rightarrow> (int \<times> string) list \<Rightarrow> (int \<times> string) list" where
  "check_user_quota_alert admins received cycle u alerted =
     (if TRAFFIC_QUOTA_BYTES < max 0 (monthly_vless_bytes u) \<and> \<not> List.member alerted (u_id u, cycle)
      then (if admins \<noteq> [] \<and> \<not> list_ex (received (u_id u)) admins then alerted
            else (u_id u, cycle) # alerted)
      else alerted)"

definition report_vless_node ::
  "int list \<Rightarrow> (int \<Rightarrow> int \<Rightarrow> bool) \<Rightarrow> instant \<Rightarrow> server \<Rightarrow> traffic_snapshot
   \<Rightarrow> (int \<times> string) list \<times> db \<Rightarrow> (int \<times> string) list \<times> db" where
  "report_vless_node admins received now n snap p =
     (let (alerted, s) = p in
      case ts_epoch snap of
        JStr epoch \<Rightarrow>
          if epoch = [] then (alerted, s)
          else
            let stats = (case ts_users snap of JObj kvs \<Rightarrow> kvs | _ \<Rightarrow> []) in
            (case report_subs (s_id n) epoch now stats (listed_subs stats s) (0, []) s of
               Inl err \<Rightarrow> (alerted, s)
             | Inr ((delta, affected), s) \<Rightarrow>
                 let s = account_node (s_id n) delta (host_tx_bytes snap) (host_rx_bytes snap) now s;
                     cycle = cycle_of now;
                     over = filter (\<lambda>u. List.member affected (u_id u) \<and> traffic_cycle u = Some cycle) (users s) in
                 (fold (check_user_quota_alert admins received cycle) over alerted, s))
      | _ \<Rightarrow> (alerted, s))"

text \<open>Every snapshot is read before the first is accounted; one that raises is skipped.\<close>

definition vless_traffic_sync_once ::
  "int list \<Rightarrow> (int \<Rightarrow> int \<Rightarrow> bool) \<Rightarrow> instant \<Rightarrow> (int \<Rightarrow> http_answer)
   \<Rightarrow> (int \<times> string) list \<times> db \<Rightarrow> (int \<times> string) list \<times> db" where
  "vless_traffic_sync_once admins received now answers p =
     fold (\<lambda>n p. case get_traffic_snapshot (answers (s_id n)) of
                   Inl err \<Rightarrow> p
                 | Inr snap \<Rightarrow> report_vless_node admins received now n snap p)
       (vless_traffic_servers (snd p)) p"

text \<open>The pause after the \<open>n\<close>-th failure in a row, in seconds.\<close>

definition crash_backoff :: "nat \<Rightarrow> int" where
  "crash_backoff n = min (WORKER_ERROR_SLEEP_INTERVAL * 2 ^ min (n - 1) 4) 900"

end
