(* ===== verification/Traffic_Theorems.thy ===== *)
theory Traffic_Theorems
  imports Traffic_Workers Delivery_Theorems Servers_Theorems
begin

section \<open>Properties of the traffic workers\<close>

text \<open>
  A report of a node is billed once, to the subscription and to the user alike; the month's host
  bytes grow by what the counters grow; and one unreadable snapshot stops the cycle.
\<close>

subsection \<open>One report\<close>

lemma find_update_rows_in:
  assumes "\<And>x. x \<in> set xs \<Longrightarrow> P x \<Longrightarrow> Q (f x) \<longleftrightarrow> Q x"
  shows "find Q (update_rows P f xs) = map_option (\<lambda>x. if P x then f x else x) (find Q xs)"
  using assms by (induction xs) auto

text \<open>What a report measured against \<open>(up0, down0)\<close> stores.\<close>

definition metered :: "string \<Rightarrow> int \<Rightarrow> int \<Rightarrow> int \<Rightarrow> wi_sub \<Rightarrow> wi_sub \<Rightarrow> bool" where
  "metered epoch up down down0 w v \<longleftrightarrow> w_id v = w_id w \<and> w_uuid v = w_uuid w \<and> w_user_id v = w_user_id w
     \<and> origin_node_id v = origin_node_id w \<and> traffic_used_bytes v = traffic_used_bytes w + (down - down0)
     \<and> last_uplink_snapshot v = up \<and> last_downlink_snapshot v = down \<and> traffic_stats_epoch v = Some epoch"

lemma record_metered:
  assumes "record_and_deduct_traffic_atomic i epoch up down (Some up0) (Some down0) s = Inr ((c, ex, av, ev), t)"
    and "get_wi_by_id i s = Some w" and "up0 \<le> up" and "down0 \<le> down" and "up0 < up \<or> down0 < down"
  shows "c = down - down0 \<and> (\<exists>v. metered epoch up down down0 w v \<and> t = set_wi_sub v s)"
proof -
  have delta: "counter_delta up0 up = up - up0" "counter_delta down0 down = down - down0"
    using assms(3,4) by (simp_all add: counter_delta_def)
  have more: "\<not> (up - up0 \<le> 0 \<and> down - down0 \<le> 0)" and c: "max 0 (down - down0) = down - down0"
    using assms(3-5) by auto
  define over where "over = (if w_status w = WI_DISABLED \<or> w_status w = WI_EXPIRED then down - down0
    else max 0 (down - down0 - max 0 (total_quota w - used_quota w)))"
  define v where "v = w\<lparr>traffic_used_bytes := traffic_used_bytes w + (down - down0),
     traffic_overage_bytes := traffic_overage_bytes w + over,
     traffic_uplink_bytes := traffic_uplink_bytes w + (up - up0),
     traffic_downlink_bytes := traffic_downlink_bytes w + (down - down0),
     last_uplink_snapshot := up, last_downlink_snapshot := down, traffic_stats_epoch := Some epoch\<rparr>"
  have "c = down - down0 \<and> ((\<exists>y. save_wi v s = Inr (y, t)) \<or> (\<exists>y. save_wi ((exhaust v)\<lparr>notified_90p := True\<rparr>) s = Inr (y, t)))"
    using assms(1) more unfolding record_and_deduct_traffic_atomic_def Let_def assms(2) option.case delta c
      over_def [symmetric] v_def [symmetric]
    by (auto simp: returned)
  moreover have "metered epoch up down down0 w v" "metered epoch up down down0 w ((exhaust v)\<lparr>notified_90p := True\<rparr>)"
    by (simp_all add: metered_def v_def exhaust_def)
  ultimately show ?thesis
    by (auto simp: save_wi_Inr)
qed

lemma baseline_le: "fst (baseline w epoch up down) \<le> up \<and> snd (baseline w epoch up down) \<le> down"
  if "0 \<le> up" "0 \<le> down"
  using that by (simp add: baseline_def)

lemma baseline_metered: "metered epoch up down down0 w v \<Longrightarrow> baseline v epoch up down = (up, down)"
  by (simp add: metered_def baseline_def)

lemma get_user_after_bill:
  assumes "get_user s i = Some u"
  shows "get_user (s\<lparr>users := update_rows (\<lambda>u. u_id u = i) (bill_wi c now) (users s)\<rparr>) i = Some (bill_wi c now u)"
  using assms find_update_rows [of "\<lambda>u. u_id u = i" "\<lambda>u. u_id u = i" "bill_wi c now" "users s"]
  by (auto simp: get_user_def bill_wi_def Let_def dest: find_SomeD)

lemma report_still:
  assumes "find (\<lambda>w. w_uuid w = c \<and> origin_node_id w = Some server) (wi_subs s) = Some w"
    and "baseline w epoch up down = (up, down)"
  shows "\<exists>warned. report_client server epoch now c up down s = Inr (no_outcome\<lparr>oc_warned := warned\<rparr>, s)"
  using assms by (simp add: report_client_def) blast

lemma listed_after_save:
  assumes "wi_ok s" and w: "find (\<lambda>w. w_uuid w = c \<and> origin_node_id w = Some server) (wi_subs s) = Some w"
    and "metered epoch up down down0 w v"
  shows "find (\<lambda>w. w_uuid w = c \<and> origin_node_id w = Some server) (wi_subs (set_wi_sub v s)) = Some v"
proof -
  have w_in: "w \<in> set (wi_subs s)" "w_uuid w = c" "origin_node_id w = Some server"
    using find_SomeD [OF w] by auto
  have key: "w_id v = w_id w" "w_uuid v = c" "origin_node_id v = Some server"
    using assms(3) w_in by (simp_all add: metered_def)
  have only: "x = w" if "x \<in> set (wi_subs s)" "w_id x = w_id v" for x
    using that w_in(1) key(1) assms(1) by (auto simp: wi_ok_def distinct_map dest: inj_onD)
  have "find (\<lambda>w. w_uuid w = c \<and> origin_node_id w = Some server) (update_rows (\<lambda>x. w_id x = w_id v) (\<lambda>_. v) (wi_subs s))
      = map_option (\<lambda>x. if w_id x = w_id v then v else x) (Some w)"
    unfolding w [symmetric]
  proof (rule find_update_rows_in)
    fix x
    assume "x \<in> set (wi_subs s)" "w_id x = w_id v"
    then show "(w_uuid v = c \<and> origin_node_id v = Some server) = (w_uuid x = c \<and> origin_node_id x = Some server)"
      using only key w_in by blast
  qed
  then show ?thesis
    by (simp add: set_wi_sub_def key)
qed

definition listed_client :: "db \<Rightarrow> string \<Rightarrow> int \<Rightarrow> wi_sub option" where
  "listed_client s c server = find (\<lambda>w. w_uuid w = c \<and> origin_node_id w = Some server) (wi_subs s)"

text \<open>A report of a node is billed once: the subscription's used traffic and the user's total grow by
  the same amount, which is what the downlink counter grew by since the stored snapshot, or its whole
  value in a new epoch or after a reset; the same report once more bills nothing and changes
  nothing.\<close>

theorem wi_report_billed_once:
  assumes "report_client server epoch now c up down s = Inr (out, t)" and "wi_ok s"
    and "0 \<le> up" and "0 \<le> down" and "listed_client s c server = Some w" and "w_user_id w \<noteq> 0"
    and "get_user s (w_user_id w) = Some u"
  shows "\<exists>v u'. listed_client t c server = Some v \<and> get_user t (w_user_id w) = Some u'
    \<and> oc_consumed out = down - snd (baseline w epoch up down) \<and> 0 \<le> oc_consumed out
    \<and> traffic_used_bytes v = traffic_used_bytes w + oc_consumed out
    \<and> total_wi_traffic_bytes u' = total_wi_traffic_bytes u + oc_consumed out
    \<and> (\<exists>out'. report_client server epoch later c up down t = Inr (out', t) \<and> oc_consumed out' = 0)"
proof -
  obtain up0 down0 where base: "baseline w epoch up down = (up0, down0)"
    by fastforce
  have le: "up0 \<le> up" "down0 \<le> down"
    using baseline_le [OF assms(3,4), of w epoch] by (simp_all add: base)
  have w: "find (\<lambda>w. w_uuid w = c \<and> origin_node_id w = Some server) (wi_subs s) = Some w"
    using assms(5) by (simp add: listed_client_def)
  have w_in: "w \<in> set (wi_subs s)" "w_uuid w = c" "origin_node_id w = Some server"
    using find_SomeD [OF w] by auto
  show ?thesis
  proof (cases "up0 < up \<or> down0 < down")
    case False
    then have same: "up = up0" "down = down0"
      using le by auto
    have still: "\<exists>warned. report_client server epoch instant0 c up down s = Inr (no_outcome\<lparr>oc_warned := warned\<rparr>, s)" for instant0
      using base same by (intro report_still [OF w]) simp
    obtain warned where "report_client server epoch now c up down s = Inr (no_outcome\<lparr>oc_warned := warned\<rparr>, s)"
      using still by blast
    then have "t = s" "oc_consumed out = 0"
      using assms(1) by (auto simp: no_outcome_def)
    moreover have "\<exists>out'. report_client server epoch later c up down s = Inr (out', s) \<and> oc_consumed out' = 0"
      using still [of later] by (auto simp: no_outcome_def)
    moreover have "snd (baseline w epoch up down) = down"
      using base same by simp
    ultimately show ?thesis
      using assms(5,7) by simp
  next
    case True
    then have moved: "\<not> (up - up0) + (down - down0) \<le> 0"
      using le by linarith
    obtain r m where rec: "record_and_deduct_traffic_atomic (w_id w) epoch up down (Some up0) (Some down0) s = Inr (r, m)"
      using assms(1) moved by (auto simp: report_client_def w base and_then_eq_Inr)
    obtain k ex av ev where r: "r = (k, ex, av, ev)"
      by (cases r)
    have "get_wi_by_id (w_id w) s = Some w"
      using rec find_key [of w_id "wi_subs s" w] w_in(1) assms(2)
      by (auto simp: record_and_deduct_traffic_atomic_def get_wi_by_id_def wi_ok_def split: if_split_asm option.split_asm)
    then obtain v where k: "k = down - down0" and v: "metered epoch up down down0 w v" "m = set_wi_sub v s"
      using record_metered [OF rec [unfolded r] _ le True] by blast
    have "find (\<lambda>w. w_uuid w = c \<and> origin_node_id w = Some server) (wi_subs m) = Some v"
      unfolding v(2) by (rule listed_after_save [OF assms(2) w v(1)])
    moreover have t: "t = (if 0 < k then m\<lparr>users := update_rows (\<lambda>u. u_id u = w_user_id w) (bill_wi k now) (users m)\<rparr> else m)"
      and out: "oc_consumed out = (if 0 < k then k else 0)"
      using assms(1,6) moved rec by (auto simp: report_client_def w base and_then_eq_Inr r Let_def)
    ultimately have listed: "find (\<lambda>w. w_uuid w = c \<and> origin_node_id w = Some server) (wi_subs t) = Some v"
      by simp
    have "get_user m (w_user_id w) = Some u"
      using assms(7) by (simp add: v(2) get_user_def set_wi_sub_def)
    then have "get_user t (w_user_id w) = Some (if 0 < k then bill_wi k now u else u)"
      using get_user_after_bill by (simp add: t)
    moreover have "\<exists>out'. report_client server epoch later c up down t = Inr (out', t) \<and> oc_consumed out' = 0"
      using report_still [OF listed baseline_metered [OF v(1)], of later] by (auto simp: no_outcome_def)
    ultimately show ?thesis
      using k le listed v(1) out by (auto simp: listed_client_def base metered_def bill_wi_def Let_def)
  qed
qed

text \<open>The sample subscription, placed at node 1.\<close>

definition placed_wi :: wi_sub where
  "placed_wi = sample_wi\<lparr>origin_node_id := Some 1\<rparr>"

definition placed_db :: db where
  "placed_db = wi_db\<lparr>wi_subs := [placed_wi]\<rparr>"

theorem wi_report_billed_once_witness:
  "\<exists>out t v. report_client 1 ''e'' 0 ''uuid'' 5 1000 placed_db = Inr (out, t)
     \<and> listed_client t ''uuid'' 1 = Some v \<and> oc_consumed out = 1000 \<and> traffic_used_bytes v = 1000"
proof -
  have "\<exists>out t. report_client 1 ''e'' 0 ''uuid'' 5 1000 placed_db = Inr (out, t) \<and> oc_processed out = 1"
    unfolding returns [symmetric] by code_simp
  then obtain out t where run: "report_client 1 ''e'' 0 ''uuid'' 5 1000 placed_db = Inr (out, t)"
    by blast
  have row: "listed_client placed_db ''uuid'' 1 = Some placed_wi" "w_user_id placed_wi \<noteq> 0"
    "baseline placed_wi ''e'' 5 1000 = (0, 0)" "traffic_used_bytes placed_wi = 0"
    "wi_ok placed_db" "get_user placed_db (w_user_id placed_wi) \<noteq> None"
    by code_simp+
  then obtain u where u: "get_user placed_db (w_user_id placed_wi) = Some u"
    by blast
  show ?thesis
    using wi_report_billed_once [OF run row(5) _ _ row(1,2) u, of 0] run row(3,4) by auto
qed

subsection \<open>A snapshot that cannot be read\<close>

lemma report_nodes_stops:
  assumes "get_traffic_snapshot (answers (s_id n)) = Inl err"
    and "list_all (\<lambda>m. get_traffic_snapshot (answers (s_id m)) = Inr (snap m)) before"
  shows "report_nodes now answers (before @ n # after) p = (Inl err, snd (fold (\<lambda>m. report_node now m (snap m)) before p))"
  using assms(2)
proof (induction before arbitrary: p)
  case Nil
  then show ?case
    using assms(1) by (cases p) simp
next
  case (Cons m ms)
  then show ?case
    by (cases p) simp
qed

lemma fold_readable:
  "fold (\<lambda>m p. case r m of Inl err \<Rightarrow> p | Inr x \<Rightarrow> f m x p) ms p
   = fold (\<lambda>m. f m (projr (r m))) (filter (\<lambda>m. \<not> isl (r m)) ms) p"
  by (induction ms arbitrary: p) (auto split: sum.splits)

text \<open>The two traffic workers differ in what an unreadable snapshot costs.  The White Internet
  cycle fails there: the nodes listed before it are accounted, those after it are not, and no user is
  told anything, whatever was found exhausted.  The worker of the VPN nodes accounts every node whose
  snapshot can be read, as if the others were not listed.\<close>

theorem unreadable_snapshot_costs:
  assumes "wi_traffic_servers s = before @ n # after"
    and "get_traffic_snapshot (answers (s_id n)) = Inl err"
    and "list_all (\<lambda>m. get_traffic_snapshot (answers (s_id m)) = Inr (snap m)) before"
  shows "run_traffic_cycle now answers told_exhausted told_warned s
       = (Inl err, snd (fold (\<lambda>m. report_node now m (snap m)) before (no_outcome, s)))
    \<and> vless_traffic_sync_once admins received now answers (alerted, s)
       = fold (\<lambda>m. report_vless_node admins received now m (projr (get_traffic_snapshot (answers (s_id m)))))
           (filter (\<lambda>m. \<not> isl (get_traffic_snapshot (answers (s_id m)))) (vless_traffic_servers s)) (alerted, s)"
  using report_nodes_stops [where p = "(no_outcome, s)", OF assms(2,3)]
  by (simp add: run_traffic_cycle_def assms(1) vless_traffic_sync_once_def fold_readable)

text \<open>Two origins, of which the first answers with a text where a number of bytes belongs.\<close>

definition garbled :: "int \<Rightarrow> http_answer" where
  "garbled i = (200, Some (JObj [(''node_epoch'', JStr ''e''), (''host_tx_bytes'', JStr (if i = 1 then ''n/a'' else ''7''))]), None)"

theorem unreadable_snapshot_costs_witness:
  "run_traffic_cycle 0 garbled (\<lambda>_ _. Delivered) (\<lambda>_. Delivered) nodes_db
     = (Inl (ValueError ''invalid literal for int()''), nodes_db)"
proof -
  have "get_traffic_snapshot (garbled (s_id (sample_node 1))) = Inl (ValueError ''invalid literal for int()'')"
    by code_simp
  moreover have "wi_traffic_servers nodes_db = [] @ sample_node 1 # [sample_node 2]"
    by (simp add: wi_traffic_servers_def nodes_db_def sample_node_def origin_server_def XRAY_PROTOCOL_def)
  ultimately show ?thesis
    using unreadable_snapshot_costs [of nodes_db "[]" "sample_node 1" "[sample_node 2]" garbled] by simp
qed

end
