(* ===== verification/Text_Limits.thy ===== *)
theory Text_Limits
  imports PyText "HOL-Library.Monad_Syntax"
begin

section \<open>utils/text\_limits.py and utils/callbacks.py\<close>

text \<open>
  The splitting of a long message, which keeps block quotes open across its parts, the shortening of
  details, and the reading of the data of a button.  The loop that cuts a line need not end, so it is
  a partial function and the splitting returns \<open>None\<close> where it does not return.  A text is a list of
  characters of one byte.
\<close>

subsection \<open>Splitting a message\<close>

text \<open>\<open>text[:n]\<close> and \<open>text[n:]\<close>, where a negative \<open>n\<close> counts from the end.\<close>

definition slice_to :: "int \<Rightarrow> 'a list \<Rightarrow> 'a list" where
  "slice_to n xs = (if 0 \<le> n then take (nat n) xs else take (length xs - nat (- n)) xs)"

definition slice_from :: "int \<Rightarrow> 'a list \<Rightarrow> 'a list" where
  "slice_from n xs = (if 0 \<le> n then drop (nat n) xs else drop (length xs - nat (- n)) xs)"

definition newline :: char where "newline = CHR 0x0A"
definition quote_start :: string where "quote_start = ''<blockquote''"
definition quote_tag :: string where "quote_tag = ''<blockquote>''"
definition close_tag :: string where "close_tag = ''</blockquote>''"

text \<open>
  The match of \<open>(?:\s+[^>]*)?>\<close> and of a tag at the start of a text; \<open>open_tag\<close> is the first match in a text
  (\<open>re.search\<close>) and \<open>strip_quotes\<close> removes the tags of both kinds (\<open>re.sub\<close>).
\<close>

definition tag_rest :: "string \<Rightarrow> string option" where
  "tag_rest s =
     (case s of
        [] \<Rightarrow> None
      | c # cs \<Rightarrow>
          if c = CHR ''>'' then Some [c]
          else if is_space c \<and> CHR ''>'' \<in> set cs then Some (c # takeWhile (\<lambda>x. x \<noteq> CHR ''>'') cs @ ''>'')
          else None)"

definition match_tag :: "string \<Rightarrow> string \<Rightarrow> string option" where
  "match_tag start s =
     (if starts_with start s then map_option (\<lambda>r. start @ r) (tag_rest (drop (length start) s)) else None)"

fun open_tag :: "string \<Rightarrow> string option" where
  "open_tag [] = None"
| "open_tag (c # cs) =
     (case match_tag quote_start (c # cs) of Some t \<Rightarrow> Some t | None \<Rightarrow> open_tag cs)"

function (sequential) strip_quotes :: "string \<Rightarrow> string" where
  "strip_quotes [] = []"
| "strip_quotes (c # cs) =
     (case match_tag quote_start (c # cs) of
        Some t \<Rightarrow> strip_quotes (drop (length t - 1) cs)
      | None \<Rightarrow>
          (case match_tag ''</blockquote'' (c # cs) of
             Some t \<Rightarrow> strip_quotes (drop (length t - 1) cs)
           | None \<Rightarrow> c # strip_quotes cs))"
  by pat_completeness auto
termination
  by (relation "measure length") auto

text \<open>
  One round of the loop over the rest of a line that is too long: the part cut off, closed where a
  quote is open, and what is left, with the tag before it.
\<close>

definition close_length :: "bool \<Rightarrow> string \<Rightarrow> int" where
  "close_length closing s = (if closing \<and> \<not> ends_with close_tag s then int (length close_tag) else 0)"

definition cut_room :: "int \<Rightarrow> bool \<Rightarrow> string \<Rightarrow> string \<Rightarrow> int" where
  "cut_room limit closing tag rem =
     (let prefix_len = (if closing \<and> starts_with quote_start rem then int (length tag) else 0);
          room = limit - (if closing then int (length close_tag) else 0) in
      if room \<le> prefix_len then limit else room)"

definition cut_round :: "int \<Rightarrow> bool \<Rightarrow> string \<Rightarrow> string \<Rightarrow> string \<times> string" where
  "cut_round limit closing tag rem =
     (let room = cut_room limit closing tag rem; chunk = slice_to room rem; rem = slice_from room rem in
      (if closing \<and> \<not> ends_with close_tag chunk then chunk @ close_tag else chunk,
       if closing \<and> rem \<noteq> [] \<and> \<not> starts_with quote_start rem then tag @ rem else rem))"

text \<open>The loop; \<open>closing\<close> is \<open>tag_enabled and in_blockquote\<close>.\<close>

partial_function (option) cut_line ::
  "int \<Rightarrow> bool \<Rightarrow> string \<Rightarrow> string \<Rightarrow> string list \<Rightarrow> (string list \<times> string) option" where
  "cut_line limit closing tag rem parts =
     (if int (length rem) + close_length closing rem \<le> limit then Some (parts, rem)
      else (case cut_round limit closing tag rem of
              (chunk, rem) \<Rightarrow> cut_line limit closing tag rem (parts @ [chunk])))"

record split_state =
  sp_parts :: "string list"
  sp_current :: string
  sp_quoted :: bool
  sp_tag :: string

definition start_split :: split_state where
  "start_split = \<lparr>sp_parts = [], sp_current = [], sp_quoted = False, sp_tag = quote_tag\<rparr>"

definition tags_fit :: "int \<Rightarrow> bool \<Rightarrow> string \<Rightarrow> bool" where
  "tags_fit limit quoted tag \<longleftrightarrow>
     (if quoted then int (length tag) + int (length close_tag) else 0) + 1 \<le> limit"

text \<open>A part is closed before it is stored.\<close>

definition close_part :: "int \<Rightarrow> bool \<Rightarrow> string \<Rightarrow> string" where
  "close_part limit closing current =
     (if closing \<and> \<not> ends_with close_tag current
      then (if int (length current) + int (length close_tag) \<le> limit then current @ close_tag
            else slice_to (limit - int (length close_tag)) current @ close_tag)
      else current)"

text \<open>A line that does not fit to the part before it; \<open>tagged\<close> says if the tags fit so far.\<close>

definition break_line :: "int \<Rightarrow> bool \<Rightarrow> string \<Rightarrow> split_state \<Rightarrow> split_state option" where
  "break_line limit tagged line st =
     (let parts = (if sp_current st \<noteq> []
                   then sp_parts st @ [close_part limit (tagged \<and> sp_quoted st) (sp_current st)]
                   else sp_parts st);
          actual = (if tagged \<and> sp_quoted st \<and> \<not> starts_with quote_start line then sp_tag st @ line else line);
          quoted = sp_quoted st \<or> contains_text quote_start actual;
          tag = (if contains_text quote_start actual
                 then (case open_tag actual of Some t \<Rightarrow> t | None \<Rightarrow> sp_tag st) else sp_tag st);
          stays = quoted \<and> \<not> ends_with close_tag actual;
          tagged = tags_fit limit stays tag;
          needed = (if tagged \<and> stays then int (length close_tag) else 0) in
      do {
        (parts, current) \<leftarrow> (if limit < int (length actual) + needed
           then cut_line limit (tagged \<and> quoted) tag actual parts
           else Some (parts, actual));
        Some \<lparr>sp_parts = parts, sp_current = current,
              sp_quoted = quoted \<and> \<not> contains_text close_tag actual, sp_tag = tag\<rparr>
      })"

definition add_line :: "int \<Rightarrow> string \<Rightarrow> split_state \<Rightarrow> split_state option" where
  "add_line limit line st =
     (let opens = contains_text quote_start line; closes = contains_text close_tag line;
          tag = (case open_tag line of Some t \<Rightarrow> t | None \<Rightarrow> sp_tag st);
          stays = (sp_quoted st \<or> opens) \<and> \<not> closes;
          tagged = tags_fit limit stays tag;
          needed = close_length (tagged \<and> stays) line;
          candidate = (if sp_current st \<noteq> [] then sp_current st @ newline # line else line) in
      if int (length candidate) + needed \<le> limit
      then Some (st\<lparr>sp_current := candidate, sp_quoted := (sp_quoted st \<or> opens) \<and> \<not> closes,
                    sp_tag := (if opens then tag else sp_tag st)\<rparr>)
      else break_line limit tagged line st)"

fun add_lines :: "int \<Rightarrow> string list \<Rightarrow> split_state \<Rightarrow> split_state option" where
  "add_lines limit [] st = Some st"
| "add_lines limit (l # ls) st = do { st \<leftarrow> add_line limit l st; add_lines limit ls st }"

definition finish_split :: "int \<Rightarrow> split_state \<Rightarrow> string list" where
  "finish_split limit st =
     (if sp_current st \<noteq> []
      then sp_parts st @ [close_part limit (tags_fit limit (sp_quoted st) (sp_tag st) \<and> sp_quoted st) (sp_current st)]
      else sp_parts st)"

definition split_lines :: "int \<Rightarrow> string \<Rightarrow> string list option" where
  "split_lines limit s = map_option (finish_split limit) (add_lines limit (split_on newline s) start_split)"

definition split_text_by_lines :: "string option \<Rightarrow> int \<Rightarrow> string list option" where
  "split_text_by_lines text limit =
     (case text of
        None \<Rightarrow> Some []
      | Some s \<Rightarrow>
          if int (length s) \<le> limit then Some [s]
          else if limit < 37 \<and> contains_text quote_start s
          then (let s = strip_quotes s in if int (length s) \<le> limit then Some [s] else split_lines limit s)
          else split_lines limit s)"

subsection \<open>Details and the data of a button\<close>

text \<open>\<open>truncate_details\<close> appends an ellipsis, one character; here it is \<open>ellipsis\<close>.\<close>

definition truncate_details :: "char \<Rightarrow> string option \<Rightarrow> int \<Rightarrow> string" where
  "truncate_details ellipsis v limit =
     (case v of
        None \<Rightarrow> []
      | Some s \<Rightarrow> if s = [] \<or> int (length s) \<le> limit then s else slice_to limit s @ [ellipsis])"

definition CALLBACK_MAX_INT64 :: int where "CALLBACK_MAX_INT64 = 9223372036854775807"
definition CALLBACK_MIN_INT64 :: int where "CALLBACK_MIN_INT64 = -9223372036854775808"

text \<open>A list indexed as Python does; \<open>None\<close> where it raises.\<close>

definition py_index :: "'a list \<Rightarrow> int \<Rightarrow> 'a option" where
  "py_index xs i =
     (let k = (if i < 0 then i + int (length xs) else i) in
      if 0 \<le> k \<and> k < int (length xs) then Some (xs ! nat k) else None)"

definition parse_callback_int :: "string list \<Rightarrow> int \<Rightarrow> int option" where
  "parse_callback_int parts i = do {
     text \<leftarrow> py_index parts i;
     v \<leftarrow> parse_int text;
     (if CALLBACK_MIN_INT64 \<le> v \<and> v \<le> CALLBACK_MAX_INT64 then Some v else None) }"

definition parse_callback_id :: "string \<Rightarrow> int \<Rightarrow> int option" where
  "parse_callback_id data i = parse_callback_int (split_on CHR '':'' data) i"

definition parse_callback_parts :: "string option \<Rightarrow> int \<Rightarrow> string list option" where
  "parse_callback_parts data min_parts =
     (case data of
        None \<Rightarrow> None
      | Some s \<Rightarrow>
          if s = [] \<or> int (length (split_on CHR '':'' s)) < min_parts then None
          else Some (split_on CHR '':'' s))"

end
