(* ===== verification/Text_Theorems.thy ===== *)
theory Text_Theorems
  imports Text_Limits
begin

section \<open>Properties of the splitting and of the callback data\<close>

text \<open>
  The splitting of a message: it returns and its parts fit where the tags are short, it keeps every
  character of a plain text, and a tag as long as the limit makes it run for ever.  The numbers a
  button carries are read back.
\<close>

subsection \<open>Cutting a line\<close>

definition fits :: "int \<Rightarrow> string \<Rightarrow> bool" where
  "fits limit s \<longleftrightarrow> int (length s) \<le> limit"

lemma length_close_tag [simp]: "length close_tag = 13"
  by (simp add: close_tag_def)

lemma slice_within: "0 \<le> n \<Longrightarrow> slice_to n xs = take (nat n) xs" "0 \<le> n \<Longrightarrow> slice_from n xs = drop (nat n) xs"
  by (simp_all add: slice_to_def slice_from_def)

lemma slice_nat: "slice_to (int n) xs = take n xs" "slice_from (int n) xs = drop n xs"
  by (simp_all add: slice_within)

lemma close_part_fits: "fits limit s \<Longrightarrow> 13 \<le> limit \<Longrightarrow> fits limit (close_part limit closing s)"
  by (auto simp: close_part_def fits_def slice_within)

lemma starts_with_iff: "starts_with p s \<longleftrightarrow> (\<exists>r. s = p @ r)"
  by (auto simp: starts_with_def) (metis append_take_drop_id)

lemma starts_with_extend: "starts_with p s \<Longrightarrow> starts_with p (s @ r)"
  by (auto simp: starts_with_iff)

lemma ends_with_append [simp]: "ends_with p (s @ p)"
  by (simp add: ends_with_def starts_with_def)

lemma fits_close: "int (length s) + close_length closing s \<le> limit \<Longrightarrow> fits limit s"
  by (simp add: close_length_def fits_def split: if_split_asm)

lemma cut_room_bounds:
  assumes "0 < limit" and "closing \<Longrightarrow> int (length tag) + 13 < limit"
  shows "cut_room limit closing tag rem = limit - (if closing then 13 else 0)"
  using assms by (auto simp: cut_room_def)

text \<open>A round keeps the characters of a plain line; it takes more than the tag puts back.\<close>

lemma cut_round_progress:
  assumes "0 < limit" and "closing \<Longrightarrow> int (length tag) + 13 < limit"
    and "limit < int (length rem) + close_length closing rem" and "cut_round limit closing tag rem = (chunk, rest)"
  shows "fits limit chunk" and "length rest < length rem" and "\<not> closing \<Longrightarrow> chunk @ rest = rem"
proof -
  define room where "room = nat (limit - (if closing then 13 else 0))"
  have room: "int room = limit - (if closing then 13 else 0)" "0 < room" "room < length rem"
    "closing \<Longrightarrow> length tag < room"
    using assms(1-3) by (auto simp: room_def close_length_def split: if_split_asm)
  have at: "cut_room limit closing tag rem = int room"
    using room(1) cut_room_bounds [OF assms(1,2)] by simp
  have parts: "chunk = (if closing \<and> \<not> ends_with close_tag (take room rem) then take room rem @ close_tag else take room rem)"
    "rest = (if closing \<and> drop room rem \<noteq> [] \<and> \<not> starts_with quote_start (drop room rem)
       then tag @ drop room rem else drop room rem)"
    using assms(4) by (auto simp: cut_round_def at slice_nat Let_def)
  show "fits limit chunk" and "length rest < length rem" and "\<not> closing \<Longrightarrow> chunk @ rest = rem"
    using room by (auto simp: parts fits_def)
qed

text \<open>So the loop returns.\<close>

lemma cut_line_ends:
  assumes "0 < limit" and "closing \<Longrightarrow> int (length tag) + 13 < limit"
  shows "\<exists>ps r. cut_line limit closing tag rem parts = Some (parts @ ps, r)
    \<and> list_all (fits limit) ps \<and> fits limit r \<and> (\<not> closing \<longrightarrow> concat ps @ r = rem)"
proof (induction "length rem" arbitrary: rem parts rule: less_induct)
  case less
  show ?case
  proof (cases "int (length rem) + close_length closing rem \<le> limit")
    case True
    then have "cut_line limit closing tag rem parts = Some (parts @ [], rem)"
      by (subst cut_line.simps) simp
    then show ?thesis
      using fits_close [OF True] by (intro exI [of _ "[]"] exI [of _ rem]) simp
  next
    case False
    obtain chunk rest where round: "cut_round limit closing tag rem = (chunk, rest)"
      by fastforce
    have cut: "fits limit chunk" "length rest < length rem" "\<not> closing \<Longrightarrow> chunk @ rest = rem"
      using cut_round_progress [OF assms _ round] False by simp_all
    from less [OF cut(2), of "parts @ [chunk]"] obtain ps r where
      "cut_line limit closing tag rest (parts @ [chunk]) = Some ((parts @ [chunk]) @ ps, r)"
      "list_all (fits limit) ps" "fits limit r" "\<not> closing \<longrightarrow> concat ps @ r = rest"
      by blast
    moreover have "cut_line limit closing tag rem parts = cut_line limit closing tag rest (parts @ [chunk])"
      using False by (subst cut_line.simps) (simp add: round)
    ultimately show ?thesis
      using cut(1,3) by (intro exI [of _ "chunk # ps"] exI [of _ r]) auto
  qed
qed

subsection \<open>Tags\<close>

lemma tag_rest_append: "tag_rest s = Some t \<Longrightarrow> tag_rest (t @ l) = Some t"
  by (auto simp: tag_rest_def takeWhile_tail split: list.split_asm if_split_asm)

lemma match_tag_append: "match_tag start s = Some t \<Longrightarrow> match_tag start (t @ l) = Some t"
  using tag_rest_append by (auto simp: match_tag_def starts_with_def split: if_split_asm)

definition is_tag :: "string \<Rightarrow> bool" where
  "is_tag t \<longleftrightarrow> match_tag quote_start t = Some t"

lemma open_tag_is_tag: "open_tag s = Some t \<Longrightarrow> is_tag t"
  using match_tag_append [of quote_start _ _ "[]"]
  by (induction s) (auto simp: is_tag_def split: option.split_asm)

lemma open_tag_prefixed: "is_tag t \<Longrightarrow> open_tag (t @ l) = Some t"
  using match_tag_append [of quote_start t t l]
  by (cases t) (auto simp: is_tag_def match_tag_def starts_with_def quote_start_def)

lemma quote_tag_is_tag: "is_tag quote_tag"
  by code_simp

subsection \<open>All lines\<close>

definition short_tag :: "int \<Rightarrow> string \<Rightarrow> bool" where
  "short_tag limit line \<longleftrightarrow> (case open_tag line of None \<Rightarrow> True | Some t \<Rightarrow> int (length t) + 13 < limit)"

definition state_fits :: "int \<Rightarrow> split_state \<Rightarrow> bool" where
  "state_fits limit st \<longleftrightarrow> list_all (fits limit) (sp_parts st) \<and> fits limit (sp_current st)
     \<and> is_tag (sp_tag st) \<and> int (length (sp_tag st)) + 13 < limit"

lemma chosen_tag_fits:
  assumes "short_tag limit line" and "is_tag t" and "int (length t) + 13 < limit"
  defines "u \<equiv> case open_tag line of Some t' \<Rightarrow> t' | None \<Rightarrow> t"
  shows "is_tag u" and "int (length u) + 13 < limit"
  using assms open_tag_is_tag by (auto simp: short_tag_def split: option.split)

lemma prefixed_short: "is_tag t \<Longrightarrow> int (length t) + 13 < limit \<Longrightarrow> short_tag limit (t @ line)"
  by (simp add: short_tag_def open_tag_prefixed)

lemma break_line_fits:
  assumes "37 \<le> limit" and "short_tag limit line" and "state_fits limit st"
  shows "\<exists>st'. break_line limit tagged line st = Some st' \<and> state_fits limit st'"
proof -
  have tag: "is_tag (sp_tag st)" "int (length (sp_tag st)) + 13 < limit"
    using assms(3) by (simp_all add: state_fits_def)
  define actual where "actual = (if tagged \<and> sp_quoted st \<and> \<not> starts_with quote_start line then sp_tag st @ line else line)"
  define parts where "parts = (if sp_current st \<noteq> []
    then sp_parts st @ [close_part limit (tagged \<and> sp_quoted st) (sp_current st)] else sp_parts st)"
  define u where "u = (if contains_text quote_start actual
    then (case open_tag actual of Some t \<Rightarrow> t | None \<Rightarrow> sp_tag st) else sp_tag st)"
  have "short_tag limit actual"
    using assms(2) prefixed_short [OF tag] by (simp add: actual_def)
  then have u: "is_tag u" "int (length u) + 13 < limit"
    using chosen_tag_fits [OF _ tag] tag by (simp_all add: u_def)
  have parts: "list_all (fits limit) parts"
    using assms(1,3) close_part_fits by (auto simp: parts_def state_fits_def)
  have cut: "\<exists>ps r. cut_line limit closing u actual parts = Some (parts @ ps, r)
    \<and> list_all (fits limit) ps \<and> fits limit r" for closing
    using cut_line_ends [of limit closing u actual parts] u assms(1) by auto
  define quoted where "quoted \<longleftrightarrow> sp_quoted st \<or> contains_text quote_start actual"
  define stays where "stays \<longleftrightarrow> quoted \<and> \<not> ends_with close_tag actual"
  define now_tagged where "now_tagged = tags_fit limit stays u"
  have "break_line limit tagged line st = do {
      (parts, current) \<leftarrow> (if limit < int (length actual) + (if now_tagged \<and> stays then int (length close_tag) else 0)
         then cut_line limit (now_tagged \<and> quoted) u actual parts else Some (parts, actual));
      Some \<lparr>sp_parts = parts, sp_current = current, sp_quoted = quoted \<and> \<not> contains_text close_tag actual, sp_tag = u\<rparr> }"
    by (simp only: break_line_def Let_def actual_def parts_def u_def quoted_def stays_def now_tagged_def)
  moreover have "fits limit actual" if "\<not> limit < int (length actual) + k" "0 \<le> k" for k
    using that by (simp add: fits_def)
  ultimately show ?thesis
    using cut [of "now_tagged \<and> quoted"] parts u by (auto simp: state_fits_def)
qed

lemma add_line_fits:
  assumes "37 \<le> limit" and "short_tag limit line" and "state_fits limit st"
  shows "\<exists>st'. add_line limit line st = Some st' \<and> state_fits limit st'"
proof -
  have tag: "is_tag (sp_tag st)" "int (length (sp_tag st)) + 13 < limit"
    using assms(3) by (simp_all add: state_fits_def)
  show ?thesis
    using assms(3) break_line_fits [OF assms] chosen_tag_fits [OF assms(2) tag]
    by (auto simp: add_line_def Let_def state_fits_def fits_close fits_def close_length_def split: if_split_asm)
qed

lemma add_lines_fits:
  "37 \<le> limit \<Longrightarrow> list_all (short_tag limit) ls \<Longrightarrow> state_fits limit st
   \<Longrightarrow> \<exists>st'. add_lines limit ls st = Some st' \<and> state_fits limit st'"
proof (induction ls arbitrary: st)
  case (Cons l ls)
  then obtain st' where "add_line limit l st = Some st'" "state_fits limit st'"
    using add_line_fits [of limit l st] by auto
  then show ?case
    using Cons by simp
qed simp

lemma start_fits: "37 \<le> limit \<Longrightarrow> state_fits limit start_split"
  by (simp add: state_fits_def start_split_def fits_def quote_tag_is_tag) (simp add: quote_tag_def)

lemma finish_fits: "37 \<le> limit \<Longrightarrow> state_fits limit st \<Longrightarrow> list_all (fits limit) (finish_split limit st)"
  by (simp add: finish_split_def state_fits_def close_part_fits)

subsection \<open>A text without a quote\<close>

definition shown :: "string \<Rightarrow> string" where
  "shown s = filter (\<lambda>c. c \<noteq> newline) s"

definition shown_by :: "split_state \<Rightarrow> string" where
  "shown_by st = shown (concat (sp_parts st) @ sp_current st)"

lemma shown_append [simp]: "shown (s @ t) = shown s @ shown t"
  by (simp add: shown_def)

lemma shown_newline [simp]: "shown [] = []" "shown (newline # s) = shown s"
  by (simp_all add: shown_def)

lemma break_line_plain:
  assumes "0 < limit" and "\<not> contains_text quote_start line" and "\<not> sp_quoted st"
    and "break_line limit tagged line st = Some st'"
  shows "\<not> sp_quoted st' \<and> shown_by st' = shown_by st @ shown line"
proof -
  define parts where "parts = (if sp_current st \<noteq> [] then sp_parts st @ [sp_current st] else sp_parts st)"
  obtain ps r where cut: "cut_line limit False (sp_tag st) line parts = Some (parts @ ps, r)" and line: "concat ps @ r = line"
    using cut_line_ends [of limit False "sp_tag st" line parts] assms(1) by auto
  have "break_line limit tagged line st = do {
      (parts, current) \<leftarrow> (if limit < int (length line) then Some (parts @ ps, r) else Some (parts, line));
      Some \<lparr>sp_parts = parts, sp_current = current, sp_quoted = False, sp_tag = sp_tag st\<rparr> }"
    using assms(2,3) cut by (cases "sp_current st = []") (simp_all add: break_line_def close_part_def Let_def parts_def)
  moreover have "concat parts = concat (sp_parts st) @ sp_current st"
    by (simp add: parts_def)
  ultimately show ?thesis
    using assms(4) line by (auto simp: shown_by_def split: if_split_asm)
qed

lemma add_lines_plain:
  "0 < limit \<Longrightarrow> list_all (\<lambda>l. \<not> contains_text quote_start l) ls \<Longrightarrow> \<not> sp_quoted st
   \<Longrightarrow> add_lines limit ls st = Some st' \<Longrightarrow> \<not> sp_quoted st' \<and> shown_by st' = shown_by st @ concat (map shown ls)"
proof (induction ls arbitrary: st)
  case (Cons l ls)
  from Cons.prems(4) obtain m where m: "add_line limit l st = Some m" "add_lines limit ls m = Some st'"
    by (auto split: Option.bind_splits)
  have "\<not> sp_quoted m \<and> shown_by m = shown_by st @ shown l"
    using m(1) Cons.prems(1-3) break_line_plain [of limit l st _ m]
    by (auto simp: add_line_def Let_def shown_by_def split: if_split_asm)
  then show ?case
    using Cons.IH [OF Cons.prems(1) _ _ m(2)] Cons.prems(2) by simp
qed simp

lemma split_on_head: "split_on sep s = w # ws \<Longrightarrow> \<exists>r. s = w @ r"
  by (induction s arbitrary: w ws) (auto split: if_split_asm list.split_asm)

lemma contains_in_line: "contains_text p l \<Longrightarrow> l \<in> set (split_on sep s) \<Longrightarrow> contains_text p s"
proof (induction s arbitrary: l)
  case (Cons c s)
  obtain w ws where split: "split_on sep s = w # ws"
    using split_on_not_Nil by (metis list.exhaust)
  obtain r where r: "s = w @ r"
    using split_on_head [OF split] by blast
  have prefix: "starts_with p (c # w @ r)" if "starts_with p (c # w)"
    using starts_with_extend [OF that, of r] by simp
  show ?case
  proof (cases "l \<in> set (split_on sep s)")
    case True
    then show ?thesis
      using Cons by simp
  next
    case False
    then have "l = [] \<or> l = c # w"
      using Cons.prems(2) split by (auto split: if_split_asm)
    moreover have "contains_text p s" if "contains_text p w"
      using Cons.IH [OF that] split by simp
    ultimately show ?thesis
      using Cons.prems(1) prefix r by (auto simp: starts_with_def)
  qed
qed simp

lemma shown_lines: "concat (map shown (split_on newline s)) = shown s"
  by (induction s) (auto simp: shown_def split: list.split)

lemma finish_plain: "\<not> sp_quoted st \<Longrightarrow> shown (concat (finish_split limit st)) = shown_by st"
  by (simp add: finish_split_def shown_by_def close_part_def)

text \<open>C39. The splitting returns for every text whose tags are shorter than the limit by more than the
  closing tag, every part is within the limit, and of a text without a quote no character but line
  breaks is lost, added or moved.\<close>

theorem split_within_limit:
  assumes "37 \<le> limit" and "list_all (short_tag limit) (split_on newline s)"
  shows "\<exists>parts. split_text_by_lines (Some s) limit = Some parts \<and> list_all (fits limit) parts
    \<and> (\<not> contains_text quote_start s \<longrightarrow> shown (concat parts) = shown s)"
proof (cases "int (length s) \<le> limit")
  case True
  then show ?thesis
    by (simp add: split_text_by_lines_def fits_def)
next
  case False
  obtain st where run: "add_lines limit (split_on newline s) start_split = Some st" and st: "state_fits limit st"
    using add_lines_fits [OF assms start_fits] assms(1) by blast
  have "shown (concat (finish_split limit st)) = shown s" if "\<not> contains_text quote_start s"
  proof -
    have "list_all (\<lambda>l. \<not> contains_text quote_start l) (split_on newline s)"
      using that contains_in_line by (auto simp: list_all_iff)
    then have "\<not> sp_quoted st \<and> shown_by st = shown s"
      using add_lines_plain [OF _ _ _ run] assms(1) by (simp add: shown_lines) (simp add: start_split_def shown_by_def shown_def)
    then show ?thesis
      by (simp add: finish_plain)
  qed
  then show ?thesis
    using False assms(1) run finish_fits [OF assms(1) st] by (simp add: split_text_by_lines_def split_lines_def)
qed

definition long_quote :: string where
  "long_quote = ''<blockquote>'' @ replicate 50 CHR ''a'' @ ''</blockquote>''"

theorem split_within_limit_witness:
  "\<exists>parts. split_text_by_lines (Some long_quote) 40 = Some parts \<and> list_all (fits 40) parts"
proof -
  have "list_all (short_tag 40) (split_on newline long_quote)"
    by code_simp
  then show ?thesis
    using split_within_limit [of 40 long_quote] by auto
qed

subsection \<open>A tag as long as the limit\<close>

lemma cut_line_hangs:
  assumes "int (length tag) = limit" and "starts_with quote_start tag" and "13 \<le> limit"
    and "tail \<noteq> []" and "\<not> starts_with quote_start tail"
  shows "cut_line limit True tag (tag @ tail) parts = None"
proof -
  have "starts_with quote_start (tag @ tail)"
    by (rule starts_with_extend [OF assms(2)])
  then have round: "\<exists>chunk. cut_round limit True tag (tag @ tail) = (chunk, tag @ tail)"
    using assms by (auto simp: cut_round_def cut_room_def Let_def slice_within)
  then obtain chunk where round: "cut_round limit True tag (tag @ tail) = (chunk, tag @ tail)" ..
  have never: "\<not> (closing \<and> l = limit \<and> g = tag \<and> rem = tag @ tail)" if "cut_line l closing g rem ps = Some r" for l closing g rem ps r
    using that
  proof (rule cut_line.raw_induct [rotated])
    fix f and l closing g rem ps r
    assume IH: "\<And>l closing g rem ps r. f l closing g rem ps = Some r
      \<Longrightarrow> \<not> (closing \<and> l = limit \<and> g = tag \<and> rem = tag @ tail)"
      and body: "(if int (length rem) + close_length closing rem \<le> l then Some (ps, rem)
        else (case cut_round l closing g rem of (chunk, rem) \<Rightarrow> f l closing g rem (ps @ [chunk]))) = Some r"
    show "\<not> (closing \<and> l = limit \<and> g = tag \<and> rem = tag @ tail)"
    proof
      assume "closing \<and> l = limit \<and> g = tag \<and> rem = tag @ tail"
      moreover from this have "\<not> int (length rem) + close_length closing rem \<le> l"
        using assms(1,4) by (simp add: close_length_def)
      ultimately have "f limit True tag (tag @ tail) (ps @ [chunk]) = Some r"
        using body round by simp
      then show False
        using IH by blast
    qed
  qed
  show ?thesis
  proof (rule ccontr)
    assume "cut_line limit True tag (tag @ tail) parts \<noteq> None"
    then show False
      using never by blast
  qed
qed

definition wide_tag :: "int \<Rightarrow> string" where
  "wide_tag limit = ''<blockquote '' @ replicate (nat limit - 13) CHR ''x'' @ ''>''"

lemma wide_tag:
  assumes "37 \<le> limit"
  shows "int (length (wide_tag limit)) = limit" and "is_tag (wide_tag limit)" and "newline \<notin> set (wide_tag limit)"
    and "starts_with quote_start (wide_tag limit)"
proof -
  show "int (length (wide_tag limit)) = limit"
    using assms by (simp add: wide_tag_def)
  show "starts_with quote_start (wide_tag limit)"
    by (simp add: wide_tag_def quote_start_def starts_with_def)
  show "newline \<notin> set (wide_tag limit)"
    by (simp add: wide_tag_def newline_def)
  have "tag_rest ('' '' @ replicate n CHR ''x'' @ ''>'') = Some ('' '' @ replicate n CHR ''x'' @ ''>'')" for n
    by (induction n) (auto simp: tag_rest_def is_space_def)
  then show "is_tag (wide_tag limit)"
    by (simp add: is_tag_def match_tag_def starts_with_def wide_tag_def quote_start_def)
qed

lemma contains_text_prefix: "starts_with p s \<Longrightarrow> contains_text p (s @ t)"
  using starts_with_extend [of p s t] by (cases "s @ t") (auto simp: starts_with_def)

lemma contains_text_append: "starts_with p t \<Longrightarrow> contains_text p (s @ t)"
  using contains_text_prefix [of p t "[]"] by (induction s) auto

text \<open>The documentation of the function promises parts within the limit for every text.  A line with
  a quote whose opening tag is as long as the limit is never finished: each round cuts the tag off and
  puts it back.\<close>

theorem wide_tag_hangs:
  assumes "37 \<le> limit"
  shows "split_text_by_lines (Some (wide_tag limit @ ''x</blockquote>'')) limit = None"
proof -
  let ?tag = "wide_tag limit"
  let ?tail = "''x</blockquote>''"
  let ?line = "?tag @ ?tail"
  note tag = wide_tag [OF assms]
  have line: "split_on newline ?line = [?line]" "open_tag ?line = Some ?tag" "contains_text quote_start ?line"
    "starts_with quote_start ?line" "contains_text close_tag ?line" "ends_with close_tag ?line"
    "limit < int (length ?line)" "\<not> starts_with quote_start ?tail"
  proof -
    show "split_on newline ?line = [?line]"
      using tag(3) by (intro split_on_no_sep) (simp add: newline_def)
    show "open_tag ?line = Some ?tag"
      by (rule open_tag_prefixed [OF tag(2)])
    show "starts_with quote_start ?line"
      by (rule starts_with_extend [OF tag(4)])
    show "contains_text quote_start ?line"
      using tag(1,4) assms by (intro contains_text_prefix) auto
    have "ends_with close_tag ((?tag @ ''x'') @ close_tag)" "contains_text close_tag ((?tag @ ''x'') @ close_tag)"
      by (rule ends_with_append) (rule contains_text_append, simp add: starts_with_def)
    then show "ends_with close_tag ?line" "contains_text close_tag ?line"
      by (simp_all add: close_tag_def)
    show "limit < int (length ?line)"
      using tag(1) by simp
    show "\<not> starts_with quote_start ?tail"
      by code_simp
  qed
  have "cut_line limit True ?tag ?line parts = None" for parts
    using assms tag(1,4) line(8) by (intro cut_line_hangs) simp_all
  then have "break_line limit tagged ?line start_split = None" for tagged
    using assms line by (simp add: break_line_def Let_def start_split_def tags_fit_def)
  then have "add_line limit ?line start_split = None"
    using line by (simp add: add_line_def Let_def start_split_def close_length_def)
  then show ?thesis
    using assms line(1,7) by (simp add: split_text_by_lines_def split_lines_def)
qed

theorem wide_tag_hangs_witness:
  "split_text_by_lines (Some (wide_tag 4096 @ ''x</blockquote>'')) 4096 = None"
  by (rule wide_tag_hangs) simp

subsection \<open>The data of a button\<close>

lemma str_int_no_colon: "CHR '':'' \<notin> set (str_int i)"
proof -
  have "CHR '':'' \<notin> set (nat_digits n)" for n
    using nat_digits_char by (metis digit_char(6))
  then show ?thesis
    by (simp add: str_int_def)
qed

text \<open>The number a button carries as its second part is read back from its data, and a number that
  does not fit a column of 64 bits is refused.\<close>

theorem callback_id_roundtrip:
  assumes "CHR '':'' \<notin> set action"
  shows "parse_callback_id (action @ '':'' @ str_int i) 1 = (if CALLBACK_MIN_INT64 \<le> i \<and> i \<le> CALLBACK_MAX_INT64 then Some i else None)"
proof -
  have "split_on CHR '':'' (action @ '':'' @ str_int i) = [action, str_int i]"
    using split_on_append [OF assms] split_on_no_sep [OF str_int_no_colon] by simp
  then show ?thesis
    by (simp add: parse_callback_id_def parse_callback_int_def py_index_def)
qed

theorem callback_id_roundtrip_witness:
  "parse_callback_id (''admin_server_card:'' @ str_int 123) 1 = Some 123"
  using callback_id_roundtrip [of "''admin_server_card''" 123] by (simp add: CALLBACK_MIN_INT64_def CALLBACK_MAX_INT64_def)

end
