(* ===== verification/Rate_Limits.thy ===== *)
theory Rate_Limits
  imports PyText
begin

section \<open>utils/http\_rate\_limiter.py and utils/rate\_limiter.py\<close>

text \<open>
  The token buckets of the HTTP endpoints and of the sending of messages.  Floating point numbers are
  rationals, and a reading of the monotonic clock is an argument.  An ordered dictionary is an
  association list, the least recently used key first; \<open>max_entries\<close> is at least one.
\<close>

subsection \<open>The buckets of the HTTP endpoints\<close>

definition RATE_LIMIT_REQUESTS_PER_MINUTE :: rat where "RATE_LIMIT_REQUESTS_PER_MINUTE = 30"
definition RATE_LIMIT_BURST :: int where "RATE_LIMIT_BURST = 10"

record http_limiter =
  hl_rate :: rat
  hl_burst :: rat
  max_entries :: nat
  buckets :: "(string \<times> (rat \<times> rat)) list"
  last_cleanup :: rat

definition new_http_limiter :: "rat \<Rightarrow> int \<Rightarrow> nat \<Rightarrow> http_limiter" where
  "new_http_limiter rate_per_minute burst entries =
     \<lparr>hl_rate = rate_per_minute / 60, hl_burst = of_int burst, max_entries = entries, buckets = [],
      last_cleanup = 0\<rparr>"

text \<open>The tokens of a bucket at \<open>now\<close>.\<close>

definition refilled :: "http_limiter \<Rightarrow> rat \<times> rat \<Rightarrow> rat \<Rightarrow> rat" where
  "refilled l b now = min (hl_burst l) (fst b + max 0 (now - snd b) * hl_rate l)"

definition cleanup_buckets :: "rat \<Rightarrow> http_limiter \<Rightarrow> http_limiter" where
  "cleanup_buckets now l =
     l\<lparr>buckets := filter (\<lambda>(k, b). \<not> (hl_burst l \<le> refilled l b now \<and> 120 < now - snd b)) (buckets l)\<rparr>"

definition make_room :: "rat \<Rightarrow> http_limiter \<Rightarrow> http_limiter" where
  "make_room now l =
     (let l = (if 30 \<le> now - last_cleanup l then cleanup_buckets now (l\<lparr>last_cleanup := now\<rparr>) else l) in
      if max_entries l \<le> length (buckets l) then l\<lparr>buckets := tl (buckets l)\<rparr> else l)"

text \<open>\<open>buckets[key] = b\<close> and \<open>move_to_end(key)\<close>.\<close>

definition store_bucket :: "string \<Rightarrow> rat \<times> rat \<Rightarrow> http_limiter \<Rightarrow> http_limiter" where
  "store_bucket key b l = l\<lparr>buckets := filter (\<lambda>(k, _). k \<noteq> key) (buckets l) @ [(key, b)]\<rparr>"

definition check_rate :: "string \<Rightarrow> rat \<Rightarrow> http_limiter \<Rightarrow> (bool \<times> int) \<times> http_limiter" where
  "check_rate key now l =
     (let l = (if map_of (buckets l) key = None \<and> max_entries l \<le> length (buckets l) then make_room now l else l);
          b = (case map_of (buckets l) key of Some b \<Rightarrow> b | None \<Rightarrow> (hl_burst l, now));
          tokens = refilled l b now in
      if 1 \<le> tokens then ((True, 0), store_bucket key (tokens - 1, now) l)
      else ((False, max 1 \<lceil>(1 - tokens) / hl_rate l\<rceil>), store_bucket key (tokens, now) l))"

text \<open>The middleware: what it answers where it does not pass the request on.\<close>

datatype 'a gated = Passed 'a | Too_Many_Requests int

definition unlimited_path :: "string \<Rightarrow> bool" where
  "unlimited_path path \<longleftrightarrow> List.member [''/health'', ''/webhook/yookassa'', ''/yookassa/webhook''] path"

definition http_rate_limit_middleware ::
  "string \<Rightarrow> string \<Rightarrow> rat \<Rightarrow> http_limiter \<Rightarrow> unit gated \<times> http_limiter" where
  "http_rate_limit_middleware path client_ip now l =
     (if unlimited_path path then (Passed (), l)
      else (let ((allowed, retry_after), l) = check_rate client_ip now l in
            (if allowed then Passed () else Too_Many_Requests retry_after, l)))"

subsection \<open>The bucket of the messages\<close>

record token_bucket =
  tb_rate :: rat
  tb_burst :: rat
  tb_tokens :: rat
  last_refill :: rat

definition new_token_bucket :: "rat \<Rightarrow> int \<Rightarrow> rat \<Rightarrow> token_bucket" where
  "new_token_bucket rate burst now =
     \<lparr>tb_rate = rate, tb_burst = of_int burst, tb_tokens = of_int burst, last_refill = now\<rparr>"

text \<open>One round of \<open>acquire\<close> at \<open>now\<close>: \<open>None\<close> where it returns, else the pause before the next round.\<close>

definition acquire_round :: "rat \<Rightarrow> token_bucket \<Rightarrow> rat option \<times> token_bucket" where
  "acquire_round now b =
     (let tokens = min (tb_burst b) (tb_tokens b + (now - last_refill b) * tb_rate b);
          b = b\<lparr>tb_tokens := tokens, last_refill := now\<rparr> in
      if 1 \<le> tokens then (None, b\<lparr>tb_tokens := tokens - 1\<rparr>)
      else (Some ((1 - tokens) / tb_rate b), b))"

end
