(* ===== verification/Gate_Theorems.thy ===== *)
theory Gate_Theorems
  imports Rate_Limits
begin

section \<open>Properties of the limiters and of the action lock\<close>

text \<open>
  What a limiter of the HTTP endpoints lets through, how many buckets it holds, and what the pause it
  names is worth.
\<close>

subsection \<open>The pause of a denied request\<close>

lemma map_of_store [simp]:
  "map_of (buckets (store_bucket key b l)) k = (if k = key then Some b else map_of (buckets l) k)"
proof -
  have "map_of (filter (\<lambda>(k, _). k \<noteq> key) bs) k = (if k = key then None else map_of bs k)" for bs :: "(string \<times> rat \<times> rat) list"
    by (induction bs) auto
  then show ?thesis
    by (simp add: store_bucket_def map_add_def split: option.split)
qed

lemma store_same [simp]:
  "hl_rate (store_bucket key b l) = hl_rate l" "hl_burst (store_bucket key b l) = hl_burst l"
  "max_entries (store_bucket key b l) = max_entries l"
  by (simp_all add: store_bucket_def)

lemma make_room_same [simp]:
  "hl_rate (make_room now l) = hl_rate l" "hl_burst (make_room now l) = hl_burst l"
  "max_entries (make_room now l) = max_entries l"
  by (simp_all add: make_room_def cleanup_buckets_def Let_def)

lemma refilled_store [simp]: "refilled (store_bucket key b l) = refilled l"
  by (simp add: refilled_def fun_eq_iff)

text \<open>The limiter a check works on, and the tokens it finds there.\<close>

definition roomy :: "string \<Rightarrow> rat \<Rightarrow> http_limiter \<Rightarrow> http_limiter" where
  "roomy key now l =
     (if map_of (buckets l) key = None \<and> max_entries l \<le> length (buckets l) then make_room now l else l)"

definition tokens_at :: "http_limiter \<Rightarrow> string \<Rightarrow> rat \<Rightarrow> rat" where
  "tokens_at l key now = refilled l (case map_of (buckets l) key of Some b \<Rightarrow> b | None \<Rightarrow> (hl_burst l, now)) now"

lemma check_rate_tokens:
  "check_rate key now l =
     (let m = roomy key now l; tokens = tokens_at m key now in
      if 1 \<le> tokens then ((True, 0), store_bucket key (tokens - 1, now) m)
      else ((False, max 1 \<lceil>(1 - tokens) / hl_rate m\<rceil>), store_bucket key (tokens, now) m))"
  by (simp add: check_rate_def roomy_def tokens_at_def Let_def)

lemma roomy_same [simp]:
  "hl_rate (roomy key now l) = hl_rate l" "hl_burst (roomy key now l) = hl_burst l"
  "max_entries (roomy key now l) = max_entries l"
  by (simp_all add: roomy_def)

lemma tokens_at_store:
  assumes "now \<le> later"
  shows "tokens_at (store_bucket key (tokens, now) l) k later
    = (if k = key then min (hl_burst l) (tokens + (later - now) * hl_rate l) else tokens_at l k later)"
  using assms by (cases "map_of (buckets l) k"; cases "k = key") (simp_all add: tokens_at_def refilled_def max_def)

text \<open>The pause a denied request is told is exact: the next request of the same key is let through
  when it comes that many seconds later or more, and denied again when it comes a whole number of
  seconds sooner.\<close>

theorem retry_after_exact:
  assumes "0 < hl_rate l" and "1 \<le> hl_burst l" and "check_rate key now l = ((False, wait), m)" and "0 < d"
  shows "fst (fst (check_rate key (now + of_int d) m)) \<longleftrightarrow> wait \<le> d"
proof -
  let ?tokens = "tokens_at (roomy key now l) key now"
  have denied: "?tokens < 1" "wait = max 1 \<lceil>(1 - ?tokens) / hl_rate l\<rceil>"
    and m: "m = store_bucket key (?tokens, now) (roomy key now l)"
    using assms(3) by (auto simp: check_rate_tokens Let_def split: if_split_asm)
  have "roomy key (now + of_int d) m = m"
    by (simp add: roomy_def m)
  then have "fst (fst (check_rate key (now + of_int d) m)) \<longleftrightarrow> 1 \<le> min (hl_burst l) (?tokens + of_int d * hl_rate l)"
    using assms(4) by (simp add: check_rate_tokens Let_def m tokens_at_store)
  also have "\<dots> \<longleftrightarrow> (1 - ?tokens) / hl_rate l \<le> of_int d"
    using assms(1,2) by (auto simp: divide_le_eq)
  also have "\<dots> \<longleftrightarrow> wait \<le> d"
    using assms(4) denied(2) by (auto simp: ceiling_le_iff)
  finally show ?thesis .
qed

theorem retry_after_exact_witness:
  "\<exists>m. check_rate ''a'' 3 ((new_http_limiter 30 1 5)\<lparr>buckets := [(''a'', (0, 3))]\<rparr>) = ((False, 2), m)
     \<and> fst (fst (check_rate ''a'' 5 m)) \<and> \<not> fst (fst (check_rate ''a'' 4 m))"
proof -
  obtain m where run: "check_rate ''a'' 3 ((new_http_limiter 30 1 5)\<lparr>buckets := [(''a'', (0, 3))]\<rparr>) = ((False, 2), m)"
    by (simp add: check_rate_def new_http_limiter_def refilled_def Let_def)
  show ?thesis
    using retry_after_exact [OF _ _ run, of 2] retry_after_exact [OF _ _ run, of 1] run
    by (simp add: new_http_limiter_def)
qed

subsection \<open>What a limiter lets through\<close>

fun run_checks :: "(string \<times> rat) list \<Rightarrow> http_limiter \<Rightarrow> bool list \<times> http_limiter" where
  "run_checks [] l = ([], l)"
| "run_checks ((key, now) # rs) l =
     (let ((ok, _), l) = check_rate key now l; (oks, l) = run_checks rs l in (ok # oks, l))"

definition admitted :: "string \<Rightarrow> (string \<times> rat) list \<Rightarrow> bool list \<Rightarrow> nat" where
  "admitted key rs oks = length (filter (\<lambda>((k, _), ok). k = key \<and> ok) (zip rs oks))"

text \<open>The buckets of a limiter at a time no request came after.\<close>

definition limiter_ok :: "rat \<Rightarrow> http_limiter \<Rightarrow> bool" where
  "limiter_ok now l \<longleftrightarrow> distinct (map fst (buckets l))
     \<and> list_all (\<lambda>(k, tokens, since). 0 \<le> tokens \<and> tokens \<le> hl_burst l \<and> since \<le> now) (buckets l)"

lemma limiter_ok_find:
  "limiter_ok now l \<Longrightarrow> map_of (buckets l) key = Some (tokens, since) \<Longrightarrow> 0 \<le> tokens \<and> tokens \<le> hl_burst l \<and> since \<le> now"
  by (auto simp: limiter_ok_def list_all_iff dest: map_of_SomeD)

lemma limiter_ok_later: "limiter_ok now l \<Longrightarrow> now \<le> later \<Longrightarrow> limiter_ok later l"
  by (auto simp: limiter_ok_def list_all_iff)

lemma store_bucket_ok:
  "limiter_ok now l \<Longrightarrow> 0 \<le> tokens \<Longrightarrow> tokens \<le> hl_burst l \<Longrightarrow> limiter_ok now (store_bucket key (tokens, now) l)"
  by (auto simp: limiter_ok_def store_bucket_def list_all_iff distinct_map inj_on_def)

lemma tokens_at_bounds:
  assumes "limiter_ok now l" and "0 \<le> hl_rate l" and "0 \<le> hl_burst l"
  shows "0 \<le> tokens_at l key now" and "tokens_at l key now \<le> hl_burst l"
  using assms(2,3) limiter_ok_find [OF assms(1)]
  by (auto simp: tokens_at_def refilled_def split: option.split)

lemma tokens_at_later:
  assumes "limiter_ok now l" and "0 \<le> hl_rate l" and "now \<le> later"
  shows "tokens_at l key later \<le> tokens_at l key now + hl_rate l * (later - now)"
proof (cases "map_of (buckets l) key")
  case None
  then show ?thesis
    using assms by (simp add: tokens_at_def refilled_def)
next
  case (Some b)
  then have "snd b \<le> now"
    using limiter_ok_find [OF assms(1), of key "fst b" "snd b"] by simp
  moreover have "(later - snd b) * hl_rate l = (now - snd b) * hl_rate l + hl_rate l * (later - now)"
    by (simp add: algebra_simps)
  moreover have "0 \<le> hl_rate l * (later - now)"
    using assms(2,3) by simp
  ultimately show ?thesis
    using assms(3) by (simp add: tokens_at_def refilled_def Some max_def min_def)
qed

text \<open>Nothing is evicted while there is room for every key.\<close>

lemma roomy_id:
  assumes "limiter_ok now l" and "card (insert key (set (map fst (buckets l)))) \<le> max_entries l"
  shows "roomy key later l = l"
proof -
  have "length (buckets l) < max_entries l" if "map_of (buckets l) key = None"
  proof -
    have "length (buckets l) = card (set (map fst (buckets l)))"
      using assms(1) distinct_card [of "map fst (buckets l)"] by (simp add: limiter_ok_def)
    moreover have "key \<notin> set (map fst (buckets l))"
      using that by (simp add: map_of_eq_None_iff)
    ultimately show ?thesis
      using assms(2) by (simp add: card_insert_if)
  qed
  then show ?thesis
    by (auto simp: roomy_def)
qed

lemma run_checks_step:
  assumes "limiter_ok now l" and "0 \<le> hl_rate l" and "1 \<le> hl_burst l" and "roomy key now l = l"
  shows "\<exists>ok wait m. check_rate key now l = ((ok, wait), m) \<and> limiter_ok now m
    \<and> hl_rate m = hl_rate l \<and> hl_burst m = hl_burst l \<and> max_entries m = max_entries l
    \<and> set (map fst (buckets m)) = insert key (set (map fst (buckets l)))
    \<and> (if key = k \<and> ok then 1 else 0) + tokens_at m k now = tokens_at l k now"
proof -
  let ?tokens = "tokens_at l key now"
  have bounds: "0 \<le> ?tokens" "?tokens \<le> hl_burst l"
    using tokens_at_bounds [OF assms(1,2)] assms(3) by simp_all
  have keys: "set (map fst (buckets (store_bucket key b l))) = insert key (set (map fst (buckets l)))" for b
    by (auto simp: store_bucket_def)
  show ?thesis
    using bounds assms keys store_bucket_ok [OF assms(1)]
    by (auto simp: check_rate_tokens Let_def tokens_at_store min_def)
qed

lemma run_checks_bound:
  assumes "sorted_wrt (\<lambda>x y. snd x \<le> snd y) rs" and "list_all (\<lambda>(_, now). start \<le> now \<and> now \<le> finish) rs"
    and "limiter_ok start l" and "0 \<le> hl_rate l" and "1 \<le> hl_burst l" and "start \<le> finish"
    and "card (set (map fst (buckets l)) \<union> set (map fst rs)) \<le> max_entries l"
  shows "of_nat (admitted key rs (fst (run_checks rs l))) \<le> tokens_at l key start + hl_rate l * (finish - start)
    \<and> limiter_ok finish (snd (run_checks rs l)) \<and> hl_rate (snd (run_checks rs l)) = hl_rate l
    \<and> hl_burst (snd (run_checks rs l)) = hl_burst l \<and> max_entries (snd (run_checks rs l)) = max_entries l
    \<and> set (map fst (buckets (snd (run_checks rs l)))) = set (map fst (buckets l)) \<union> set (map fst rs)"
  using assms
proof (induction rs arbitrary: l start)
  case Nil
  then show ?case
    using tokens_at_bounds(1) [of start l key] limiter_ok_later by (auto simp: admitted_def)
next
  case (Cons r rs)
  obtain k now where r: "r = (k, now)"
    by (cases r)
  have now: "start \<le> now" "now \<le> finish" "list_all (\<lambda>(_, t). now \<le> t \<and> t \<le> finish) rs"
    using Cons.prems(1,2) by (auto simp: r list_all_iff)
  have ok: "limiter_ok now l"
    using Cons.prems(3) now(1) by (rule limiter_ok_later)
  have "card (insert k (set (map fst (buckets l)))) \<le> card (set (map fst (buckets l)) \<union> set (map fst (r # rs)))"
    by (intro card_mono) (auto simp: r)
  then have room: "roomy k now l = l"
    using Cons.prems(7) by (intro roomy_id [OF ok]) simp
  obtain ok' wait m where step: "check_rate k now l = ((ok', wait), m)" "limiter_ok now m"
    "hl_rate m = hl_rate l" "hl_burst m = hl_burst l" "max_entries m = max_entries l"
    "set (map fst (buckets m)) = insert k (set (map fst (buckets l)))"
    "(if k = key \<and> ok' then 1 else 0) + tokens_at m key now = tokens_at l key now"
    using run_checks_step [OF ok Cons.prems(4,5) room, of key] by blast
  have "sorted_wrt (\<lambda>x y. snd x \<le> snd y) rs" "0 \<le> hl_rate m" "1 \<le> hl_burst m"
    "card (set (map fst (buckets m)) \<union> set (map fst rs)) \<le> max_entries m"
    using Cons.prems step by (simp_all add: r)
  note rest = Cons.IH [OF this(1) now(3) step(2) this(2,3) now(2) this(4)]
  moreover have "of_nat (admitted key (r # rs) (fst (run_checks (r # rs) l)))
      = (if k = key \<and> ok' then 1 else 0) + (of_nat (admitted key rs (fst (run_checks rs m))) :: rat)"
    by (simp add: r step(1) admitted_def case_prod_unfold Let_def)
  moreover have "tokens_at l key now \<le> tokens_at l key start + hl_rate l * (now - start)"
    by (rule tokens_at_later [OF Cons.prems(3,4) now(1)])
  ultimately show ?case
    using rest step by (simp add: r case_prod_unfold Let_def algebra_simps)
qed

lemma new_limiter_ok: "limiter_ok now (new_http_limiter rate burst entries)"
  by (simp add: limiter_ok_def new_http_limiter_def)

text \<open>C40. In any stretch of the requests to a new limiter, as long as there is room for every key, no
  more requests of a key are let through than the burst and what the rate allows in the time the
  stretch takes.\<close>

theorem admitted_within_rate:
  assumes "sorted_wrt (\<lambda>x y. snd x \<le> snd y) (before @ window)"
    and "list_all (\<lambda>(_, now). start \<le> now \<and> now \<le> finish) window"
    and "list_all (\<lambda>(_, now). now \<le> start) before" and "start \<le> finish"
    and "0 \<le> rate" and "1 \<le> burst" and "card (set (map fst (before @ window))) \<le> entries"
  shows "of_nat (admitted key window (fst (run_checks window (snd (run_checks before (new_http_limiter rate burst entries))))))
    \<le> of_int burst + rate / 60 * (finish - start)"
proof -
  let ?new = "new_http_limiter rate burst entries"
  have new: "hl_rate ?new = rate / 60" "hl_burst ?new = of_int burst" "max_entries ?new = entries" "buckets ?new = []"
    by (simp_all add: new_http_limiter_def)
  let ?l = "snd (run_checks before ?new)"
  obtain t0 where t0: "t0 \<le> start" "list_all (\<lambda>(_, now). t0 \<le> now \<and> now \<le> start) before"
  proof (cases before)
    case Nil
    with that [of start] show thesis
      by simp
  next
    case (Cons r rs)
    have "list_all (\<lambda>(_, now). snd r \<le> now \<and> now \<le> start) before"
      using assms(1,3) by (simp add: Cons sorted_wrt_append list_all_iff case_prod_unfold)
    moreover have "snd r \<le> start"
      using assms(3) by (simp add: Cons case_prod_unfold)
    ultimately show thesis
      using that by blast
  qed
  have "card (set (map fst before)) \<le> card (set (map fst (before @ window)))"
    by (intro card_mono) auto
  then have "limiter_ok start ?l \<and> hl_rate ?l = rate / 60 \<and> hl_burst ?l = of_int burst \<and> max_entries ?l = entries
      \<and> set (map fst (buckets ?l)) = set (map fst before)"
    using run_checks_bound [of before t0 start ?new] t0 assms new_limiter_ok by (simp add: new sorted_wrt_append)
  then have l: "limiter_ok start ?l" "hl_rate ?l = rate / 60" "hl_burst ?l = of_int burst" "max_entries ?l = entries"
    "set (map fst (buckets ?l)) = set (map fst before)"
    by blast+
  have "tokens_at ?l key start \<le> of_int burst"
    using tokens_at_bounds(2) [OF l(1), of key] l(2,3) assms(5,6) by simp
  moreover have "0 \<le> hl_rate ?l" "1 \<le> hl_burst ?l"
    "card (set (map fst (buckets ?l)) \<union> set (map fst window)) \<le> max_entries ?l" "sorted_wrt (\<lambda>x y. snd x \<le> snd y) window"
    unfolding l using assms by (simp_all add: sorted_wrt_append image_Un)
  from run_checks_bound [OF this(4) assms(2) l(1) this(1,2) assms(4) this(3), of key]
  have "of_nat (admitted key window (fst (run_checks window ?l))) \<le> tokens_at ?l key start + rate / 60 * (finish - start)"
    unfolding l(2) by blast
  ultimately show ?thesis
    by linarith
qed

text \<open>Five requests of one address within a second, of which a burst of two lets two through.\<close>

definition sample_requests :: "(string \<times> rat) list" where
  "sample_requests = map (\<lambda>i. (''10.0.0.1'', of_nat i / 5)) [0..<5]"

theorem admitted_within_rate_witness:
  "of_nat (admitted ''10.0.0.1'' sample_requests (fst (run_checks sample_requests (new_http_limiter 60 2 10)))) \<le> (3 :: rat)"
proof -
  have "sorted_wrt (\<lambda>x y. snd x \<le> snd y) sample_requests"
    "list_all (\<lambda>(_, now). 0 \<le> now \<and> now \<le> 1) sample_requests" "card (set (map fst sample_requests)) \<le> 10"
    by code_simp+
  then show ?thesis
    using admitted_within_rate [of "[]" sample_requests 0 1 60 2 10] by simp
qed

subsection \<open>The memory of a limiter\<close>

lemma check_rate_memory:
  assumes "distinct (map fst (buckets l))" and "length (buckets l) \<le> max_entries l" and "0 < max_entries l"
  shows "distinct (map fst (buckets (snd (check_rate key now l))))
    \<and> length (buckets (snd (check_rate key now l))) \<le> max_entries l"
proof -
  have shrunk: "distinct (map fst (tl bs))" if "distinct (map fst bs)" for bs :: "(string \<times> rat \<times> rat) list"
    using that by (simp add: map_tl distinct_tl)
  define n where "n = (if 30 \<le> now - last_cleanup l then cleanup_buckets now (l\<lparr>last_cleanup := now\<rparr>) else l)"
  have "distinct (map fst (buckets n))" "length (buckets n) \<le> max_entries l" "max_entries n = max_entries l"
    using assms by (simp_all add: n_def cleanup_buckets_def distinct_map_filter le_trans [OF length_filter_le])
  then have made: "distinct (map fst (buckets (make_room now l))) \<and> length (buckets (make_room now l)) < max_entries l"
    using assms(3) shrunk by (auto simp: make_room_def Let_def n_def [symmetric])
  let ?m = "roomy key now l"
  have m: "distinct (map fst (buckets ?m))" "length (buckets ?m) \<le> max_entries l"
    "map_of (buckets ?m) key = None \<Longrightarrow> length (buckets ?m) < max_entries l"
    using assms made by (auto simp: roomy_def)
  have stored: "distinct (map fst (buckets (store_bucket key b ?m)))" for b
    using m(1) by (auto simp: store_bucket_def distinct_map inj_on_def)
  have kept: "length (filter (\<lambda>(k, _). k \<noteq> key) (buckets ?m)) < max_entries l"
  proof (cases "map_of (buckets ?m) key")
    case None
    then show ?thesis
      using m(3) le_less_trans [OF length_filter_le] by blast
  next
    case (Some b)
    then have "(key, b) \<in> set (buckets ?m)"
      by (rule map_of_SomeD)
    then have "length (filter (\<lambda>(k, _). k \<noteq> key) (buckets ?m)) < length (buckets ?m)"
      by (intro length_filter_less) auto
    then show ?thesis
      using m(2) by simp
  qed
  then have "length (buckets (store_bucket key b ?m)) \<le> max_entries l" for b
    by (simp add: store_bucket_def)
  with stored show ?thesis
    by (simp add: check_rate_tokens Let_def)
qed

end
