(* ===== verification/Middleware.thy ===== *)
theory Middleware
  imports Subscription PyText
begin

section \<open>bot/middlewares and utils/user\_locks.py\<close>

text \<open>
  What stands between an update of Telegram and its handler: the user it belongs to
  (\<open>user\_context.py\<close> with \<open>services/user\_cache.py\<close>), the ban check (\<open>ban\_check.py\<close>) and the
  lock of the actions that must not run twice (\<open>action\_lock.py\<close>).  The cache is a map, from which an
  entry may vanish at any time; the alerts the middlewares send are not modelled.  The handlers that run at the same
  time are the pending calls of a step relation: every await of the code is between two steps.
\<close>

subsection \<open>The user of an update\<close>

type_synonym user_cache = "int \<rightharpoonup> int option"

definition get_cached_user_id :: "user_cache \<Rightarrow> int \<Rightarrow> bool \<times> int option" where
  "get_cached_user_id cache tid =
     (case cache tid of None \<Rightarrow> (False, None) | Some i \<Rightarrow> (True, i))"

definition set_cached_user_id :: "int \<Rightarrow> int option \<Rightarrow> user_cache \<Rightarrow> user_cache" where
  "set_cached_user_id tid i cache = cache(tid \<mapsto> i)"

definition invalidate_user_cache :: "int \<Rightarrow> user_cache \<Rightarrow> user_cache" where
  "invalidate_user_cache tid cache = cache(tid := None)"

text \<open>The user found by the telegram id: the user, whether the user is new, the cache and the tables.\<close>

definition find_or_register ::
  "int \<Rightarrow> string option \<Rightarrow> string option \<Rightarrow> instant \<Rightarrow> user_cache \<Rightarrow> db
   \<Rightarrow> (user option \<times> bool) \<times> user_cache \<times> db" where
  "find_or_register tid uname fname now cache s =
     (case find (\<lambda>u. telegram_id u = tid \<and> \<not> is_deleted u) (users s) of
        Some u \<Rightarrow> ((Some u, False), set_cached_user_id tid (Some (u_id u)) cache, s)
      | None \<Rightarrow>
          (case get_user_by_telegram_id_any tid s of
             Some u \<Rightarrow>
               if is_deleted u then ((None, True), set_cached_user_id tid None cache, s)
               else ((Some u, False), set_cached_user_id tid (Some (u_id u)) cache, s)
           | None \<Rightarrow>
               (case create_user tid uname fname None now s of
                  Inr (u, s) \<Rightarrow> ((Some u, True), set_cached_user_id tid (Some (u_id u)) cache, s)
                | Inl err \<Rightarrow>
                    (case get_user_by_telegram_id_any tid s of
                       Some u \<Rightarrow>
                         if is_deleted u then ((None, True), set_cached_user_id tid None cache, s)
                         else ((Some u, False), set_cached_user_id tid (Some (u_id u)) cache, s)
                     | None \<Rightarrow> ((None, True), set_cached_user_id tid None cache, s)))))"

definition unblock :: "(user option \<times> bool) \<times> user_cache \<times> db \<Rightarrow> (user option \<times> bool) \<times> user_cache \<times> db" where
  "unblock p =
     (let ((u, is_new), cache, s) = p in
      case u of
        None \<Rightarrow> ((None, is_new), cache, s)
      | Some u \<Rightarrow>
          if is_bot_blocked u
          then (let u = u\<lparr>is_bot_blocked := False\<rparr> in
                ((Some u, is_new), invalidate_user_cache (telegram_id u) cache, set_user u s))
          else ((Some u, is_new), cache, s))"

definition user_context ::
  "int option \<Rightarrow> string option \<Rightarrow> string option \<Rightarrow> instant \<Rightarrow> user_cache \<Rightarrow> db
   \<Rightarrow> (user option \<times> bool) \<times> user_cache \<times> db" where
  "user_context sender uname fname now cache s =
     (case sender of
        None \<Rightarrow> ((None, False), cache, s)
      | Some tid \<Rightarrow>
          (case get_cached_user_id cache tid of
             (True, None) \<Rightarrow> ((None, False), cache, s)
           | (True, Some i) \<Rightarrow>
               (case find (\<lambda>u. u_id u = i \<and> \<not> is_deleted u) (users s) of
                  Some u \<Rightarrow> unblock ((Some u, False), cache, s)
                | None \<Rightarrow> unblock (find_or_register tid uname fname now (invalidate_user_cache tid cache) s))
           | (False, _) \<Rightarrow> unblock (find_or_register tid uname fname now cache s)))"

text \<open>Whether an update goes on to its handler.\<close>

definition ban_check :: "int list \<Rightarrow> int option \<Rightarrow> user option \<Rightarrow> bool" where
  "ban_check admins sender u =
     ((case sender of None \<Rightarrow> False | Some tid \<Rightarrow> List.member admins tid)
      \<or> (case u of None \<Rightarrow> True | Some u \<Rightarrow> \<not> is_banned u))"

subsection \<open>The data of a button\<close>

definition LOCKED_ACTION_PREFIXES :: "string list" where
  "LOCKED_ACTION_PREFIXES =
    [''add_device'', ''select_server:'', ''confirm_delete_device:'',
     ''admin_delete_device_apply:'', ''download_conf:'', ''alt_connection:'',
     ''balance_create:'', ''order_pay_wallet:'', ''order_pay_card:'', ''order_check:'',
     ''order_cancel:'', ''confirm_admin_balance_apply'', ''confirm_mass_bonus_apply'',
     ''admin_bal_preset:'', ''admin_sub_apply_tariff:'', ''admin_sub_apply_extend:'',
     ''admin_sub_apply_reduce:'', ''admin_sub_grant_apply:'', ''admin_ban_apply:'',
     ''admin_unban_apply:'', ''confirm_server_delete:'', ''confirm_server_purge:'',
     ''admin_server_toggle_apply:'', ''admin_server_migrate_confirm:'',
     ''admin_server_incy_reset_apply:'', ''admin_tariff_toggle_apply:'',
     ''admin_maintenance_toggle_apply'', ''broadcast_confirm_launch'', ''wl_trial_activate'',
     ''wl_buy_execute'', ''wl_buy_confirm'', ''wl_renew_execute'', ''wl_renew_confirm'',
     ''wl_topup_execute:'', ''wl_topup_pack_'', ''wl_topup_shortage:'', ''wl_reset_devices'',
     ''wl_add_device_confirm'', ''vless_sub_reset'', ''vless_sub_reset_confirm'',
     ''admin_vless_hwid_reset:'', ''admin_vless_hwid_reset_apply:'',
     ''admin_vless_token_rotate:'', ''admin_vless_token_rotate_apply:'',
     ''admin_wi_traffic_add:'', ''admin_wi_traffic_reset_apply:'', ''admin_wi_quota_set:'',
     ''admin_wi_devlimit_set:'', ''admin_wi_hwid_reset_apply:'', ''admin_wi_token_reset_apply:'',
     ''admin_wl_reset_apply:'', ''admin_wl_grant_trial:'', ''admin_wi_apply_extend:'']"

definition STALE_ACTION_PREFIXES :: "string list" where
  "STALE_ACTION_PREFIXES =
    [''confirm_delete_device:'', ''admin_delete_device_apply:'', ''admin_sub_apply_tariff:'',
     ''admin_sub_apply_extend:'', ''admin_sub_apply_reduce:'', ''admin_sub_grant_apply:'',
     ''admin_ban_apply:'', ''admin_unban_apply:'', ''confirm_admin_balance_apply'',
     ''confirm_mass_bonus_apply'', ''admin_bal_preset:'', ''balance_check:'',
     ''balance_cancel:'', ''balance_cancel_all'', ''confirm_server_delete:'',
     ''confirm_server_purge:'', ''admin_server_toggle_apply:'',
     ''admin_server_migrate_confirm:'', ''admin_server_incy_reset_apply:'',
     ''admin_tariff_toggle_apply:'', ''admin_maintenance_toggle_apply'',
     ''broadcast_confirm_launch'', ''wl_add_device_confirm'', ''wl_buy_confirm'',
     ''wl_buy_execute'', ''wl_renew_confirm'', ''wl_renew_execute'', ''wl_topup_pack_'',
     ''wl_topup_execute:'', ''wl_topup_shortage:'', ''admin_wi_traffic_add:'',
     ''admin_wi_traffic_reset_apply:'', ''admin_wi_quota_set:'', ''admin_wi_devlimit_set:'',
     ''admin_wi_hwid_reset_apply:'', ''admin_wi_token_reset_apply:'',
     ''admin_vless_hwid_reset:'', ''admin_vless_hwid_reset_apply:'',
     ''admin_vless_token_rotate:'', ''admin_vless_token_rotate_apply:'',
     ''admin_wl_reset_apply:'', ''admin_wl_grant_trial:'', ''admin_wi_confirm_extend:'',
     ''admin_wi_apply_extend:'', ''vless_sub_reset_confirm'']"

definition STALE_MAX_AGE_SECONDS :: int where "STALE_MAX_AGE_SECONDS = 600"

text \<open>The patterns, in texts of lower case: word characters and the boundary of a word.\<close>

definition word_char :: "char \<Rightarrow> bool" where
  "word_char c \<longleftrightarrow> is_digit c \<or> c = CHR ''_'' \<or> (let n = (of_char (lower_char c) :: nat) in 97 \<le> n \<and> n \<le> 122)"

definition word_end :: "string \<Rightarrow> bool" where
  "word_end s \<longleftrightarrow> (case s of [] \<Rightarrow> True | c # _ \<Rightarrow> \<not> word_char c)"

text \<open>\<open>\b\<close>\<open>w\<close>\<open>\b\<close> followed by \<open>rest\<close>; \<open>after\<close> says if a word character is before the text.\<close>

fun has_word :: "string \<Rightarrow> (string \<Rightarrow> bool) \<Rightarrow> bool \<Rightarrow> string \<Rightarrow> bool" where
  "has_word w rest after [] = False"
| "has_word w rest after (c # cs) =
     (\<not> after \<and> starts_with w (c # cs) \<and> word_end (drop (length w) (c # cs)) \<and> rest (drop (length w) (c # cs))
      \<or> has_word w rest (word_char c) cs)"

text \<open>\<open>\s+\d+\s*=\s*\d+\<close>\<close>

definition equation :: "string \<Rightarrow> bool" where
  "equation s =
     (let digits = dropWhile is_space s; left = dropWhile is_space (dropWhile is_digit digits);
          right = dropWhile is_space (tl left) in
      s \<noteq> [] \<and> is_space (hd s) \<and> digits \<noteq> [] \<and> is_digit (hd digits) \<and> left \<noteq> [] \<and> hd left = CHR ''=''
      \<and> right \<noteq> [] \<and> is_digit (hd right))"

text \<open>\<open>;\s*\<close>\<open>w\<close>\<open>\s+\<close>\<close>

fun has_statement :: "string \<Rightarrow> string \<Rightarrow> bool" where
  "has_statement w [] = False"
| "has_statement w (c # cs) =
     (c = CHR '';'' \<and> starts_with w (dropWhile is_space cs)
        \<and> (case drop (length w) (dropWhile is_space cs) of [] \<Rightarrow> False | x # _ \<Rightarrow> is_space x)
      \<or> has_statement w cs)"

definition dangerous_pattern :: "string \<Rightarrow> bool" where
  "dangerous_pattern data =
     (let s = py_lower data in
      list_ex (\<lambda>w. has_statement w s) [''drop'', ''delete'', ''update'', ''insert'']
      \<or> list_ex (\<lambda>w. contains_text w s) [''--'', ''/*'', ''*/'']
      \<or> list_ex (\<lambda>w. has_word w equation False s) [''or'', ''and'']
      \<or> list_ex (\<lambda>w. has_word w (\<lambda>_. True) False s) [''union'', ''select''])"

text \<open>\<open>data.split(prefix, 1)[1]\<close>, and the part before the first of the separators.\<close>

fun text_after :: "string \<Rightarrow> string \<Rightarrow> string option" where
  "text_after p [] = (if p = [] then Some [] else None)"
| "text_after p (c # cs) =
     (if starts_with p (c # cs) then Some (drop (length p) (c # cs)) else text_after p cs)"

definition numeric_parameter :: "string \<Rightarrow> string \<Rightarrow> bool" where
  "numeric_parameter data p =
     (case text_after p data of
        None \<Rightarrow> True
      | Some s \<Rightarrow>
          (let v = takeWhile (\<lambda>c. c \<notin> {CHR '':'', CHR ''_'', CHR ''/''}) s in v \<noteq> [] \<and> list_all is_digit v))"

definition validate_callback_params :: "string \<Rightarrow> bool" where
  "validate_callback_params data =
     (data \<noteq> [] \<and> \<not> dangerous_pattern data
      \<and> \<not> list_ex (\<lambda>c. List.member [CHR ''|'', CHR 0x60, CHR ''$'', CHR ''&'', CHR '';'', CHR ''<'', CHR ''>''] c) data
      \<and> list_all (numeric_parameter data)
          [''device_id='', ''devices/'', ''server:'', ''servers/'', ''tariff:'', ''tariffs/'', ''user:'', ''users/''])"

definition is_locked_action :: "string \<Rightarrow> bool" where
  "is_locked_action data \<longleftrightarrow> data \<noteq> [] \<and> list_ex (\<lambda>p. starts_with p data) LOCKED_ACTION_PREFIXES"

definition is_stale_action :: "string \<Rightarrow> bool" where
  "is_stale_action data \<longleftrightarrow> data \<noteq> [] \<and> list_ex (\<lambda>p. starts_with p data) STALE_ACTION_PREFIXES"

text \<open>The age of the message of a button, where it has a date.\<close>

definition is_stale_callback :: "int option \<Rightarrow> bool" where
  "is_stale_callback age \<longleftrightarrow> (case age of None \<Rightarrow> False | Some a \<Rightarrow> STALE_MAX_AGE_SECONDS < a)"

subsection \<open>The locks of the users\<close>

definition CLEANUP_INTERVAL :: int where "CLEANUP_INTERVAL = 3600"
definition LOCK_TTL :: int where "LOCK_TTL = 3600"

text \<open>A lock is a number; a lock is held while a call holds it.\<close>

record user_locks =
  user_action_locks :: "int \<rightharpoonup> nat \<times> int"
  locks_made :: nat
  last_cleanup_time :: int
  locked :: "nat list"

definition cleanup_old_locks :: "int \<Rightarrow> user_locks \<Rightarrow> user_locks" where
  "cleanup_old_locks now l =
     l\<lparr>user_action_locks := (\<lambda>u. case user_action_locks l u of
          None \<Rightarrow> None
        | Some (k, used) \<Rightarrow> if LOCK_TTL < now - used \<and> \<not> List.member (locked l) k then None else Some (k, used))\<rparr>"

definition touch_lock :: "int \<Rightarrow> int \<Rightarrow> user_locks \<Rightarrow> nat \<times> user_locks" where
  "touch_lock user now l =
     (case user_action_locks l user of
        None \<Rightarrow> (locks_made l, l\<lparr>user_action_locks := (user_action_locks l)(user \<mapsto> (locks_made l, now)),
                               locks_made := Suc (locks_made l)\<rparr>)
      | Some (k, _) \<Rightarrow> (k, l\<lparr>user_action_locks := (user_action_locks l)(user \<mapsto> (k, now))\<rparr>))"

definition get_user_action_lock :: "int \<Rightarrow> int \<Rightarrow> user_locks \<Rightarrow> nat \<times> user_locks" where
  "get_user_action_lock user now l =
     touch_lock user now
       (if CLEANUP_INTERVAL < now - last_cleanup_time l
        then (cleanup_old_locks now l)\<lparr>last_cleanup_time := now\<rparr> else l)"

text \<open>
  What becomes of a callback: it is refused, or its handler runs, with the lock it holds if it holds
  one.  \<open>locked()\<close> and the acquisition are in one step, since nothing is awaited between them.
\<close>

datatype verdict = Invalid_Request | Confirmation_Expired | Action_In_Progress | Handled "nat option"

definition action_lock :: "int \<Rightarrow> string \<Rightarrow> int option \<Rightarrow> int \<Rightarrow> user_locks \<Rightarrow> verdict \<times> user_locks" where
  "action_lock user data age now l =
     (if user = 0 then (Handled None, l)
      else if \<not> validate_callback_params data then (Invalid_Request, l)
      else if is_stale_action data \<and> is_stale_callback age then (Confirmation_Expired, l)
      else if \<not> is_locked_action data then (Handled None, l)
      else (let (k, l) = get_user_action_lock user now l in
            if List.member (locked l) k then (Action_In_Progress, l)
            else (Handled (Some k), l\<lparr>locked := k # locked l\<rparr>)))"

text \<open>The end of a handler, also by an exception, releases its lock.\<close>

definition release_lock :: "nat \<Rightarrow> user_locks \<Rightarrow> user_locks" where
  "release_lock k l = l\<lparr>locked := remove1 k (locked l)\<rparr>"

record running_call =
  rc_user :: int
  rc_data :: string
  rc_lock :: "nat option"

definition no_locks :: "int \<Rightarrow> user_locks" where
  "no_locks now = \<lparr>user_action_locks = Map.empty, locks_made = 0, last_cleanup_time = now, locked = []\<rparr>"

inductive gate_step :: "running_call list \<times> user_locks \<Rightarrow> running_call list \<times> user_locks \<Rightarrow> bool" where
  refused: "action_lock user data age now l = (v, m) \<Longrightarrow> (\<forall>k. v \<noteq> Handled k) \<Longrightarrow> gate_step (calls, l) (calls, m)"
| started: "action_lock user data age now l = (Handled k, m)
    \<Longrightarrow> gate_step (calls, l) (\<lparr>rc_user = user, rc_data = data, rc_lock = k\<rparr> # calls, m)"
| finished: "c \<in> set calls
    \<Longrightarrow> gate_step (calls, l) (remove1 c calls, case rc_lock c of None \<Rightarrow> l | Some k \<Rightarrow> release_lock k l)"

inductive_cases gate_stepE: "gate_step (calls, l) (calls', l')"

end
