(* ===== verification/Middleware_Theorems.thy ===== *)
theory Middleware_Theorems
  imports Middleware "HOL-Library.Multiset"
begin

section \<open>Properties of the middlewares\<close>

text \<open>
  A user has at most one locked action running, however updates and the ends of handlers interleave
  and whenever the old locks are cleaned up.
\<close>

subsection \<open>The table of locks\<close>

definition locks_ok :: "user_locks \<Rightarrow> bool" where
  "locks_ok l \<longleftrightarrow> (\<forall>u k t. user_action_locks l u = Some (k, t) \<longrightarrow> k < locks_made l)
     \<and> (\<forall>u v k t t'. user_action_locks l u = Some (k, t) \<longrightarrow> user_action_locks l v = Some (k, t') \<longrightarrow> u = v)"

text \<open>The locks that are held keep their users.\<close>

definition holders_kept :: "user_locks \<Rightarrow> user_locks \<Rightarrow> bool" where
  "holders_kept l m \<longleftrightarrow> (\<forall>u k t. user_action_locks l u = Some (k, t) \<longrightarrow> k \<in> set (locked l)
     \<longrightarrow> (\<exists>t'. user_action_locks m u = Some (k, t')))"

lemma cleanup_locks:
  assumes "locks_ok l"
  shows "locks_ok (cleanup_old_locks now l)" and "holders_kept l (cleanup_old_locks now l)"
    and "locked (cleanup_old_locks now l) = locked l"
  using assms by (auto simp: locks_ok_def holders_kept_def cleanup_old_locks_def split: option.splits if_split_asm)

lemma touch_lock:
  assumes "locks_ok n" and "touch_lock user now n = (k, m)"
  shows "locks_ok m" and "holders_kept n m" and "locked m = locked n" and "user_action_locks m user = Some (k, now)"
proof -
  have fresh: "user_action_locks n u \<noteq> Some (locks_made n, t)" for u t
    using assms(1) by (auto simp: locks_ok_def)
  show "locked m = locked n" and "user_action_locks m user = Some (k, now)" and "holders_kept n m"
    using assms(2) by (auto simp: touch_lock_def holders_kept_def split: option.split_asm)
  have below: "k' < locks_made n" if "user_action_locks n u = Some (k', t)" for u k' t
    using assms(1) that by (auto simp: locks_ok_def)
  have one: "u = v" if "user_action_locks n u = Some (k', t)" "user_action_locks n v = Some (k', t')" for u v k' t t'
    using assms(1) that unfolding locks_ok_def by blast
  show "locks_ok m"
    using assms(2) below fresh
    by (auto simp: touch_lock_def locks_ok_def less_Suc_eq split: option.split_asm if_split_asm dest: one)
qed

lemma get_lock:
  assumes "locks_ok l" and "get_user_action_lock user now l = (k, m)"
  shows "locks_ok m" and "holders_kept l m" and "locked m = locked l" and "user_action_locks m user = Some (k, now)"
proof -
  define n where "n = (if CLEANUP_INTERVAL < now - last_cleanup_time l
    then (cleanup_old_locks now l)\<lparr>last_cleanup_time := now\<rparr> else l)"
  have n: "locks_ok n" "holders_kept l n" "locked n = locked l"
    using cleanup_locks [OF assms(1), of now] assms(1) by (auto simp: n_def locks_ok_def holders_kept_def)
  have "touch_lock user now n = (k, m)"
    using assms(2) by (simp only: get_user_action_lock_def n_def)
  note m = touch_lock [OF n(1) this]
  show "locks_ok m" and "locked m = locked l" and "user_action_locks m user = Some (k, now)"
    using m n by simp_all
  show "holders_kept l m"
    using m(2) n(2,3) unfolding holders_kept_def by metis
qed

subsection \<open>One locked action of a user at a time\<close>

definition held_by :: "running_call list \<Rightarrow> nat list" where
  "held_by calls = List.map_filter rc_lock calls"

definition gate_inv :: "running_call list \<Rightarrow> user_locks \<Rightarrow> bool" where
  "gate_inv calls l \<longleftrightarrow> locks_ok l \<and> distinct (locked l) \<and> mset (held_by calls) = mset (locked l)
     \<and> (\<forall>c\<in>set calls. \<forall>k. rc_lock c = Some k \<longrightarrow> (\<exists>t. user_action_locks l (rc_user c) = Some (k, t)))
     \<and> (\<forall>c\<in>set calls. rc_user c \<noteq> 0 \<and> is_locked_action (rc_data c) \<longrightarrow> rc_lock c \<noteq> None)"

lemma held_by_Cons: "held_by (c # calls) = (case rc_lock c of None \<Rightarrow> [] | Some k \<Rightarrow> [k]) @ held_by calls"
  by (simp add: held_by_def split: option.split)

lemma held_by_remove:
  "c \<in> set calls \<Longrightarrow> mset (held_by calls) = mset (case rc_lock c of None \<Rightarrow> [] | Some k \<Rightarrow> [k]) + mset (held_by (remove1 c calls))"
  by (induction calls) (auto simp: held_by_Cons)

lemma held_by_mem: "c \<in> set calls \<Longrightarrow> rc_lock c = Some k \<Longrightarrow> k \<in> set (held_by calls)"
  by (induction calls) (auto simp: held_by_Cons split: option.split)

lemma gate_inv_held: "gate_inv calls l \<Longrightarrow> c \<in> set calls \<Longrightarrow> rc_lock c = Some k \<Longrightarrow> k \<in> set (locked l)"
  using held_by_mem by (metis gate_inv_def mset_eq_setD)

text \<open>A call to the middleware that starts nothing keeps the invariant; one that starts a call extends it.\<close>

lemma gate_inv_table:
  assumes "gate_inv calls l" and "locks_ok m" and "holders_kept l m" and "locked m = locked l"
  shows "gate_inv calls m"
  using assms gate_inv_held [OF assms(1)] unfolding gate_inv_def holders_kept_def by metis

lemma action_lock_cases:
  assumes "gate_inv calls l" and "action_lock user data age now l = (v, m)"
  obtains (plain) "gate_inv calls m" "\<forall>k. v \<noteq> Handled (Some k)" "v = Handled None \<Longrightarrow> user = 0 \<or> \<not> is_locked_action data"
  | (locked) k n where "v = Handled (Some k)" "m = n\<lparr>locked := k # locked n\<rparr>" "k \<notin> set (locked n)" "gate_inv calls n"
      "user_action_locks n user = Some (k, now)"
proof (cases "user = 0 \<or> \<not> validate_callback_params data \<or> is_stale_action data \<and> is_stale_callback age \<or> \<not> is_locked_action data")
  case True
  then show thesis
    using assms by (intro plain) (auto simp: action_lock_def split: if_split_asm)
next
  case False
  obtain k n where lock: "get_user_action_lock user now l = (k, n)"
    by fastforce
  have "locks_ok l"
    using assms(1) by (simp add: gate_inv_def)
  note n = get_lock [OF this lock]
  have inv: "gate_inv calls n"
    using gate_inv_table [OF assms(1) n(1-3)] .
  show thesis
    using False assms(2) inv n(4) by (cases "k \<in> set (locked n)")
      (auto simp: action_lock_def lock intro: plain locked)
qed

lemma gate_inv_start:
  assumes "gate_inv calls n" and "k \<notin> set (locked n)" and "user_action_locks n user = Some (k, now)"
  shows "gate_inv (\<lparr>rc_user = user, rc_data = data, rc_lock = Some k\<rparr> # calls) (n\<lparr>locked := k # locked n\<rparr>)"
  using assms by (auto simp: gate_inv_def held_by_Cons locks_ok_def)

lemma gate_inv_plain:
  assumes "gate_inv calls n" and "user = 0 \<or> \<not> is_locked_action data"
  shows "gate_inv (\<lparr>rc_user = user, rc_data = data, rc_lock = None\<rparr> # calls) n"
  using assms by (auto simp: gate_inv_def held_by_Cons)

lemma gate_inv_finish:
  assumes "gate_inv calls l" and "c \<in> set calls"
  shows "gate_inv (remove1 c calls) (case rc_lock c of None \<Rightarrow> l | Some k \<Rightarrow> release_lock k l)"
proof -
  have rest: "x \<in> set calls" if "x \<in> set (remove1 c calls)" for x
    using that notin_set_remove1 by metis
  show ?thesis
  proof (cases "rc_lock c")
    case None
    then show ?thesis
      using assms(1) held_by_remove [OF assms(2)] by (auto simp: gate_inv_def dest: rest)
  next
    case (Some k)
    then have "mset (held_by calls) = add_mset k (mset (held_by (remove1 c calls)))"
      using held_by_remove [OF assms(2)] by simp
    moreover have "mset (held_by calls) = mset (locked l)"
      using assms(1) by (simp add: gate_inv_def)
    ultimately have "mset (held_by (remove1 c calls)) = mset (locked l) - {#k#}"
      by (metis add_mset_remove_trivial)
    then show ?thesis
      using assms(1) Some by (auto simp: gate_inv_def release_lock_def locks_ok_def dest: rest)
  qed
qed

lemma gate_inv_step: "gate_step s t \<Longrightarrow> gate_inv (fst s) (snd s) \<Longrightarrow> gate_inv (fst t) (snd t)"
proof (induction rule: gate_step.induct)
  case (refused user data age now l v m calls)
  then have inv: "gate_inv calls l"
    by simp
  from inv refused.hyps(1) show ?case
    by (rule action_lock_cases) (use refused.hyps(2) in simp_all)
next
  case (started user data age now l k m calls)
  then have inv: "gate_inv calls l"
    by simp
  from inv started.hyps show ?case
    by (rule action_lock_cases) (auto intro: gate_inv_start gate_inv_plain)
next
  case (finished c calls l)
  then show ?case
    using gate_inv_finish by simp
qed

lemma gate_inv_reachable:
  "gate_step\<^sup>*\<^sup>* s t \<Longrightarrow> gate_inv (fst s) (snd s) \<Longrightarrow> gate_inv (fst t) (snd t)"
  by (induction rule: rtranclp_induct) (auto dest: gate_inv_step)

lemma gate_inv_start_empty: "gate_inv [] (no_locks now)"
  by (simp add: gate_inv_def no_locks_def locks_ok_def held_by_def)

lemma gate_inv_one:
  assumes "gate_inv calls l"
  shows "distinct (map rc_user (filter (\<lambda>c. rc_lock c \<noteq> None) calls))"
proof -
  have "distinct (map rc_user (filter (\<lambda>c. rc_lock c \<noteq> None) cs))"
    if "distinct (held_by cs)" "\<forall>c\<in>set cs. \<forall>k. rc_lock c = Some k \<longrightarrow> (\<exists>t. user_action_locks l (rc_user c) = Some (k, t))" for cs
    using that
  proof (induction cs)
    case (Cons c cs)
    have "rc_user c \<noteq> rc_user d" if "rc_lock c = Some k" "d \<in> set cs" "rc_lock d \<noteq> None" for d k
      using that Cons.prems held_by_mem [of d cs] by (auto simp: held_by_Cons)
    then show ?case
      using Cons by (auto simp: held_by_Cons)
  qed simp
  then show ?thesis
    using assms by (metis gate_inv_def mset_eq_imp_distinct_iff)
qed

text \<open>C26. However the updates of Telegram, the ends of their handlers and the removal of old locks
  interleave, no user has two actions running that the lock protects (payments, purchases, the
  balance, bans, ...), whether they were asked for by the same button or by different ones.\<close>

theorem one_action_per_user:
  assumes "gate_step\<^sup>*\<^sup>* ([], no_locks start) (calls, l)"
  shows "distinct (map rc_user (filter (\<lambda>c. rc_user c \<noteq> 0 \<and> is_locked_action (rc_data c)) calls))"
proof -
  have inv: "gate_inv calls l"
    using gate_inv_reachable [OF assms] gate_inv_start_empty by simp
  have "filter (\<lambda>c. rc_user c \<noteq> 0 \<and> is_locked_action (rc_data c)) calls
      = filter (\<lambda>c. rc_user c \<noteq> 0 \<and> is_locked_action (rc_data c)) (filter (\<lambda>c. rc_lock c \<noteq> None) calls)"
    using inv by (auto simp: gate_inv_def intro!: filter_cong)
  then show ?thesis
    by (simp only:) (rule distinct_map_filter [OF gate_inv_one [OF inv]])
qed

theorem one_action_per_user_witness:
  "\<exists>l. gate_step\<^sup>*\<^sup>* ([], no_locks 0) ([\<lparr>rc_user = 5, rc_data = ''wl_buy_confirm'', rc_lock = Some 0\<rparr>], l)
     \<and> fst (action_lock 5 ''order_pay_wallet:7'' None 1 l) = Action_In_Progress"
proof -
  let ?call = "\<lparr>rc_user = 5, rc_data = ''wl_buy_confirm'', rc_lock = Some 0\<rparr>"
  have first: "fst (action_lock 5 ''wl_buy_confirm'' None 0 (no_locks 0)) = Handled (Some 0)"
    "fst (action_lock 5 ''order_pay_wallet:7'' None 1 (snd (action_lock 5 ''wl_buy_confirm'' None 0 (no_locks 0))))
      = Action_In_Progress"
    by code_simp+
  obtain l where run: "action_lock 5 ''wl_buy_confirm'' None 0 (no_locks 0) = (Handled (Some 0), l)"
    using first(1) by (metis prod.collapse)
  then have reach: "gate_step\<^sup>*\<^sup>* ([], no_locks 0) ([?call], l)"
    by (intro r_into_rtranclp started) simp
  have "distinct (map rc_user (filter (\<lambda>c. rc_user c \<noteq> 0 \<and> is_locked_action (rc_data c)) [?call]))"
    by (rule one_action_per_user [OF reach])
  then show ?thesis
    using reach first(2) run by auto
qed

end
