(* ===== verification/Pending_Theorems.thy ===== *)
theory Pending_Theorems
  imports Pending_Steps Webhook_Theorems
begin

section \<open>Properties of the endpoint and of the pending orders\<close>

text \<open>
  An event YooKassa was told to be done with stays done; orders nobody pays are canceled in batches
  of 50; and twenty underpaid orders are asked for again by every pass, before every younger one.
\<close>

subsection \<open>An acknowledged event\<close>

lemma get_inbox_store:
  "\<exists>r. get_inbox (store_event key payload event pid ext order status inbox) key = Some r \<and> ib_status r = status"
proof (cases "get_inbox inbox key")
  case None
  then have "find (\<lambda>r. ib_event_key r = key) inbox = None"
    by (simp add: get_inbox_def)
  then have "find (\<lambda>r. ib_event_key r = key) (inbox @ [r]) = (if ib_event_key r = key then Some r else None)" for r
    by (induction inbox) (auto split: if_splits)
  with None show ?thesis
    by (simp add: store_event_def get_inbox_def)
next
  case (Some r)
  then show ?thesis
    by (auto simp: store_event_def get_inbox_def find_update_rows dest: find_SomeD)
qed

lemma processed_event_stored:
  assumes "process_inbox_event e key (payload, event, pid, ext, order) p = Inr ((status, told), s, inbox)"
  shows "\<exists>r. get_inbox inbox key = Some r \<and> ib_status r = status"
  using assms get_inbox_store
  by (cases p) (auto simp: process_inbox_event_def Let_def elim!: and_then_InrE)

text \<open>The event of a key is done: its row is there and not pending.\<close>

definition event_done :: "string \<Rightarrow> inbox_row list \<Rightarrow> bool" where
  "event_done key inbox \<longleftrightarrow>
     (case get_inbox inbox key of None \<Rightarrow> False | Some r \<Rightarrow> ib_status r \<noteq> Inbox_PENDING)"

lemma get_inbox_store_other:
  assumes "k \<noteq> key"
  shows "get_inbox (store_event k payload event pid ext order status inbox) key = get_inbox inbox key"
proof -
  have "find (\<lambda>r. ib_event_key r = key) (update_rows (\<lambda>r. ib_event_key r = k)
      (\<lambda>r. r\<lparr>ib_status := a, ib_public_order_id := (if truthy order then order else ib_public_order_id r)\<rparr>) inbox)
    = find (\<lambda>r. ib_event_key r = key) inbox" for a
    by (rule find_update_rows_other) (use assms in auto)
  then show ?thesis
    using assms by (auto simp: store_event_def get_inbox_def find_append split: option.split)
qed

text \<open>What a request that got past the checks of its form is answered.\<close>

lemma well_formed_request:
  assumes "from_yookassa rq \<and> \<not> (case content_length rq of None \<Rightarrow> False | Some n \<Rightarrow> 262144 < n)"
    and "read_webhook rq = Some request"
  shows "yookassa_webhook_handler e event_key delivered rq p =
      (if event_done (event_key (fst request)) (snd p) then (200, p)
       else (case process_inbox_event e (event_key (fst request)) request p of
          Inl err \<Rightarrow> (500, p)
        | Inr ((status, told), s, inbox) \<Rightarrow>
            (if status = Inbox_PENDING then 503 else 200, tell_owner delivered told s, inbox)))"
  using assms by (simp add: yookassa_webhook_handler_def event_done_def Let_def)

lemma handlerE:
  assumes "yookassa_webhook_handler e event_key delivered rq p = (code, q)"
  obtains (refused) "code \<noteq> 200" "code \<noteq> 503" "q = p"
  | (known) request where "read_webhook rq = Some request" "event_done (event_key (fst request)) (snd p)"
      "code = 200" "q = p"
  | (failed) "code = 500" "q = p"
  | (stored) request told s status where "read_webhook rq = Some request"
      "\<not> event_done (event_key (fst request)) (snd p)"
      "process_inbox_event e (event_key (fst request)) request p = Inr ((status, told), s, snd q)"
      "code = (if status = Inbox_PENDING then 503 else 200)"
proof (cases "from_yookassa rq \<and> \<not> (case content_length rq of None \<Rightarrow> False | Some n \<Rightarrow> 262144 < n)")
  case False
  then show ?thesis
    using assms refused by (auto simp: yookassa_webhook_handler_def split: if_split_asm)
next
  case ok: True
  show ?thesis
  proof (cases "read_webhook rq")
    case None
    then show ?thesis
      using assms ok refused by (simp add: yookassa_webhook_handler_def)
  next
    case (Some request)
    note run = assms [unfolded well_formed_request [OF ok Some]]
    show ?thesis
    proof (cases "event_done (event_key (fst request)) (snd p)")
      case True
      then show ?thesis
        using run known [OF Some True] by simp
    next
      case new: False
      show ?thesis
      proof (cases "process_inbox_event e (event_key (fst request)) request p")
        case (Inl err)
        then show ?thesis
          using run new failed by simp
      next
        case (Inr result)
        obtain status told s inbox where "result = ((status, told), s, inbox)"
          by (metis prod.collapse)
        then show ?thesis
          using run new Inr stored [OF Some new, of status told s] by auto
      qed
    qed
  qed
qed

lemma accepted_again:
  assumes "yookassa_webhook_handler e event_key delivered rq p = (200, q)"
    and "read_webhook rq = Some request" and "event_done (event_key (fst request)) (snd r)"
  shows "yookassa_webhook_handler e' event_key delivered' rq r = (200, r)"
proof -
  have "from_yookassa rq \<and> \<not> (case content_length rq of None \<Rightarrow> False | Some n \<Rightarrow> 262144 < n)"
    using assms(1) by (auto simp: yookassa_webhook_handler_def split: if_split_asm)
  from well_formed_request [OF this assms(2)] assms(3) show ?thesis
    by simp
qed

lemma done_stays_done:
  assumes "yookassa_webhook_handler e event_key delivered rq p = (code, q)" and "event_done key (snd p)"
  shows "event_done key (snd q)"
  using assms(1)
proof (cases rule: handlerE)
  case (stored request told s status)
  obtain payload event pid ext order where "request = (payload, event, pid, ext, order)"
    by (metis prod.collapse)
  moreover have "event_key (fst request) \<noteq> key"
    using stored(2) assms(2) by blast
  moreover have "snd q = store_event (event_key payload) payload event pid ext order status (snd p)"
    using stored(3) \<open>request = _\<close> by (cases p) (auto simp: process_inbox_event_def Let_def elim!: and_then_InrE)
  ultimately have "get_inbox (snd q) key = get_inbox (snd p) key"
    by (simp add: get_inbox_store_other)
  then show ?thesis
    using assms(2) by (simp add: event_done_def)
qed (use assms(2) in auto)

text \<open>
  What happens to the inbox after an answer: further requests, of whatever events, and everything
  else the service does, which leaves the inbox alone.
\<close>

inductive inbox_run :: "(json \<Rightarrow> string) \<Rightarrow> db \<times> inbox_row list \<Rightarrow> db \<times> inbox_row list \<Rightarrow> bool"
  for event_key where
  stay: "inbox_run event_key p p"
| request: "inbox_run event_key p q \<Longrightarrow> yookassa_webhook_handler e event_key delivered rq q = (code, r)
    \<Longrightarrow> inbox_run event_key p r"
| other: "inbox_run event_key p (s, inbox) \<Longrightarrow> inbox_run event_key p (s', inbox)"

lemma run_keeps_done: "inbox_run event_key p q \<Longrightarrow> event_done key (snd p) \<Longrightarrow> event_done key (snd q)"
  by (induction rule: inbox_run.induct) (auto dest: done_stays_done)

text \<open>C21. What the endpoint acknowledged with 200 it never processes again while its inbox row is kept:
  after any number of further requests, and whatever else the service did meanwhile, a repetition of
  the event is answered 200 and touches neither the tables nor the inbox.  Every other answer but 503,
  which stores the event and asks for a repetition, leaves everything as it was.  (The cleanup deletes
  rows of events older than 30 days.)\<close>

theorem acknowledged_event_final:
  assumes "yookassa_webhook_handler e event_key delivered rq p = (code, q)"
    and "inbox_run event_key q r"
  shows "(code = 200 \<longrightarrow> yookassa_webhook_handler e' event_key delivered' rq r = (200, r))
    \<and> (code \<noteq> 200 \<and> code \<noteq> 503 \<longrightarrow> q = p)"
  using assms(1)
proof (cases rule: handlerE)
  case (known request)
  then show ?thesis
    using accepted_again [of e event_key delivered rq p q request r] run_keeps_done [OF assms(2)] assms(1) by simp
next
  case (stored request told s status)
  have "event_done (event_key (fst request)) (snd q)" if "status \<noteq> Inbox_PENDING"
    using processed_event_stored [of e "event_key (fst request)"] stored(3) that
    by (cases request) (fastforce simp: event_done_def)
  then show ?thesis
    using accepted_again [of e event_key delivered rq p q request r] run_keeps_done [OF assms(2)] assms(1) stored(1,4)
    by auto
qed auto

subsection \<open>Orders nobody pays\<close>

abbreviation expired_rows :: "instant \<Rightarrow> db \<Rightarrow> order list" where
  "expired_rows now s \<equiv> filter (is_expired_pending now) (orders s)"

lemma expire_order_rows:
  "orders (expire_order x s) = update_rows (\<lambda>v. o_id v = o_id x) (\<lambda>_. mark_order_canceled x
     (if external_id x = None then ''ambiguous_creation_timeout'' else ''order_expired_24h'')) (orders s)"
  by (simp add: expire_order_def set_order_def)

lemma expire_order_ids [simp]: "map o_id (orders (expire_order x s)) = map o_id (orders s)"
  unfolding expire_order_rows by (rule map_update_rows) simp

lemma one_row_changed:
  assumes "distinct (map k xs)" and "x \<in> set xs" and "P x" and "\<not> P y"
  shows "Suc (length (filter P (update_rows (\<lambda>v. k v = k x) (\<lambda>_. y) xs))) = length (filter P xs)"
  using assms
proof (induction xs)
  case (Cons z zs)
  have other: "update_rows (\<lambda>v. k v = k x) (\<lambda>_. y) zs = zs" if "z = x"
    using Cons.prems(1) that by (intro update_rows_id) (auto simp: image_iff)
  show ?case
  proof (cases "z = x")
    case True
    then show ?thesis
      using Cons.prems other by simp
  next
    case False
    then have "k z \<noteq> k x" "x \<in> set zs"
      using Cons.prems(1,2) by auto
    then show ?thesis
      using Cons by simp
  qed
qed simp

lemma expire_order_one_less:
  assumes "distinct (map o_id (orders s))" and "x \<in> set (orders s)" and "is_expired_pending now x"
  shows "Suc (length (expired_rows now (expire_order x s))) = length (expired_rows now s)"
  unfolding expire_order_rows using assms
  by (intro one_row_changed) (auto simp: is_expired_pending_def mark_order_canceled_def)

lemma expire_orders_fewer:
  assumes "distinct (map o_id (orders s))" and "distinct (map o_id xs)"
    and "\<forall>x\<in>set xs. x \<in> set (orders s) \<and> is_expired_pending now x"
  shows "length (expired_rows now (fold expire_order xs s)) + length xs = length (expired_rows now s)"
  using assms
proof (induction xs arbitrary: s)
  case (Cons x xs)
  have "y \<in> set (orders (expire_order x s))" if y: "y \<in> set xs" for y
  proof -
    have "o_id y \<noteq> o_id x"
      using Cons.prems(2) y by (metis distinct.simps(2) image_eqI list.map(2) list.set_map)
    moreover have "y \<in> set (orders s)"
      using Cons.prems(3) y by simp
    ultimately show ?thesis
      unfolding expire_order_rows set_update_rows by (intro bexI [of _ y]) simp_all
  qed
  then have "length (expired_rows now (fold expire_order xs (expire_order x s))) + length xs
      = length (expired_rows now (expire_order x s))"
    using Cons.prems by (intro Cons.IH) simp_all
  moreover have "Suc (length (expired_rows now (expire_order x s))) = length (expired_rows now s)"
    using Cons.prems by (intro expire_order_one_less) simp_all
  ultimately show ?case
    by simp
qed simp

lemma expire_stale_count:
  assumes "orders_ok s"
  shows "length (expired_rows now (expire_stale now s)) = length (expired_rows now s) - 50"
proof -
  have "x \<in> set (orders s)" if "x \<in> set (expired_pending now s)" for x
    using that by (auto simp: expired_pending_def dest: in_set_takeD)
  then have "length (expired_rows now (expire_stale now s)) + length (expired_pending now s)
      = length (expired_rows now s)"
    unfolding expire_stale_def using assms expired_pending_rows [OF assms]
    by (intro expire_orders_fewer) (auto simp: orders_ok_def)
  then show ?thesis
    by (simp add: expired_pending_def min_def split: if_splits)
qed

lemma expire_stale_ok: "orders_ok s \<Longrightarrow> orders_ok (expire_stale now s)"
  using expire_stale_evolves by (auto simp: evolves_def)

text \<open>C23. Orders nobody pays do not pile up: each pass cancels the 50 oldest of those that expired,
  so after as many passes as there are batches of 50 no expired order is pending.\<close>

theorem expired_orders_drained:
  assumes "orders_ok s" and "length (filter (is_expired_pending now) (orders s)) \<le> 50 * n"
  shows "filter (is_expired_pending now) (orders ((expire_stale now ^^ n) s)) = []"
proof -
  have "orders_ok ((expire_stale now ^^ n) s)
      \<and> length (expired_rows now ((expire_stale now ^^ n) s)) = length (expired_rows now s) - 50 * n"
  proof (induction n)
    case (Suc n)
    then show ?case
      by (simp add: expire_stale_ok expire_stale_count)
  qed (simp add: assms(1))
  then show ?thesis
    using assms(2) by simp
qed

subsection \<open>Underpaid orders are asked for again and again\<close>

text \<open>What the choice of candidates looks at.\<close>

definition asked_like :: "order \<Rightarrow> order \<Rightarrow> bool" where
  "asked_like x y \<longleftrightarrow> o_id y = o_id x \<and> o_status y = o_status x \<and> external_id y = external_id x
     \<and> o_created_at y = o_created_at x \<and> amount_rub y = amount_rub x
     \<and> payment_method y = payment_method x"

lemma asked_like_refl [simp]: "asked_like x x"
  by (simp add: asked_like_def)

lemma asked_like_created: "asked_like x y \<Longrightarrow> o_created_at y = o_created_at x"
  by (simp add: asked_like_def)

lemma insort_asked:
  "list_all2 asked_like xs ys \<Longrightarrow> asked_like x y
    \<Longrightarrow> list_all2 asked_like (insort_key o_created_at x xs) (insort_key o_created_at y ys)"
  by (induction xs ys rule: list_all2_induct) (simp_all add: asked_like_created)

lemma sort_asked:
  "list_all2 asked_like xs ys \<Longrightarrow> list_all2 asked_like (sort_key o_created_at xs) (sort_key o_created_at ys)"
  by (induction xs ys rule: list_all2_induct) (simp_all add: insort_asked)

lemma filter_asked:
  assumes "\<And>x y. asked_like x y \<Longrightarrow> P x = P y"
  shows "list_all2 asked_like xs ys \<Longrightarrow> list_all2 asked_like (filter P xs) (filter P ys)"
  by (induction xs ys rule: list_all2_induct) (auto simp: assms)

text \<open>The provider answers that the order was paid, with less than its price.\<close>

definition short_of :: "string option \<Rightarrow> money \<Rightarrow> (string \<Rightarrow> http_outcome) \<Rightarrow> bool" where
  "short_of ext price answers \<longleftrightarrow>
     (case check_payment_status (answers (case ext of None \<Rightarrow> [] | Some x \<Rightarrow> x)) of
        Inl err \<Rightarrow> False
      | Inr st \<Rightarrow> st_is_paid st \<and> (case st_amount_rub st of Some (Finite p) \<Rightarrow> p < price | _ \<Rightarrow> False))"

definition answered_short :: "(string \<Rightarrow> http_outcome) \<Rightarrow> order \<Rightarrow> bool" where
  "answered_short answers x \<longleftrightarrow>
     get_payment_gateway (payment_method x) = Inr () \<and> nonempty (external_id x) \<noteq> None
     \<and> short_of (external_id x) (amount_rub x) answers"

lemma answered_short_like: "asked_like x y \<Longrightarrow> answered_short answers x = answered_short answers y"
  by (simp add: answered_short_def asked_like_def)

lemma short_payment_flags:
  assumes "orders_ok s" and "stored x s" and "o_status x = Order_PENDING" and "p < amount_rub x"
    and "ext = external_id x"
  shows "\<exists>y. mark_order_paid e (o_id x) ext (Some (Finite p)) s = Inr (Some (y, False), set_order y s)
    \<and> asked_like x y \<and> order_evolves x y"
proof -
  have payable: "payable x"
    using assms(3) by (simp add: payable_def)
  have ext: "with_ext ext x = x"
    using assms(5) by (auto simp: with_ext_def split: option.split)
  have "x \<in> set (orders s)"
    using assms(2) by (auto simp: get_order_def dest: find_SomeD)
  then have "order_checks x (orders s)"
    using assms(1) by (simp add: orders_ok_def)
  then have "order_checks (note_underpaid (Some (Finite p)) x) (orders s)"
    by (simp add: order_checks_def ck_orders_amount_rub_def uq_orders_external_id_def
        note_underpaid_def Let_def)
  then have "mark_order_paid e (o_id x) ext (Some (Finite p)) s
      = Inr (Some (note_underpaid (Some (Finite p)) x, False), set_order (note_underpaid (Some (Finite p)) x) s)"
    using assms(2,4) payable
    by (simp add: mark_order_payable take_payment_eq ext is_underpaid_def save_order_def Let_def)
  moreover have "asked_like x (note_underpaid (Some (Finite p)) x)" "order_evolves x (note_underpaid (Some (Finite p)) x)"
    by (simp_all add: asked_like_def note_underpaid_def order_evolves_def order_terms_def
        gateway_canceled_def Let_def assms(3))
  ultimately show ?thesis
    by blast
qed

lemma set_order_asked:
  assumes "orders_ok s" and "stored x s" and "asked_like x y"
  shows "list_all2 asked_like (orders s) (orders (set_order y s))"
proof -
  have "asked_like z (if o_id z = o_id y then y else z)" if "z \<in> set (orders s)" for z
  proof (cases "o_id z = o_id y")
    case True
    have "o_id y = o_id x"
      using assms(3) by (simp add: asked_like_def)
    then have "get_order s (o_id x) = Some z"
      using stored_member [OF assms(1) that] by (simp only: True)
    then have "z = x"
      using assms(2) by (simp only: option.inject)
    then show ?thesis
      using assms(3) by simp
  qed simp
  moreover have rows: "orders (set_order y s) = map (\<lambda>z. if o_id z = o_id y then y else z) (orders s)"
    by (simp add: set_order_def update_rows_def)
  ultimately show ?thesis
    unfolding rows list_all2_map2 list_all2_same by blast
qed

lemma short_answer_step:
  assumes "orders_ok s" and "stored x s" and "asked_like c x" and "o_status c = Order_PENDING"
    and "answered_short answers c" and "\<not> List.member cache (o_id c)"
  shows "\<exists>t. ask_gateway e answers c (cache, s) = (cache, t)
    \<and> list_all2 asked_like (orders s) (orders t) \<and> orders_ok t"
proof -
  have like: "o_id c = o_id x" "external_id c = external_id x" "o_status x = Order_PENDING"
    "amount_rub c = amount_rub x" "payment_method c = payment_method x"
    using assms(3,4) by (auto simp: asked_like_def)
  obtain st p where st: "check_payment_status (answers (case external_id c of None \<Rightarrow> [] | Some y \<Rightarrow> y)) = Inr st"
    "st_is_paid st" "st_amount_rub st = Some (Finite p)" "p < amount_rub x"
    using assms(5) like by (auto simp: answered_short_def short_of_def split: sum.splits option.splits decimal.splits)
  obtain y where y: "mark_order_paid e (o_id x) (external_id x) (Some (Finite p)) s = Inr (Some (y, False), set_order y s)"
    "asked_like x y" "order_evolves x y"
    using short_payment_flags [OF assms(1,2) like(3) st(4) refl] by blast
  have "settle_stale e (o_id c) (external_id c) st cache s = Inr (cache, set_order y s)"
    using assms(2,6) st y(1) like by (auto simp: settle_stale_def)
  then have "ask_gateway e answers c (cache, s) = (cache, set_order y s)"
    using assms(5) st by (simp add: ask_gateway_def answered_short_def)
  moreover have "orders_ok (set_order y s)"
    using set_order_evolves [of s y x] y(2,3) assms(1,2) by (simp add: asked_like_def evolves_def)
  ultimately show ?thesis
    using set_order_asked [OF assms(1,2) y(2)] by blast
qed

lemma asked_trans: "asked_like x y \<Longrightarrow> asked_like y z \<Longrightarrow> asked_like x z"
  by (simp add: asked_like_def)

lemma short_answers_fold:
  assumes "orders_ok s" and "\<forall>c\<in>set cs. (\<exists>x. stored x s \<and> asked_like c x) \<and> o_status c = Order_PENDING
      \<and> answered_short answers c \<and> \<not> List.member cache (o_id c)"
  shows "\<exists>t. fold (ask_gateway e answers) cs (cache, s) = (cache, t)
    \<and> list_all2 asked_like (orders s) (orders t) \<and> orders_ok t"
  using assms
proof (induction cs arbitrary: s)
  case Nil
  then show ?case
    by (simp add: list_all2_same)
next
  case (Cons c cs)
  have "\<exists>x. stored x s \<and> asked_like c x"
    using Cons.prems(2) by simp
  then obtain x where x: "stored x s" "asked_like c x"
    by blast
  have c: "o_status c = Order_PENDING" "answered_short answers c" "\<not> List.member cache (o_id c)"
    using Cons.prems(2) by simp_all
  obtain t where t: "ask_gateway e answers c (cache, s) = (cache, t)"
    "list_all2 asked_like (orders s) (orders t)" "orders_ok t"
    using short_answer_step [OF Cons.prems(1) x c, of e] by blast
  have next_row: "\<exists>z. stored z t \<and> asked_like d z" if "d \<in> set cs" for d
  proof -
    have "\<exists>y. stored y s \<and> asked_like d y"
      using Cons.prems(2) that by simp
    then obtain y where "stored y s" "asked_like d y"
      by blast
    then have "y \<in> set (orders s)"
      by (auto simp: get_order_def dest: find_SomeD)
    then obtain z where "z \<in> set (orders t)" "asked_like y z"
      using t(2) by (metis in_set_conv_nth list_all2_conv_all_nth)
    then show ?thesis
      using stored_member [OF t(3)] asked_trans [OF \<open>asked_like d y\<close>] by blast
  qed
  obtain u where u: "fold (ask_gateway e answers) cs (cache, t) = (cache, u)"
    "list_all2 asked_like (orders t) (orders u)" "orders_ok u"
    using Cons.IH [OF t(3)] Cons.prems(2) next_row by auto
  then show ?case
    using t list_all2_trans [of asked_like asked_like asked_like, OF asked_trans t(2) u(2)] by simp
qed

subsection \<open>The twenty oldest\<close>

lemma sorted_split:
  assumes "sorted (map f xs)" and "\<And>x y. f x \<le> f y \<Longrightarrow> D y \<Longrightarrow> D x"
  shows "filter P xs = filter (\<lambda>x. P x \<and> D x) xs @ filter (\<lambda>x. P x \<and> \<not> D x) xs"
  using assms(1)
proof (induction xs)
  case (Cons x xs)
  have "filter (\<lambda>y. P y \<and> D y) xs = []" if "\<not> D x"
    using Cons.prems that assms(2) by (auto simp: filter_empty_conv)
  then show ?case
    using Cons by auto
qed simp

lemma hd_in_take: "ys \<noteq> [] \<Longrightarrow> n \<noteq> 0 \<Longrightarrow> hd ys \<in> set (take n (ys @ zs))"
  by (cases ys; cases n) simp_all

lemma list_all2_source: "list_all2 P xs ys \<Longrightarrow> y \<in> set ys \<Longrightarrow> \<exists>x\<in>set xs. P x y"
  by (induction rule: list_all2_induct) auto

lemma take_filter_all:
  "\<forall>x\<in>set (take n xs). P x \<Longrightarrow> length (take n xs) = n \<Longrightarrow> take n (filter P xs) = take n xs"
proof -
  assume all: "\<forall>x\<in>set (take n xs). P x" and n: "length (take n xs) = n"
  have "filter P xs = filter P (take n xs) @ filter P (drop n xs)"
    by (metis append_take_drop_id filter_append)
  then have "filter P xs = take n xs @ filter P (drop n xs)"
    using all by simp
  then show ?thesis
    using n by simp
qed

text \<open>When the window moves on and the first \<open>n\<close> are still in it, they are still the first.\<close>

lemma window_moves_on:
  fixes f :: "'a \<Rightarrow> int"
  assumes "sorted (map f xs)" and "a \<le> a'" and "b \<le> b'"
    and "length (take n (filter (\<lambda>x. a \<le> f x \<and> f x \<le> b) xs)) = n"
    and "\<forall>x\<in>set (take n (filter (\<lambda>x. a \<le> f x \<and> f x \<le> b) xs)). a' \<le> f x"
  shows "take n (filter (\<lambda>x. a' \<le> f x \<and> f x \<le> b') xs) = take n (filter (\<lambda>x. a \<le> f x \<and> f x \<le> b) xs)"
proof (cases "n = 0")
  case False
  let ?old = "filter (\<lambda>x. (a \<le> f x \<and> f x \<le> b) \<and> f x < a') xs"
  let ?both = "filter (\<lambda>x. a' \<le> f x \<and> f x \<le> b) xs"
  have "(\<lambda>x. (a \<le> f x \<and> f x \<le> b) \<and> \<not> f x < a') = (\<lambda>x. a' \<le> f x \<and> f x \<le> b)"
    using assms(2) by auto
  then have before: "filter (\<lambda>x. a \<le> f x \<and> f x \<le> b) xs = ?old @ ?both"
    using sorted_split [OF assms(1), of "\<lambda>x. f x < a'" "\<lambda>x. a \<le> f x \<and> f x \<le> b"] by (simp add: less_le_trans)
  have "?old = []"
  proof (rule ccontr)
    assume "?old \<noteq> []"
    then have "hd ?old \<in> set (take n (filter (\<lambda>x. a \<le> f x \<and> f x \<le> b) xs))"
      unfolding before using False by (rule hd_in_take)
    then have "a' \<le> f (hd ?old)"
      by (rule bspec [OF assms(5)])
    moreover have "hd ?old \<in> set ?old"
      using \<open>?old \<noteq> []\<close> by (rule hd_in_set)
    ultimately show False
      by simp
  qed
  with before have same: "filter (\<lambda>x. a \<le> f x \<and> f x \<le> b) xs = ?both"
    by simp
  have "(\<lambda>x. (a' \<le> f x \<and> f x \<le> b') \<and> f x \<le> b) = (\<lambda>x. a' \<le> f x \<and> f x \<le> b)"
    using assms(3) by auto
  then have "filter (\<lambda>x. a' \<le> f x \<and> f x \<le> b') xs = ?both @ filter (\<lambda>x. (a' \<le> f x \<and> f x \<le> b') \<and> \<not> f x \<le> b) xs"
    using sorted_split [OF assms(1), of "\<lambda>x. f x \<le> b" "\<lambda>x. a' \<le> f x \<and> f x \<le> b'"] by simp
  then show ?thesis
    using assms(4) unfolding same by simp
qed simp

definition askable :: "backoff \<Rightarrow> order \<Rightarrow> bool" where
  "askable cache x \<longleftrightarrow> o_status x = Order_PENDING \<and> external_id x \<noteq> None \<and> \<not> List.member cache (o_id x)"

abbreviation oldest_askable :: "backoff \<Rightarrow> db \<Rightarrow> order list" where
  "oldest_askable cache s \<equiv> sort_key o_created_at (filter (askable cache) (orders s))"

lemma stale_window:
  "stale_candidates now cache s =
     take 20 (filter (\<lambda>x. now - days_us 1 \<le> o_created_at x \<and> o_created_at x \<le> now - minutes_us 3)
       (oldest_askable cache s))"
  by (simp add: stale_candidates_def filter_sort askable_def conj_ac cong: filter_cong)

lemma asked_sort:
  "list_all2 asked_like (orders s) (orders u) \<Longrightarrow> list_all2 asked_like (oldest_askable cache s) (oldest_askable cache u)"
  by (intro sort_asked filter_asked) (simp_all add: asked_like_def askable_def)

text \<open>An order the pass expires is none to be asked for any more; the others stay as they were.\<close>

lemma expired_not_askable:
  "filter (askable cache) (orders (fold expire_order xs u)) =
     filter (\<lambda>y. askable cache y \<and> o_id y \<notin> o_id ` set xs) (orders u)"
proof (induction xs arbitrary: u)
  case (Cons x xs)
  have "filter P (update_rows (\<lambda>v. o_id v = o_id x) (\<lambda>_. mark_order_canceled x why) ys)
      = filter (\<lambda>y. P y \<and> o_id y \<noteq> o_id x) ys"
    if "\<And>y. P y \<Longrightarrow> o_status y = Order_PENDING" for P why ys
  proof (induction ys)
    case (Cons y ys)
    moreover have "\<not> P (mark_order_canceled x why)"
      using that [of "mark_order_canceled x why"] by (auto simp: mark_order_canceled_def)
    ultimately show ?case
      by auto
  qed simp
  note one = this [of "\<lambda>y. askable cache y \<and> o_id y \<notin> o_id ` set xs"]
  have "filter (askable cache) (orders (fold expire_order (x # xs) u))
      = filter (\<lambda>y. askable cache y \<and> o_id y \<notin> o_id ` set xs) (orders (expire_order x u))"
    using Cons.IH by simp
  also have "\<dots> = filter (\<lambda>y. (askable cache y \<and> o_id y \<notin> o_id ` set xs) \<and> o_id y \<noteq> o_id x) (orders u)"
    unfolding expire_order_rows by (rule one) (simp add: askable_def)
  finally show ?case
    by (simp add: conj_ac cong: conj_cong)
qed simp

text \<open>C22. Twenty underpaid orders keep all younger ones from being asked for.  When the twenty orders a
  pass asks for are all answered as paid with less than their price, a later pass, as long as none of
  the twenty is older than 24 hours and no order is asked for again after a failure, asks for the
  same twenty: an underpaid order is neither settled nor put aside.  No younger pending order is
  asked for, and the next pass finds what this one found.\<close>

theorem underpaid_orders_starve:
  assumes "orders_ok s" and "length (stale_candidates (now_utc e) cache s) = 20"
    and "list_all (\<lambda>c. answered_short answers c \<and> now - days_us 1 \<le> o_created_at c)
      (stale_candidates (now_utc e) cache s)"
    and "now_utc e \<le> now"
    and "reconcile_stale_pending_orders e answers (cache, s) = (cache', t)"
  shows "map o_id (stale_candidates now cache' t) = map o_id (stale_candidates (now_utc e) cache s)
    \<and> list_all (answered_short answers) (stale_candidates now cache' t) \<and> orders_ok t
    \<and> \<not> (\<exists>y\<in>set (stale_candidates now cache' t).
           \<forall>c\<in>set (stale_candidates (now_utc e) cache s). o_created_at c < o_created_at y)"
proof -
  let ?cs = "stale_candidates (now_utc e) cache s"
  let ?in = "\<lambda>n x. n - days_us 1 \<le> o_created_at x \<and> o_created_at x \<le> n - minutes_us 3"
  have "c \<in> set (orders s) \<and> o_status c = Order_PENDING \<and> \<not> List.member cache (o_id c)" if "c \<in> set ?cs" for c
    using that by (auto simp: stale_candidates_def dest!: in_set_takeD)
  then have "\<forall>c\<in>set ?cs. (\<exists>x. stored x s \<and> asked_like c x) \<and> o_status c = Order_PENDING
      \<and> answered_short answers c \<and> \<not> List.member cache (o_id c)"
    using stored_member [OF assms(1)] assms(3) asked_like_refl unfolding list_all_iff by blast
  from short_answers_fold [OF assms(1) this, of e] obtain u where
    u: "fold (ask_gateway e answers) ?cs (cache, s) = (cache, u)" "list_all2 asked_like (orders s) (orders u)" "orders_ok u"
    by blast
  then have t: "cache' = cache" "t = expire_stale (now_utc e) u"
    using assms(5) by (simp_all add: reconcile_stale_pending_orders_def)
  let ?us = "filter (?in now) (oldest_askable cache u)"
  have same: "take 20 (filter (?in now) (oldest_askable cache s)) = ?cs"
    unfolding stale_window
  proof (rule window_moves_on)
    show "\<forall>x\<in>set (take 20 (filter (?in (now_utc e)) (oldest_askable cache s))). now - days_us 1 \<le> o_created_at x"
      using assms(3) unfolding stale_window list_all_iff by blast
  qed (use assms(2,4) in \<open>simp_all add: stale_window\<close>)
  have like: "list_all2 asked_like ?cs (take 20 ?us)"
    unfolding same [symmetric]
    by (intro list_all2_takeI filter_asked asked_sort u(2)) (simp add: asked_like_def)
  have short: "answered_short answers y \<and> (\<exists>c\<in>set ?cs. asked_like c y)" if y: "y \<in> set (take 20 ?us)" for y
  proof -
    obtain c where c: "c \<in> set ?cs" "asked_like c y"
      using list_all2_source [OF like y] by blast
    then have "answered_short answers c"
      using assms(3) by (simp add: list_all_iff)
    then show ?thesis
      using c answered_short_like by blast
  qed
  have "o_id y \<notin> o_id ` set (expired_pending (now_utc e) u)" if y: "y \<in> set (take 20 ?us)" for y
  proof
    assume "o_id y \<in> o_id ` set (expired_pending (now_utc e) u)"
    then obtain x where x: "x \<in> set (orders u)" "is_expired_pending (now_utc e) x" "o_id x = o_id y"
      by (auto simp: expired_pending_def dest!: in_set_takeD)
    have "y \<in> set (orders u)"
      using y by (auto dest: in_set_takeD)
    then have "x = y"
      using x(1,3) u(3) stored_member by (metis option.inject)
    then show False
      using x(2) y short [OF y] assms(4)
      by (auto simp: is_expired_pending_def answered_short_def nonempty_def dest!: in_set_takeD)
  qed
  then have "take 20 (filter (\<lambda>y. o_id y \<notin> o_id ` set (expired_pending (now_utc e) u)) ?us) = take 20 ?us"
    using list_all2_lengthD [OF like] assms(2) by (intro take_filter_all) auto
  moreover have "stale_candidates now cache' t
      = take 20 (filter (\<lambda>y. o_id y \<notin> o_id ` set (expired_pending (now_utc e) u)) ?us)"
    unfolding stale_window t expire_stale_def expired_not_askable
    by (simp add: filter_sort conj_ac cong: filter_cong)
  ultimately have asked: "stale_candidates now cache' t = take 20 ?us"
    by simp
  have "map o_id (take 20 ?us) = map o_id ?cs"
    using like by (auto simp: list_all2_conv_all_nth asked_like_def intro!: nth_equalityI)
  moreover have "\<not> (\<forall>c\<in>set ?cs. o_created_at c < o_created_at y)" if "y \<in> set (take 20 ?us)" for y
    using short [OF that] asked_like_created by fastforce
  moreover have "orders_ok t"
    unfolding t by (rule expire_stale_ok [OF u(3)])
  ultimately show ?thesis
    unfolding asked using short by (auto simp: list_all_iff)
qed

subsection \<open>Concrete cases\<close>

definition sample_cancellation :: json where
  "sample_cancellation = JObj [(''type'', JStr ''notification''), (''event'', JStr ''payment.canceled''),
     (''object'', JObj [(''id'', JStr ''ext-topup-1''), (''status'', JStr ''canceled''),
        (''metadata'', JObj [(''order_id'', JStr ''topup-1'')])])]"

definition sample_post :: webhook_request where
  "sample_post = \<lparr>from_yookassa = True, content_length = Some 200, body = Some sample_cancellation\<rparr>"

theorem acknowledged_event_final_witness:
  "\<exists>q r. yookassa_webhook_handler sample_env (\<lambda>_. ''hash'') (\<lambda>_. True) sample_post (canceled_db, []) = (200, q)
     \<and> inbox_run (\<lambda>_. ''hash'') q r \<and> fst r = sample_db
     \<and> yookassa_webhook_handler sample_env (\<lambda>_. ''hash'') (\<lambda>_. False) sample_post r = (200, r)"
proof -
  have "fst (yookassa_webhook_handler sample_env (\<lambda>_. ''hash'') (\<lambda>_. True) sample_post (canceled_db, [])) = 200"
    by code_simp
  then obtain s inbox where run: "yookassa_webhook_handler sample_env (\<lambda>_. ''hash'') (\<lambda>_. True) sample_post
      (canceled_db, []) = (200, s, inbox)"
    by (metis prod.collapse)
  have later: "inbox_run (\<lambda>_. ''hash'') (s, inbox) (sample_db, inbox)"
    by (rule inbox_run.other [OF inbox_run.stay])
  from acknowledged_event_final [OF run later] run later show ?thesis
    by fastforce
qed

lemma sample_db_ok: "orders_ok sample_db"
  by (simp add: orders_ok_def sample_db_def empty_db_def sample_order_def order_checks_def
      ck_orders_amount_rub_def uq_orders_external_id_def is_whole_def)

theorem expired_orders_drained_witness:
  "length (filter (is_expired_pending (days_us 2)) (orders sample_db)) = 3
     \<and> filter (is_expired_pending (days_us 2)) (orders ((expire_stale (days_us 2) ^^ 1) sample_db)) = []"
proof -
  have "length (filter (is_expired_pending (days_us 2)) (orders sample_db)) = 3"
    by code_simp
  then show ?thesis
    using expired_orders_drained [OF sample_db_ok, of "days_us 2" 1] by simp
qed

text \<open>The provider says each of the three orders was paid with 1 ruble.\<close>

definition one_ruble :: http_outcome where
  "one_ruble = Response 200 (Body (JObj [(''status'', JStr ''succeeded''),
     (''amount'', JObj [(''value'', JDec 1), (''currency'', JStr ''RUB'')])]))"

text \<open>Twenty-one pending top-ups of 1000 rubles, each a microsecond younger than the one before.\<close>

definition nth_topup :: "nat \<Rightarrow> order" where
  "nth_topup i = (sample_order (replicate (Suc i) (CHR ''x'')) 1 TOPUP 1000 Order_PENDING)\<lparr>o_created_at := int i\<rparr>"

definition queue_db :: db where
  "queue_db = empty_db\<lparr>users := [sample_user 1 None], orders := map nth_topup [0..<21]\<rparr>"

lemma queue_ids:
  "map o_id (stale_candidates (minutes_us 10) [] queue_db) = map (\<lambda>i. replicate (Suc i) (CHR ''x'')) [0..<20]"
  by code_simp

lemma queue_members: "c \<in> set (stale_candidates now cache queue_db) \<Longrightarrow> \<exists>i. c = nth_topup i"
  by (auto simp: stale_candidates_def queue_db_def dest!: in_set_takeD)

lemma queue_short: "answered_short (\<lambda>_. one_ruble) (nth_topup i)"
proof -
  have parts: "get_payment_gateway ''yookassa'' = Inr ()"
    "case check_payment_status one_ruble of Inl err \<Rightarrow> False
      | Inr st \<Rightarrow> st_is_paid st \<and> (case st_amount_rub st of Some (Finite p) \<Rightarrow> p < 1000 | _ \<Rightarrow> False)"
    by code_simp+
  then show ?thesis
    by (simp add: answered_short_def short_of_def nth_topup_def sample_order_def nonempty_def)
qed

lemma queue_db_ok: "orders_ok queue_db"
proof -
  have "inj nth_topup" "inj (o_id \<circ> nth_topup)"
    by (auto simp: inj_on_def nth_topup_def sample_order_def dest: arg_cong [where f = length])
  moreover have "external_id (nth_topup i) = external_id (nth_topup j) \<Longrightarrow> o_id (nth_topup i) = o_id (nth_topup j)" for i j
    by (simp add: nth_topup_def sample_order_def)
  ultimately show ?thesis
    by (auto simp: orders_ok_def queue_db_def order_checks_def ck_orders_amount_rub_def
        uq_orders_external_id_def is_whole_def distinct_map list_ex_iff nth_topup_def sample_order_def
        intro: inj_on_subset)
qed

theorem underpaid_orders_starve_witness:
  "\<exists>cache t. reconcile_stale_pending_orders (sample_env\<lparr>now_utc := minutes_us 10\<rparr>) (\<lambda>_. one_ruble) ([], queue_db) = (cache, t)
     \<and> map o_id (stale_candidates (minutes_us 15) cache t) = map (\<lambda>i. replicate (Suc i) (CHR ''x'')) [0..<20]
     \<and> o_id (nth_topup 20) \<notin> set (map o_id (stale_candidates (minutes_us 15) cache t))"
proof -
  let ?e = "sample_env\<lparr>now_utc := minutes_us 10\<rparr>"
  obtain cache t where run: "reconcile_stale_pending_orders ?e (\<lambda>_. one_ruble) ([], queue_db) = (cache, t)"
    by fastforce
  have "length (map o_id (stale_candidates (minutes_us 10) [] queue_db)) = 20"
    unfolding queue_ids by simp
  then have "length (stale_candidates (now_utc ?e) [] queue_db) = 20"
    by simp
  moreover have "minutes_us 15 - days_us 1 \<le> o_created_at (nth_topup i)" for i
    by (simp add: nth_topup_def minutes_us_def days_us_def usec_per_day_def)
  then have "list_all (\<lambda>c. answered_short (\<lambda>_. one_ruble) c \<and> minutes_us 15 - days_us 1 \<le> o_created_at c)
      (stale_candidates (now_utc ?e) [] queue_db)"
    using queue_members queue_short by (fastforce simp: list_all_iff)
  moreover have "now_utc ?e \<le> minutes_us 15"
    by (simp add: minutes_us_def)
  ultimately have ids: "map o_id (stale_candidates (minutes_us 15) cache t) = map (\<lambda>i. replicate (Suc i) (CHR ''x'')) [0..<20]"
    using underpaid_orders_starve [OF queue_db_ok _ _ _ run] queue_ids by simp
  have "o_id (nth_topup 20) \<notin> set (map o_id (stale_candidates (minutes_us 15) cache t))"
    unfolding ids by (auto simp: nth_topup_def sample_order_def dest: arg_cong [where f = length])
  with run ids show ?thesis
    by blast
qed

end
