(* ===== verification/Credit_Theorems.thy ===== *)
theory Credit_Theorems
  imports Pending_Steps Samples
begin

section \<open>Properties of the delivery of owed messages\<close>

text \<open>
  What was delivered is not owed any more, and what cannot be delivered is given up: ten attempts
  end a debt, so an order leaves the worker for good.
\<close>

subsection \<open>One debt\<close>

definition owes_owner :: "order \<Rightarrow> bool" where
  "owes_owner ord \<longleftrightarrow> meta_truthy (o_metadata ord) late_pending"

abbreviation owner_attempts :: "order \<Rightarrow> int" where
  "owner_attempts ord \<equiv> attempts_of (o_metadata ord late_attempts)"

lemma mark_notified_owes [simp]: "\<not> owes_owner (mark_notified ord)"
  by (simp add: owes_owner_def mark_notified_def meta_truthy_def)

lemma mark_referrer_owes [simp]:
  "owes_owner (mark_referrer_notified ord) = owes_owner ord"
  "owner_attempts (mark_referrer_notified ord) = owner_attempts ord"
  "o_status (mark_referrer_notified ord) = o_status ord"
  "o_id (mark_referrer_notified ord) = o_id ord"
  "o_user_id (mark_referrer_notified ord) = o_user_id ord"
  by (simp_all add: owes_owner_def mark_referrer_notified_def meta_truthy_def)

lemma note_failed_referrer_owes [simp]:
  "owes_owner (note_failed_referrer ord) = owes_owner ord"
  "owner_attempts (note_failed_referrer ord) = owner_attempts ord"
  "o_status (note_failed_referrer ord) = o_status ord"
  "o_id (note_failed_referrer ord) = o_id ord"
  "o_user_id (note_failed_referrer ord) = o_user_id ord"
  by (simp_all add: note_failed_referrer_def Let_def) (simp_all add: owes_owner_def meta_truthy_def)

text \<open>One failed attempt: the debt is given up, or one more of at most nine attempts is counted.\<close>

lemma note_failed_owner_counts:
  "\<not> owes_owner (note_failed_owner ord)
   \<or> owner_attempts (note_failed_owner ord) = owner_attempts ord + 1 \<and> owner_attempts ord + 1 < 10"
  by (auto simp: note_failed_owner_def Let_def attempts_of_def MAX_NOTIFY_ATTEMPTS_def)

lemma note_failed_owner_sel [simp]:
  "o_status (note_failed_owner ord) = o_status ord" "o_id (note_failed_owner ord) = o_id ord"
  "o_user_id (note_failed_owner ord) = o_user_id ord"
  by (simp_all add: note_failed_owner_def Let_def mark_notified_def)

lemma mark_notified_sel [simp]:
  "o_status (mark_notified ord) = o_status ord" "o_id (mark_notified ord) = o_id ord"
  "o_user_id (mark_notified ord) = o_user_id ord"
  by (simp_all add: mark_notified_def)

text \<open>What one pass over an order leaves: paid as before, and at least \<open>n\<close> attempts made.\<close>

definition tried :: "nat \<Rightarrow> int \<Rightarrow> order \<Rightarrow> bool" where
  "tried n uid ord \<longleftrightarrow> o_status ord = Order_PAID \<and> o_user_id ord = uid
     \<and> (owes_owner ord \<longrightarrow> int n \<le> owner_attempts ord \<and> n < 10)"

definition reachable_owner :: "int \<Rightarrow> db \<Rightarrow> bool" where
  "reachable_owner uid s \<longleftrightarrow> (case get_user s uid of None \<Rightarrow> True | Some u \<Rightarrow> \<not> is_bot_blocked u)"

lemma note_failed_owner_owes: "owes_owner (note_failed_owner ord) \<Longrightarrow> owes_owner ord"
  by (auto simp: note_failed_owner_def Let_def owes_owner_def mark_notified_def meta_truthy_def split: if_splits)

lemma tried_failed:
  assumes "tried n uid ord"
  shows "tried (Suc n) uid (note_failed_owner ord)"
  using assms note_failed_owner_counts [of ord] note_failed_owner_owes [of ord] by (auto simp: tried_def)

lemma tried_paid: "tried n uid ord \<Longrightarrow> \<not> owes_owner ord \<Longrightarrow> tried m uid ord"
  by (simp add: tried_def)

lemma tried_referrer [simp]:
  "tried n uid (mark_referrer_notified ord) = tried n uid ord"
  "tried n uid (note_failed_referrer ord) = tried n uid ord"
  by (simp_all add: tried_def)

lemma tried_notified: "tried n uid ord \<Longrightarrow> tried m uid (mark_notified ord)"
  by (simp add: tried_def)

text \<open>The order, its owner's debt, and the users after a step of the worker.\<close>

definition order_at :: "uuid \<Rightarrow> nat \<Rightarrow> int \<Rightarrow> db \<Rightarrow> bool" where
  "order_at i n uid s \<longleftrightarrow> (\<exists>ord. get_order s i = Some ord \<and> tried n uid ord)"

lemma order_atI: "get_order s i = Some ord \<Longrightarrow> tried n uid ord \<Longrightarrow> order_at i n uid s"
  by (auto simp: order_at_def)

lemma order_at_set:
  assumes "get_order s i = Some ord" and "o_id ord' = o_id ord" and "tried n uid ord'"
  shows "order_at i n uid (set_order ord' s)"
  using assms get_order_id [OF assms(1)] by (simp add: order_at_def)

lemma set_order_users [simp]: "users (set_order ord s) = users s"
  by (simp add: set_order_def)

lemma finalize_tried:
  assumes "get_order s i = Some ord" and "tried n uid ord"
    and "a = Some Push_Failed \<or> \<not> owes_owner ord \<and> a = None" and "b = Some Push_Failed \<or> b = None"
    and "t = snd (snd (finalize_delivery i a b (cache, s)))"
  shows "order_at i (Suc n) uid t \<and> users t = users s"
proof -
  define ord1 where "ord1 = (if owes_owner ord \<and> a = Some Push_Failed then note_failed_owner ord else ord)"
  have own: "finish_owner a (ord, s) = (False, ord1, s)"
    using assms(3) by (auto simp: finish_owner_def ord1_def owes_owner_def)
  have tried1: "tried (Suc n) uid ord1"
    using assms(2,3) tried_failed tried_paid by (auto simp: ord1_def)
  define ord2 where "ord2 = (if meta_truthy (o_metadata ord1) referrer_pending \<and> b = Some Push_Failed
      then note_failed_referrer ord1 else ord1)"
  have ref: "finish_referrer b (ord1, s) = (False, ord2, s)"
    using assms(4) by (auto simp: finish_referrer_def ord2_def)
  have "order_at i (Suc n) uid (set_order ord2 s)"
    using tried1 by (intro order_at_set [OF assms(1)]) (auto simp: ord1_def ord2_def)
  moreover have "o_status ord = Order_PAID"
    using assms(2) by (simp add: tried_def)
  ultimately show ?thesis
    by (simp add: assms(5) finalize_delivery_def assms(1) own ref Let_def)
qed

lemma owner_debt_owes: "owner_debt now ord s \<noteq> None \<Longrightarrow> owes_owner ord"
  by (auto simp: owner_debt_def owes_owner_def split: if_splits)

lemma owner_debt_reachable:
  assumes "owes_owner ord" and "o_status ord = Order_PAID" and "reachable_owner (o_user_id ord) s"
  shows "owner_debt now ord s \<noteq> None"
  using assms by (auto simp: owner_debt_def owes_owner_def reachable_owner_def Let_def split: option.splits)

lemma referrer_not_anomaly: "referrer_debt now ord s \<noteq> Some Anomaly"
  by (auto simp: referrer_debt_def split: option.split json.split)

text \<open>A pass over one order while Telegram refuses everything.\<close>

definition failing_pass :: "instant \<Rightarrow> uuid \<Rightarrow> blocked_orders \<times> db \<Rightarrow> blocked_orders \<times> db" where
  "failing_pass now i p = snd (deliver_one now (\<lambda>_. Push_Failed) (\<lambda>_. Push_Failed) id i p)"

lemma drop_referrer_at:
  assumes "get_order s i = Some ord" and "drop_debts i False True (cache, s) = (c, t)"
  shows "get_order t i = Some (mark_referrer_notified ord) \<and> users t = users s"
  using assms get_order_id [OF assms(1)] by (auto simp: drop_debts_def Let_def)

lemma drop_owner_at:
  assumes "get_order s i = Some ord" and "drop_debts i True False (cache, s) = (c, t)"
  shows "get_order t i = Some (mark_notified ord) \<and> users t = users s"
  using assms get_order_id [OF assms(1)] by (auto simp: drop_debts_def Let_def)

lemma send_tried:
  assumes "get_order s i = Some ord" and "tried n uid ord"
    and "owner = None \<and> \<not> owes_owner ord \<or> (\<exists>x. owner = Some (Due x))"
  shows "order_at i (Suc n) uid (snd (snd (send_pushes (\<lambda>_. Push_Failed) (\<lambda>_. Push_Failed) id i owner ref (cache, s))))
    \<and> users (snd (snd (send_pushes (\<lambda>_. Push_Failed) (\<lambda>_. Push_Failed) id i owner ref (cache, s)))) = users s"
proof -
  define a where "a = (case owner of Some (Due x) \<Rightarrow> Some Push_Failed | _ \<Rightarrow> None)"
  define b where "b = (case ref of Some (Due x) \<Rightarrow> Some Push_Failed | _ \<Rightarrow> None)"
  have run: "send_pushes (\<lambda>_. Push_Failed) (\<lambda>_. Push_Failed) id i owner ref (cache, s) = finalize_delivery i a b (cache, s)"
    by (simp add: send_pushes_def a_def b_def)
  have "a = Some Push_Failed \<or> \<not> owes_owner ord \<and> a = None"
    using assms(3) by (auto simp: a_def)
  moreover have "b = Some Push_Failed \<or> b = None"
    by (auto simp: b_def split: option.split debt.split)
  ultimately show ?thesis
    unfolding run by (rule finalize_tried [OF assms(1,2) _ _ refl])
qed

lemma settled_tried:
  assumes "get_order s i = Some ord" and "tried n uid ord"
    and "owner = None \<and> \<not> owes_owner ord \<or> (\<exists>x. owner = Some (Due x))"
  shows "order_at i (Suc n) uid (snd (snd (owner_settled (\<lambda>_. Push_Failed) (\<lambda>_. Push_Failed) id i owner ref (cache, s))))
    \<and> users (snd (snd (owner_settled (\<lambda>_. Push_Failed) (\<lambda>_. Push_Failed) id i owner ref (cache, s)))) = users s"
proof (cases "ref = Some Dead")
  case False
  then show ?thesis
    using send_tried [OF assms] by (simp add: owner_settled_def)
next
  case True
  obtain c m where dropped: "drop_debts i False True (cache, s) = (c, m)"
    by fastforce
  have m: "get_order m i = Some (mark_referrer_notified ord)" "users m = users s"
    using drop_referrer_at [OF assms(1) dropped] by simp_all
  show ?thesis
  proof (cases "owner = None")
    case True
    then have "tried (Suc n) uid ord"
      using assms(2,3) tried_paid by auto
    then show ?thesis
      using True \<open>ref = Some Dead\<close> dropped m by (auto simp: owner_settled_def intro: order_atI)
  next
    case False
    then show ?thesis
      using \<open>ref = Some Dead\<close> dropped m(2) send_tried [OF m(1), of n uid owner None c] assms(2,3)
      by (auto simp: owner_settled_def)
  qed
qed

lemma failing_pass_tries:
  assumes "order_at i n uid s" and "reachable_owner uid s"
  shows "order_at i (Suc n) uid (snd (failing_pass now i (cache, s)))
    \<and> users (snd (failing_pass now i (cache, s))) = users s"
proof -
  obtain ord where ord: "get_order s i = Some ord" "tried n uid ord"
    using assms(1) by (auto simp: order_at_def)
  define owner where "owner = owner_debt now ord s"
  have uid: "o_user_id ord = uid" "o_status ord = Order_PAID"
    using ord(2) by (simp_all add: tried_def)
  have free: "tried (Suc n) uid ord" if "owner = None"
    using that owner_debt_reachable [of ord s now] uid assms(2) tried_paid [OF ord(2)] by (auto simp: owner_def)
  consider "owner = None" | "owner = Some Anomaly" | "owner = Some Dead" | x where "owner = Some (Due x)"
    by (metis debt.exhaust option.exhaust)
  then show ?thesis
  proof cases
    case 1
    then have "\<not> owes_owner ord"
      using owner_debt_reachable [of ord s now] uid assms(2) by (auto simp: owner_def)
    then show ?thesis
      using 1 free ord settled_tried [OF ord, of None]
      by (auto simp: failing_pass_def deliver_one_def Let_def simp flip: owner_def intro: order_atI)
  next
    case 2
    then have owes: "owes_owner ord"
      using owner_debt_owes [of now ord s] by (simp add: owner_def)
    have "order_at i (Suc n) uid (set_order (note_failed_owner ord) s)"
      by (intro order_at_set [OF ord(1)] tried_failed ord(2)) simp
    then show ?thesis
      using 2 owes ord(1)
      by (simp add: failing_pass_def deliver_one_def finalize_attempt_def owes_owner_def flip: owner_def)
  next
    case 3
    obtain c m where dropped: "drop_debts i True False (cache, s) = (c, m)"
      by fastforce
    have m: "get_order m i = Some (mark_notified ord)" "users m = users s"
      using drop_owner_at [OF ord(1) dropped] by simp_all
    have "tried k uid (mark_notified ord)" for k
      using ord(2) by (rule tried_notified)
    then show ?thesis
      using 3 ord(1) dropped m settled_tried [OF m(1), of n uid None]
      by (auto simp: failing_pass_def deliver_one_def Let_def simp flip: owner_def intro: order_atI)
  next
    case 4
    then show ?thesis
      using ord(1) settled_tried [OF ord, of owner]
      by (simp add: failing_pass_def deliver_one_def flip: owner_def)
  qed
qed

text \<open>C24. No message is attempted for ever: when every send fails, otherwise than by the answer that the
  owner has blocked the bot, which preserves the debt, and the owner is not known to have blocked it,
  ten passes over a paid order, at whatever times, end what it owes to its owner, whatever it owes to the inviter.\<close>

theorem owner_debt_given_up:
  assumes "get_order s i = Some ord" and "o_status ord = Order_PAID"
    and "0 \<le> attempts_of (o_metadata ord ''late_notify_attempts'')"
    and "case get_user s (o_user_id ord) of None \<Rightarrow> True | Some u \<Rightarrow> \<not> is_bot_blocked u"
    and "length nows = 10" and "fold (\<lambda>now. failing_pass now i) nows (cache, s) = (cache', t)"
  shows "\<exists>ord'. get_order t i = Some ord' \<and> o_status ord' = Order_PAID \<and> owner_debt now' ord' t = None"
proof -
  define uid where "uid = o_user_id ord"
  have start: "order_at i 0 uid s" "reachable_owner uid s"
    using assms(1-4) by (auto simp: order_at_def tried_def uid_def reachable_owner_def)
  have "order_at i (length ts) uid (snd (fold (\<lambda>now. failing_pass now i) ts (cache, s)))
      \<and> users (snd (fold (\<lambda>now. failing_pass now i) ts (cache, s))) = users s" for ts
  proof (induction ts rule: rev_induct)
    case (snoc now ts)
    obtain c m where m: "fold (\<lambda>now. failing_pass now i) ts (cache, s) = (c, m)"
      by fastforce
    have "order_at i (length ts) uid m" "reachable_owner uid m"
      using snoc start(2) by (simp_all add: m reachable_owner_def get_user_def)
    from failing_pass_tries [OF this, of now c] show ?case
      using snoc by (simp add: m)
  qed (simp add: start)
  from this [of nows] obtain ord' where ord': "get_order t i = Some ord'" "tried 10 uid ord'"
    using assms(5,6) by (auto simp: order_at_def)
  then have "\<not> owes_owner ord'"
    by (simp add: tried_def)
  then have "owner_debt now' ord' t = None"
    using owner_debt_owes by blast
  then show ?thesis
    using ord' by (auto simp: tried_def)
qed

subsection \<open>What was delivered\<close>

lemma finish_referrer_owes:
  "finish_referrer b (ord, s) = (x, ord', t) \<Longrightarrow> owes_owner ord' = owes_owner ord \<and> o_id ord' = o_id ord
     \<and> get_order t = get_order s"
  by (auto simp: finish_referrer_def split: if_split_asm option.split_asm push_result.split_asm)

lemma finalize_sent:
  assumes "get_order (snd (snd (finalize_delivery i (Some Push_Sent) b (c, s)))) i = Some ord'"
  shows "\<not> owes_owner ord'"
proof (cases "get_order s i")
  case None
  with assms show ?thesis
    by (simp add: finalize_delivery_def)
next
  case (Some ord)
  note id = get_order_id [OF Some]
  define ord1 where "ord1 = (if owes_owner ord then mark_notified ord else ord)"
  have own: "finish_owner (Some Push_Sent) (ord, s) = (owes_owner ord, ord1, s)"
    by (auto simp: finish_owner_def ord1_def owes_owner_def)
  obtain x ord2 s2 where ref: "finish_referrer b (ord1, s) = (x, ord2, s2)"
    by (metis prod_cases3)
  have "\<not> owes_owner ord2" "o_id ord2 = i" "get_order s2 i = Some ord"
    using finish_referrer_owes [OF ref] Some id by (simp_all add: ord1_def)
  moreover have "ord' = mark_referrer_notified (mark_notified ord) \<or> ord' = ord2"
    using assms Some id calculation by (auto simp: finalize_delivery_def own ref Let_def split: if_split_asm)
  ultimately show ?thesis
    by auto
qed

lemma owner_settled_sent:
  assumes "push_owner x = Push_Sent"
    and "owner_settled push_owner push_referrer meanwhile i (Some (Due x)) ref p = (sent, c, t)"
    and "get_order t i = Some ord'"
  shows "\<not> owes_owner ord'"
proof -
  have pushed: "\<not> owes_owner y"
    if "get_order (snd (snd (send_pushes push_owner push_referrer meanwhile i (Some (Due x)) r q))) i = Some y" for r q y
    using that assms(1) by (auto simp: send_pushes_def Let_def dest: finalize_sent)
  have "get_order (snd (snd (owner_settled push_owner push_referrer meanwhile i (Some (Due x)) ref p))) i = Some ord'"
    using assms(2,3) by simp
  then show ?thesis
    using pushed by (auto simp: owner_settled_def case_prod_beta split: if_split_asm)
qed

text \<open>C25. A message delivered to its owner is not owed any more, whatever others did to the order
  meanwhile and whatever became of the inviter's message: no later pass sends it again.\<close>

theorem delivered_not_owed:
  assumes "get_order s i = Some ord" and "owner_debt now ord s = Some (Due x)" and "push_owner x = Push_Sent"
    and "deliver_one now push_owner push_referrer meanwhile i (cache, s) = (sent, cache', t)"
    and "get_order t i = Some ord'"
  shows "owner_debt now' ord' t' = None"
proof -
  have "owner_settled push_owner push_referrer meanwhile i (Some (Due x)) (referrer_debt now ord s) (cache, s)
      = (sent, cache', t)"
    using assms(1,2,4) by (simp add: deliver_one_def)
  then have "\<not> owes_owner ord'"
    using owner_settled_sent [of push_owner x push_referrer meanwhile i "referrer_debt now ord s" "(cache, s)"]
      assms(3,5) by blast
  then show ?thesis
    using owner_debt_owes by blast
qed

subsection \<open>Concrete cases\<close>

definition owing_order :: order where
  "owing_order = (mark_notify_pending (sample_order ''vpn-1'' 1 STANDARD 300 Order_PAID))\<lparr>paid_at := Some 0\<rparr>"

definition owing_db :: db where
  "owing_db = sample_db\<lparr>orders := [owing_order]\<rparr>"

lemma owing_row:
  "get_order owing_db ''vpn-1'' = Some owing_order" "o_status owing_order = Order_PAID"
  "attempts_of (o_metadata owing_order ''late_notify_attempts'') = 0"
  "case get_user owing_db (o_user_id owing_order) of None \<Rightarrow> True | Some u \<Rightarrow> \<not> is_bot_blocked u"
  by (simp_all add: owing_db_def owing_order_def sample_db_def sample_order_def mark_notify_pending_def
      get_order_def get_user_def attempts_of_def sample_user_def)

lemma owing_due: "case owner_debt 5 owing_order owing_db of Some (Due x) \<Rightarrow> op_telegram_id x = 1001 | _ \<Rightarrow> False"
  by code_simp

abbreviation ten_passes :: "blocked_orders \<times> db" where
  "ten_passes \<equiv> fold (\<lambda>now. failing_pass now ''vpn-1'') [1, 2, 3, 4, 5, 6, 7, 8, 9, 10] ([], owing_db)"

theorem owner_debt_given_up_witness:
  "owner_debt 5 owing_order owing_db \<noteq> None
   \<and> (\<exists>x. get_order (snd ten_passes) ''vpn-1'' = Some x \<and> owner_debt 11 x (snd ten_passes) = None)"
proof -
  obtain c t where run: "ten_passes = (c, t)"
    by fastforce
  have "0 \<le> attempts_of (o_metadata owing_order ''late_notify_attempts'')"
    using owing_row(3) by simp
  from owner_debt_given_up [OF owing_row(1,2) this owing_row(4) _ run, of 11] owing_due show ?thesis
    by (simp only: run) (auto split: option.split_asm)
qed

theorem delivered_not_owed_witness:
  "list_all (\<lambda>x. owner_debt 6 x empty_db = None) (case get_order (snd (snd (deliver_one 5 (\<lambda>_. Push_Sent)
     (\<lambda>_. Push_Failed) id ''vpn-1'' ([], owing_db)))) ''vpn-1'' of None \<Rightarrow> [] | Some x \<Rightarrow> [x])"
proof -
  obtain y where due: "owner_debt 5 owing_order owing_db = Some (Due y)"
    using owing_due by (auto split: option.split_asm debt.split_asm)
  obtain sent c t where run: "deliver_one 5 (\<lambda>_. Push_Sent) (\<lambda>_. Push_Failed) id ''vpn-1'' ([], owing_db) = (sent, c, t)"
    by (metis prod_cases3)
  have "owner_debt 6 x empty_db = None" if "get_order t ''vpn-1'' = Some x" for x
    by (rule delivered_not_owed [OF owing_row(1) due refl run that])
  then show ?thesis
    by (simp add: run split: option.split)
qed

end
