(* ===== verification/Expiry_Notices.thy ===== *)
theory Expiry_Notices
  imports Datetime_Helpers
begin

section \<open>services/workers/notifications.py\<close>

text \<open>
  The worker that tells users that a subscription is about to end or has ended: the VPN subscription
  before and after its end, and the White Internet subscription.  What Telegram answers is an
  argument; a pass returns the messages it delivered, in order.  A row locked by another transaction, which
  the code skips, the expiry of the cache, the texts, the log and the loop are not modelled.
\<close>

definition GRACE_PERIOD_HOURS :: int where "GRACE_PERIOD_HOURS = 24"
definition NOTIFICATION_INTERVAL :: int where "NOTIFICATION_INTERVAL = 1800"
definition MAX_RETRY_COUNT :: int where "MAX_RETRY_COUNT = 4"

datatype notice = Notice_3d | Notice_1d | Notice_2h | Notice_Expired | Notice_Grace_12h

datatype notice_result = Notice_Sent | Notice_Forbidden | Notice_Failed

text \<open>A message, to a user about the VPN or about a White Internet subscription.\<close>

datatype message = About_Vpn int notice | About_White_Internet int notice

type_synonym notice_cache = "int \<rightharpoonup> notice"

subsection \<open>Retries\<close>

definition get_backoff_delay :: "int \<Rightarrow> int" where
  "get_backoff_delay retry_count = NOTIFICATION_INTERVAL * 2 ^ nat (min retry_count MAX_RETRY_COUNT)"

datatype countdown = Soon | Days_Hours int int | Hours_Minutes int int

definition format_countdown :: "int \<Rightarrow> countdown" where
  "format_countdown delta =
     (let seconds = delta mod usec_per_day div 1000000; hours = seconds div 3600 in
      if delta \<le> 0 then Soon
      else if 0 < delta div usec_per_day then Days_Hours (delta div usec_per_day) hours
      else Hours_Minutes hours (seconds mod 3600 div 60))"

definition infer_last_notification_type :: "user \<Rightarrow> notice option" where
  "infer_last_notification_type u =
     (if u_notified_grace_12h u then Some Notice_Grace_12h
      else if u_notified_expired u then Some Notice_Expired
      else if u_notified_2h u then Some Notice_2h
      else if u_notified_1d u then Some Notice_1d
      else if u_notified_3d u then Some Notice_3d
      else None)"

definition maybe_reset_retry_on_type_change :: "notice \<Rightarrow> user \<times> notice_cache \<Rightarrow> user \<times> notice_cache" where
  "maybe_reset_retry_on_type_change ty p =
     (let (u, cache) = p;
          before = (case cache (u_id u) of None \<Rightarrow> infer_last_notification_type u | Some t \<Rightarrow> Some t) in
      (if before \<noteq> None \<and> before \<noteq> Some ty
       then u\<lparr>notification_retry_count := 0, last_notification_attempt := None\<rparr> else u,
       cache(u_id u \<mapsto> ty)))"

datatype retry_gate = Start_Over | Wait | Go_On

definition retry_gate_of :: "user \<Rightarrow> instant \<Rightarrow> retry_gate" where
  "retry_gate_of u now =
     (if MAX_RETRY_COUNT \<le> notification_retry_count u then Start_Over
      else if 0 < notification_retry_count u
           \<and> (case last_notification_attempt u of None \<Rightarrow> False
              | Some t \<Rightarrow> now - t < get_backoff_delay (notification_retry_count u - 1) * 1000000)
      then Wait else Go_On)"

subsection \<open>Which message is due\<close>

definition reachable :: "user \<Rightarrow> bool" where
  "reachable u \<longleftrightarrow> \<not> is_banned u \<and> \<not> is_bot_blocked u \<and> \<not> is_deleted u"

definition ends_at :: "user \<Rightarrow> instant" where
  "ends_at u = (case subscription_end u of None \<Rightarrow> 0 | Some t \<Rightarrow> t)"

definition pre_window :: "instant \<Rightarrow> user \<Rightarrow> bool" where
  "pre_window now u \<longleftrightarrow>
     reachable u
     \<and> (case subscription_end u of None \<Rightarrow> False | Some t \<Rightarrow> now < t \<and> t \<le> now + days_us 3)"

definition pre_notice :: "instant \<Rightarrow> user \<Rightarrow> notice option" where
  "pre_notice now u =
     (let left = ends_at u - now in
      if left \<le> hours_us 2 \<and> \<not> u_notified_2h u then Some Notice_2h
      else if left \<le> days_us 1 \<and> \<not> u_notified_1d u then Some Notice_1d
      else if left \<le> days_us 3 \<and> \<not> u_notified_3d u then Some Notice_3d
      else None)"

definition post_window :: "instant \<Rightarrow> user \<Rightarrow> bool" where
  "post_window now u \<longleftrightarrow>
     reachable u
     \<and> (case subscription_end u of None \<Rightarrow> False
        | Some t \<Rightarrow> t < now \<and> now < t + hours_us GRACE_PERIOD_HOURS)"

definition post_notice :: "instant \<Rightarrow> user \<Rightarrow> notice option" where
  "post_notice now u =
     (let deletion_time = ends_at u + hours_us GRACE_PERIOD_HOURS in
      if \<not> u_notified_grace_12h u \<and> deletion_time - hours_us 12 \<le> now then Some Notice_Grace_12h
      else if \<not> u_notified_expired u then Some Notice_Expired
      else None)"

text \<open>A message sets its own flag and those of the messages it supersedes.\<close>

primrec mark_noticed :: "notice \<Rightarrow> user \<Rightarrow> user" where
  "mark_noticed Notice_3d u = u\<lparr>u_notified_3d := True\<rparr>"
| "mark_noticed Notice_1d u = u\<lparr>u_notified_1d := True, u_notified_3d := True\<rparr>"
| "mark_noticed Notice_2h u = u\<lparr>u_notified_2h := True, u_notified_1d := True, u_notified_3d := True\<rparr>"
| "mark_noticed Notice_Expired u = u\<lparr>u_notified_expired := True\<rparr>"
| "mark_noticed Notice_Grace_12h u = u\<lparr>u_notified_grace_12h := True, u_notified_expired := True\<rparr>"

subsection \<open>One user\<close>

definition after_send :: "notice_result \<Rightarrow> notice \<Rightarrow> instant \<Rightarrow> user \<Rightarrow> user" where
  "after_send result ty now u =
     (case result of
        Notice_Sent \<Rightarrow> mark_noticed ty (u\<lparr>notification_retry_count := 0, last_notification_attempt := Some now\<rparr>)
      | Notice_Forbidden \<Rightarrow> u\<lparr>is_bot_blocked := True\<rparr>
      | Notice_Failed \<Rightarrow> u\<lparr>notification_retry_count := notification_retry_count u + 1,
                             last_notification_attempt := Some now\<rparr>)"

definition notify_user ::
  "(message \<Rightarrow> notice_result) \<Rightarrow> (instant \<Rightarrow> user \<Rightarrow> bool) \<Rightarrow> (instant \<Rightarrow> user \<Rightarrow> notice option) \<Rightarrow> instant
   \<Rightarrow> int \<Rightarrow> notice_cache \<times> db \<Rightarrow> message list \<times> notice_cache \<times> db" where
  "notify_user send window due now uid p =
     (let (cache, s) = p in
      case get_user s uid of
        None \<Rightarrow> ([], cache, s)
      | Some u \<Rightarrow>
          if \<not> window now u then ([], cache, s)
          else (case retry_gate_of u now of
              Start_Over \<Rightarrow>
                ([], cache, set_user (u\<lparr>notification_retry_count := 0, last_notification_attempt := None\<rparr>) s)
            | Wait \<Rightarrow> ([], cache, s)
            | Go_On \<Rightarrow>
                (case due now u of
                   None \<Rightarrow> ([], cache, s)
                 | Some ty \<Rightarrow>
                     let (u, cache) = maybe_reset_retry_on_type_change ty (u, cache);
                         result = send (About_Vpn uid ty) in
                     (if result = Notice_Sent then [About_Vpn uid ty] else [],
                      cache, set_user (after_send result ty now u) s))))"

text \<open>A pass takes the 500 subscriptions that end first; each has a transaction of its own.\<close>

definition in_turn ::
  "(int \<Rightarrow> 'c \<times> db \<Rightarrow> message list \<times> 'c \<times> db) \<Rightarrow> int list \<Rightarrow> 'c \<times> db \<Rightarrow> message list \<times> 'c \<times> db" where
  "in_turn f ids p = fold (\<lambda>i (sent, q). let (more_sent, q) = f i q in (sent @ more_sent, q)) ids ([], p)"

definition pre_candidates :: "instant \<Rightarrow> db \<Rightarrow> int list" where
  "pre_candidates now s =
     map u_id (take 500 (sort_key ends_at
       (filter (\<lambda>u. pre_window now u \<and> \<not> (u_notified_3d u \<and> u_notified_1d u \<and> u_notified_2h u)) (users s))))"

definition send_pre_expiry_notifications ::
  "(message \<Rightarrow> notice_result) \<Rightarrow> instant \<Rightarrow> notice_cache \<times> db \<Rightarrow> message list \<times> notice_cache \<times> db" where
  "send_pre_expiry_notifications send now p =
     in_turn (notify_user send pre_window pre_notice now) (pre_candidates now (snd p)) p"

definition post_candidates :: "instant \<Rightarrow> db \<Rightarrow> int list" where
  "post_candidates now s =
     map u_id (take 500 (sort_key ends_at
       (filter (\<lambda>u. post_window now u \<and> \<not> (u_notified_expired u \<and> u_notified_grace_12h u)) (users s))))"

definition send_post_expiry_notifications ::
  "(message \<Rightarrow> notice_result) \<Rightarrow> instant \<Rightarrow> notice_cache \<times> db \<Rightarrow> message list \<times> notice_cache \<times> db" where
  "send_post_expiry_notifications send now p =
     in_turn (notify_user send post_window post_notice now) (post_candidates now (snd p)) p"

subsection \<open>White Internet\<close>

definition told_of :: "wi_sub \<Rightarrow> bool" where
  "told_of w \<longleftrightarrow> w_status w = WI_ACTIVE \<or> w_status w = WI_EXHAUSTED \<or> w_status w = WI_EXPIRED"

definition all_noticed :: "wi_sub \<Rightarrow> bool" where
  "all_noticed w \<longleftrightarrow> notified_3d w \<and> notified_1d w \<and> notified_2h w \<and> notified_expired w"

definition mark_all_noticed :: "wi_sub \<Rightarrow> wi_sub" where
  "mark_all_noticed w =
     w\<lparr>notified_3d := True, notified_1d := True, notified_2h := True, notified_expired := True\<rparr>"

definition wi_window :: "instant \<Rightarrow> wi_sub \<Rightarrow> bool" where
  "wi_window now w \<longleftrightarrow> told_of w \<and> now - days_us 14 \<le> expires_at w \<and> expires_at w \<le> now + days_us 3"

definition sweep_stale_wi :: "instant \<Rightarrow> db \<Rightarrow> db" where
  "sweep_stale_wi now s =
     s\<lparr>wi_subs := update_rows (\<lambda>w. told_of w \<and> expires_at w < now - days_us 14 \<and> \<not> all_noticed w)
          mark_all_noticed (wi_subs s)\<rparr>"

definition wi_candidates :: "instant \<Rightarrow> db \<Rightarrow> int list" where
  "wi_candidates now s =
     map w_id (take 500 (sort_key expires_at
       (filter (\<lambda>w. wi_window now w \<and> \<not> all_noticed w
          \<and> (case get_user s (w_user_id w) of None \<Rightarrow> False | Some u \<Rightarrow> reachable u)) (wi_subs s))))"

definition wi_notice :: "int \<Rightarrow> wi_sub \<Rightarrow> notice option" where
  "wi_notice left w =
     (if left \<le> 0 then (if notified_expired w then None else Some Notice_Expired)
      else if left \<le> hours_us 2 then (if notified_2h w then None else Some Notice_2h)
      else if left \<le> days_us 1 then (if notified_1d w then None else Some Notice_1d)
      else if left \<le> days_us 3 \<and> \<not> is_trial w then (if notified_3d w then None else Some Notice_3d)
      else None)"

primrec mark_wi_noticed :: "notice \<Rightarrow> wi_sub \<Rightarrow> wi_sub" where
  "mark_wi_noticed Notice_3d w = w\<lparr>notified_3d := True\<rparr>"
| "mark_wi_noticed Notice_1d w = w\<lparr>notified_1d := True, notified_3d := True\<rparr>"
| "mark_wi_noticed Notice_2h w = w\<lparr>notified_2h := True, notified_1d := True, notified_3d := True\<rparr>"
| "mark_wi_noticed Notice_Expired w = mark_all_noticed w"
| "mark_wi_noticed Notice_Grace_12h w = w"

text \<open>A trial lasts three days, so its first day needs no message.\<close>

definition without_3d_of_trial :: "wi_sub \<Rightarrow> wi_sub" where
  "without_3d_of_trial w = (if is_trial w \<and> \<not> notified_3d w then w\<lparr>notified_3d := True\<rparr> else w)"

definition tell_wi ::
  "(message \<Rightarrow> notice_result) \<Rightarrow> instant \<Rightarrow> user \<Rightarrow> wi_sub \<Rightarrow> db \<Rightarrow> message list \<times> db" where
  "tell_wi send now u w s =
     (let left = expires_at w - now in
      case wi_notice left w of
        None \<Rightarrow> ([], if left \<le> 0 then set_wi_sub (mark_all_noticed w) s else s)
      | Some ty \<Rightarrow>
          (case send (About_White_Internet (w_id w) ty) of
             Notice_Sent \<Rightarrow> ([About_White_Internet (w_id w) ty], set_wi_sub (mark_wi_noticed ty w) s)
           | Notice_Forbidden \<Rightarrow> ([], set_user (u\<lparr>is_bot_blocked := True\<rparr>) s)
           | Notice_Failed \<Rightarrow> ([], s)))"

definition notify_wi ::
  "(message \<Rightarrow> notice_result) \<Rightarrow> instant \<Rightarrow> int \<Rightarrow> notice_cache \<times> db \<Rightarrow> message list \<times> notice_cache \<times> db" where
  "notify_wi send now sid p =
     (let (cache, s) = p in
      case find (\<lambda>w. w_id w = sid) (wi_subs s) of
        None \<Rightarrow> ([], cache, s)
      | Some w \<Rightarrow>
          if \<not> wi_window now w then ([], cache, s)
          else (case get_user s (w_user_id w) of
              None \<Rightarrow> ([], cache, s)
            | Some u \<Rightarrow>
                if \<not> reachable u then ([], cache, s)
                else
                  let w = without_3d_of_trial w; (ms, s) = tell_wi send now u w (set_wi_sub w s) in
                  (ms, cache, s)))"

definition send_white_internet_notifications ::
  "(message \<Rightarrow> notice_result) \<Rightarrow> instant \<Rightarrow> notice_cache \<times> db \<Rightarrow> message list \<times> notice_cache \<times> db" where
  "send_white_internet_notifications send now p =
     (let (cache, s) = p; s = sweep_stale_wi now s in
      in_turn (notify_wi send now) (wi_candidates now s) (cache, s))"

subsection \<open>One cycle\<close>

definition notification_cycle ::
  "(message \<Rightarrow> notice_result) \<Rightarrow> instant \<Rightarrow> notice_cache \<times> db \<Rightarrow> message list \<times> notice_cache \<times> db" where
  "notification_cycle send now p =
     (let (a, p) = send_pre_expiry_notifications send now p;
          (b, p) = send_post_expiry_notifications send now p;
          (c, p) = send_white_internet_notifications send now p in
      (a @ b @ c, p))"

text \<open>The cycles of the worker, one after the other: when each runs and what Telegram answers it.\<close>

fun notification_cycles ::
  "(instant \<times> (message \<Rightarrow> notice_result)) list \<Rightarrow> notice_cache \<times> db \<Rightarrow> message list \<times> notice_cache \<times> db" where
  "notification_cycles [] p = ([], p)"
| "notification_cycles ((now, send) # cs) p =
     (let (a, p) = notification_cycle send now p; (b, p) = notification_cycles cs p in (a @ b, p))"

end
