(* ===== verification/Notice_Theorems.thy ===== *)
theory Notice_Theorems
  imports Expiry_Notices Samples
begin

section \<open>Properties of the notices about the end of a subscription\<close>

text \<open>
  A message sets its flag when it is delivered, flags are never withdrawn by the worker, and what is
  flagged is not due: so a message is delivered at most once.
\<close>

subsection \<open>What has been told\<close>

primrec user_noticed :: "notice \<Rightarrow> user \<Rightarrow> bool" where
  "user_noticed Notice_3d u = u_notified_3d u"
| "user_noticed Notice_1d u = u_notified_1d u"
| "user_noticed Notice_2h u = u_notified_2h u"
| "user_noticed Notice_Expired u = u_notified_expired u"
| "user_noticed Notice_Grace_12h u = u_notified_grace_12h u"

primrec wi_noticed :: "notice \<Rightarrow> wi_sub \<Rightarrow> bool" where
  "wi_noticed Notice_3d w = notified_3d w"
| "wi_noticed Notice_1d w = notified_1d w"
| "wi_noticed Notice_2h w = notified_2h w"
| "wi_noticed Notice_Expired w = notified_expired w"
| "wi_noticed Notice_Grace_12h w = False"

definition get_wi :: "db \<Rightarrow> int \<Rightarrow> wi_sub option" where
  "get_wi s i = find (\<lambda>w. w_id w = i) (wi_subs s)"

primrec noticed :: "db \<Rightarrow> message \<Rightarrow> bool" where
  "noticed s (About_Vpn i ty) = (case get_user s i of None \<Rightarrow> False | Some u \<Rightarrow> user_noticed ty u)"
| "noticed s (About_White_Internet i ty) = (case get_wi s i of None \<Rightarrow> False | Some w \<Rightarrow> wi_noticed ty w)"

text \<open>A step delivers new messages only, notes them, and forgets nothing.\<close>

definition tells :: "db \<Rightarrow> message list \<Rightarrow> db \<Rightarrow> bool" where
  "tells s ms t \<longleftrightarrow>
     distinct ms \<and> (\<forall>m\<in>set ms. \<not> noticed s m \<and> noticed t m) \<and> (\<forall>m. noticed s m \<longrightarrow> noticed t m)"

lemma tells_nothing: "tells s [] s"
  by (simp add: tells_def)

lemma tells_append: "tells s ms t \<Longrightarrow> tells t ns u \<Longrightarrow> tells s (ms @ ns) u"
  by (auto simp: tells_def)

subsection \<open>One message\<close>

lemma get_wi_set_wi_sub:
  "get_wi (set_wi_sub w s) i = (if i = w_id w then map_option (\<lambda>_. w) (get_wi s i) else get_wi s i)"
proof (cases "i = w_id w")
  case True
  have "find (\<lambda>v. w_id v = w_id w) (update_rows (\<lambda>v. w_id v = w_id w) (\<lambda>_. w) xs) =
      map_option (\<lambda>_. w) (find (\<lambda>v. w_id v = w_id w) xs)" for xs
    by (induction xs) auto
  then show ?thesis
    using True by (simp add: get_wi_def set_wi_sub_def)
next
  case False
  then show ?thesis
    by (auto simp: get_wi_def set_wi_sub_def intro!: find_update_rows_other)
qed

lemma get_wi_set_user [simp]: "get_wi (set_user u s) i = get_wi s i"
  by (simp add: get_wi_def set_user_def)

lemma get_user_set_wi [simp]: "get_user (set_wi_sub w s) i = get_user s i"
  by (simp add: get_user_def set_wi_sub_def)

lemma tells_user:
  assumes "get_user s uid = Some u" and "u_id u' = u_id u" and "\<And>k. user_noticed k u \<Longrightarrow> user_noticed k u'"
    and "ms = [] \<or> (\<exists>ty. ms = [About_Vpn uid ty] \<and> \<not> user_noticed ty u \<and> user_noticed ty u')"
  shows "tells s ms (set_user u' s)"
proof -
  have "noticed (set_user u' s) m" if "noticed s m" for m
    using that assms(1-3) get_user_id [OF assms(1)] by (cases m) auto
  then show ?thesis
    using assms(1,2,4) get_user_id [OF assms(1)] by (auto simp: tells_def)
qed

lemma tells_wi:
  assumes "get_wi s sid = Some w" and "w_id w' = sid" and "\<And>k. wi_noticed k w \<Longrightarrow> wi_noticed k w'"
    and "ms = [] \<or> (\<exists>ty. ms = [About_White_Internet sid ty] \<and> \<not> wi_noticed ty w \<and> wi_noticed ty w')"
  shows "tells s ms (set_wi_sub w' s)"
proof -
  have "noticed (set_wi_sub w' s) m" if "noticed s m" for m
    using that assms(1-3) by (cases m) (auto simp: get_wi_set_wi_sub)
  then show ?thesis
    using assms(1,2,4) by (auto simp: tells_def get_wi_set_wi_sub)
qed

lemma pre_notice_new: "pre_notice now u = Some ty \<Longrightarrow> \<not> user_noticed ty u"
  by (auto simp: pre_notice_def Let_def split: if_split_asm)

lemma post_notice_new: "post_notice now u = Some ty \<Longrightarrow> \<not> user_noticed ty u"
  by (auto simp: post_notice_def Let_def split: if_split_asm)

lemma wi_notice_new: "wi_notice left w = Some ty \<Longrightarrow> \<not> wi_noticed ty w \<and> ty \<noteq> Notice_Grace_12h"
  by (auto simp: wi_notice_def split: if_split_asm)

lemma user_noticed_retry [simp]:
  "user_noticed k (u\<lparr>notification_retry_count := n, last_notification_attempt := t\<rparr>) = user_noticed k u"
  "user_noticed k (u\<lparr>is_bot_blocked := b\<rparr>) = user_noticed k u"
  by (cases k; simp)+

lemma mark_noticed_notes:
  "u_id (mark_noticed ty u) = u_id u" "user_noticed ty (mark_noticed ty u)"
  "user_noticed k u \<Longrightarrow> user_noticed k (mark_noticed ty u)"
  by (cases ty; cases k; simp)+

lemma mark_wi_noticed_notes:
  "w_id (mark_wi_noticed ty w) = w_id w" "ty \<noteq> Notice_Grace_12h \<Longrightarrow> wi_noticed ty (mark_wi_noticed ty w)"
  "wi_noticed k w \<Longrightarrow> wi_noticed k (mark_wi_noticed ty w)"
  by (cases ty; cases k; simp add: mark_all_noticed_def)+

lemma mark_all_noticed_notes:
  "w_id (mark_all_noticed w) = w_id w" "wi_noticed k w \<Longrightarrow> wi_noticed k (mark_all_noticed w)"
  by (cases k; simp add: mark_all_noticed_def)+

lemma reset_retry_same:
  "maybe_reset_retry_on_type_change ty (u, cache) = (u', cache')
    \<Longrightarrow> u_id u' = u_id u \<and> user_noticed k u' = user_noticed k u"
  by (auto simp: maybe_reset_retry_on_type_change_def Let_def split: if_split_asm)

lemma after_send_notes:
  "u_id (after_send r ty now u) = u_id u" "user_noticed k u \<Longrightarrow> user_noticed k (after_send r ty now u)"
  "user_noticed ty (after_send Notice_Sent ty now u)"
  by (auto simp: after_send_def mark_noticed_notes split: notice_result.split)

lemma notify_user_tells:
  assumes "\<And>u ty. due now u = Some ty \<Longrightarrow> \<not> user_noticed ty u"
    and "notify_user send window due now uid (cache, s) = (ms, cache', t)"
  shows "tells s ms t"
proof (cases "get_user s uid")
  case None
  then show ?thesis
    using assms(2) by (simp add: notify_user_def tells_nothing)
next
  case (Some u)
  show ?thesis
  proof (cases "window now u \<and> retry_gate_of u now = Go_On \<and> due now u \<noteq> None")
    case False
    then show ?thesis
      using assms(2) Some tells_user [OF Some, of "u\<lparr>notification_retry_count := 0, last_notification_attempt := None\<rparr>"]
      by (auto simp: notify_user_def tells_nothing split: if_split_asm retry_gate.split_asm)
  next
    case True
    then obtain ty where ty: "due now u = Some ty"
      by auto
    obtain v c where v: "maybe_reset_retry_on_type_change ty (u, cache) = (v, c)"
      by fastforce
    note same = reset_retry_same [OF v]
    have run: "ms = (if send (About_Vpn uid ty) = Notice_Sent then [About_Vpn uid ty] else [])"
      "t = set_user (after_send (send (About_Vpn uid ty)) ty now v) s"
      using assms(2) Some True ty v by (simp_all add: notify_user_def Let_def)
    show ?thesis
      unfolding run using same assms(1) [OF ty] after_send_notes by (intro tells_user [OF Some]) (auto simp: same)
  qed
qed

lemma tell_wi_tells:
  assumes "get_wi s (w_id w) = Some w" and "get_user s (u_id u) = Some u" and "tell_wi send now u w s = (ms, t)"
  shows "tells s ms t"
proof (cases "wi_notice (expires_at w - now) w")
  case None
  have "tells s [] (set_wi_sub (mark_all_noticed w) s)"
    by (rule tells_wi [OF assms(1)]) (simp_all add: mark_all_noticed_notes)
  then show ?thesis
    using assms(3) None tells_nothing by (auto simp: tell_wi_def Let_def)
next
  case (Some ty)
  have "tells s [] (set_user (u\<lparr>is_bot_blocked := True\<rparr>) s)"
    by (rule tells_user [OF assms(2)]) simp_all
  moreover have "tells s [About_White_Internet (w_id w) ty] (set_wi_sub (mark_wi_noticed ty w) s)"
    using wi_notice_new [OF Some] mark_wi_noticed_notes by (intro tells_wi [OF assms(1)]) auto
  ultimately show ?thesis
    using assms(3) Some tells_nothing by (auto simp: tell_wi_def split: notice_result.split_asm)
qed

lemma without_3d_notes:
  "w_id (without_3d_of_trial w) = w_id w" "wi_noticed k w \<Longrightarrow> wi_noticed k (without_3d_of_trial w)"
  by (cases k; simp add: without_3d_of_trial_def)+

lemma notify_wi_tells:
  assumes "notify_wi send now sid (cache, s) = (ms, cache', t)"
  shows "tells s ms t"
proof (cases "get_wi s sid")
  case None
  then show ?thesis
    using assms by (simp add: notify_wi_def get_wi_def tells_nothing)
next
  case (Some w)
  show ?thesis
  proof (cases "wi_window now w \<and> (\<exists>u. get_user s (w_user_id w) = Some u \<and> reachable u)")
    case False
    then show ?thesis
      using assms Some by (auto simp: notify_wi_def get_wi_def tells_nothing split: if_split_asm option.split_asm)
  next
    case True
    then obtain u where u: "get_user s (w_user_id w) = Some u" "reachable u"
      by auto
    define v where "v = without_3d_of_trial w"
    have id: "w_id w = sid"
      using Some by (auto simp: get_wi_def dest: find_SomeD)
    have first: "tells s [] (set_wi_sub v s)"
      by (rule tells_wi [OF Some]) (simp_all add: v_def without_3d_notes id)
    have "get_wi (set_wi_sub v s) (w_id v) = Some v"
      using Some id by (simp add: get_wi_set_wi_sub v_def without_3d_notes)
    moreover have "get_user (set_wi_sub v s) (u_id u) = Some u"
      using u get_user_id [OF u(1)] by simp
    moreover have "tell_wi send now u v (set_wi_sub v s) = (ms, t)"
      using assms Some True u by (simp add: notify_wi_def get_wi_def v_def Let_def case_prod_beta prod_eq_iff)
    ultimately have "tells (set_wi_sub v s) ms t"
      by (rule tell_wi_tells)
    then show ?thesis
      using tells_append [OF first] by fastforce
  qed
qed

lemma in_turn_tells:
  assumes "\<And>i c s ms c' t. f i (c, s) = (ms, c', t) \<Longrightarrow> tells s ms t"
    and "in_turn f ids (cache, s) = (ms, cache', t)"
  shows "tells s ms t"
proof -
  let ?g = "\<lambda>i (sent, q). let (more_sent, q) = f i q in (sent @ more_sent, q)"
  have "tells s (fst r) (snd (snd r)) \<Longrightarrow> tells s (fst (fold ?g ids r)) (snd (snd (fold ?g ids r)))" for r
  proof (induction ids arbitrary: r)
    case (Cons i ids)
    obtain a c u where r: "r = (a, c, u)"
      by (metis prod_cases3)
    obtain b c' v where step: "f i (c, u) = (b, c', v)"
      by (metis prod_cases3)
    have "tells s (a @ b) v"
      using Cons.prems tells_append assms(1) [OF step] by (simp add: r)
    then show ?case
      using Cons.IH [of "(a @ b, c', v)"] by (simp add: r step)
  qed simp
  from this [of "([], cache, s)"] show ?thesis
    using assms(2) by (simp add: in_turn_def tells_nothing)
qed

lemma get_wi_sweep: "get_wi (sweep_stale_wi now s) i =
    map_option (\<lambda>w. if told_of w \<and> expires_at w < now - days_us 14 \<and> \<not> all_noticed w then mark_all_noticed w else w) (get_wi s i)"
  by (simp add: get_wi_def sweep_stale_wi_def find_update_rows mark_all_noticed_notes)

lemma sweep_tells: "tells s [] (sweep_stale_wi now s)"
proof -
  have users: "get_user (sweep_stale_wi now s) i = get_user s i" for i
    by (simp add: get_user_def sweep_stale_wi_def)
  have "noticed (sweep_stale_wi now s) m" if "noticed s m" for m
    using that mark_all_noticed_notes(2)
    by (cases m) (auto simp: users get_wi_sweep split: option.split_asm)
  then show ?thesis
    by (simp add: tells_def)
qed

lemma cycle_tells:
  assumes "notification_cycle send now (cache, s) = (ms, cache', t)"
  shows "tells s ms t"
proof -
  obtain a c1 s1 where pre: "send_pre_expiry_notifications send now (cache, s) = (a, c1, s1)"
    by (metis prod_cases3)
  obtain b c2 s2 where post: "send_post_expiry_notifications send now (c1, s1) = (b, c2, s2)"
    by (metis prod_cases3)
  obtain c c3 s3 where wi: "send_white_internet_notifications send now (c2, s2) = (c, c3, s3)"
    by (metis prod_cases3)
  have "tells s a s1"
    using pre unfolding send_pre_expiry_notifications_def
    by (rule in_turn_tells [rotated]) (rule notify_user_tells, rule pre_notice_new)
  moreover have "tells s1 b s2"
    using post unfolding send_post_expiry_notifications_def
    by (rule in_turn_tells [rotated]) (rule notify_user_tells, rule post_notice_new)
  moreover have "tells s2 c s3"
  proof -
    have "in_turn (notify_wi send now) (wi_candidates now (sweep_stale_wi now s2)) (c2, sweep_stale_wi now s2) = (c, c3, s3)"
      using wi by (simp add: send_white_internet_notifications_def Let_def)
    then have "tells (sweep_stale_wi now s2) c s3"
      by (rule in_turn_tells [rotated]) (rule notify_wi_tells)
    then show ?thesis
      using tells_append [OF sweep_tells] by fastforce
  qed
  ultimately have "tells s (a @ b @ c) s3"
    by (intro tells_append)
  moreover have "ms = a @ b @ c" "t = s3"
    using assms by (simp_all add: notification_cycle_def pre post wi)
  ultimately show ?thesis
    by simp
qed

lemma cycles_tell: "notification_cycles cs (cache, s) = (ms, cache', t) \<Longrightarrow> tells s ms t"
proof (induction cs arbitrary: cache s ms)
  case Nil
  then show ?case
    by (simp add: tells_nothing)
next
  case (Cons c cs)
  obtain now send where c: "c = (now, send)"
    by fastforce
  obtain a c1 s1 where one: "notification_cycle send now (cache, s) = (a, c1, s1)"
    by (metis prod_cases3)
  obtain b c2 s2 where rest: "notification_cycles cs (c1, s1) = (b, c2, s2)"
    by (metis prod_cases3)
  have "ms = a @ b" "s2 = t" "c2 = cache'"
    using Cons.prems by (simp_all add: c one rest)
  then show ?case
    using tells_append [OF cycle_tells [OF one] Cons.IH] rest by simp
qed

text \<open>C16. No user is told the same thing twice: however many cycles run, whenever they run and whatever
  Telegram answers, each message about a subscription that is not changed meanwhile is delivered at most
  once, and a message delivered before is never delivered again.\<close>

theorem each_notice_once:
  assumes "notification_cycles cs (cache, s) = (ms, cache1, t)"
    and "notification_cycles cs' (cache2, t) = (ns, cache3, u)"
  shows "distinct ms \<and> set ms \<inter> set ns = {}"
  using cycles_tell [OF assms(1)] cycles_tell [OF assms(2)] by (auto simp: tells_def)

subsection \<open>A concrete case\<close>

text \<open>User 1, whose subscription ends in an hour; Telegram accepts everything.\<close>

definition ending_db :: db where
  "ending_db = sample_db\<lparr>users := [(sample_user 1 None)\<lparr>subscription_end := Some (hours_us 1)\<rparr>]\<rparr>"

lemma ending_told:
  "fst (notification_cycles [(0, \<lambda>_. Notice_Sent)] (Map.empty, ending_db)) = [About_Vpn 1 Notice_2h]"
  by code_simp

theorem each_notice_once_witness:
  "About_Vpn 1 Notice_2h \<notin> set (fst (notification_cycles [(hours_us 1 div 2, \<lambda>_. Notice_Sent)]
     (snd (notification_cycles [(0, \<lambda>_. Notice_Sent)] (Map.empty, ending_db)))))"
proof -
  obtain ms c t where one: "notification_cycles [(0, \<lambda>_. Notice_Sent)] (Map.empty, ending_db) = (ms, c, t)"
    by (metis prod_cases3)
  obtain ns d u where two: "notification_cycles [(hours_us 1 div 2, \<lambda>_. Notice_Sent)] (c, t) = (ns, d, u)"
    by (metis prod_cases3)
  show ?thesis
    using each_notice_once [OF one two] ending_told unfolding one two fst_conv snd_conv by auto
qed

end
