(* ===== verification/Invariant_Audit.thy ===== *)
theory Invariant_Audit
  imports Servers
begin

section \<open>scripts/audit\_invariants.py\<close>

text \<open>
  The scanner an operator runs over the database: thirteen checks, each a query for the rows that
  violate it.  The names and the details of the results, which are texts, are left out; the heads of the
  migration graph, which Alembic computes, are an argument.
\<close>

record check_result =
  check_number :: int
  check_passed :: bool

definition check_rows :: "int \<Rightarrow> 'a list \<Rightarrow> check_result" where
  "check_rows n violations = \<lparr>check_number = n, check_passed = (violations = [])\<rparr>"

definition assert_inv_1_tariffs :: "db \<Rightarrow> check_result" where
  "assert_inv_1_tariffs s =
     check_rows 1 (filter (\<lambda>t. \<not> List.member [STANDARD, WHITE_INTERNET, AWG] (t_service_type t)
        \<or> t_duration_days t \<le> 0 \<or> price_rub t \<le> 0) (tariffs s))"

text \<open>
  Checks 2 and 3 ask for values outside the enumerations of their columns and for missing credentials:
  the columns' types leave no such row.
\<close>

definition assert_inv_2_server_lifecycle :: "db \<Rightarrow> check_result" where
  "assert_inv_2_server_lifecycle s =
     check_rows 2 (filter (\<lambda>r.
        \<not> List.member [Life_ACTIVE, Life_DECOMMISSIONING, Life_DECOMMISSIONED, Life_ARCHIVED] (lifecycle_status r)
        \<or> \<not> List.member [ONLINE, WAITING_CONFIRMATION, PROBLEM, MANUAL_DISABLED] (health_state r)) (servers s))"

definition assert_inv_3_white_internet_subscriptions :: "db \<Rightarrow> check_result" where
  "assert_inv_3_white_internet_subscriptions s =
     check_rows 3 (filter (\<lambda>w.
        \<not> List.member [WI_PENDING, WI_ACTIVE, WI_EXHAUSTED, WI_EXPIRED, WI_DISABLED] (w_status w)
        \<or> \<not> List.member [Node_PENDING_CREATE, Node_ACTIVE, Node_PENDING_UPDATE, Node_PENDING_DELETE,
              Node_SYNCED_INACTIVE, Node_FAILED] (provisioning_status w)) (wi_subs s))"

definition assert_inv_4_subscription_traffic_pools :: "db \<Rightarrow> check_result" where
  "assert_inv_4_subscription_traffic_pools s =
     check_rows 4 (filter (\<lambda>w. base_traffic_bytes w < 0 \<or> extra_traffic_bytes w < 0
        \<or> max 1 (w_device_limit w) * WHITE_INTERNET_MAX_QUOTA_BYTES < extra_traffic_bytes w) (wi_subs s))"

definition assert_inv_5_subscription_counter_monotonicity :: "db \<Rightarrow> check_result" where
  "assert_inv_5_subscription_counter_monotonicity s =
     check_rows 5 (filter (\<lambda>w. last_uplink_snapshot w < 0 \<or> last_downlink_snapshot w < 0
        \<or> traffic_used_bytes w < 0) (wi_subs s))"

definition live_count :: "int \<Rightarrow> db \<Rightarrow> nat" where
  "live_count uid s =
     length (filter (\<lambda>w. w_user_id w = uid \<and> List.member [WI_PENDING, WI_ACTIVE, WI_EXHAUSTED] (w_status w))
       (wi_subs s))"

definition assert_inv_6_subscription_live_uniqueness :: "db \<Rightarrow> check_result" where
  "assert_inv_6_subscription_live_uniqueness s =
     check_rows 6 (filter (\<lambda>uid. 1 < live_count uid s) (remdups (map w_user_id (wi_subs s))))"

definition assert_inv_7_subscription_period_usage :: "db \<Rightarrow> check_result" where
  "assert_inv_7_subscription_period_usage s =
     check_rows 7 (filter (\<lambda>w. traffic_used_bytes w < 0 \<or> traffic_uplink_bytes w < 0
        \<or> traffic_downlink_bytes w < 0 \<or> traffic_overage_bytes w < 0 \<or> base_traffic_bytes w < 0
        \<or> extra_traffic_bytes w < 0) (wi_subs s))"

definition assert_inv_8_origin_node_capabilities :: "db \<Rightarrow> check_result" where
  "assert_inv_8_origin_node_capabilities s =
     check_rows 8 (filter (\<lambda>i. case get_server s i of
          None \<Rightarrow> True
        | Some srv \<Rightarrow> \<not> List.member (capabilities srv) ''xray_origin'')
       (remdups (List.map_filter origin_node_id (wi_subs s))))"

text \<open>Users whose balance is below zero by more than what was refunded.\<close>

definition refund_allowance :: "db \<Rightarrow> int \<Rightarrow> money" where
  "refund_allowance s uid =
     sum_list (map (\<lambda>e. if e_user_id e = uid \<and> is_refund e then - amount e else 0) (entries s))"

definition overdrawn :: "db \<Rightarrow> int list" where
  "overdrawn s =
     filter (\<lambda>uid. position s uid + refund_allowance s uid < 0) (remdups (map e_user_id (entries s)))"

definition assert_inv_10_account_balance_non_negativity :: "db \<Rightarrow> check_result" where
  "assert_inv_10_account_balance_non_negativity s = check_rows 10 (overdrawn s)"

definition assert_inv_11_account_ledger_conservation :: "db \<Rightarrow> check_result" where
  "assert_inv_11_account_ledger_conservation s =
     check_rows 11 (filter (\<lambda>e. amount e = 0
        \<or> \<not> List.member [PAYMENT_CREDIT, PURCHASE_DEBIT, PURCHASE_REVERSAL, REFUND_DEBIT, CHARGEBACK_DEBIT,
              ADMIN_ADJUSTMENT] (entry_type e)) (entries s))"

definition assert_inv_13_vpn_protocol :: "db \<Rightarrow> check_result" where
  "assert_inv_13_vpn_protocol s =
     check_rows 13 (filter (\<lambda>r. \<not> List.member (AMNEZIA_PROTOCOLS @ [XRAY_PROTOCOL, VLESS_PROTOCOL]) (protocol r)
        \<or> protocol r = ''wg'') (servers s))"

definition assert_inv_14_origin_server_capacity :: "db \<Rightarrow> check_result" where
  "assert_inv_14_origin_server_capacity s =
     check_rows 14 (filter (\<lambda>r. max_clients r < origin_load (s_id r) s)
       (filter (\<lambda>r. List.member (capabilities r) ''xray_origin'')
         (filter (\<lambda>r. s_is_active r \<and> lifecycle_status r = Life_ACTIVE) (servers s))))"

text \<open>\<open>None\<close>: inspecting the migrations raised.\<close>

definition assert_inv_15_alembic_single_head :: "string list option \<Rightarrow> check_result" where
  "assert_inv_15_alembic_single_head heads =
     \<lparr>check_number = 15, check_passed = (case heads of None \<Rightarrow> False | Some hs \<Rightarrow> length hs = 1)\<rparr>"

definition run_all_invariants :: "string list option \<Rightarrow> db \<Rightarrow> check_result list" where
  "run_all_invariants heads s =
     [assert_inv_1_tariffs s, assert_inv_2_server_lifecycle s, assert_inv_3_white_internet_subscriptions s,
      assert_inv_4_subscription_traffic_pools s, assert_inv_5_subscription_counter_monotonicity s,
      assert_inv_6_subscription_live_uniqueness s, assert_inv_7_subscription_period_usage s,
      assert_inv_8_origin_node_capabilities s, assert_inv_10_account_balance_non_negativity s,
      assert_inv_11_account_ledger_conservation s, assert_inv_13_vpn_protocol s,
      assert_inv_14_origin_server_capacity s, assert_inv_15_alembic_single_head heads]"

text \<open>The exit code of the scanner.\<close>

definition audit_main :: "string list option \<Rightarrow> db \<Rightarrow> int" where
  "audit_main heads s = (if list_all check_passed (run_all_invariants heads s) then 0 else 1)"

end
