(* ===== verification/Audit_Theorems.thy ===== *)
theory Audit_Theorems
  imports Invariant_Audit Service
begin

section \<open>What the audit finds after any history\<close>

text \<open>
  The checks the invariants of the service answer for any history, and the one that names users who owe
  nothing but a reversed bonus.
\<close>

subsection \<open>Balances\<close>






subsection \<open>Subscriptions\<close>




subsection \<open>A reversed bonus\<close>

lemma sum_list_zero: "(\<And>x. x \<in> set xs \<Longrightarrow> f x = (0 :: money)) \<Longrightarrow> sum_list (map f xs) = 0"
  by (induction xs) auto

lemma reversal_keeps_allowance:
  assumes "reverse_referral_bonus_for_topup pid oid rid now s = Inr (m, t)"
    and "ledger_inv s" and "reversals_ok s"
  shows "refund_allowance t j = refund_allowance s j"
proof -
  obtain new where new: "entries t = entries s @ new"
    "list_all (\<lambda>e. amount e < 0 \<and> entry_type e = ADMIN_ADJUSTMENT) new"
    using reverse_sound(4) [OF assms] by blast
  have "(if e_user_id e = j \<and> is_refund e then - amount e else 0) = 0" if "e \<in> set new" for e
    using new(2) that by (auto simp: list_all_iff is_refund_def)
  then have "sum_list (map (\<lambda>e. if e_user_id e = j \<and> is_refund e then - amount e else 0) new) = 0"
    by (rule sum_list_zero)
  then show ?thesis
    by (simp add: refund_allowance_def new(1))
qed

lemma below_zero_has_entries:
  assumes "position s j + refund_allowance s j < 0"
  shows "j \<in> set (map e_user_id (entries s))"
proof (rule ccontr)
  assume "\<not> ?thesis"
  then have "e_user_id e \<noteq> j" if "e \<in> set (entries s)" for e
    using that by auto
  then have "filter (\<lambda>e. e_user_id e = j) (entries s) = []" and "refund_allowance s j = 0"
    unfolding refund_allowance_def by (auto simp: filter_empty_conv intro!: sum_list_zero)
  then show False
    using assms by (simp add: position_def)
qed

text \<open>Check 10 takes a reversal for a violation: when the referral bonus of a top-up that was refunded is taken
  back from an inviter who has spent it, the inviter's debt is no refund of the inviter's own, so the
  audit fails although the service did what it means to do.\<close>

theorem spent_bonus_fails_audit:
  assumes "reverse_referral_bonus_for_topup pid oid rid now s = Inr (m, t)"
    and "ledger_inv s" and "reversals_ok s"
    and "position s j + refund_allowance s j < position s j - position t j"
  shows "audit_main heads t = 1"
proof -
  have "position t j + refund_allowance t j < 0"
    using assms(4) reversal_keeps_allowance [OF assms(1-3), of j] by simp
  then have "j \<in> set (overdrawn t)"
    using below_zero_has_entries by (simp add: overdrawn_def)
  then show ?thesis
    by (auto simp: audit_main_def run_all_invariants_def assert_inv_10_account_balance_non_negativity_def
        check_rows_def)
qed

text \<open>User 1 earned 150 with the top-up of user 2 and spent it; then the top-up is refunded.\<close>

definition spent_bonus_db :: db where
  "spent_bonus_db = run_requests ledger_exec [Order_Debit ''vpn-1'' (rubles 150) Map.empty 9]
     (commit (grant_referral_bonus_for_topup 2 None (Some ''topup-2'') 1000 8) (empty_ledger sample_db))"

lemma spent_bonus_db_inv: "ledger_inv spent_bonus_db"
proof -
  have "ledger_inv (commit (grant_referral_bonus_for_topup 2 None (Some ''topup-2'') 1000 8) (empty_ledger sample_db))"
    unfolding commit_def by (auto split: sum.split intro: grant_inv ledger_inv_empty)
  then show ?thesis
    unfolding spent_bonus_db_def by (rule ledger_tx.run_inv)
qed

lemma spent_bonus_facts:
  "reversals_ok spent_bonus_db" "position spent_bonus_db 1 = 0" "refund_allowance spent_bonus_db 1 = 0"
  by code_simp+

lemma spent_bonus_reversal:
  "\<exists>t. reverse_referral_bonus_for_topup None (Some ''topup-2'') (Some ''r1'') 10 spent_bonus_db = Inr (150, t)
     \<and> position t 1 = - 150"
proof -
  have "case reverse_referral_bonus_for_topup None (Some ''topup-2'') (Some ''r1'') 10 spent_bonus_db of
      Inl _ \<Rightarrow> False | Inr p \<Rightarrow> fst p = 150 \<and> position (snd p) 1 = - 150"
    by code_simp
  then show ?thesis
    by (auto split: sum.split_asm)
qed

theorem spent_bonus_fails_audit_witness:
  "\<exists>t. reverse_referral_bonus_for_topup None (Some ''topup-2'') (Some ''r1'') 10 spent_bonus_db = Inr (150, t)
     \<and> audit_main (Some [''head'']) t = 1"
  using spent_bonus_reversal spent_bonus_fails_audit [OF _ spent_bonus_db_inv spent_bonus_facts(1), where j = 1]
  by (fastforce simp: spent_bonus_facts)

end
