(* ===== verification/Audience.thy ===== *)
theory Audience
  imports Servers PyText
begin

section \<open>Who an action for many users reaches\<close>

text \<open>
  The conditions of \<open>users_repo\<close> on the subscriptions of a user, and the audiences of a broadcast, of a
  mass bonus and of a mass extension.
\<close>

subsection \<open>database/repositories/users\_repo.py\<close>

text \<open>A White Internet subscription in use, for which no removal is under way.\<close>

definition wi_in_use :: "(wi_sub \<Rightarrow> bool) \<Rightarrow> db \<Rightarrow> user \<Rightarrow> bool" where
  "wi_in_use p s u \<longleftrightarrow>
     list_ex (\<lambda>w. w_user_id w = u_id u
       \<and> (w_status w = WI_ACTIVE \<or> w_status w = WI_PENDING \<or> w_status w = WI_EXHAUSTED)
       \<and> provisioning_status w \<noteq> Node_PENDING_DELETE \<and> p w) (wi_subs s)"

definition vpn_ends :: "(instant \<Rightarrow> bool) \<Rightarrow> user \<Rightarrow> bool" where
  "vpn_ends p u \<longleftrightarrow> (case subscription_end u of None \<Rightarrow> False | Some t \<Rightarrow> p t)"

definition has_wi_row :: "db \<Rightarrow> user \<Rightarrow> bool" where
  "has_wi_row s u \<longleftrightarrow> list_ex (\<lambda>w. w_user_id w = u_id u) (wi_subs s)"

definition get_effective_active_condition :: "instant \<Rightarrow> db \<Rightarrow> user \<Rightarrow> bool" where
  "get_effective_active_condition now s u \<longleftrightarrow>
     vpn_ends (\<lambda>t. now < t) u \<or> wi_in_use (\<lambda>w. now < expires_at w) s u"

definition get_effective_expiring_3d_condition :: "instant \<Rightarrow> db \<Rightarrow> user \<Rightarrow> bool" where
  "get_effective_expiring_3d_condition now s u \<longleftrightarrow>
     (let limit_3d = now + days_us 3 in
      (vpn_ends (\<lambda>t. now < t \<and> t \<le> limit_3d) u
       \<or> wi_in_use (\<lambda>w. now < expires_at w \<and> expires_at w \<le> limit_3d) s u)
      \<and> (subscription_end u = None \<or> vpn_ends (\<lambda>t. t \<le> limit_3d) u)
      \<and> \<not> wi_in_use (\<lambda>w. limit_3d < expires_at w) s u)"

definition get_effective_inactive_condition :: "instant \<Rightarrow> db \<Rightarrow> user \<Rightarrow> bool" where
  "get_effective_inactive_condition now s u \<longleftrightarrow>
     (vpn_ends (\<lambda>t. t \<le> now) u \<or> subscription_end u = None)
     \<and> \<not> wi_in_use (\<lambda>w. now < expires_at w) s u"

definition get_effective_expired_condition :: "instant \<Rightarrow> db \<Rightarrow> user \<Rightarrow> bool" where
  "get_effective_expired_condition now s u \<longleftrightarrow>
     (subscription_end u \<noteq> None \<or> has_wi_row s u) \<and> get_effective_inactive_condition now s u"

definition get_effective_never_condition :: "db \<Rightarrow> user \<Rightarrow> bool" where
  "get_effective_never_condition s u \<longleftrightarrow> subscription_end u = None \<and> \<not> has_wi_row s u"

subsection \<open>Users of a server\<close>

text \<open>The queries read the columns of the server, not the functions of \<open>servers_repo\<close>.\<close>

definition vless_columns :: "int \<Rightarrow> db \<Rightarrow> bool" where
  "vless_columns i s \<longleftrightarrow>
     (case get_server s i of None \<Rightarrow> False
      | Some r \<Rightarrow> protocol r = VLESS_PROTOCOL \<or> List.member (capabilities r) ''vless''
                  \<or> List.member (capabilities r) ''xray_vless'')"

definition xray_columns :: "int \<Rightarrow> db \<Rightarrow> bool" where
  "xray_columns i s \<longleftrightarrow>
     (case get_server s i of None \<Rightarrow> False
      | Some r \<Rightarrow> protocol r = XRAY_PROTOCOL \<or> List.member (capabilities r) ''xray_origin'')"

definition vless_with_devices :: "(vless_sub \<Rightarrow> bool) \<Rightarrow> db \<Rightarrow> user \<Rightarrow> bool" where
  "vless_with_devices p s u \<longleftrightarrow>
     list_ex (\<lambda>v. v_user_id v = u_id u \<and> v_is_active v \<and> v_active_hwids v \<noteq> [] \<and> p v) (vless_subs s)"

definition seen_on :: "int \<Rightarrow> vless_sub \<Rightarrow> bool" where
  "seen_on i v \<longleftrightarrow> node_traffic_snapshots v (str_int i) \<noteq> None"

definition server_of_audience :: "string \<Rightarrow> int" where
  "server_of_audience text = (case parse_int text of None \<Rightarrow> - 1 | Some i \<Rightarrow> i)"

subsection \<open>bot/handlers/admin/broadcast.py\<close>

definition broadcast_server_users :: "int \<Rightarrow> instant \<Rightarrow> db \<Rightarrow> user \<Rightarrow> bool" where
  "broadcast_server_users i now s u \<longleftrightarrow>
     (vless_columns i s \<and> vpn_ends (\<lambda>t. now < t) u \<and> vless_with_devices (\<lambda>_. True) s u)
   \<or> (xray_columns i s \<and> wi_in_use (\<lambda>w. origin_node_id w = Some i \<and> now < expires_at w) s u)"

text \<open>\<open>admin_tg_id\<close> is given by the preview only.\<close>

definition test_recipient :: "string \<Rightarrow> int option \<Rightarrow> int option" where
  "test_recipient audience admin_tg_id =
     (case admin_tg_id of Some i \<Rightarrow> Some i
      | None \<Rightarrow> if starts_with ''test_'' audience then parse_int (drop 5 audience) else None)"

definition apply_audience_filters :: "string \<Rightarrow> int option \<Rightarrow> instant \<Rightarrow> db \<Rightarrow> user \<Rightarrow> bool" where
  "apply_audience_filters audience admin_tg_id now s u \<longleftrightarrow>
     \<not> is_deleted u \<and> \<not> is_bot_blocked u \<and> \<not> is_banned u
   \<and> (if audience = ''active'' then get_effective_active_condition now s u
      else if audience = ''expiring_3d'' then get_effective_expiring_3d_condition now s u
      else if audience = ''expired'' then get_effective_expired_condition now s u
      else if audience = ''never'' \<or> audience = ''no_sub'' then get_effective_never_condition s u
      else if audience = ''test'' \<or> starts_with ''test_'' audience then
        (case test_recipient audience admin_tg_id of None \<Rightarrow> True | Some i \<Rightarrow> telegram_id u = i)
      else if starts_with ''server_'' audience then
        broadcast_server_users (server_of_audience (drop 7 audience)) now s u
      else True)"

subsection \<open>bot/handlers/admin/users/mass\_bonus.py\<close>

text \<open>Without the server row, by its key; trials do not count.\<close>

definition build_server_audience_condition :: "int \<Rightarrow> instant \<Rightarrow> db \<Rightarrow> user \<Rightarrow> bool" where
  "build_server_audience_condition i now s u \<longleftrightarrow>
     0 < i
   \<and> ((vless_columns i s \<and> vpn_ends (\<lambda>t. now < t) u \<and> vless_with_devices (seen_on i) s u)
      \<or> (xray_columns i s
         \<and> wi_in_use (\<lambda>w. origin_node_id w = Some i \<and> now < expires_at w \<and> \<not> is_trial w) s u))"

text \<open>With the server row, as the preview counts.\<close>

definition build_server_row_condition :: "server \<Rightarrow> instant \<Rightarrow> db \<Rightarrow> user \<Rightarrow> bool" where
  "build_server_row_condition srv now s u \<longleftrightarrow>
     (is_vless_capable_server srv \<and> vpn_ends (\<lambda>t. now < t) u \<and> vless_with_devices (\<lambda>_. True) s u)
   \<or> (is_white_internet_origin_server srv
      \<and> wi_in_use (\<lambda>w. origin_node_id w = Some (s_id srv) \<and> now < expires_at w \<and> \<not> is_trial w) s u)"

definition second_part :: "string \<Rightarrow> string" where
  "second_part audience = (case split_on CHR ''_'' audience of _ # w # _ \<Rightarrow> w | _ \<Rightarrow> [])"

definition apply_mass_bonus_audience_filter ::
  "string \<Rightarrow> instant \<Rightarrow> server option \<Rightarrow> db \<Rightarrow> user \<Rightarrow> bool" where
  "apply_mass_bonus_audience_filter target_aud now srv s u \<longleftrightarrow>
     (if starts_with ''server_'' target_aud then
        (case srv of
           Some r \<Rightarrow> build_server_row_condition r now s u
         | None \<Rightarrow> build_server_audience_condition (server_of_audience (second_part target_aud)) now s u)
      else if target_aud = ''active'' then get_effective_active_condition now s u
      else if target_aud = ''expired'' then get_effective_inactive_condition now s u
      else True)"

subsection \<open>bot/handlers/admin/users/mass\_extend.py\<close>

text \<open>An active paid White Internet subscription, and one that meets a condition.\<close>

definition wi_paid_active :: "(wi_sub \<Rightarrow> bool) \<Rightarrow> instant \<Rightarrow> db \<Rightarrow> user \<Rightarrow> bool" where
  "wi_paid_active p now s u \<longleftrightarrow>
     list_ex (\<lambda>w. w_user_id w = u_id u \<and> w_status w = WI_ACTIVE \<and> now < expires_at w \<and> \<not> is_trial w
       \<and> provisioning_status w \<noteq> Node_PENDING_DELETE \<and> p w) (wi_subs s)"

definition build_mass_extend_audience_filter ::
  "string \<Rightarrow> instant \<Rightarrow> server option \<Rightarrow> db \<Rightarrow> user \<Rightarrow> bool" where
  "build_mass_extend_audience_filter target_aud now srv s u \<longleftrightarrow>
     (if target_aud = ''active_standard'' then vpn_ends (\<lambda>t. now < t) u
      else if target_aud = ''active_wi'' then wi_paid_active (\<lambda>_. True) now s u
      else if target_aud = ''active_all''
      then vpn_ends (\<lambda>t. now < t) u \<or> wi_paid_active (\<lambda>_. True) now s u
      else if starts_with ''server_'' target_aud then
        (case srv of
           None \<Rightarrow> False
         | Some r \<Rightarrow>
             (is_vless_capable_server r \<and> vpn_ends (\<lambda>t. now < t) u \<and> vless_with_devices (seen_on (s_id r)) s u)
           \<or> (is_white_internet_origin_server r
              \<and> wi_paid_active (\<lambda>w. origin_node_id w = Some (s_id r)) now s u))
      else vpn_ends (\<lambda>t. now < t) u)"

subsection \<open>Shared lemmas\<close>

lemma users_sync_access [simp]: "users (sync_access_state u now s) = users s"
  by (simp add: sync_access_state_def Let_def split: option.split)

lemma get_user_of_member:
  assumes "distinct (map u_id (users s))" and "u \<in> set (users s)"
  shows "get_user s (u_id u) = Some u"
proof -
  obtain v where v: "get_user s (u_id u) = Some v"
    using assms(2) by (cases "get_user s (u_id u)") (auto simp: get_user_def find_None_iff)
  then have "v \<in> set (users s)" "u_id v = u_id u"
    by (auto simp: get_user_def dest: find_SomeD)
  then show ?thesis
    using assms v by (auto simp: distinct_map dest: inj_onD)
qed

end
