(* ===== verification/Broadcast.thy ===== *)
theory Broadcast
  imports Audience
begin

section \<open>bot/handlers/admin/broadcast.py\<close>

text \<open>
  A message to many users: its draft, its launch, the worker that sends it and resumes it after the
  process ended, and the pass at the start of the process.  What Telegram answers, the times of the queries
  and how a process ends are arguments; the preview, the pauses, the labels, the audit record and the reports are not
  modelled.
\<close>

definition TELEGRAM_MESSAGE_LIMIT :: nat where "TELEGRAM_MESSAGE_LIMIT = 4096"
definition TELEGRAM_CAPTION_LIMIT :: nat where "TELEGRAM_CAPTION_LIMIT = 1024"

record broadcast =
  b_id :: int
  b_admin_id :: int
  b_total_count :: int
  b_success_count :: int
  b_fail_count :: int
  b_last_processed_id :: int
  b_target_audience :: string
  broadcast_text :: string
  b_media_id :: "string option"
  b_content_type :: string
  b_label :: string
  b_status :: string
  b_created_at :: instant

text \<open>The rows and the tables, which a process leaves behind, and the sets it keeps in memory.\<close>

record bot_state =
  progress :: "broadcast list"
  progress_seq :: int
  tables :: db
  active_progress_ids :: "int list"
  broadcast_in_progress :: "int list"

subsection \<open>The draft\<close>

record message_in =
  m_text :: "string option"
  m_caption :: "string option"
  m_content_type :: string
  m_media :: "(string \<times> string) option"

record draft =
  d_text :: string
  d_media_id :: "string option"
  d_content_type :: string
  d_audience :: string

datatype draft_result =
    Denied | Cancelled | Empty_Message | Message_Too_Long | Caption_Too_Long | Drafted draft

definition or_text :: "string option \<Rightarrow> string \<Rightarrow> string" where
  "or_text x y = (case x of None \<Rightarrow> y | Some t \<Rightarrow> if t = [] then y else t)"

definition process_broadcast_message :: "bool \<Rightarrow> string \<Rightarrow> message_in \<Rightarrow> draft_result" where
  "process_broadcast_message admin audience m =
     (let (kind, media_id) = (case m_media m of None \<Rightarrow> (m_content_type m, None) | Some (k, i) \<Rightarrow> (k, Some i));
          body = (if kind = ''video_note'' \<or> kind = ''sticker'' then []
                  else or_text (m_text m) (or_text (m_caption m) [])) in
      if \<not> admin then Denied
      else if m_text m \<noteq> None \<and> starts_with ''/'' (the (m_text m)) then Cancelled
      else if body = [] \<and> media_id = None then Empty_Message
      else if media_id = None \<and> TELEGRAM_MESSAGE_LIMIT < length body then Message_Too_Long
      else if media_id \<noteq> None \<and> TELEGRAM_CAPTION_LIMIT < length body then Caption_Too_Long
      else Drafted \<lparr>d_text = body, d_media_id = media_id, d_content_type = kind, d_audience = audience\<rparr>)"

subsection \<open>The launch\<close>

datatype launch = Already_Running | Error_Text_Empty | No_Recipients | Started int

definition start_broadcast_process ::
  "int \<Rightarrow> draft \<Rightarrow> string \<Rightarrow> instant \<Rightarrow> bot_state \<Rightarrow> launch \<times> bot_state" where
  "start_broadcast_process admin d label now st =
     (if List.member (broadcast_in_progress st) admin then (Already_Running, st)
      else if list_ex (\<lambda>b. b_admin_id b = admin \<and> b_status b = ''in_progress'') (progress st)
      then (Already_Running, st)
      else if d_text d = [] then (Error_Text_Empty, st)
      else
        let total = length (filter (apply_audience_filters (d_audience d) None now (tables st)) (users (tables st))) in
        if total = 0 then (No_Recipients, st)
        else
          let i = progress_seq st + 1 in
          (Started i, st\<lparr>progress := progress st @
             [\<lparr>b_id = i, b_admin_id = admin, b_total_count = int total, b_success_count = 0, b_fail_count = 0,
               b_last_processed_id = 0, b_target_audience = d_audience d, broadcast_text = d_text d,
               b_media_id = d_media_id d, b_content_type = d_content_type d, b_label = label,
               b_status = ''in_progress'', b_created_at = now\<rparr>],
             progress_seq := i, broadcast_in_progress := admin # broadcast_in_progress st\<rparr>))"

subsection \<open>One recipient\<close>

datatype tg_answer = Tg_Sent | Tg_Retry_After | Tg_Forbidden | Tg_Unparsable | Tg_Failed

text \<open>What Telegram answers: the attempt, whether the text is sent as HTML, and the user.\<close>

type_synonym sender = "nat \<Rightarrow> bool \<Rightarrow> int \<Rightarrow> tg_answer"

definition dispatch_message :: "(bool \<Rightarrow> int \<Rightarrow> tg_answer) \<Rightarrow> int \<Rightarrow> tg_answer" where
  "dispatch_message send uid = (case send True uid of Tg_Unparsable \<Rightarrow> send False uid | r \<Rightarrow> r)"

definition send_to :: "sender \<Rightarrow> int \<Rightarrow> tg_answer" where
  "send_to send uid =
     (case dispatch_message (send 0) uid of Tg_Retry_After \<Rightarrow> dispatch_message (send 1) uid | r \<Rightarrow> r)"

definition get_progress :: "bot_state \<Rightarrow> int \<Rightarrow> broadcast option" where
  "get_progress st pid = find (\<lambda>b. b_id b = pid) (progress st)"

definition set_progress :: "int \<Rightarrow> (broadcast \<Rightarrow> broadcast) \<Rightarrow> bot_state \<Rightarrow> bot_state" where
  "set_progress pid f st = st\<lparr>progress := update_rows (\<lambda>b. b_id b = pid) f (progress st)\<rparr>"

definition note_result :: "int \<Rightarrow> tg_answer \<Rightarrow> broadcast \<Rightarrow> broadcast" where
  "note_result uid r b =
     (if r = Tg_Sent then b\<lparr>b_last_processed_id := uid, b_success_count := b_success_count b + 1\<rparr>
      else b\<lparr>b_last_processed_id := uid, b_fail_count := b_fail_count b + 1\<rparr>)"

definition mark_bot_blocked :: "int \<Rightarrow> db \<Rightarrow> db" where
  "mark_bot_blocked uid s = (case get_user s uid of None \<Rightarrow> s | Some u \<Rightarrow> set_user (u\<lparr>is_bot_blocked := True\<rparr>) s)"

definition save_checkpoint :: "int \<Rightarrow> int \<Rightarrow> tg_answer \<Rightarrow> bot_state \<Rightarrow> bot_state" where
  "save_checkpoint pid uid r st =
     (let st = set_progress pid (note_result uid r) st in
      if r = Tg_Forbidden then st\<lparr>tables := mark_bot_blocked uid (tables st)\<rparr> else st)"

subsection \<open>The worker\<close>

text \<open>
  How a process ends: killed before or after it sent a message whose checkpoint it did not save, or an
  exception of the database at that checkpoint.  A life is the number of recipients it handles before.
\<close>

datatype ending = Killed_Before_Send | Killed_After_Send | Database_Error

type_synonym life = "(nat \<times> ending) option"

datatype batch_delivery = Continues life int bot_state | Ended ending bot_state

fun deliver_batch ::
  "sender \<Rightarrow> int \<Rightarrow> (int \<times> int) list \<Rightarrow> life \<Rightarrow> int \<Rightarrow> bot_state \<Rightarrow> int list \<times> batch_delivery" where
  "deliver_batch send pid [] life last_id st = ([], Continues life last_id st)"
| "deliver_batch send pid ((uid, tg) # batch) life last_id st =
     (case life of
        Some (0, e) \<Rightarrow> (if e = Killed_Before_Send then [] else [uid], Ended e st)
      | _ \<Rightarrow>
          let life = map_option (\<lambda>(n, e). (n - 1, e)) life;
              (sent, r) = deliver_batch send pid batch life uid (save_checkpoint pid uid (send_to send tg) st) in
          (uid # sent, r))"

definition BATCH_LIMIT :: nat where "BATCH_LIMIT = 50"

definition recipients :: "string \<Rightarrow> instant \<Rightarrow> int \<Rightarrow> db \<Rightarrow> (int \<times> int) list" where
  "recipients audience now last_id s =
     map (\<lambda>u. (u_id u, telegram_id u))
       (sort_key u_id (filter (\<lambda>u. last_id < u_id u \<and> apply_audience_filters audience None now s u) (users s)))"

definition get_next_batch :: "string \<Rightarrow> instant \<Rightarrow> int \<Rightarrow> db \<Rightarrow> (int \<times> int) list" where
  "get_next_batch audience now last_id s = take BATCH_LIMIT (recipients audience now last_id s)"

text \<open>The loop of the worker; a batch after \<open>last_id\<close> is read at \<open>clock last_id\<close>.  \<open>None\<close>: out of rounds.\<close>

fun broadcast_loop ::
  "nat \<Rightarrow> (int \<Rightarrow> instant) \<Rightarrow> sender \<Rightarrow> int \<Rightarrow> string \<Rightarrow> life \<Rightarrow> int \<Rightarrow> bot_state \<Rightarrow> (int list \<times> batch_delivery) option"
  where
  "broadcast_loop 0 clock send pid audience life last_id st = None"
| "broadcast_loop (Suc n) clock send pid audience life last_id st =
     (if (case get_progress st pid of None \<Rightarrow> True | Some b \<Rightarrow> b_status b \<noteq> ''in_progress'')
      then Some ([], Continues life last_id st)
      else
        let batch = get_next_batch audience (clock last_id) last_id (tables st) in
        if batch = [] then Some ([], Continues life last_id st)
        else
          (case deliver_batch send pid batch life last_id st of
             (sent, Ended e st) \<Rightarrow> Some (sent, Ended e st)
           | (sent, Continues life last_id st) \<Rightarrow>
               map_option (\<lambda>(more_sent, r). (sent @ more_sent, r))
                 (broadcast_loop n clock send pid audience life last_id st)))"

definition release :: "int \<Rightarrow> int \<Rightarrow> bot_state \<Rightarrow> bot_state" where
  "release pid admin st =
     st\<lparr>active_progress_ids := removeAll pid (active_progress_ids st),
        broadcast_in_progress := removeAll admin (broadcast_in_progress st)\<rparr>"

definition new_process :: "bot_state \<Rightarrow> bot_state" where
  "new_process st = st\<lparr>active_progress_ids := [], broadcast_in_progress := []\<rparr>"

definition stop_if_running :: "broadcast \<Rightarrow> broadcast" where
  "stop_if_running b = (if b_status b = ''in_progress'' then b\<lparr>b_status := ''stopped''\<rparr> else b)"

definition close_broadcast :: "int \<Rightarrow> int \<Rightarrow> batch_delivery \<Rightarrow> bot_state" where
  "close_broadcast pid admin r =
     (case r of
        Continues life last_id st \<Rightarrow> release pid admin (set_progress pid (\<lambda>b. b\<lparr>b_status := ''completed''\<rparr>) st)
      | Ended e st \<Rightarrow>
          if e = Database_Error then release pid admin (set_progress pid stop_if_running st)
          else new_process st)"

text \<open>Each round handles a user, so as many rounds as there are users and one more are enough.\<close>

definition enough_rounds :: "bot_state \<Rightarrow> nat" where
  "enough_rounds st = Suc (length (users (tables st)))"

definition claimed :: "int \<Rightarrow> int \<Rightarrow> bot_state \<Rightarrow> bot_state" where
  "claimed pid admin st =
     st\<lparr>active_progress_ids := pid # active_progress_ids st,
        broadcast_in_progress := admin # broadcast_in_progress st\<rparr>"

definition send_broadcast_to_users_with_resume ::
  "(int \<Rightarrow> instant) \<Rightarrow> sender \<Rightarrow> life \<Rightarrow> int \<Rightarrow> int \<Rightarrow> bot_state \<Rightarrow> (int list \<times> bot_state) option" where
  "send_broadcast_to_users_with_resume clock send life pid admin st =
     (if List.member (active_progress_ids st) pid then Some ([], st)
      else
        (case get_progress st pid of
           None \<Rightarrow> Some ([], release pid admin (claimed pid admin st))
         | Some b \<Rightarrow>
             if b_status b \<noteq> ''in_progress'' then Some ([], release pid admin (claimed pid admin st))
             else
               map_option (\<lambda>(sent, r). (sent, close_broadcast pid admin r))
                 (broadcast_loop (enough_rounds st) clock send pid (b_target_audience b) life
                   (b_last_processed_id b) (claimed pid admin st))))"

subsection \<open>The start of the process\<close>

text \<open>Of each administrator the newest running broadcast is resumed, the others are stopped.\<close>

fun pick_newest :: "int list \<Rightarrow> broadcast list \<Rightarrow> (int \<times> int) list \<times> int list" where
  "pick_newest seen [] = ([], [])"
| "pick_newest seen (b # bs) =
     (if List.member seen (b_admin_id b)
      then (let (resumed, stopped) = pick_newest seen bs in (resumed, b_id b # stopped))
      else (let (resumed, stopped) = pick_newest (b_admin_id b # seen) bs in
            ((b_id b, b_admin_id b) # resumed, stopped)))"

definition resume_pending_broadcasts :: "bot_state \<Rightarrow> (int \<times> int) list \<times> bot_state" where
  "resume_pending_broadcasts st =
     (let rows = update_rows (\<lambda>b. b_status b = ''stopping'') (\<lambda>b. b\<lparr>b_status := ''stopped''\<rparr>) (progress st);
          pending = rev (sort_key b_created_at (sort_key b_id (filter (\<lambda>b. b_status b = ''in_progress'') rows)));
          (resumed, stopped) = pick_newest (broadcast_in_progress st) pending in
      (resumed, st\<lparr>progress := update_rows (\<lambda>b. List.member stopped (b_id b)) (\<lambda>b. b\<lparr>b_status := ''stopped''\<rparr>) rows,
                   broadcast_in_progress := map snd resumed @ broadcast_in_progress st\<rparr>))"

text \<open>The lives of the processes that work on one broadcast, one after the other.\<close>

fun broadcast_lives ::
  "((int \<Rightarrow> instant) \<times> sender \<times> life) list \<Rightarrow> int \<Rightarrow> int \<Rightarrow> bot_state \<Rightarrow> (int list \<times> bot_state) option" where
  "broadcast_lives [] pid admin st = Some ([], st)"
| "broadcast_lives ((clock, send, life) # ls) pid admin st =
     (case send_broadcast_to_users_with_resume clock send life pid admin (new_process st) of
        None \<Rightarrow> None
      | Some (sent, st) \<Rightarrow>
          map_option (\<lambda>(more_sent, st). (sent @ more_sent, st)) (broadcast_lives ls pid admin st))"

end
