(* ===== verification/Broadcast_Theorems.thy ===== *)
theory Broadcast_Theorems
  imports Broadcast Samples
begin

section \<open>Properties of broadcasts\<close>

text \<open>
  Each recipient is handled once however often the process is killed, a launched broadcast reaches its
  whole audience, and the drafts that can never be launched.
\<close>

subsection \<open>The recipients after a cursor\<close>

definition user_keys :: "bot_state \<Rightarrow> int list" where
  "user_keys st = map u_id (users (tables st))"

definition audience_keys :: "string \<Rightarrow> instant \<Rightarrow> bot_state \<Rightarrow> int set" where
  "audience_keys audience now st =
     u_id ` set (filter (apply_audience_filters audience None now (tables st)) (users (tables st)))"

definition targets :: "string \<Rightarrow> instant \<Rightarrow> int \<Rightarrow> bot_state \<Rightarrow> int list" where
  "targets audience now c st = map fst (recipients audience now c (tables st))"

lemma set_targets: "set (targets audience now c st) = {i \<in> audience_keys audience now st. c < i}"
  by (auto simp: targets_def recipients_def audience_keys_def image_image)

lemma targets_sorted:
  assumes "distinct (user_keys st)"
  shows "sorted_wrt (<) (targets audience now c st)"
proof -
  let ?P = "\<lambda>u. c < u_id u \<and> apply_audience_filters audience None now (tables st) u"
  have "targets audience now c st = map u_id (sort_key u_id (filter ?P (users (tables st))))"
    by (simp add: targets_def recipients_def comp_def)
  moreover have "distinct (map u_id (filter ?P (users (tables st))))"
    using assms by (simp add: user_keys_def distinct_map_filter)
  ultimately show ?thesis
    by (simp add: strict_sorted_iff distinct_map)
qed

lemma targets_eqI:
  assumes "distinct (user_keys st)" and "distinct (user_keys st')"
    and "{i \<in> audience_keys audience now st. c < i} = {i \<in> audience_keys audience now st'. c < i}"
  shows "targets audience now c st' = targets audience now c st"
  using assms by (intro strict_sorted_equal targets_sorted) (simp_all add: set_targets)

lemma targets_rest:
  assumes "distinct (user_keys st)" and "targets audience now c st = x # xs"
  shows "targets audience now x st = xs"
proof -
  have sorted: "sorted_wrt (<) (x # xs)"
    using targets_sorted [OF assms(1)] assms(2) by metis
  have "set (targets audience now c st) = insert x (set xs)"
    by (simp add: assms(2))
  then have keys: "{i \<in> audience_keys audience now st. c < i} = insert x (set xs)"
    by (simp add: set_targets)
  then have "c < x"
    by blast
  then have "i \<in> set xs" if "i \<in> audience_keys audience now st" "x < i" for i
    using keys that by force
  then have "{i \<in> audience_keys audience now st. x < i} = set xs"
    using sorted keys by auto
  then show ?thesis
    using sorted targets_sorted [OF assms(1)] by (intro strict_sorted_equal) (simp_all add: set_targets)
qed

subsection \<open>A checkpoint\<close>

text \<open>A running row of the broadcast: its cursor, its audience and how many recipients it counted.\<close>

definition row_at :: "bot_state \<Rightarrow> int \<Rightarrow> int \<Rightarrow> string \<Rightarrow> int \<Rightarrow> bool" where
  "row_at st pid c audience k \<longleftrightarrow>
     (\<exists>b. get_progress st pid = Some b \<and> b_status b = ''in_progress'' \<and> b_target_audience b = audience
       \<and> b_last_processed_id b = c \<and> b_success_count b + b_fail_count b = k)"

lemma get_set_progress:
  assumes "\<And>b. b_id (f b) = b_id b"
  shows "get_progress (set_progress pid f st) pid = map_option f (get_progress st pid)"
proof -
  have "find (\<lambda>b. b_id b = pid) (update_rows (\<lambda>b. b_id b = pid) f xs) = map_option f (find (\<lambda>b. b_id b = pid) xs)" for xs
    using assms by (induction xs) auto
  then show ?thesis
    by (simp add: get_progress_def set_progress_def)
qed

lemma note_result_id [simp]: "b_id (note_result uid r b) = b_id b"
  by (simp add: note_result_def)

lemma tables_set_progress [simp]: "tables (set_progress pid f st) = tables st"
  by (simp add: set_progress_def)

lemma get_progress_tables [simp]: "get_progress (st\<lparr>tables := s\<rparr>) pid = get_progress st pid"
  by (simp add: get_progress_def)

lemma checkpoint_row:
  assumes "row_at st pid c audience k"
  shows "row_at (save_checkpoint pid uid r st) pid uid audience (k + 1)"
  using assms by (auto simp: row_at_def save_checkpoint_def Let_def get_set_progress) (auto simp: note_result_def)

lemma filters_set_user [simp]:
  "apply_audience_filters audience a now (set_user v s) = apply_audience_filters audience a now s"
  by (simp add: fun_eq_iff apply_audience_filters_def get_effective_active_condition_def
      get_effective_expiring_3d_condition_def get_effective_expired_condition_def
      get_effective_inactive_condition_def get_effective_never_condition_def broadcast_server_users_def
      wi_in_use_def has_wi_row_def vless_columns_def xray_columns_def vless_with_devices_def get_server_def)

lemma checkpoint_tables:
  "tables (save_checkpoint pid uid r st) = tables st
   \<or> (\<exists>u. u_id u = uid \<and> tables (save_checkpoint pid uid r st) = set_user u (tables st))"
proof (cases "get_user (tables st) uid")
  case (Some u)
  then have "u_id (u\<lparr>is_bot_blocked := True\<rparr>) = uid"
    by (simp add: get_user_id)
  moreover have "tables (save_checkpoint pid uid r st) \<in> {tables st, set_user (u\<lparr>is_bot_blocked := True\<rparr>) (tables st)}"
    using Some by (simp add: save_checkpoint_def Let_def mark_bot_blocked_def)
  ultimately show ?thesis
    by blast
qed (simp add: save_checkpoint_def Let_def mark_bot_blocked_def)

lemma keys_set_user: "map u_id (users (set_user u s)) = map u_id (users s)"
  by (auto simp: set_user_def update_rows_def)

lemma checkpoint_keys [simp]: "user_keys (save_checkpoint pid uid r st) = user_keys st"
  using checkpoint_tables [of pid uid r st] by (auto simp: user_keys_def keys_set_user)

lemma audience_keys_set_user:
  assumes "u_id u = uid" and "tables st' = set_user u (tables st)" and "uid < i"
  shows "i \<in> audience_keys audience now st' \<longleftrightarrow> i \<in> audience_keys audience now st"
proof -
  have "v \<in> set (users (tables st')) \<longleftrightarrow> v \<in> set (users (tables st))" if "u_id v = i" for v
    using that assms unfolding assms(2) set_user_def by (auto simp: set_update_rows intro!: bexI [of _ v])
  then show ?thesis
    by (auto simp: audience_keys_def assms(2))
qed

lemma checkpoint_targets:
  assumes "distinct (user_keys st)" and "uid \<le> c"
  shows "targets audience now c (save_checkpoint pid uid r st) = targets audience now c st"
proof (rule targets_eqI)
  show "{i \<in> audience_keys audience now st. c < i} = {i \<in> audience_keys audience now (save_checkpoint pid uid r st). c < i}"
    using checkpoint_tables [of pid uid r st]
  proof
    assume "tables (save_checkpoint pid uid r st) = tables st"
    then show ?thesis
      by (simp add: audience_keys_def)
  next
    assume "\<exists>u. u_id u = uid \<and> tables (save_checkpoint pid uid r st) = set_user u (tables st)"
    then show ?thesis
      using assms(2) audience_keys_set_user by force
  qed
qed (simp_all add: assms(1))

subsection \<open>A batch\<close>

fun final_state :: "batch_delivery \<Rightarrow> bot_state" where
  "final_state (Continues life c st) = st"
| "final_state (Ended e st) = st"

text \<open>What was attempted, given what was checkpointed: at the end of a life one message may be in flight.\<close>

fun deliveries_of :: "batch_delivery \<Rightarrow> int list \<Rightarrow> int list \<Rightarrow> bool" where
  "deliveries_of (Continues life c st) main sent \<longleftrightarrow> sent = main"
| "deliveries_of (Ended e st) main sent \<longleftrightarrow>
     (if e = Killed_Before_Send then sent = main else \<exists>i. sent = main @ [i])"

lemma attempts_of_append: "deliveries_of r main sent \<Longrightarrow> deliveries_of r (xs @ main) (xs @ sent)"
  by (cases r) (auto split: if_split_asm)

text \<open>The batch read off one recipient at a time.\<close>

lemma deliver_batchE:
  assumes "deliver_batch send pid ((uid, tg) # batch) life c st = (sent, r)"
  obtains (dies) e where "life = Some (0, e)" "r = Ended e st" "deliveries_of r [] sent"
  | (goes_on) rest life' where "sent = uid # rest"
      "deliver_batch send pid batch life' uid (save_checkpoint pid uid (send_to send tg) st) = (rest, r)"
      "\<And>n e. life' = Some (n, e) \<Longrightarrow> \<exists>n. life = Some (n, e)"
proof -
  obtain rest r' where rest: "deliver_batch send pid batch (map_option (\<lambda>(n, e). (n - 1, e)) life) uid
      (save_checkpoint pid uid (send_to send tg) st) = (rest, r')"
    by fastforce
  consider (zero) e where "life = Some (0, e)" | (none) "life = None" | (suc) n e where "life = Some (Suc n, e)"
    by (metis not0_implies_Suc option.exhaust surj_pair)
  then show thesis
  proof cases
    case (zero e)
    then show ?thesis
      using assms by (intro dies [of e]) auto
  next
    case none
    then show ?thesis
      using assms rest by (intro goes_on [of rest None]) auto
  next
    case (suc n e)
    then show ?thesis
      using assms rest by (intro goes_on [of rest "Some (n, e)"]) auto
  qed
qed

lemma deliver_continues:
  "deliver_batch send pid batch life c st = (sent, Continues life' c' st') \<Longrightarrow>
   sent = map fst batch \<and> c' = last (c # map fst batch) \<and> user_keys st' = user_keys st"
proof (induction batch arbitrary: life c st sent)
  case (Cons p batch)
  obtain uid tg where p: "p = (uid, tg)"
    by fastforce
  from Cons.prems [unfolded p] show ?case
  proof (cases rule: deliver_batchE)
    case (goes_on rest life1)
    then show ?thesis
      using Cons.IH [OF goes_on(2)] by (simp add: p)
  qed simp
qed simp

lemma deliver_sent:
  "deliver_batch send pid batch life c st = (sent, r) \<Longrightarrow> set sent \<subseteq> fst ` set batch"
proof (induction batch arbitrary: life c st sent)
  case (Cons p batch)
  obtain uid tg where p: "p = (uid, tg)"
    by fastforce
  show ?case
  proof (cases "\<exists>e. life = Some (0, e)")
    case True
    then show ?thesis
      using Cons.prems by (auto simp: p split: if_split_asm)
  next
    case False
    from Cons.prems [unfolded p] show ?thesis
    proof (cases rule: deliver_batchE)
      case (goes_on rest life')
      then show ?thesis
        using Cons.IH [OF goes_on(2)] by (auto simp: p)
    qed (use False in simp)
  qed
qed simp

lemma deliver_ended:
  "deliver_batch send pid batch life c st = (sent, Ended e st') \<Longrightarrow> \<exists>n. life = Some (n, e)"
proof (induction batch arbitrary: life c st sent)
  case (Cons p batch)
  obtain uid tg where p: "p = (uid, tg)"
    by fastforce
  from Cons.prems [unfolded p] show ?case
    by (cases rule: deliver_batchE) (auto dest: Cons.IH)
qed simp

lemma deliver_life:
  "deliver_batch send pid batch life c st = (sent, Continues (Some (n, e)) c' st') \<Longrightarrow> \<exists>n. life = Some (n, e)"
proof (induction batch arbitrary: life c st sent)
  case (Cons p batch)
  obtain uid tg where p: "p = (uid, tg)"
    by fastforce
  from Cons.prems [unfolded p] show ?case
    by (cases rule: deliver_batchE) (auto dest: Cons.IH)
qed simp

lemma deliver_row:
  assumes "deliver_batch send pid batch life c st = (sent, r)" and "row_at st pid c audience k"
    and "distinct (user_keys st)" and "map fst batch @ rest = targets audience now c st"
  shows "\<exists>main. deliveries_of r main sent \<and> row_at (final_state r) pid (last (c # main)) audience (k + int (length main))
     \<and> user_keys (final_state r) = user_keys st
     \<and> main @ targets audience now (last (c # main)) (final_state r) = targets audience now c st"
  using assms
proof (induction batch arbitrary: life c st sent k)
  case Nil
  then show ?case
    by (intro exI [of _ "[]"]) auto
next
  case (Cons p batch)
  obtain uid tg where p: "p = (uid, tg)"
    by fastforce
  from Cons.prems(1) [unfolded p] show ?case
  proof (cases rule: deliver_batchE)
    case (dies e)
    then show ?thesis
      using Cons.prems by (intro exI [of _ "[]"]) auto
  next
    case (goes_on later life1)
    let ?st = "save_checkpoint pid uid (send_to send tg) st"
    have next_targets: "targets audience now uid ?st = map fst batch @ rest"
      using Cons.prems(3,4) targets_rest [OF Cons.prems(3), of audience now c uid]
        checkpoint_targets [OF Cons.prems(3) order_refl] by (simp add: p)
    have row: "row_at ?st pid uid audience (k + 1)" "distinct (user_keys ?st)"
      using checkpoint_row [OF Cons.prems(2)] Cons.prems(3) by simp_all
    obtain main where main: "deliveries_of r main later"
      "row_at (final_state r) pid (last (uid # main)) audience (k + 1 + int (length main))"
      "user_keys (final_state r) = user_keys ?st"
      "main @ targets audience now (last (uid # main)) (final_state r) = targets audience now uid ?st"
      using Cons.IH [OF goes_on(2) row next_targets [symmetric]] by blast
    have "deliveries_of r (uid # main) sent"
      using attempts_of_append [OF main(1), of "[uid]"] goes_on(1) by simp
    then show ?thesis
      using main(2-4) next_targets Cons.prems(4) by (intro exI [of _ "uid # main"]) (simp add: p add.assoc)
  qed
qed

subsection \<open>The loop\<close>

lemma batch_targets:
  "map fst (get_next_batch audience now c (tables st)) @ map fst (drop BATCH_LIMIT (recipients audience now c (tables st)))
     = targets audience now c st"
  by (simp add: get_next_batch_def targets_def flip: map_append)

lemma length_filter_strict:
  "(\<And>x. P x \<Longrightarrow> Q x) \<Longrightarrow> y \<in> set xs \<Longrightarrow> Q y \<Longrightarrow> \<not> P y \<Longrightarrow> length (filter P xs) < length (filter Q xs)"
proof (induction xs)
  case (Cons x xs)
  have "length (filter P xs) \<le> length (filter Q xs)" for xs
    using Cons.prems(1) by (induction xs) auto
  then show ?case
    using Cons by (auto simp: less_Suc_eq_le)
qed simp

lemma loop_returns:
  "length (filter (\<lambda>i. c < i) (user_keys st)) < n \<Longrightarrow> broadcast_loop n clock send pid audience life c st \<noteq> None"
proof (induction n arbitrary: life c st)
  case (Suc n)
  define batch where "batch = get_next_batch audience (clock c) c (tables st)"
  obtain sent r where run: "deliver_batch send pid batch life c st = (sent, r)"
    by fastforce
  show ?case
  proof (cases "batch = []")
    case False
    show ?thesis
    proof (cases r)
      case (Continues life' c' st')
      note step = deliver_continues [OF run [unfolded Continues]]
      then have "c' \<in> set (map fst batch)"
        using False by (simp del: set_map)
      moreover have "set (map fst batch) \<subseteq> {i \<in> set (user_keys st). c < i}"
        by (auto simp: batch_def get_next_batch_def recipients_def user_keys_def dest!: in_set_takeD)
      ultimately have "c' \<in> set (user_keys st)" "c < c'"
        by auto
      then have "length (filter (\<lambda>i. c' < i) (user_keys st)) < length (filter (\<lambda>i. c < i) (user_keys st))"
        by (intro length_filter_strict [of _ _ c']) auto
      then have "broadcast_loop n clock send pid audience life' c' st' \<noteq> None"
        using Suc.prems step by (intro Suc.IH) simp
      then obtain a b where "broadcast_loop n clock send pid audience life' c' st' = Some (a, b)"
        by auto
      then show ?thesis
        using run False by (simp add: Let_def batch_def [symmetric] Continues)
    next
      case (Ended e st')
      then show ?thesis
        using run False by (simp add: Let_def batch_def [symmetric])
    qed
  qed (simp add: Let_def batch_def [symmetric])
qed simp

lemma loop_ended:
  "broadcast_loop n clock send pid audience life c st = Some (sent, Ended e st') \<Longrightarrow> \<exists>n. life = Some (n, e)"
proof (induction n arbitrary: life c st sent)
  case (Suc n)
  define batch where "batch = get_next_batch audience (clock c) c (tables st)"
  obtain first r1 where run: "deliver_batch send pid batch life c st = (first, r1)"
    by fastforce
  show ?case
  proof (cases r1)
    case (Ended e' st1)
    then show ?thesis
      using Suc.prems deliver_ended [OF run [unfolded Ended]] run
      by (auto simp: Let_def batch_def [symmetric] split: if_split_asm)
  next
    case (Continues life1 c1 st1)
    then obtain later where "broadcast_loop n clock send pid audience life1 c1 st1 = Some (later, Ended e st')"
      using Suc.prems run by (auto simp: Let_def batch_def [symmetric] split: if_split_asm)
    then obtain m where "life1 = Some (m, e)"
      using Suc.IH by blast
    then show ?thesis
      using deliver_life run unfolding Continues by blast
  qed
qed simp

lemma sorted_join:
  "sorted_wrt (<) (c # xs) \<Longrightarrow> sorted_wrt (<) (last (c # xs) # ys) \<Longrightarrow> sorted_wrt (<) ((c::int) # xs @ ys)"
proof (induction xs arbitrary: c)
  case (Cons x xs)
  have "sorted_wrt (<) (x # xs)" "sorted_wrt (<) (last (x # xs) # ys)" "c < x"
    using Cons.prems by simp_all
  note this(3) Cons.IH [OF this(1,2)]
  moreover have "x < y" if "y \<in> set (xs @ ys)" for y
    using calculation(2) that by simp
  ultimately show ?case
    by (force intro: less_trans)
qed simp

lemma last_join: "last (c # xs @ ys) = last (last (c # xs) # ys)"
  by (cases ys) auto

text \<open>What one run does, from a running row: \<open>main\<close> are the checkpointed recipients.\<close>

definition progressed ::
  "int \<Rightarrow> string \<Rightarrow> (int \<Rightarrow> instant) \<Rightarrow> int \<Rightarrow> int \<Rightarrow> bot_state \<Rightarrow> int list \<Rightarrow> bot_state \<Rightarrow> bool" where
  "progressed pid audience clock c k st main st' \<longleftrightarrow>
     row_at st' pid (last (c # main)) audience (k + int (length main)) \<and> user_keys st' = user_keys st
   \<and> sorted_wrt (<) (c # main)
   \<and> (\<forall>now. clock = (\<lambda>_. now) \<longrightarrow>
        main @ targets audience now (last (c # main)) st' = targets audience now c st)"

lemma deliver_progress:
  assumes "deliver_batch send pid (get_next_batch audience (clock c) c (tables st)) life c st = (sent, r)"
    and "row_at st pid c audience k" and "distinct (user_keys st)"
  shows "\<exists>main. deliveries_of r main sent \<and> progressed pid audience clock c k st main (final_state r)"
proof -
  obtain main where main: "deliveries_of r main sent"
    "row_at (final_state r) pid (last (c # main)) audience (k + int (length main))"
    "user_keys (final_state r) = user_keys st"
    "main @ targets audience (clock c) (last (c # main)) (final_state r) = targets audience (clock c) c st"
    using deliver_row [OF assms batch_targets] by blast
  have "sorted_wrt (<) (targets audience (clock c) c st)" "set (targets audience (clock c) c st) \<subseteq> {c<..}"
    using targets_sorted [OF assms(3)] by (auto simp: set_targets)
  then have "sorted_wrt (<) (c # main)"
    unfolding main(4) [symmetric] by (auto simp: sorted_wrt_append)
  moreover have "main @ targets audience now (last (c # main)) (final_state r) = targets audience now c st"
    if "clock = (\<lambda>_. now)" for now
    using main(4) by (simp only: that)
  ultimately show ?thesis
    using main(1-3) unfolding progressed_def by blast
qed

lemma progressed_trans:
  assumes "progressed pid audience clock c k st xs st1"
    and "progressed pid audience clock (last (c # xs)) (k + int (length xs)) st1 ys st2"
  shows "progressed pid audience clock c k st (xs @ ys) st2"
proof -
  define d where "d = last (c # xs)"
  have d: "last (c # xs @ ys) = last (d # ys)"
    by (simp only: last_join d_def)
  have one: "user_keys st1 = user_keys st" "sorted_wrt (<) (c # xs)"
    "\<And>now. clock = (\<lambda>_. now) \<Longrightarrow> xs @ targets audience now d st1 = targets audience now c st"
    using assms(1) unfolding progressed_def d_def by blast+
  have two: "row_at st2 pid (last (d # ys)) audience (k + int (length xs) + int (length ys))"
    "user_keys st2 = user_keys st1" "sorted_wrt (<) (d # ys)"
    "\<And>now. clock = (\<lambda>_. now) \<Longrightarrow> ys @ targets audience now (last (d # ys)) st2 = targets audience now d st1"
    using assms(2) unfolding progressed_def d_def by blast+
  show ?thesis
    unfolding progressed_def d
    using one two sorted_join [of c xs ys, folded d_def] by (simp only: append_assoc length_append of_nat_add add.assoc) simp
qed

lemma progressed_start:
  "row_at st pid c audience k \<Longrightarrow> progressed pid audience clock c k st [] st"
  by (simp add: progressed_def)

lemma loop_progress:
  assumes "broadcast_loop n clock send pid audience life c st = Some (sent, r)"
    and "row_at st pid c audience k" and "distinct (user_keys st)"
  shows "\<exists>main. deliveries_of r main sent \<and> progressed pid audience clock c k st main (final_state r)
     \<and> (\<forall>now. clock = (\<lambda>_. now) \<longrightarrow> set sent \<subseteq> set (targets audience now c st))
     \<and> (\<forall>life' c' st'. r = Continues life' c' st' \<longrightarrow> targets audience (clock c') c' st' = [] \<and> c' = last (c # main))"
  using assms
proof (induction n arbitrary: life c st sent k)
  case (Suc n)
  define batch where "batch = get_next_batch audience (clock c) c (tables st)"
  have running: "\<not> (case get_progress st pid of None \<Rightarrow> True | Some b \<Rightarrow> b_status b \<noteq> ''in_progress'')"
    using Suc.prems(2) by (auto simp: row_at_def)
  show ?case
  proof (cases "batch = []")
    case True
    then have "recipients audience (clock c) c (tables st) = []"
      by (simp add: batch_def get_next_batch_def BATCH_LIMIT_def)
    moreover have "sent = []" "r = Continues life c st"
      using Suc.prems(1) running True by (simp_all add: Let_def batch_def [symmetric])
    ultimately show ?thesis
      using progressed_start [OF Suc.prems(2)] by (intro exI [of _ "[]"]) (simp add: targets_def)
  next
    case False
    obtain first r1 where run: "deliver_batch send pid batch life c st = (first, r1)"
      by fastforce
    obtain xs where xs: "deliveries_of r1 xs first" "progressed pid audience clock c k st xs (final_state r1)"
      using deliver_progress [where clock = clock and c = c, OF run [unfolded batch_def] Suc.prems(2,3)] by blast
    have first: "set first \<subseteq> set (targets audience now c st)" if "clock = (\<lambda>_. now)" for now
      using deliver_sent [OF run] set_take_subset [of BATCH_LIMIT "recipients audience now c (tables st)"]
      by (auto simp: batch_def get_next_batch_def targets_def that)
    show ?thesis
    proof (cases r1)
      case (Ended e st1)
      then have "sent = first" "r = r1"
        using Suc.prems(1) running False run by (simp_all add: Let_def batch_def [symmetric])
      then show ?thesis
        using xs Ended first by (intro exI [of _ xs]) simp
    next
      case (Continues life1 c1 st1)
      have step: "first = xs" "c1 = last (c # xs)"
        using deliver_continues [OF run [unfolded Continues]] xs(1) by (auto simp: Continues)
      obtain later where later: "broadcast_loop n clock send pid audience life1 c1 st1 = Some (later, r)"
        "sent = first @ later"
        using Suc.prems(1) running False run by (auto simp: Let_def batch_def [symmetric] Continues)
      have st1: "row_at st1 pid c1 audience (k + int (length xs))" "distinct (user_keys st1)"
        using xs(2) Suc.prems(3) step by (auto simp: progressed_def Continues)
      obtain ys where ys: "deliveries_of r ys later"
        "progressed pid audience clock c1 (k + int (length xs)) st1 ys (final_state r)"
        "\<forall>now. clock = (\<lambda>_. now) \<longrightarrow> set later \<subseteq> set (targets audience now c1 st1)"
        "\<forall>life' c' st'. r = Continues life' c' st' \<longrightarrow> targets audience (clock c') c' st' = [] \<and> c' = last (c1 # ys)"
        using Suc.IH [OF later(1) st1] by blast
      have "progressed pid audience clock c k st (xs @ ys) (final_state r)"
        using progressed_trans [OF xs(2) [unfolded Continues final_state.simps]] ys(2) step(2) by simp
      moreover have "set sent \<subseteq> set (targets audience now c st)" if "clock = (\<lambda>_. now)" for now
      proof -
        have "xs @ targets audience now c1 st1 = targets audience now c st"
          using xs(2) that unfolding progressed_def Continues final_state.simps step(2) by blast
        then have "set (targets audience now c1 st1) \<subseteq> set (targets audience now c st)"
          by (metis set_append sup_ge2)
        then show ?thesis
          using first [OF that] ys(3) that later(2) by auto
      qed
      ultimately show ?thesis
        using attempts_of_append [OF ys(1), of xs] ys(4) step later(2)
        by (intro exI [of _ "xs @ ys"]) (simp add: last_join del: last.simps)
    qed
  qed
qed simp

subsection \<open>One life\<close>

definition closed :: "bot_state \<Rightarrow> int \<Rightarrow> bool" where
  "closed st pid \<longleftrightarrow> (case get_progress st pid of None \<Rightarrow> True | Some b \<Rightarrow> b_status b \<noteq> ''in_progress'')"

fun cut_off :: "life \<Rightarrow> bool" where
  "cut_off None = False"
| "cut_off (Some (n, e)) = (e \<noteq> Killed_Before_Send)"

lemma memory_irrelevant [simp]:
  "get_progress (release pid admin st) = get_progress st" "tables (release pid admin st) = tables st"
  "get_progress (claimed pid admin st) = get_progress st" "tables (claimed pid admin st) = tables st"
  "get_progress (new_process st) = get_progress st" "tables (new_process st) = tables st"
  "active_progress_ids (new_process st) = []"
  by (simp_all add: release_def claimed_def new_process_def get_progress_def fun_eq_iff)

lemma tables_irrelevant:
  "tables st' = tables st \<Longrightarrow> user_keys st' = user_keys st \<and> targets audience now c st' = targets audience now c st"
  by (simp add: user_keys_def targets_def)

lemma row_at_same: "get_progress st' pid = get_progress st pid \<Longrightarrow> row_at st' pid c audience k = row_at st pid c audience k"
  by (simp add: row_at_def)

lemma send_returns: "send_broadcast_to_users_with_resume clock send life pid admin st \<noteq> None"
proof -
  have "broadcast_loop (enough_rounds st) clock send pid audience life c (claimed pid admin st) \<noteq> None" for audience c
    by (rule loop_returns) (simp add: enough_rounds_def user_keys_def less_Suc_eq_le length_filter_le [THEN order_trans])
  then show ?thesis
    by (simp add: send_broadcast_to_users_with_resume_def split: option.split)
qed

lemma send_closed:
  assumes "closed st pid" and "send_broadcast_to_users_with_resume clock send life pid admin (new_process st) = Some (sent, st')"
  shows "sent = [] \<and> get_progress st' = get_progress st \<and> tables st' = tables st"
  using assms by (auto simp: send_broadcast_to_users_with_resume_def closed_def split: option.split_asm)

text \<open>A life leaves the row running when the process was killed, completed when nobody is left, and
  stopped after an error of the database.\<close>

definition advanced :: "string \<Rightarrow> (int \<Rightarrow> instant) \<Rightarrow> int \<Rightarrow> bot_state \<Rightarrow> int list \<Rightarrow> bot_state \<Rightarrow> bool" where
  "advanced audience clock c st main st' \<longleftrightarrow>
     user_keys st' = user_keys st \<and> sorted_wrt (<) (c # main)
   \<and> (\<forall>now. clock = (\<lambda>_. now) \<longrightarrow> main @ targets audience now (last (c # main)) st' = targets audience now c st)"

lemma progressed_advanced:
  "progressed pid audience clock c k st main st1 \<Longrightarrow> tables st' = tables st1 \<Longrightarrow> advanced audience clock c st main st'"
  using tables_irrelevant [of st' st1] unfolding progressed_def advanced_def by presburger

definition completed :: "bot_state \<Rightarrow> int \<Rightarrow> int \<Rightarrow> bool" where
  "completed st pid k \<longleftrightarrow>
     (\<exists>b. get_progress st pid = Some b \<and> b_status b = ''completed'' \<and> b_success_count b + b_fail_count b = k)"

lemma send_running:
  assumes run: "send_broadcast_to_users_with_resume clock send life pid admin (new_process st) = Some (sent, st')"
    and row: "row_at st pid c audience k" and keys: "distinct (user_keys st)"
  shows "\<exists>main. advanced audience clock c st main st'
     \<and> (sent = main \<or> cut_off life \<and> (\<exists>i. sent = main @ [i]))
     \<and> (\<forall>now. clock = (\<lambda>_. now) \<longrightarrow> set sent \<subseteq> set (targets audience now c st))
     \<and> (row_at st' pid (last (c # main)) audience (k + int (length main)) \<and> life \<noteq> None
        \<or> completed st' pid (k + int (length main)) \<and> targets audience (clock (last (c # main))) (last (c # main)) st' = []
        \<or> closed st' pid \<and> (\<exists>n. life = Some (n, Database_Error)))"
proof -
  let ?st = "claimed pid admin (new_process st)"
  have st: "row_at ?st pid c audience k" "distinct (user_keys ?st)" "\<And>now. targets audience now c ?st = targets audience now c st"
    "user_keys ?st = user_keys st"
    using row keys by (simp_all add: row_at_def user_keys_def targets_def)
  obtain r where loop: "broadcast_loop (enough_rounds (new_process st)) clock send pid audience life c ?st = Some (sent, r)"
    and st': "st' = close_broadcast pid admin r"
    using run row by (auto simp: send_broadcast_to_users_with_resume_def row_at_def)
  obtain main where main: "deliveries_of r main sent" "progressed pid audience clock c k ?st main (final_state r)"
    "\<forall>now. clock = (\<lambda>_. now) \<longrightarrow> set sent \<subseteq> set (targets audience now c ?st)"
    "\<forall>life' c' st'. r = Continues life' c' st' \<longrightarrow> targets audience (clock c') c' st' = [] \<and> c' = last (c # main)"
    using loop_progress [OF loop st(1,2)] by blast
  have tables: "tables st' = tables (final_state r)"
    by (simp add: st' close_broadcast_def split: batch_delivery.split)
  have "advanced audience clock c st main st'"
    using progressed_advanced [OF main(2) tables] st by (simp add: advanced_def)
  moreover have row': "row_at (final_state r) pid (last (c # main)) audience (k + int (length main))"
    using main(2) unfolding progressed_def by blast
  moreover have "set sent \<subseteq> set (targets audience now c st)" if "clock = (\<lambda>_. now)" for now
    using main(3) [unfolded st(3), rule_format, OF that] .
  moreover have "(sent = main \<or> cut_off life \<and> (\<exists>i. sent = main @ [i]))
     \<and> (row_at st' pid (last (c # main)) audience (k + int (length main)) \<and> life \<noteq> None
        \<or> completed st' pid (k + int (length main)) \<and> targets audience (clock (last (c # main))) (last (c # main)) st' = []
        \<or> closed st' pid \<and> (\<exists>n. life = Some (n, Database_Error)))"
  proof (cases r)
    case (Continues life' c' st1)
    have "completed st' pid (k + int (length main))"
      using row' by (auto simp: completed_def row_at_def st' close_broadcast_def Continues get_set_progress)
    moreover have "targets audience (clock (last (c # main))) (last (c # main)) st' = []"
      using main(4) tables_irrelevant [OF tables] unfolding Continues final_state.simps by metis
    ultimately show ?thesis
      using main(1) by (simp add: Continues)
  next
    case (Ended e st1)
    obtain n where life: "life = Some (n, e)"
      using loop_ended [OF loop [unfolded Ended]] by blast
    show ?thesis
    proof (cases "e = Database_Error")
      case True
      have "closed st' pid"
        using row' by (auto simp: closed_def row_at_def st' close_broadcast_def Ended True get_set_progress stop_if_running_def)
      then show ?thesis
        using main(1) life True by (auto simp: Ended)
    next
      case False
      have "row_at st' pid (last (c # main)) audience (k + int (length main))"
        using row' False by (simp add: row_at_def st' close_broadcast_def Ended)
      then show ?thesis
        using main(1) life by (auto simp: Ended split: if_split_asm)
    qed
  qed
  ultimately show ?thesis
    by blast
qed

subsection \<open>All lives\<close>


lemma lives_return: "broadcast_lives ls pid admin st \<noteq> None"
proof (induction ls arbitrary: st)
  case (Cons l ls)
  obtain clock send life where l: "l = (clock, send, life)"
    by (metis prod_cases3)
  obtain sent st1 where "send_broadcast_to_users_with_resume clock send life pid admin (new_process st) = Some (sent, st1)"
    using send_returns [of clock send life pid admin "new_process st"] by fastforce
  moreover obtain later st2 where "broadcast_lives ls pid admin st1 = Some (later, st2)"
    using Cons.IH [of st1] by fastforce
  ultimately show ?case
    by (simp add: l)
qed simp

lemma lives_ConsE:
  assumes "broadcast_lives ((clock, send, life) # ls) pid admin st = Some (sent, st')"
  obtains now_sent later st1 where "sent = now_sent @ later"
    "send_broadcast_to_users_with_resume clock send life pid admin (new_process st) = Some (now_sent, st1)"
    "broadcast_lives ls pid admin st1 = Some (later, st')"
  using assms by (auto split: option.split_asm)

lemma lives_closed:
  "closed st pid \<Longrightarrow> broadcast_lives ls pid admin st = Some (sent, st') \<Longrightarrow>
   sent = [] \<and> get_progress st' = get_progress st \<and> tables st' = tables st"
proof (induction ls arbitrary: st sent)
  case (Cons l ls)
  obtain clock send life where l: "l = (clock, send, life)"
    by (metis prod_cases3)
  from Cons.prems(2) [unfolded l] show ?case
  proof (cases rule: lives_ConsE)
    case (1 now_sent later st1)
    note first = send_closed [OF Cons.prems(1) 1(2)]
    then have "closed st1 pid"
      using Cons.prems(1) by (simp add: closed_def)
    then show ?thesis
      using Cons.IH [OF _ 1(3)] first 1(1) by simp
  qed
qed simp

lemma completed_closed: "completed st pid k \<Longrightarrow> closed st pid"
  by (auto simp: completed_def closed_def)



text \<open>The last life is not killed, and no earlier one met an error of the database.\<close>

definition undisturbed :: "instant \<Rightarrow> ((int \<Rightarrow> instant) \<times> sender \<times> life) list \<Rightarrow> bool" where
  "undisturbed now ls \<longleftrightarrow>
     ls \<noteq> [] \<and> snd (snd (last ls)) = None
   \<and> list_all (\<lambda>(clock, send, life). clock = (\<lambda>_. now)
       \<and> (case life of None \<Rightarrow> True | Some (n, e) \<Rightarrow> e \<noteq> Database_Error)) ls"

lemma lives_reach:
  assumes "broadcast_lives ls pid admin st = Some (sent, st')" and "distinct (user_keys st)"
    and "row_at st pid c audience k" and "undisturbed now ls"
  shows "set sent = set (targets audience now c st) \<and> completed st' pid (k + int (length (targets audience now c st)))"
  using assms
proof (induction ls arbitrary: st sent c k)
  case (Cons l ls)
  obtain clock send life where l: "l = (clock, send, life)"
    by (metis prod_cases3)
  have clock: "clock = (\<lambda>_. now)" and no_error: "\<not> (\<exists>n. life = Some (n, Database_Error))"
    using Cons.prems(4) by (auto simp: undisturbed_def l)
  from Cons.prems(1) [unfolded l] show ?case
  proof (cases rule: lives_ConsE)
    case (1 now_sent later st1)
    obtain main where main: "advanced audience clock c st main st1"
      "now_sent = main \<or> cut_off life \<and> (\<exists>i. now_sent = main @ [i])"
      "set now_sent \<subseteq> set (targets audience now c st)"
      "row_at st1 pid (last (c # main)) audience (k + int (length main)) \<and> life \<noteq> None
       \<or> completed st1 pid (k + int (length main)) \<and> targets audience now (last (c # main)) st1 = []"
      using send_running [OF 1(2) Cons.prems(3,2)] clock no_error by blast
    define d where "d = last (c # main)"
    have split: "targets audience now c st = main @ targets audience now d st1" and keys: "distinct (user_keys st1)"
      using main(1) Cons.prems(2) clock unfolding advanced_def d_def by auto
    have one: "set main \<subseteq> set now_sent"
      using main(2) by auto
    from main(4) [folded d_def] show ?thesis
    proof
      assume running: "row_at st1 pid d audience (k + int (length main)) \<and> life \<noteq> None"
      then have "undisturbed now ls"
        using Cons.prems(4) by (auto simp: undisturbed_def l split: if_split_asm)
      then have "set later = set (targets audience now d st1)"
        "completed st' pid (k + int (length main) + int (length (targets audience now d st1)))"
        using Cons.IH [OF 1(3) keys] running by blast+
      then show ?thesis
        using one main(3) 1(1) split by (auto simp: add.assoc)
    next
      assume finished: "completed st1 pid (k + int (length main)) \<and> targets audience now d st1 = []"
      then have "later = []" "get_progress st' = get_progress st1"
        using lives_closed [OF completed_closed 1(3)] by auto
      then show ?thesis
        using finished one main(3) 1(1) split by (auto simp: completed_def)
    qed
  qed
qed (simp add: undisturbed_def)

text \<open>C13. A broadcast that is not disturbed reaches its audience.  Undisturbed means that in every life the
  clock shows the same time and the tables hold the same audience, that no database error strikes
  before a checkpoint or in one, and that the last life is not killed; earlier lives may be killed
  anywhere.  Then the last life ends with the broadcast completed, exactly the users of the audience
  after the cursor addressed, and each of them counted once.\<close>

theorem broadcast_reaches_audience:
  assumes "distinct (map u_id (users (tables st)))" and "get_progress st pid = Some b" and "b_status b = ''in_progress''"
    and "undisturbed now ls"
  shows "\<exists>sent st' b'. broadcast_lives ls pid admin st = Some (sent, st')
     \<and> set sent = fst ` set (recipients (b_target_audience b) now (b_last_processed_id b) (tables st))
     \<and> get_progress st' pid = Some b' \<and> b_status b' = ''completed''
     \<and> b_success_count b' + b_fail_count b' = b_success_count b + b_fail_count b
         + int (length (recipients (b_target_audience b) now (b_last_processed_id b) (tables st)))"
proof -
  obtain sent st' where run: "broadcast_lives ls pid admin st = Some (sent, st')"
    using lives_return [of ls pid admin st] by fastforce
  have "row_at st pid (b_last_processed_id b) (b_target_audience b) (b_success_count b + b_fail_count b)"
    using assms(2,3) by (simp add: row_at_def)
  from lives_reach [OF run _ this assms(4)] assms(1) show ?thesis
    using run by (auto simp: user_keys_def targets_def completed_def)
qed

text \<open>A draft without text is never launched: a sticker, a video note or any medium without a caption passes the
  checks of the draft and is shown for confirmation, but the launch refuses it as empty, whatever the
  state.\<close>

theorem media_only_never_starts:
  assumes "m_media m = Some (kind, file)" and "m_text m = None" and "m_caption m = None"
  shows "\<exists>d. process_broadcast_message True audience m = Drafted d
     \<and> fst (start_broadcast_process admin d label now st) \<in> {Error_Text_Empty, Already_Running}"
  using assms
  by (simp add: process_broadcast_message_def or_text_def start_broadcast_process_def)

subsection \<open>Concrete cases\<close>

definition sample_broadcast :: broadcast where
  "sample_broadcast = \<lparr>b_id = 1, b_admin_id = 7, b_total_count = 2, b_success_count = 0, b_fail_count = 0,
     b_last_processed_id = 0, b_target_audience = ''all'', broadcast_text = ''Hello'', b_media_id = None,
     b_content_type = ''text'', b_label = ''all'', b_status = ''in_progress'', b_created_at = 0\<rparr>"

definition sample_bot :: bot_state where
  "sample_bot = \<lparr>progress = [sample_broadcast], progress_seq = 1, tables = sample_db,
     active_progress_ids = [], broadcast_in_progress = []\<rparr>"

text \<open>The first process is killed after it sent to user 1 and before it noted that.\<close>

definition sample_lives :: "((int \<Rightarrow> instant) \<times> sender \<times> life) list" where
  "sample_lives = [(\<lambda>_. 0, \<lambda>_ _ _. Tg_Sent, Some (0, Killed_After_Send)), (\<lambda>_. 0, \<lambda>_ _ _. Tg_Sent, None)]"


lemma sample_bot_facts:
  "distinct (map u_id (users (tables sample_bot)))" "get_progress sample_bot 1 = Some sample_broadcast"
  "map fst (recipients ''all'' 0 0 (tables sample_bot)) = [1, 2]"
  by code_simp+

lemma sample_undisturbed: "undisturbed 0 sample_lives"
  by (simp add: undisturbed_def sample_lives_def)


theorem broadcast_reaches_audience_witness:
  "\<exists>sent st' b'. broadcast_lives sample_lives 1 7 sample_bot = Some (sent, st') \<and> set sent = {1, 2}
     \<and> get_progress st' 1 = Some b' \<and> b_success_count b' + b_fail_count b' = 2"
proof -
  have "b_status sample_broadcast = ''in_progress''" "b_target_audience sample_broadcast = ''all''"
    "b_last_processed_id sample_broadcast = 0" "b_success_count sample_broadcast + b_fail_count sample_broadcast = 0"
    by (simp_all add: sample_broadcast_def)
  moreover have "fst ` set (recipients ''all'' 0 0 (tables sample_bot)) = {1, 2}"
    "length (recipients ''all'' 0 0 (tables sample_bot)) = 2"
    using sample_bot_facts(3) by (metis list.set_map list.simps(15) set_empty, metis length_map length_Cons list.size(3) numeral_2_eq_2)
  ultimately show ?thesis
    using broadcast_reaches_audience [OF sample_bot_facts(1,2) _ sample_undisturbed, of 7] by auto
qed

definition sample_sticker :: message_in where
  "sample_sticker = \<lparr>m_text = None, m_caption = None, m_content_type = ''sticker'', m_media = Some (''sticker'', ''file-1'')\<rparr>"

theorem media_only_never_starts_witness:
  "\<exists>d. process_broadcast_message True ''all'' sample_sticker = Drafted d
     \<and> fst (start_broadcast_process 7 d ''all'' 0 (sample_bot\<lparr>progress := []\<rparr>)) \<in> {Error_Text_Empty, Already_Running}"
  by (rule media_only_never_starts [of _ "''sticker''" "''file-1''"]) (simp_all add: sample_sticker_def)

end
