(* ===== verification/Mass_Actions.thy ===== *)
theory Mass_Actions
  imports Broadcast
begin

section \<open>bot/handlers/admin/users/mass\_bonus.py and mass\_extend.py\<close>

text \<open>
  The two tasks an administrator starts for many users: a bonus on the balance and more days on the
  subscriptions.  Both work in chunks of 50 users, each user in a savepoint of its own, and tell the users
  after the chunk has committed.  What Telegram answers and the times are arguments; the order of
  the users in a bonus, which the query leaves open, is the order of the table.  The menus, the texts and the report to the
  administrator are not modelled.
\<close>

definition CHUNK_SIZE :: nat where "CHUNK_SIZE = 50"

definition chunks :: "'a list \<Rightarrow> 'a list list" where
  "chunks xs =
     map (\<lambda>i. take CHUNK_SIZE (drop (i * CHUNK_SIZE) xs)) [0..<(length xs + CHUNK_SIZE - 1) div CHUNK_SIZE]"

record mass_counts =
  succeeded :: int
  failed :: int
  blocked :: int

definition no_counts :: mass_counts where
  "no_counts = \<lparr>succeeded = 0, failed = 0, blocked = 0\<rparr>"

text \<open>One savepoint: an exception rolls it back and is counted; \<open>True\<close>: the user is told.\<close>

definition in_savepoint ::
  "(db \<Rightarrow> pyerr + bool \<times> db) \<Rightarrow> mass_counts \<times> db \<Rightarrow> bool \<times> mass_counts \<times> db" where
  "in_savepoint f p =
     (let (c, s) = p in
      case f s of
        Inl err \<Rightarrow> (False, c\<lparr>failed := failed c + 1\<rparr>, s)
      | Inr (done, t) \<Rightarrow> (done, if done then c\<lparr>succeeded := succeeded c + 1\<rparr> else c, t))"

fun handle_chunk ::
  "(int \<times> int \<Rightarrow> db \<Rightarrow> pyerr + bool \<times> db) \<Rightarrow> (int \<times> int) list \<Rightarrow> mass_counts \<times> db
   \<Rightarrow> (int \<times> int) list \<times> mass_counts \<times> db" where
  "handle_chunk f [] p = ([], p)"
| "handle_chunk f (u # us) p =
     (let (done, p) = in_savepoint (f u) p; (told, p) = handle_chunk f us p in
      (if done then u # told else told, p))"

text \<open>The messages of a chunk; a user whose chat is closed is noted as blocked.\<close>

definition notify_result :: "sender \<Rightarrow> int \<Rightarrow> tg_answer" where
  "notify_result send tg = (case send 0 True tg of Tg_Retry_After \<Rightarrow> send 1 True tg | r \<Rightarrow> r)"

definition notify_told :: "sender \<Rightarrow> int \<Rightarrow> (int \<times> int) list \<Rightarrow> mass_counts \<times> db \<Rightarrow> mass_counts \<times> db" where
  "notify_told send admin told p =
     (let (c, s) = p;
          closed = filter (\<lambda>(uid, tg). tg \<noteq> 0 \<and> tg \<noteq> admin \<and> notify_result send tg = Tg_Forbidden) told in
      (c\<lparr>blocked := blocked c + int (length closed)\<rparr>, fold (\<lambda>(uid, tg). mark_bot_blocked uid) closed s))"

definition handle_users ::
  "(int \<times> int \<Rightarrow> db \<Rightarrow> pyerr + bool \<times> db) \<Rightarrow> sender \<Rightarrow> int \<Rightarrow> (int \<times> int) list \<Rightarrow> db \<Rightarrow> mass_counts \<times> db" where
  "handle_users f send admin us s =
     fold (\<lambda>chunk p. let (told, p) = handle_chunk f chunk p in notify_told send admin told p)
       (chunks us) (no_counts, s)"

definition reachable_users :: "(user \<Rightarrow> bool) \<Rightarrow> db \<Rightarrow> (int \<times> int) list" where
  "reachable_users P s =
     map (\<lambda>u. (u_id u, telegram_id u)) (filter (\<lambda>u. \<not> is_deleted u \<and> \<not> is_banned u \<and> P u) (users s))"

definition audit_reason :: "string \<Rightarrow> string \<Rightarrow> string" where
  "audit_reason target_aud reason =
     (if target_aud = [] then reason else ''['' @ target_aud @ ''] '' @ reason)"

subsection \<open>The bonus\<close>

definition mass_bonus_key :: "string \<Rightarrow> int \<Rightarrow> int \<Rightarrow> string" where
  "mass_bonus_key batch uid amt = ''mass_bonus_'' @ batch @ ''_'' @ str_int uid @ ''_'' @ str_int amt"

record mass_request =
  by_admin :: int
  target_aud :: string
  batch_id :: string
  reason :: string

definition bonus_meta :: "mass_request \<Rightarrow> meta" where
  "bonus_meta r =
     [''admin_id'' \<mapsto> JInt (by_admin r), ''reason'' \<mapsto> JStr (reason r),
      ''batch_id'' \<mapsto> JStr (batch_id r), ''target_aud'' \<mapsto> JStr (target_aud r)]"

definition grant_bonus :: "mass_request \<Rightarrow> int \<Rightarrow> instant \<Rightarrow> int \<times> int \<Rightarrow> db \<Rightarrow> pyerr + bool \<times> db" where
  "grant_bonus r amt now u s =
     and_then
       (create_admin_adjustment (fst u) (rubles (of_int amt)) (mass_bonus_key (batch_id r) (fst u) amt) (bonus_meta r)
          now s)
       (\<lambda>(e, created) s. Inr (created, s))"

definition bonus_audience :: "mass_request \<Rightarrow> instant \<Rightarrow> db \<Rightarrow> (int \<times> int) list" where
  "bonus_audience r now s =
     reachable_users (apply_mass_bonus_audience_filter (target_aud r) now None s) s"

definition run_mass_bonus_background ::
  "mass_request \<Rightarrow> int \<Rightarrow> sender \<Rightarrow> instant \<Rightarrow> db \<Rightarrow> mass_counts \<times> db" where
  "run_mass_bonus_background r amt send now s =
     (let (c, s) = handle_users (grant_bonus r amt now) send (by_admin r) (bonus_audience r now s) s in
      (c, log_action (by_admin r) MASS_BONUS_GRANTED ''User'' 0
            [''amount'' \<mapsto> JInt amt, ''count'' \<mapsto> JInt (succeeded c), ''batch_id'' \<mapsto> JStr (batch_id r),
             ''reason'' \<mapsto> JStr (audit_reason (target_aud r) (reason r))] s))"

text \<open>The recipients the administrator is asked to confirm; the row of a server is known here.\<close>

definition preview_count :: "mass_request \<Rightarrow> instant \<Rightarrow> db \<Rightarrow> nat" where
  "preview_count r now s =
     (let srv = (if starts_with ''server_'' (target_aud r)
                 then get_server s (server_of_audience (second_part (target_aud r))) else None) in
      length (reachable_users (apply_mass_bonus_audience_filter (target_aud r) now srv s) s))"

subsection \<open>The extension\<close>

definition extend_vpn_of :: "int \<Rightarrow> int \<Rightarrow> instant \<Rightarrow> user \<Rightarrow> db \<Rightarrow> pyerr + bool \<times> db" where
  "extend_vpn_of tg days now u s =
     (if vpn_ends (\<lambda>t. now < t) u
      then and_then (extend_subscription tg days None None now s) (\<lambda>res s. Inr (res \<noteq> None, s))
      else Inr (False, s))"

definition extend_wi_of :: "int \<Rightarrow> int \<Rightarrow> instant \<Rightarrow> db \<Rightarrow> pyerr + bool \<times> db" where
  "extend_wi_of uid days now s =
     (case get_wi_by_user_id uid s of
        None \<Rightarrow> Inr (False, s)
      | Some w \<Rightarrow>
          if \<not> is_trial w \<and> w_status w = WI_ACTIVE \<and> now < expires_at w
          then and_then (extend_subscription_atomic (w_id w) days now s) (\<lambda>_ s. Inr (True, s))
          else Inr (False, s))"

definition extend_both :: "int \<Rightarrow> int \<Rightarrow> int \<Rightarrow> instant \<Rightarrow> user \<Rightarrow> db \<Rightarrow> pyerr + bool \<times> db" where
  "extend_both uid tg days now u s =
     and_then (extend_vpn_of tg days now u s) (\<lambda>a s.
       and_then (extend_wi_of uid days now s) (\<lambda>b s. Inr (a \<or> b, s)))"

definition extend_user ::
  "string \<Rightarrow> server option \<Rightarrow> int \<Rightarrow> (int \<Rightarrow> instant) \<Rightarrow> int \<times> int \<Rightarrow> db \<Rightarrow> pyerr + bool \<times> db" where
  "extend_user aud srv days clock p s =
     (let (uid, tg) = p; now = clock uid in
      case get_user s uid of
        None \<Rightarrow> Inr (False, s)
      | Some u \<Rightarrow>
          if is_deleted u \<or> is_banned u then Inr (False, s)
          else if aud = ''active_standard'' then extend_vpn_of tg days now u s
          else if aud = ''active_wi'' then extend_wi_of uid days now s
          else if aud = ''active_all'' then extend_both uid tg days now u s
          else if starts_with ''server_'' aud then
            (case srv of
               None \<Rightarrow> Inr (False, s)
             | Some r \<Rightarrow>
                 if is_white_internet_origin_server r then extend_wi_of uid days now s
                 else if is_vless_capable_server r then extend_vpn_of tg days now u s
                 else Inr (False, s))
          else Inr (False, s))"

definition extension_audience :: "string \<Rightarrow> instant \<Rightarrow> server option \<Rightarrow> db \<Rightarrow> (int \<times> int) list" where
  "extension_audience aud now srv s =
     map (\<lambda>u. (u_id u, telegram_id u))
       (sort_key u_id (filter (\<lambda>u. \<not> is_deleted u \<and> \<not> is_banned u
          \<and> build_mass_extend_audience_filter aud now srv s u) (users s)))"

definition extension_meta :: "mass_request \<Rightarrow> int \<Rightarrow> mass_counts \<Rightarrow> meta" where
  "extension_meta r days c =
     [''batch_id'' \<mapsto> JStr (batch_id r), ''target_aud'' \<mapsto> JStr (target_aud r), ''days'' \<mapsto> JInt days,
      ''success_count'' \<mapsto> JInt (succeeded c), ''fail_count'' \<mapsto> JInt (failed c),
      ''reason'' \<mapsto> JStr (audit_reason (target_aud r) (reason r))]"

definition run_mass_extend_background ::
  "mass_request \<Rightarrow> int \<Rightarrow> sender \<Rightarrow> instant \<Rightarrow> (int \<Rightarrow> instant) \<Rightarrow> db \<Rightarrow> mass_counts \<times> db" where
  "run_mass_extend_background r days send now clock s =
     (let by_server = starts_with ''server_'' (target_aud r);
          srv = (if by_server then get_server s (server_of_audience (second_part (target_aud r))) else None) in
      if by_server \<and> srv = None then (no_counts, s)
      else
        let us = extension_audience (target_aud r) now srv s in
        if us = [] then (no_counts, s)
        else
          let (c, s) = handle_users (extend_user (target_aud r) srv days clock) send (by_admin r) us s in
          (c, if 0 < succeeded c \<or> 0 < failed c
              then log_action (by_admin r) MASS_SUB_EXTEND ''User'' 0 (extension_meta r days c) s else s))"

end
