(* ===== verification/Mass_Theorems.thy ===== *)
theory Mass_Theorems
  imports Mass_Actions Service Samples
begin

section \<open>Properties of the actions for many users\<close>

text \<open>
  A bonus credits each user of its audience once, an extension moves the end of each active subscription
  by the days, and the two places where what is announced is not what is done.
\<close>

subsection \<open>Chunks\<close>

lemma concat_chunks [simp]: "concat (chunks xs) = xs"
proof -
  have "concat (map (\<lambda>i. take n (drop (i * n) xs)) [0..<k]) = take (k * n) xs" for n k
  proof (induction k)
    case (Suc k)
    then show ?case
      using take_add [of "k * n" n xs] by (simp add: add.commute)
  qed simp
  moreover have "length xs \<le> (length xs + CHUNK_SIZE - 1) div CHUNK_SIZE * CHUNK_SIZE"
    unfolding CHUNK_SIZE_def by presburger
  ultimately show ?thesis
    by (simp add: chunks_def)
qed

lemma mark_blocked_frame [simp]:
  "entries (mark_bot_blocked uid s) = entries s" "allocs (mark_bot_blocked uid s) = allocs s"
  "wi_subs (mark_bot_blocked uid s) = wi_subs s"
  by (simp_all add: mark_bot_blocked_def split: option.split)

lemma notify_frame [simp]:
  "entries (snd (notify_told send admin told p)) = entries (snd p)"
  "succeeded (fst (notify_told send admin told p)) = succeeded (fst p)"
  "failed (fst (notify_told send admin told p)) = failed (fst p)"
proof -
  have "entries (fold (\<lambda>(uid, tg). mark_bot_blocked uid) us s) = entries s"
    for us :: "(int \<times> int) list" and s
    by (induction us arbitrary: s) (auto split: prod.split)
  then show "entries (snd (notify_told send admin told p)) = entries (snd p)"
    by (simp add: notify_told_def Let_def split: prod.split)
qed (simp_all add: notify_told_def Let_def split: prod.split)

text \<open>The fields of a user that a message leaves alone.\<close>

lemma mark_blocked_field:
  assumes "\<And>u b. f (u\<lparr>is_bot_blocked := b\<rparr>) = f u"
  shows "map_option f (get_user (mark_bot_blocked uid s) i) = map_option f (get_user s i)"
proof (cases "get_user s uid")
  case (Some u)
  then show ?thesis
    using get_user_id [OF Some] assms by (cases "i = uid") (simp_all add: mark_bot_blocked_def)
qed (simp add: mark_bot_blocked_def)

lemma notify_field:
  assumes "\<And>u b. f (u\<lparr>is_bot_blocked := b\<rparr>) = f u"
  shows "map_option f (get_user (snd (notify_told send admin told p)) i) = map_option f (get_user (snd p) i)"
proof -
  have "map_option f (get_user (fold (\<lambda>(uid, tg). mark_bot_blocked uid) us s) i) = map_option f (get_user s i)"
    for us :: "(int \<times> int) list" and s
    by (induction us arbitrary: s) (auto simp: mark_blocked_field [OF assms] split: prod.split)
  then show ?thesis
    by (simp add: notify_told_def Let_def split: prod.split)
qed

subsection \<open>The contract of one user's step\<close>

text \<open>
  A step that succeeds for every user that is ready, where what was done for some users leaves the
  others ready: then a run does it for each user once, and neither messages nor chunks matter.
\<close>

locale each_once =
  fixes step :: "int \<times> int \<Rightarrow> db \<Rightarrow> pyerr + bool \<times> db"
    and ready :: "(int \<times> int) set \<Rightarrow> db \<Rightarrow> bool"
    and settled :: "(int \<times> int) set \<Rightarrow> db \<Rightarrow> db \<Rightarrow> bool"
  assumes step_settles: "ready {u} s \<Longrightarrow> \<exists>t. step u s = Inr (True, t) \<and> settled {u} s t"
    and settled_none: "settled {} s s"
    and settled_trans: "settled A s t \<Longrightarrow> settled B t t1 \<Longrightarrow> fst ` A \<inter> fst ` B = {} \<Longrightarrow> settled (A \<union> B) s t1"
    and still_ready: "settled A s t \<Longrightarrow> ready B s \<Longrightarrow> fst ` A \<inter> fst ` B = {} \<Longrightarrow> ready B t"
    and ready_part: "ready B s \<Longrightarrow> A \<subseteq> B \<Longrightarrow> ready A s"
    and settled_told: "settled A s t \<Longrightarrow> settled A s (snd (notify_told send admin told (c, t)))"
begin

lemma chunk_settles:
  assumes "distinct (map fst us)" and "ready (set us) s"
  shows "\<exists>c' t. handle_chunk step us (c, s) = (us, c', t)
     \<and> settled (set us) s t \<and> succeeded c' = succeeded c + int (length us) \<and> failed c' = failed c"
  using assms
proof (induction us arbitrary: c s)
  case Nil
  then show ?case
    by (simp add: settled_none)
next
  case (Cons u us)
  have apart: "fst ` {u} \<inter> fst ` set us = {}"
    using Cons.prems(1) by auto
  obtain t where t: "step u s = Inr (True, t)" "settled {u} s t"
    using step_settles [OF ready_part [OF Cons.prems(2)], of u] by auto
  have "ready (set us) t"
    by (rule still_ready [OF t(2) ready_part [OF Cons.prems(2)] apart]) auto
  then obtain c' t' where rest: "handle_chunk step us (c\<lparr>succeeded := succeeded c + 1\<rparr>, t) = (us, c', t')"
    "settled (set us) t t'" "succeeded c' = succeeded c + 1 + int (length us)" "failed c' = failed c"
    using Cons.IH [of t "c\<lparr>succeeded := succeeded c + 1\<rparr>"] Cons.prems(1) by auto
  have "handle_chunk step (u # us) (c, s) = (u # us, c', t')"
    using t(1) rest(1) by (simp add: in_savepoint_def)
  moreover have "settled (set (u # us)) s t'"
    using settled_trans [OF t(2) rest(2) apart] by simp
  ultimately show ?case
    using rest(3,4) by simp
qed

lemma chunks_settle:
  assumes "distinct (map fst (concat cs))" and "ready (set (concat cs)) s"
  shows "\<exists>c' t. fold (\<lambda>chunk p. let (told, p) = handle_chunk step chunk p in notify_told send admin told p) cs (c, s) = (c', t)
     \<and> settled (set (concat cs)) s t
     \<and> succeeded c' = succeeded c + int (length (concat cs)) \<and> failed c' = failed c"
  using assms
proof (induction cs arbitrary: c s)
  case Nil
  then show ?case
    by (simp add: settled_none)
next
  case (Cons us cs)
  have dist: "distinct (map fst us)" "distinct (map fst (concat cs))" and apart: "fst ` set us \<inter> fst ` set (concat cs) = {}"
    using Cons.prems(1) by (auto simp del: set_concat)
  have new: "ready (set us) s" "ready (set (concat cs)) s"
    by (rule ready_part [OF Cons.prems(2)]; auto)+
  obtain c1 t1 where one: "handle_chunk step us (c, s) = (us, c1, t1)"
    "settled (set us) s t1" "succeeded c1 = succeeded c + int (length us)" "failed c1 = failed c"
    using chunk_settles [OF dist(1) new(1)] by blast
  obtain c2 t2 where two: "notify_told send admin us (c1, t1) = (c2, t2)"
    by fastforce
  have t2: "settled (set us) s t2" "succeeded c2 = succeeded c1" "failed c2 = failed c1"
    using settled_told [OF one(2), of send admin us c1] notify_frame(2,3) [of send admin us "(c1, t1)"]
    by (simp_all add: two)
  obtain c3 t3 where rest: "fold (\<lambda>chunk p. let (told, p) = handle_chunk step chunk p in notify_told send admin told p) cs (c2, t2) = (c3, t3)"
    "settled (set (concat cs)) t2 t3" "succeeded c3 = succeeded c2 + int (length (concat cs))" "failed c3 = failed c2"
    using Cons.IH [OF dist(2) still_ready [OF t2(1) new(2) apart]] by blast
  have "settled (set (concat (us # cs))) s t3"
    using settled_trans [OF t2(1) rest(2) apart] by simp
  then show ?case
    using one(1,3,4) two t2(2,3) rest(1,3,4) by simp
qed

lemma run_settles:
  assumes "distinct (map fst us)" and "ready (set us) s" and "handle_users step send admin us s = (c, t)"
  shows "settled (set us) s t \<and> succeeded c = int (length us) \<and> failed c = 0"
  using chunks_settle [of "chunks us" s send admin no_counts] assms by (auto simp: handle_users_def no_counts_def)

end

subsection \<open>The bonus\<close>

lemma str_int_inj [simp]: "str_int i = str_int j \<longleftrightarrow> i = j"
  by (metis option.inject parse_str_int)

lemma mass_bonus_key_inj [simp]: "mass_bonus_key b i amt = mass_bonus_key b j amt \<longleftrightarrow> i = j"
  by (simp add: mass_bonus_key_def)

text \<open>Users that exist and were given nothing under this batch.\<close>

definition not_granted :: "mass_request \<Rightarrow> int \<Rightarrow> int set \<Rightarrow> db \<Rightarrow> bool" where
  "not_granted r amt is s \<longleftrightarrow>
     (\<forall>i\<in>is. get_user s i \<noteq> None \<and> mass_bonus_key (batch_id r) i amt \<notin> idempotency_key ` set (entries s))"

lemma grant_one:
  assumes "0 < amt" and "not_granted r amt {i} s"
  shows "\<exists>e. grant_bonus r amt now (i, tg) s = Inr (True, appended e s) \<and> e_user_id e = i
     \<and> amount e = of_int amt \<and> idempotency_key e = mass_bonus_key (batch_id r) i amt"
proof -
  let ?v = "entry_values i ADMIN_ADJUSTMENT (of_int amt) None (mass_bonus_key (batch_id r) i amt) (bonus_meta r)"
  obtain u where u: "get_user s i = Some u"
    using assms(2) by (auto simp: not_granted_def)
  have "is_whole (of_int amt)"
    by (simp add: is_whole_def)
  then have checks: "entry_checks ?v"
    using assms(1) by (simp add: entry_checks_def ck_account_ledger_whole_nonzero_amount_def
        ck_account_ledger_entry_shape_def)
  have "\<not> (\<exists>e\<in>set (entries s). entry_conflict ?v e)"
    using assms(2) unfolding not_granted_def entry_conflict_def entry_values_sel
    by (auto simp: image_iff)
  then show ?thesis
    using u checks assms(1) \<open>is_whole (of_int amt)\<close>
    by (intro exI [of _ "?v\<lparr>e_id := entry_seq s + 1, e_created_at := now\<rparr>"])
      (simp add: grant_bonus_def create_admin_adjustment_def lock_account_user_def and_then_def
        insert_or_get_entry_def Let_def appended_def)
qed

text \<open>What a batch of grants does, whatever else happens to the users meanwhile.\<close>

definition granted :: "mass_request \<Rightarrow> int \<Rightarrow> int set \<Rightarrow> db \<Rightarrow> db \<Rightarrow> bool" where
  "granted r amt is s t \<longleftrightarrow>
     (\<forall>j. position t j = position s j + (if j \<in> is then of_int amt else 0))
   \<and> (\<forall>j. get_user t j = None \<longleftrightarrow> get_user s j = None)
   \<and> idempotency_key ` set (entries t) =
       idempotency_key ` set (entries s) \<union> (\<lambda>i. mass_bonus_key (batch_id r) i amt) ` is"

lemma granted_trans:
  "granted r amt is s t \<Longrightarrow> granted r amt js t u \<Longrightarrow> is \<inter> js = {} \<Longrightarrow> granted r amt (is \<union> js) s u"
  by (auto simp: granted_def)

lemma granted_rest:
  "granted r amt is s t \<Longrightarrow> not_granted r amt js s \<Longrightarrow> is \<inter> js = {} \<Longrightarrow> not_granted r amt js t"
  by (auto simp: granted_def not_granted_def)

lemma grant_one_granted:
  assumes "0 < amt" and "not_granted r amt {i} s"
  shows "\<exists>t. grant_bonus r amt now (i, tg) s = Inr (True, t) \<and> granted r amt {i} s t"
proof -
  obtain e where e: "grant_bonus r amt now (i, tg) s = Inr (True, appended e s)" "e_user_id e = i"
    "amount e = of_int amt" "idempotency_key e = mass_bonus_key (batch_id r) i amt"
    using grant_one [OF assms, of now tg] by blast
  have "get_user (appended e s) j = get_user s j" for j
    by (simp add: get_user_def)
  then have "granted r amt {i} s (appended e s)"
    using e(2-4) by (auto simp: granted_def position_def)
  then show ?thesis
    using e(1) by blast
qed

lemma granted_refl: "granted r amt {} s s"
  by (simp add: granted_def)

lemma granted_notify: "granted r amt is s t \<Longrightarrow> granted r amt is s (snd (notify_told send admin told (c, t)))"
  using notify_field [of "\<lambda>_. ()" send admin told "(c, t)"]
  by (auto simp: granted_def position_def) (metis option.map_disc_iff)+

interpretation bonus: each_once "grant_bonus r amt now" "\<lambda>A s. 0 < amt \<and> not_granted r amt (fst ` A) s"
  "\<lambda>A. granted r amt (fst ` A)" for r amt now
proof
  fix u :: "int \<times> int" and s
  assume "0 < amt \<and> not_granted r amt (fst ` {u}) s"
  then show "\<exists>t. grant_bonus r amt now u s = Inr (True, t) \<and> granted r amt (fst ` {u}) s t"
    using grant_one_granted [of amt r "fst u" s now "snd u"] by simp
next
  fix A B :: "(int \<times> int) set" and s t u
  assume "granted r amt (fst ` A) s t" and "granted r amt (fst ` B) t u" and "fst ` A \<inter> fst ` B = {}"
  then show "granted r amt (fst ` (A \<union> B)) s u"
    using granted_trans by (simp add: image_Un)
next
  fix A B :: "(int \<times> int) set" and s t
  assume "granted r amt (fst ` A) s t" and "0 < amt \<and> not_granted r amt (fst ` B) s" and "fst ` A \<inter> fst ` B = {}"
  then show "0 < amt \<and> not_granted r amt (fst ` B) t"
    using granted_rest by blast
qed (auto simp: granted_refl granted_notify not_granted_def)

lemma fst_reachable: "map fst (reachable_users P s) = map u_id (filter (\<lambda>u. \<not> is_deleted u \<and> \<not> is_banned u \<and> P u) (users s))"
  by (simp add: reachable_users_def comp_def)

text \<open>C14. A mass bonus is exact: under a batch id that was not used before, every user of the audience that is neither
  banned nor deleted is credited exactly the amount, once, nobody else's balance moves, nobody
  fails, and the number reported is the number of recipients, whatever Telegram answers.\<close>

theorem mass_bonus_exact:
  assumes "0 < amt" and "distinct (map u_id (users s))"
    and "list_all (\<lambda>u. mass_bonus_key (batch_id r) (u_id u) amt \<notin> idempotency_key ` set (entries s)) (users s)"
    and "run_mass_bonus_background r amt send now s = (c, t)"
  shows "succeeded c = int (length (bonus_audience r now s)) \<and> failed c = 0
     \<and> position t i = position s i + (if i \<in> fst ` set (bonus_audience r now s) then of_int amt else 0)"
proof -
  let ?us = "bonus_audience r now s"
  have "distinct (map fst ?us)"
    using assms(2) unfolding bonus_audience_def fst_reachable by (simp add: distinct_map_filter)
  moreover have "not_granted r amt (fst ` set ?us) s"
    using assms(3) unfolding not_granted_def
    by (auto simp: bonus_audience_def reachable_users_def list_all_iff get_user_def find_None_iff)
  moreover obtain c' t' where run: "handle_users (grant_bonus r amt now) send (by_admin r) ?us s = (c', t')"
    by fastforce
  ultimately have "granted r amt (fst ` set ?us) s t'" "succeeded c' = int (length ?us)" "failed c' = 0"
    using bonus.run_settles [of ?us amt r s now send "by_admin r"] assms(1) by simp_all
  moreover have "c = c'" "position t i = position t' i"
    using assms(4) run by (auto simp: run_mass_bonus_background_def log_action_def position_def)
  ultimately show ?thesis
    by (simp add: granted_def)
qed

subsection \<open>The extension\<close>

text \<open>The columns of a user an extension reads or writes.\<close>

definition column :: "user \<Rightarrow> int \<times> bool \<times> bool \<times> instant option" where
  "column u = (telegram_id u, is_deleted u, is_banned u, subscription_end u)"

definition longer :: "int \<Rightarrow> user \<Rightarrow> user" where
  "longer days u = u\<lparr>subscription_end := map_option (\<lambda>t. t + days_us days) (subscription_end u)\<rparr>"

definition key_pairs :: "db \<Rightarrow> (int \<times> int) list" where
  "key_pairs s = map (\<lambda>u. (u_id u, telegram_id u)) (users s)"

lemma key_pairs_set_user:
  assumes "distinct (map u_id (users s))" and "get_user s i = Some u" and "u_id v = i" and "telegram_id v = telegram_id u"
  shows "key_pairs (set_user v s) = key_pairs s"
proof -
  have "w = u" if "w \<in> set (users s)" "u_id w = i" for w
  proof -
    have "u \<in> set (users s)" "u_id u = i"
      using assms(2) by (auto simp: get_user_def dest: find_SomeD)
    then show ?thesis
      using assms(1) that by (auto simp: distinct_map dest: inj_onD)
  qed
  then show ?thesis
    using assms(3,4) by (auto simp: key_pairs_def set_user_def update_rows_def)
qed

lemma key_pairs_eq:
  assumes "key_pairs t = key_pairs s"
  shows "map u_id (users t) = map u_id (users s)" and "map telegram_id (users t) = map telegram_id (users s)"
  using arg_cong [OF assms, of "map fst"] arg_cong [OF assms, of "map snd"] by (simp_all add: key_pairs_def comp_def)

definition extended :: "int \<Rightarrow> int set \<Rightarrow> db \<Rightarrow> db \<Rightarrow> bool" where
  "extended days is s t \<longleftrightarrow>
     (\<forall>j. map_option column (get_user t j) =
        map_option (\<lambda>u. column (if j \<in> is then longer days u else u)) (get_user s j))
   \<and> (distinct (map u_id (users s)) \<longrightarrow> key_pairs t = key_pairs s)"

definition extendable :: "(int \<Rightarrow> instant) \<Rightarrow> db \<Rightarrow> int \<times> int \<Rightarrow> bool" where
  "extendable clock s p \<longleftrightarrow>
     (\<exists>u. get_user s (fst p) = Some u \<and> telegram_id u = snd p \<and> \<not> is_deleted u \<and> \<not> is_banned u
        \<and> vpn_ends (\<lambda>t. clock (fst p) < t) u)"

definition to_extend :: "(int \<Rightarrow> instant) \<Rightarrow> int \<Rightarrow> (int \<times> int) set \<Rightarrow> db \<Rightarrow> bool" where
  "to_extend clock days A s \<longleftrightarrow>
     0 < days \<and> days < PERMANENT_SUBSCRIPTION_DAYS
   \<and> distinct (map u_id (users s)) \<and> distinct (map telegram_id (users s))
   \<and> (\<forall>p\<in>A. extendable clock s p)"

lemma find_by_telegram:
  assumes "distinct (map telegram_id (users s))" and "get_user s i = Some u" and "\<not> is_deleted u"
  shows "find (\<lambda>v. telegram_id v = telegram_id u \<and> \<not> is_deleted v) (users s) = Some u"
proof -
  have u: "u \<in> set (users s)"
    using assms(2) by (auto simp: get_user_def dest: find_SomeD)
  then obtain v where v: "find (\<lambda>v. telegram_id v = telegram_id u \<and> \<not> is_deleted v) (users s) = Some v"
    using assms(3) by (cases "find (\<lambda>v. telegram_id v = telegram_id u \<and> \<not> is_deleted v) (users s)")
      (auto simp: find_None_iff)
  then have "v \<in> set (users s)" "telegram_id v = telegram_id u"
    by (auto dest: find_SomeD)
  then show ?thesis
    using assms(1) u v by (auto simp: distinct_map dest: inj_onD)
qed

lemma extend_one:
  assumes "to_extend clock days {(i, tg)} s"
  shows "\<exists>t. extend_user ''active_standard'' srv days clock (i, tg) s = Inr (True, t) \<and> extended days {i} s t"
proof -
  obtain u e where u: "get_user s i = Some u" "telegram_id u = tg" "\<not> is_deleted u" "\<not> is_banned u"
    "subscription_end u = Some e" "clock i < e"
    using assms by (auto simp: to_extend_def extendable_def vpn_ends_def split: option.split_asm)
  have days: "0 < days" "days < PERMANENT_SUBSCRIPTION_DAYS"
    using assms by (simp_all add: to_extend_def)
  define v where "v = reset_notifications (u\<lparr>subscription_end := Some (e + days_us days)\<rparr>)"
  have found: "find (\<lambda>v. telegram_id v = tg \<and> \<not> is_deleted v) (users s) = Some u"
    using find_by_telegram [of s i u] assms u by (simp add: to_extend_def)
  have v: "u_id v = i" "column v = column (longer days u)" "telegram_id v = telegram_id u"
    using get_user_id [OF u(1)] u(5) by (simp_all add: v_def reset_notifications_def column_def longer_def)
  let ?t = "sync_access_state v (clock i) (set_user v s)"
  have "v\<lparr>u_device_limit := u_device_limit v, current_tariff_id := current_tariff_id v\<rparr> = v"
    by simp
  then have "extend_subscription tg days None None (clock i) s = Inr (Some v, ?t)"
    using days u found by (simp add: extend_subscription_def v_def Let_def)
  then have "extend_user ''active_standard'' srv days clock (i, tg) s = Inr (True, ?t)"
    using u by (simp add: extend_user_def extend_vpn_of_def vpn_ends_def and_then_def)
  moreover have "extended days {i} s ?t"
  proof -
    have "get_user ?t j = get_user (set_user v s) j" for j
      by (simp add: get_user_def)
    then have "map_option column (get_user ?t j) =
        map_option (\<lambda>u. column (if j \<in> {i} then longer days u else u)) (get_user s j)" for j
      using u(1) v by simp
    moreover have "key_pairs ?t = key_pairs (set_user v s)"
      by (simp add: key_pairs_def)
    moreover have "key_pairs (set_user v s) = key_pairs s"
      using assms v(1,3) by (intro key_pairs_set_user [OF _ u(1)]) (simp_all add: to_extend_def)
    ultimately show ?thesis
      by (simp add: extended_def)
  qed
  ultimately show ?thesis
    by blast
qed

lemma extended_trans:
  assumes "extended days A s t" and "extended days B t t1" and "A \<inter> B = {}"
  shows "extended days (A \<union> B) s t1"
proof -
  have "map_option column (get_user t1 j) =
      map_option (\<lambda>u. column (if j \<in> A \<union> B then longer days u else u)) (get_user s j)" for j
  proof -
    have one: "map_option column (get_user t j) =
        map_option (\<lambda>u. column (if j \<in> A then longer days u else u)) (get_user s j)"
      and two: "map_option column (get_user t1 j) =
        map_option (\<lambda>u. column (if j \<in> B then longer days u else u)) (get_user t j)"
      using assms(1,2) unfolding extended_def by blast+
    have long: "column (longer days u) = column (longer days v)" if "column u = column v" for u v
      using that by (simp add: column_def longer_def)
    show ?thesis
    proof (cases "get_user s j")
      case None
      then show ?thesis
        using one two by simp
    next
      case (Some u)
      then obtain v where v: "get_user t j = Some v" "column v = column (if j \<in> A then longer days u else u)"
        using one by auto
      show ?thesis
        using two v Some assms(3) long [of v u] by (cases "j \<in> A"; cases "j \<in> B") auto
    qed
  qed
  moreover have "key_pairs t1 = key_pairs s" if "distinct (map u_id (users s))"
    using assms(1,2) that key_pairs_eq(1) unfolding extended_def by metis
  ultimately show ?thesis
    by (simp add: extended_def)
qed

lemma extended_rest:
  assumes "extended days A s t" and "to_extend clock days B s" and "A \<inter> fst ` B = {}"
  shows "to_extend clock days B t"
proof -
  have "key_pairs t = key_pairs s"
    using assms(1,2) by (simp add: extended_def to_extend_def)
  note key_pairs_eq [OF this]
  moreover have "extendable clock t p" if "p \<in> B" for p
  proof -
    have "extendable clock s p"
      using assms(2) that by (simp only: to_extend_def Ball_def)
    then obtain u where u: "get_user s (fst p) = Some u" "telegram_id u = snd p" "\<not> is_deleted u" "\<not> is_banned u"
      "vpn_ends (\<lambda>t. clock (fst p) < t) u"
      unfolding extendable_def by (elim exE conjE)
    have "fst p \<notin> A"
      using that assms(3) by blast
    then have "map_option column (get_user t (fst p)) = Some (column u)"
      using assms(1) u(1) by (simp add: extended_def)
    then obtain v where "get_user t (fst p) = Some v" "column v = column u"
      by auto
    then show ?thesis
      using u(2-5) by (auto simp: extendable_def column_def vpn_ends_def)
  qed
  ultimately show ?thesis
    using assms(2) unfolding to_extend_def by simp
qed

lemma column_blocked: "column (u\<lparr>is_bot_blocked := b\<rparr>) = column u"
  by (simp add: column_def)

lemma key_pairs_mark_bot_blocked:
  assumes "distinct (map u_id (users s))"
  shows "key_pairs (mark_bot_blocked uid s) = key_pairs s"
proof (cases "get_user s uid")
  case (Some u)
  then show ?thesis
    using key_pairs_set_user [OF assms Some, of "u\<lparr>is_bot_blocked := True\<rparr>"] get_user_id [OF Some]
    by (simp add: mark_bot_blocked_def)
qed (simp add: mark_bot_blocked_def)

lemma key_pairs_mark_all:
  "distinct (map u_id (users s)) \<Longrightarrow> key_pairs (fold (\<lambda>(uid, tg). mark_bot_blocked uid) us s) = key_pairs s"
proof (induction us arbitrary: s)
  case (Cons p us)
  have "key_pairs (mark_bot_blocked (fst p) s) = key_pairs s"
    by (rule key_pairs_mark_bot_blocked [OF Cons.prems])
  then show ?case
    using Cons.IH [of "mark_bot_blocked (fst p) s"] Cons.prems key_pairs_eq(1) [of "mark_bot_blocked (fst p) s" s]
    by (simp add: case_prod_beta)
qed simp

lemma extended_notify:
  assumes "extended days A s t"
  shows "extended days A s (snd (notify_told send admin told (c, t)))"
proof -
  let ?t = "snd (notify_told send admin told (c, t))"
  have "map_option column (get_user ?t j) =
      map_option (\<lambda>u. column (if j \<in> A then longer days u else u)) (get_user s j)" for j
    using assms notify_field [of column send admin told "(c, t)", OF column_blocked] by (simp add: extended_def)
  moreover have "key_pairs ?t = key_pairs s" if "distinct (map u_id (users s))"
  proof -
    have "key_pairs t = key_pairs s"
      using assms that by (simp add: extended_def)
    moreover have "distinct (map u_id (users t))"
      using that key_pairs_eq(1) [OF calculation] by simp
    ultimately show ?thesis
      by (simp add: notify_told_def Let_def key_pairs_mark_all)
  qed
  ultimately show ?thesis
    by (simp add: extended_def)
qed

lemma extended_refl: "extended days {} s s"
  by (simp add: extended_def)

interpretation extension: each_once "extend_user ''active_standard'' srv days clock" "to_extend clock days"
  "\<lambda>A. extended days (fst ` A)" for srv days clock
proof
  fix u :: "int \<times> int" and s
  assume "to_extend clock days {u} s"
  then show "\<exists>t. extend_user ''active_standard'' srv days clock u s = Inr (True, t) \<and> extended days (fst ` {u}) s t"
    using extend_one [of clock days "fst u" "snd u" s srv] by simp
next
  fix A B :: "(int \<times> int) set" and s t t1
  assume "extended days (fst ` A) s t" and "extended days (fst ` B) t t1" and "fst ` A \<inter> fst ` B = {}"
  then show "extended days (fst ` (A \<union> B)) s t1"
    using extended_trans by (simp add: image_Un)
next
  show "to_extend clock days A s" if "to_extend clock days B s" "A \<subseteq> B" for A B s
    using that unfolding to_extend_def by blast
qed (simp_all add: extended_refl extended_rest extended_notify)

text \<open>The audience of an extension of the plain subscriptions.\<close>

lemma standard_audience:
  "extension_audience ''active_standard'' now srv s = map (\<lambda>u. (u_id u, telegram_id u))
     (sort_key u_id (filter (\<lambda>u. \<not> is_deleted u \<and> \<not> is_banned u \<and> vpn_ends (\<lambda>t. now < t) u) (users s)))"
  by (simp add: extension_audience_def build_mass_extend_audience_filter_def)

lemma distinct_standard_audience:
  assumes "distinct (map u_id (users s))"
  shows "distinct (map fst (extension_audience ''active_standard'' now srv s))"
proof -
  have "distinct (users s)" "inj_on u_id (set (users s))"
    using assms by (simp_all add: distinct_map)
  then show ?thesis
    by (simp add: standard_audience comp_def distinct_map inj_on_def)
qed

text \<open>A subscription that is active at the launch is still active when its user is reached.\<close>

definition outlives :: "instant \<Rightarrow> (int \<Rightarrow> instant) \<Rightarrow> user \<Rightarrow> bool" where
  "outlives now clock u \<longleftrightarrow> \<not> vpn_ends (\<lambda>t. now < t \<and> t \<le> clock (u_id u)) u"

lemma standard_extendable:
  assumes "distinct (map u_id (users s))" and "list_all (outlives now clock) (users s)"
    and "p \<in> set (extension_audience ''active_standard'' now srv s)"
  shows "extendable clock s p"
proof -
  obtain u where u: "u \<in> set (users s)" "p = (u_id u, telegram_id u)" "\<not> is_deleted u" "\<not> is_banned u"
    "vpn_ends (\<lambda>t. now < t) u"
    using assms(3) by (auto simp: standard_audience)
  moreover have "outlives now clock u"
    using assms(2) u(1) by (simp add: list_all_iff)
  then have "vpn_ends (\<lambda>t. clock (u_id u) < t) u"
    using u(5) by (simp add: outlives_def vpn_ends_def split: option.splits)
  moreover have "get_user s (u_id u) = Some u"
    using assms(1) u(1) by (rule get_user_of_member)
  ultimately show ?thesis
    by (simp add: extendable_def)
qed

text \<open>C15. A mass extension of the plain VPN subscriptions, the audience \<open>active_standard\<close>, by at least
  one day and less than a permanent one, is exact: every user of the audience, none of
  whose subscriptions ends while the run is under way, gets exactly the days asked for on top of
  the subscription's own end, once, everyone else's subscription stays, nobody fails, and the
  number reported is the size of the audience, whatever Telegram answers.\<close>

theorem mass_extend_exact:
  assumes "target_aud r = ''active_standard''" and "0 < days" and "days < PERMANENT_SUBSCRIPTION_DAYS"
    and "distinct (map u_id (users s))" and "distinct (map telegram_id (users s))"
    and "list_all (outlives now clock) (users s)"
    and "run_mass_extend_background r days send now clock s = (c, t)"
  shows "succeeded c = int (length (extension_audience ''active_standard'' now None s)) \<and> failed c = 0
     \<and> map_option subscription_end (get_user t i) =
         map_option (\<lambda>u. if i \<in> fst ` set (extension_audience ''active_standard'' now None s)
                         then map_option (\<lambda>e. e + days_us days) (subscription_end u)
                         else subscription_end u) (get_user s i)"
proof -
  let ?us = "extension_audience ''active_standard'' now None s"
  obtain c' t' where run: "handle_users (extend_user ''active_standard'' None days clock) send (by_admin r) ?us s = (c', t')"
    by fastforce
  have "to_extend clock days (set ?us) s"
    using assms(2-5) standard_extendable [OF assms(4,6)] by (simp add: to_extend_def)
  from extension.run_settles [OF distinct_standard_audience [OF assms(4)] this run]
  have all: "extended days (fst ` set ?us) s t'" "succeeded c' = int (length ?us)" "failed c' = 0"
    by simp_all
  have plain: "\<not> starts_with ''server_'' (target_aud r)"
    using assms(1) by (simp add: starts_with_def)
  have same: "c = c' \<and> get_user t i = get_user t' i"
  proof (cases "?us = []")
    case True
    then have "c' = no_counts \<and> t' = s"
      using run by (auto simp: handle_users_def chunks_def CHUNK_SIZE_def)
    then show ?thesis
      using True assms(1,7) plain by (simp add: run_mass_extend_background_def)
  next
    case False
    then show ?thesis
      using run assms(1,7) plain
      by (auto simp: run_mass_extend_background_def log_action_def get_user_def)
  qed
  have "map_option subscription_end (get_user t' i) = map_option (snd \<circ> snd \<circ> snd) (map_option column (get_user t' i))"
    by (simp add: option.map_comp comp_def column_def)
  also have "\<dots> = map_option (\<lambda>u. subscription_end (if i \<in> fst ` set ?us then longer days u else u)) (get_user s i)"
    using all(1) by (simp add: extended_def option.map_comp comp_def column_def)
  finally show ?thesis
    using all(2,3) same by (simp add: longer_def if_distrib cong: if_cong)
qed

subsection \<open>Concrete cases\<close>

definition sample_mass_request :: "string \<Rightarrow> mass_request" where
  "sample_mass_request aud = \<lparr>by_admin = 7, target_aud = aud, batch_id = ''b1'', reason = ''Sorry''\<rparr>"

definition sample_mass_db :: db where
  "sample_mass_db = empty_db\<lparr>users := [(sample_user 1 None)\<lparr>subscription_end := Some 100\<rparr>, sample_user 2 None]\<rparr>"

lemma sample_mass_db_users:
  "users sample_mass_db = [(sample_user 1 None)\<lparr>subscription_end := Some 100\<rparr>, sample_user 2 None]"
  by (simp add: sample_mass_db_def)

lemma sample_mass_db_entries: "entries sample_mass_db = []"
  by (simp add: sample_mass_db_def empty_db_def)

theorem mass_bonus_exact_witness:
  "\<exists>c t. run_mass_bonus_background (sample_mass_request ''all'') 50 (\<lambda>_ _ _. Tg_Sent) 0 sample_mass_db = (c, t)
     \<and> succeeded c = 2 \<and> position t 2 = position sample_mass_db 2 + 50"
proof -
  obtain c t where run: "run_mass_bonus_background (sample_mass_request ''all'') 50 (\<lambda>_ _ _. Tg_Sent) 0 sample_mass_db = (c, t)"
    by fastforce
  have "bonus_audience (sample_mass_request ''all'') 0 sample_mass_db = [(1, 1001), (2, 1002)]"
    by code_simp
  moreover have "distinct (map u_id (users sample_mass_db))"
    by (simp add: sample_mass_db_users sample_user_def)
  moreover have "list_all (\<lambda>u. mass_bonus_key (batch_id (sample_mass_request ''all'')) (u_id u) 50
      \<notin> idempotency_key ` set (entries sample_mass_db)) (users sample_mass_db)"
    by (simp add: sample_mass_db_users sample_mass_db_entries)
  ultimately show ?thesis
    using mass_bonus_exact [OF _ _ _ run, of 2] run by simp
qed

theorem mass_extend_exact_witness:
  "\<exists>c t. run_mass_extend_background (sample_mass_request ''active_standard'') 10 (\<lambda>_ _ _. Tg_Sent) 0 (\<lambda>_. 1) sample_mass_db = (c, t)
     \<and> succeeded c = 1 \<and> map_option subscription_end (get_user t 1) = Some (Some (100 + days_us 10))
     \<and> failed c = 0"
proof -
  let ?r = "sample_mass_request ''active_standard''"
  obtain c t where run: "run_mass_extend_background ?r 10 (\<lambda>_ _ _. Tg_Sent) 0 (\<lambda>_. 1) sample_mass_db = (c, t)"
    by fastforce
  have "extension_audience ''active_standard'' 0 None sample_mass_db = [(1, 1001)]"
    by code_simp
  moreover have "target_aud ?r = ''active_standard''" "(10::int) < PERMANENT_SUBSCRIPTION_DAYS"
    by (simp_all add: sample_mass_request_def PERMANENT_SUBSCRIPTION_DAYS_def)
  moreover have "distinct (map u_id (users sample_mass_db))" "distinct (map telegram_id (users sample_mass_db))"
    "list_all (outlives 0 (\<lambda>_. 1)) (users sample_mass_db)"
    by (simp_all add: sample_mass_db_users sample_user_def outlives_def vpn_ends_def)
  moreover have "get_user sample_mass_db 1 = Some ((sample_user 1 None)\<lparr>subscription_end := Some 100\<rparr>)"
    by (simp add: get_user_def sample_mass_db_users sample_user_def)
  ultimately show ?thesis
    using mass_extend_exact [OF _ _ _ _ _ _ run, of 1] run by simp
qed

end
