(* ===== verification/Access_Cleanup.thy ===== *)
theory Access_Cleanup
  imports VLESS_Sync Expiry_Notices Broadcast
begin

section \<open>services/workers/cleanup.py: access that has ended\<close>

text \<open>
  The passes of the cleanup worker that take the VPN from users whose subscription has ended, retry
  what the nodes have not confirmed, and delete old rows in batches.  The pass over the
  pending orders is in \<open>Pending_Orders\<close>.  The clock, fresh UUIDs, the answers of the nodes and of Telegram are
  arguments; so is the order of the VLESS rows by \<open>updated_at\<close>, a column every write moves.  Rows locked by another
  transaction, the log and the loop are not modelled.
\<close>

subsection \<open>After the network grace\<close>

text \<open>\<open>order_by(subscription_end.asc().nullslast())\<close>.\<close>

definition by_end_nulls_last :: "user list \<Rightarrow> user list" where
  "by_end_nulls_last us =
     sort_key ends_at (filter (\<lambda>u. subscription_end u \<noteq> None) us) @ filter (\<lambda>u. subscription_end u = None) us"

definition has_vless :: "(vless_sub \<Rightarrow> bool) \<Rightarrow> db \<Rightarrow> user \<Rightarrow> bool" where
  "has_vless p s u \<longleftrightarrow> list_ex (\<lambda>v. v_user_id v = u_id u \<and> p v) (vless_subs s)"

definition network_over :: "instant \<Rightarrow> user \<Rightarrow> bool" where
  "network_over now u \<longleftrightarrow>
     \<not> is_deleted u
   \<and> (financial_hold u
      \<or> (case subscription_end u of None \<Rightarrow> False | Some t \<Rightarrow> t < now - hours_us VPN_ACCESS_GRACE_HOURS))"

definition network_candidates :: "instant \<Rightarrow> db \<Rightarrow> int list" where
  "network_candidates now s =
     map u_id (take 50 (by_end_nulls_last
       (filter (\<lambda>u. network_over now u \<and> has_vless v_is_active s u) (users s))))"

text \<open>One user, at the time \<open>clock uid\<close> of the transaction.\<close>

definition end_network_access :: "instant \<Rightarrow> (int \<Rightarrow> instant) \<Rightarrow> int \<Rightarrow> db \<Rightarrow> db" where
  "end_network_access now clock uid s =
     (case get_user s uid of
        None \<Rightarrow> s
      | Some u \<Rightarrow>
          if is_deleted u then s
          else if is_permanent_subscription (subscription_end u) (clock uid) then s
          else if \<not> network_over now u then s
          else sync_access_state u (clock uid) s)"

definition cleanup_expired_vless_network_grace :: "instant \<Rightarrow> (int \<Rightarrow> instant) \<Rightarrow> db \<Rightarrow> db" where
  "cleanup_expired_vless_network_grace now clock s =
     fold (end_network_access now clock) (network_candidates now s) s"

subsection \<open>After the retention grace\<close>

definition retention_over :: "instant \<Rightarrow> user \<Rightarrow> bool" where
  "retention_over now u \<longleftrightarrow>
     \<not> is_deleted u
   \<and> (case subscription_end u of None \<Rightarrow> False | Some t \<Rightarrow> t < now - hours_us GRACE_PERIOD_HOURS)"

definition has_devices :: "vless_sub \<Rightarrow> bool" where
  "has_devices v \<longleftrightarrow> v_active_hwids v \<noteq> [] \<or> v_is_active v"

definition retention_candidates :: "instant \<Rightarrow> db \<Rightarrow> int list" where
  "retention_candidates now s =
     map u_id (take 50 (sort_key ends_at
       (filter (\<lambda>u. retention_over now u \<and> has_vless has_devices s u) (users s))))"

text \<open>The devices are removed and the UUID is replaced, whether devices were registered or not.\<close>

definition take_credential :: "int \<Rightarrow> string \<Rightarrow> db \<Rightarrow> pyerr + string \<times> db" where
  "take_credential i new_uuid s =
     and_then (reset_vless_hwids i new_uuid s) (\<lambda>(old, _) s.
       case (old, get_vless_row i s) of
         (Some old, _) \<Rightarrow> Inr (old, s)
       | (None, None) \<Rightarrow> Inr ([], s)
       | (None, Some v) \<Rightarrow>
           if list_ex (\<lambda>w. v_id w \<noteq> i \<and> v_uuid w = new_uuid) (vless_subs s) then Inl IntegrityError
           else Inr (v_uuid v,
             set_vless (v\<lparr>v_uuid := new_uuid, version := next_version v, v_active_hwids := [],
               node_traffic_snapshots := fresh_snapshots,
               pending_revoked_uuids := add_pending (v_uuid v) (pending_revoked_uuids v)\<rparr>) s))"

definition queue_removal :: "int \<Rightarrow> string \<Rightarrow> vless_sub \<Rightarrow> db \<Rightarrow> db" where
  "queue_removal uid old_uuid v s =
     s\<lparr>tasks := tasks s
         @ (if old_uuid = [] then [] else [Deprovision_vless old_uuid (version v) (v_id v)])
         @ [Sync_vless uid False]\<rparr>"

text \<open>\<open>True\<close>: the user is told that the devices were removed.\<close>

definition remove_devices :: "instant \<Rightarrow> instant \<Rightarrow> string \<Rightarrow> int \<Rightarrow> db \<Rightarrow> pyerr + bool \<times> db" where
  "remove_devices now later new_uuid uid s =
     (case get_user s uid of
        None \<Rightarrow> Inr (False, s)
      | Some u \<Rightarrow>
          if is_permanent_subscription (subscription_end u) later \<or> \<not> retention_over now u then Inr (False, s)
          else
            (case get_vless_sub uid s of
               None \<Rightarrow> Inr (False, s)
             | Some v \<Rightarrow>
                 let s = sync_access_state u later s in
                 if \<not> has_devices v then Inr (False, s)
                 else
                   and_then (take_credential (v_id v) new_uuid s) (\<lambda>old s.
                     case get_vless_row (v_id v) s of
                       None \<Rightarrow> Inr (False, s)
                     | Some w \<Rightarrow>
                         let w = w\<lparr>v_is_active := False\<rparr>;
                             s = queue_removal uid old w (set_vless w s) in
                         Inr (True, log_action 0 CLEANUP_DEVICE_DELETE ''user'' uid
                           [''profiles_deleted'' \<mapsto> JInt 0, ''vless_deleted'' \<mapsto> JBool True,
                            ''reason'' \<mapsto> JStr ''grace_delete''] s))))"

definition tell_removed :: "(int \<Rightarrow> notice_result) \<Rightarrow> int \<Rightarrow> db \<Rightarrow> db" where
  "tell_removed send uid s = (if send uid = Notice_Forbidden then mark_bot_blocked uid s else s)"

definition end_retention ::
  "instant \<Rightarrow> (int \<Rightarrow> instant) \<Rightarrow> (int \<Rightarrow> string) \<Rightarrow> (int \<Rightarrow> notice_result) \<Rightarrow> int \<Rightarrow> db \<Rightarrow> db" where
  "end_retention now clock uuid4 send uid s =
     (case remove_devices now (clock uid) (uuid4 uid) uid s of
        Inl _ \<Rightarrow> s
      | Inr (told, s) \<Rightarrow> if told then tell_removed send uid s else s)"

definition cleanup_expired_vless_retention_grace ::
  "instant \<Rightarrow> (int \<Rightarrow> instant) \<Rightarrow> (int \<Rightarrow> string) \<Rightarrow> (int \<Rightarrow> notice_result) \<Rightarrow> db \<Rightarrow> db" where
  "cleanup_expired_vless_retention_grace now clock uuid4 send s =
     fold (end_retention now clock uuid4 send) (retention_candidates now s) s"

subsection \<open>What the nodes have not confirmed\<close>

text \<open>\<open>oldest\<close>: the rows in the order of \<open>updated_at\<close>.\<close>

definition pending_items :: "vless_sub list \<Rightarrow> (int \<times> string list \<times> int) list" where
  "pending_items oldest =
     map (\<lambda>v. (v_id v, pending_revoked_uuids v, version_or_1 v))
       (take 20 (filter (\<lambda>v. pending_revoked_uuids v \<noteq> []) oldest))"

definition retry_item :: "node_net \<Rightarrow> int \<times> string list \<times> int \<Rightarrow> db \<Rightarrow> db" where
  "retry_item net p s = fold (retry_revocation net (fst p) (snd (snd p))) (fst (snd p)) s"

definition out_of_sync_users :: "vless_sub list \<Rightarrow> int list" where
  "out_of_sync_users oldest = map v_user_id (take 20 (filter (\<lambda>v. last_synced_version v < version v) oldest))"

definition unsynced_servers :: "db \<Rightarrow> int list" where
  "unsynced_servers s =
     map s_id (filter (\<lambda>n. case xray_instance_epoch n of
          None \<Rightarrow> False
        | Some e \<Rightarrow> e \<noteq> [] \<and> extra_data n ''vless_synced_epoch'' \<noteq> Some (JStr e)) (get_configured_vless_servers s))"

definition sweep_vless_pending_revocations ::
  "node_net \<Rightarrow> (int \<Rightarrow> instant) \<Rightarrow> int list \<Rightarrow> (int \<Rightarrow> bool) \<Rightarrow> (db \<Rightarrow> vless_sub list) \<Rightarrow> db \<Rightarrow> db" where
  "sweep_vless_pending_revocations net clock busy healthy oldest s =
     (let items = pending_items (oldest s);
          s = (if extract_node_targets (get_revocation_target_servers s) = [] then s
               else fold (retry_item net) items s);
          s = fold (\<lambda>uid s. snd (sync_user_to_nodes net uid None (clock uid) s)) (out_of_sync_users (oldest s)) s in
      fold (\<lambda>i s. snd (sync_all_active_to_server net busy (healthy i) i (clock i) s)) (unsynced_servers s) s)"

subsection \<open>Old rows\<close>

definition BATCH_DELETE_CHUNK_SIZE :: nat where "BATCH_DELETE_CHUNK_SIZE = 500"
definition MAX_BATCH_DELETE_ROUNDS :: nat where "MAX_BATCH_DELETE_ROUNDS = 100"

text \<open>The number of rows deleted and the rows that are left; \<open>key\<close> is the primary key.\<close>

fun batch_delete_matching :: "nat \<Rightarrow> nat \<Rightarrow> ('a \<Rightarrow> int) \<Rightarrow> ('a \<Rightarrow> bool) \<Rightarrow> 'a list \<Rightarrow> nat \<times> 'a list" where
  "batch_delete_matching 0 batch_size key p rows = (0, rows)"
| "batch_delete_matching (Suc n) batch_size key p rows =
     (let ids = take batch_size (map key (filter p rows)) in
      if ids = [] then (0, rows)
      else
        let left = filter (\<lambda>r. \<not> List.member ids (key r)) rows;
            deleted = length rows - length left in
        if length ids < batch_size then (deleted, left)
        else (let (rest, left) = batch_delete_matching n batch_size key p left in (deleted + rest, left)))"

definition delete_old :: "('a \<Rightarrow> int) \<Rightarrow> ('a \<Rightarrow> bool) \<Rightarrow> 'a list \<Rightarrow> nat \<times> 'a list" where
  "delete_old = batch_delete_matching MAX_BATCH_DELETE_ROUNDS BATCH_DELETE_CHUNK_SIZE"

end
