(* ===== verification/Cleanup_Theorems.thy ===== *)
theory Cleanup_Theorems
  imports Access_Cleanup VLESS_Theorems Samples
begin

section \<open>What the cleanup worker does\<close>

subsection \<open>Deleting in batches\<close>

lemma filter_not_taken:
  assumes "distinct (map key xs)"
  shows "filter (\<lambda>x. key x \<notin> key ` set (take n xs)) xs = drop n xs"
proof -
  have "distinct (map key (take n xs) @ map key (drop n xs))"
    using assms by (metis append_take_drop_id map_append)
  then have "key ` set (take n xs) \<inter> key ` set (drop n xs) = {}"
    by simp
  then have "filter (\<lambda>x. key x \<notin> key ` set (take n xs)) (drop n xs) = drop n xs"
    "filter (\<lambda>x. key x \<notin> key ` set (take n xs)) (take n xs) = []"
    by (auto simp: filter_empty_conv intro!: filter_True)
  then show ?thesis
    by (metis append_Nil append_take_drop_id filter_append)
qed

lemma one_batch:
  assumes "distinct (map key rows)"
    and left_def: "left = filter (\<lambda>r. \<not> List.member (take b (map key (filter p rows))) (key r)) rows"
  shows "filter p left = drop b (filter p rows)" and "filter (\<lambda>r. \<not> p r) left = filter (\<lambda>r. \<not> p r) rows"
    and "distinct (map key left)" and "length rows - length left = min b (length (filter p rows))"
proof -
  let ?ms = "filter p rows"
  have member: "List.member (take b (map key ?ms)) k \<longleftrightarrow> k \<in> key ` set (take b ?ms)" for k
    by (simp add: take_map)
  have other: "\<not> p r \<Longrightarrow> r \<in> set rows \<Longrightarrow> key r \<notin> key ` set (take b ?ms)" for r
    using assms(1) by (auto simp: distinct_map dest!: in_set_takeD dest: inj_onD)
  have "filter p left = filter (\<lambda>x. key x \<notin> key ` set (take b ?ms)) ?ms"
    by (simp add: left_def member conj_commute take_map)
  also have "\<dots> = drop b ?ms"
    using assms(1) by (intro filter_not_taken) (simp add: distinct_map_filter)
  finally show ps: "filter p left = drop b ?ms" .
  show nps: "filter (\<lambda>r. \<not> p r) left = filter (\<lambda>r. \<not> p r) rows"
    using other by (auto simp: left_def member take_map intro!: filter_cong)
  show "distinct (map key left)"
    using assms(1) by (simp add: left_def distinct_map_filter)
  have "length rows = length ?ms + length (filter (\<lambda>r. \<not> p r) rows)"
    "length left = length (filter p left) + length (filter (\<lambda>r. \<not> p r) left)"
    by (rule sum_length_filter_compl [symmetric])+
  then show "length rows - length left = min b (length ?ms)"
    using ps nps by simp
qed

lemma batch_delete:
  assumes "distinct (map key rows)" and "0 < b" and "length (filter p rows) \<le> n * b"
  shows "batch_delete_matching n b key p rows = (length (filter p rows), filter (\<lambda>r. \<not> p r) rows)"
  using assms(1,3)
proof (induction n arbitrary: rows)
  case 0
  then show ?case
    by (auto simp: filter_empty_conv intro!: filter_True [symmetric])
next
  case (Suc n)
  let ?ms = "filter p rows"
  let ?left = "filter (\<lambda>r. \<not> List.member (take b (map key ?ms)) (key r)) rows"
  note batch = one_batch [where p = p and b = b, OF Suc.prems(1) refl]
  show ?case
  proof (cases "length ?ms < b")
    case True
    then have none: "filter p ?left = []"
      using batch(1) by simp
    then have "?left = filter (\<lambda>r. \<not> p r) ?left"
      unfolding filter_empty_conv by (intro filter_True [symmetric]) blast
    then have left: "?left = filter (\<lambda>r. \<not> p r) rows"
      using batch(2) by simp
    show ?thesis
    proof (cases "?ms = []")
      case True
      then show ?thesis
        using left by simp
    next
      case False
      then show ?thesis
        using True assms(2) left batch(4) by (simp add: Let_def)
    qed
  next
    case False
    then have "take b (map key ?ms) \<noteq> []" and full: "length (take b (map key ?ms)) = b"
      using assms(2) by auto
    moreover have "batch_delete_matching n b key p ?left = (length (filter p ?left), filter (\<lambda>r. \<not> p r) ?left)"
      using Suc.IH [OF batch(3)] Suc.prems(2) batch(1) by simp
    ultimately show ?thesis
      using batch(1,2,4) False by (simp add: Let_def)
  qed
qed

text \<open>Old rows are deleted completely: up to 50000 rows that match, the batches delete exactly those, count them, and
  leave every other row in its place.\<close>

theorem old_rows_deleted:
  assumes "distinct (map key rows)" and "length (filter p rows) \<le> 50000"
  shows "delete_old key p rows = (length (filter p rows), filter (\<lambda>r. \<not> p r) rows)"
  using batch_delete [OF assms(1), of 500 p 100] assms(2)
  by (simp add: delete_old_def BATCH_DELETE_CHUNK_SIZE_def MAX_BATCH_DELETE_ROUNDS_def)

subsection \<open>The end of the network grace\<close>

definition one_row_each :: "db \<Rightarrow> bool" where
  "one_row_each s \<longleftrightarrow> distinct (map v_id (vless_subs s)) \<and> distinct (map v_user_id (vless_subs s))"

definition on_for :: "db \<Rightarrow> int \<Rightarrow> bool" where
  "on_for s i \<longleftrightarrow> (\<exists>v\<in>set (vless_subs s). v_user_id v = i \<and> v_is_active v)"

lemma has_vless_on_for: "has_vless v_is_active s u \<longleftrightarrow> on_for s (u_id u)"
  by (auto simp: has_vless_def on_for_def list_ex_iff)

lemma same_row:
  assumes "one_row_each s" and "v \<in> set (vless_subs s)" and "w \<in> set (vless_subs s)"
    and "v_id w = v_id v \<or> v_user_id w = v_user_id v"
  shows "w = v"
  using assms by (auto simp: one_row_each_def distinct_map dest: inj_onD)

lemma map_update_rows_in:
  "(\<And>x. x \<in> set xs \<Longrightarrow> P x \<Longrightarrow> g (f x) = g x) \<Longrightarrow> map g (update_rows P f xs) = map g xs"
  by (induction xs) auto

lemma one_row_sync:
  assumes "one_row_each s"
  shows "one_row_each (sync_access_state u now s)"
proof (cases "get_vless_sub (u_id u) s")
  case None
  then show ?thesis
    using assms by (simp add: sync_access_state_def Let_def)
next
  case (Some v)
  then have v: "v \<in> set (vless_subs s)"
    by (auto simp: get_vless_sub_def dest: find_SomeD)
  let ?rows = "update_rows (\<lambda>w. v_id w = v_id v) (\<lambda>_. v\<lparr>v_is_active := check_vpn_access u now,
     version := (if version v = 0 then 1 else version v) + 1\<rparr>) (vless_subs s)"
  have "map v_id ?rows = map v_id (vless_subs s)" "map v_user_id ?rows = map v_user_id (vless_subs s)"
    using same_row [OF assms v] by (auto intro!: map_update_rows_in; metis)+
  then show ?thesis
    using assms Some by (simp add: one_row_each_def sync_access_state_def Let_def)
qed

lemma set_update_rows_ex:
  "(\<exists>y\<in>set (update_rows P f xs). Q y) \<longleftrightarrow> (\<exists>x\<in>set xs. Q (if P x then f x else x))"
  by (auto simp: update_rows_def)

lemma if_off: "(\<exists>w\<in>set xs. v_user_id (if v_id w = i then x else w) = j \<and> v_is_active (if v_id w = i then x else w))
    \<longleftrightarrow> (\<exists>w\<in>set xs. v_id w \<noteq> i \<and> v_user_id w = j \<and> v_is_active w)" if "\<not> v_is_active x"
  using that by auto

lemma sync_off:
  assumes "one_row_each s" and "\<not> check_vpn_access u now"
  shows "on_for (sync_access_state u now s) j \<longleftrightarrow> on_for s j \<and> j \<noteq> u_id u"
proof (cases "get_vless_sub (u_id u) s")
  case None
  then have "\<not> on_for s (u_id u)"
    by (auto simp: get_vless_sub_def on_for_def find_None_iff)
  then show ?thesis
    using None by (auto simp: sync_access_state_def)
next
  case (Some v)
  then have v: "v \<in> set (vless_subs s)" "v_user_id v = u_id u"
    by (auto simp: get_vless_sub_def dest: find_SomeD)
  note same = same_row [OF assms(1) v(1)]
  show ?thesis
  proof (cases "v_is_active v")
    case True
    then have "on_for (sync_access_state u now s) j \<longleftrightarrow>
        (\<exists>w\<in>set (vless_subs s). v_id w \<noteq> v_id v \<and> v_user_id w = j \<and> v_is_active w)"
      using Some assms(2) unfolding sync_access_state_def on_for_def Let_def
      by (simp add: set_update_rows_ex if_off)
    also have "\<dots> \<longleftrightarrow> on_for s j \<and> j \<noteq> u_id u"
      unfolding on_for_def using same v by metis
    finally show ?thesis .
  next
    case False
    then have "\<not> on_for s (u_id u)"
      unfolding on_for_def using same v by metis
    then show ?thesis
      using Some assms(2) False by (auto simp: sync_access_state_def)
  qed
qed

lemma network_over_no_access:
  assumes "network_over now u" and "now \<le> later"
  shows "\<not> check_vpn_access u later"
  using assms by (auto simp: network_over_def check_vpn_access_def is_vpn_access_expired_def split: option.splits)

text \<open>The users the pass switches off: the permanent ones are spared, even under a financial hold.\<close>

definition network_ends :: "instant \<Rightarrow> (int \<Rightarrow> instant) \<Rightarrow> db \<Rightarrow> int \<Rightarrow> bool" where
  "network_ends now clock s i \<longleftrightarrow>
     (case get_user s i of None \<Rightarrow> False
      | Some u \<Rightarrow> network_over now u \<and> \<not> is_permanent_subscription (subscription_end u) (clock i))"

lemma end_network_one:
  assumes "one_row_each s" and "now \<le> clock i"
  shows "one_row_each (end_network_access now clock i s)" and "users (end_network_access now clock i s) = users s"
    and "on_for (end_network_access now clock i s) j \<longleftrightarrow> on_for s j \<and> \<not> (j = i \<and> network_ends now clock s i)"
proof -
  show "one_row_each (end_network_access now clock i s)" and "users (end_network_access now clock i s) = users s"
    using one_row_sync [OF assms(1)] assms(1) by (auto simp: end_network_access_def split: option.split)
  show "on_for (end_network_access now clock i s) j \<longleftrightarrow> on_for s j \<and> \<not> (j = i \<and> network_ends now clock s i)"
  proof (cases "get_user s i")
    case (Some u)
    then have "u_id u = i"
      by (rule get_user_id)
    then show ?thesis
      using Some sync_off [OF assms(1) network_over_no_access [OF _ assms(2)]]
      by (auto simp: end_network_access_def network_ends_def network_over_def)
  qed (simp add: end_network_access_def network_ends_def)
qed

lemma end_network_all:
  assumes "one_row_each s" and "\<And>i. i \<in> set ids \<Longrightarrow> now \<le> clock i"
  shows "users (fold (end_network_access now clock) ids s) = users s
     \<and> (on_for (fold (end_network_access now clock) ids s) j \<longleftrightarrow>
         on_for s j \<and> \<not> (j \<in> set ids \<and> network_ends now clock s j))"
  using assms
proof (induction ids arbitrary: s)
  case (Cons i ids)
  let ?t = "end_network_access now clock i s"
  have i: "now \<le> clock i"
    using Cons.prems(2) by simp
  note one = end_network_one [where clock = clock and i = i, OF Cons.prems(1) i]
  have "network_ends now clock ?t k = network_ends now clock s k" for k
    by (simp add: network_ends_def get_user_def one(2))
  then show ?case
    using Cons.IH [OF one(1)] Cons.prems(2) one(2) one(3) [of j] by auto
qed simp

lemma set_by_end [simp]: "set (by_end_nulls_last us) = set us"
  by (auto simp: by_end_nulls_last_def)

lemma length_by_end [simp]: "length (by_end_nulls_last us) = length us"
  using sum_length_filter_compl [of "\<lambda>u. subscription_end u \<noteq> None" us] by (simp add: by_end_nulls_last_def)

text \<open>C19. The pass after the network grace is exact: when at most fifty users are due, as many as a pass
  takes, exactly those whose subscription ended more than four hours ago or who are under a financial
  hold lose their VPN, but for the holders of a permanent subscription, who keep it even under a hold,
  against what the docstring says; nobody is switched on, and no user changes.\<close>

theorem network_grace_exact:
  assumes "distinct (map u_id (users s))" and "one_row_each s"
    and "length (filter (\<lambda>u. network_over now u \<and> has_vless v_is_active s u) (users s)) \<le> 50"
    and "list_all (\<lambda>u. now \<le> clock (u_id u)) (users s)" and "get_user s i = Some u"
  shows "users (cleanup_expired_vless_network_grace now clock s) = users s
     \<and> (has_vless v_is_active (cleanup_expired_vless_network_grace now clock s) u \<longleftrightarrow>
         has_vless v_is_active s u
         \<and> (network_over now u \<longrightarrow> is_permanent_subscription (subscription_end u) (clock i)))"
proof -
  let ?due = "filter (\<lambda>u. network_over now u \<and> has_vless v_is_active s u) (users s)"
  have ids: "set (network_candidates now s) = u_id ` set ?due"
    using assms(3) by (simp add: network_candidates_def)
  have u: "u \<in> set (users s)" "u_id u = i"
    using assms(5) by (auto simp: get_user_def dest: find_SomeD)
  have "now \<le> clock j" if "j \<in> set (network_candidates now s)" for j
    using that assms(4) unfolding ids by (auto simp: list_all_iff)
  note all = end_network_all [where ids = "network_candidates now s" and j = i, OF assms(2) this]
  have "network_ends now clock s i \<longleftrightarrow> network_over now u \<and> \<not> is_permanent_subscription (subscription_end u) (clock i)"
    using assms(5) by (simp add: network_ends_def)
  moreover have "on_for s i \<and> network_over now u \<longrightarrow> i \<in> set (network_candidates now s)"
    unfolding ids using u by (auto simp: has_vless_on_for)
  ultimately show ?thesis
    using all u(2) by (auto simp: cleanup_expired_vless_network_grace_def has_vless_on_for)
qed

subsection \<open>The end of the retention\<close>

definition credential_taken :: "string \<Rightarrow> vless_sub \<Rightarrow> vless_sub" where
  "credential_taken new_uuid v =
     v\<lparr>v_uuid := new_uuid, version := next_version v, v_active_hwids := [], node_traffic_snapshots := fresh_snapshots,
       pending_revoked_uuids := add_pending (v_uuid v) (pending_revoked_uuids v)\<rparr>"

lemma take_credential_row:
  assumes "get_vless_row i s = Some v" and "list_all (\<lambda>w. v_uuid w \<noteq> new_uuid) (vless_subs s)"
  shows "take_credential i new_uuid s = Inr (v_uuid v, set_vless (credential_taken new_uuid v) s)"
  using assms by (auto simp: take_credential_def reset_vless_hwids_def credential_taken_def and_then_def list_all_iff
      list_ex_iff)

lemma sync_row:
  assumes "one_row_each s" and "get_vless_sub (u_id u) s = Some v"
  shows "\<exists>v'. get_vless_row (v_id v) (sync_access_state u later s) = Some v' \<and> v_id v' = v_id v \<and> v_uuid v' = v_uuid v
     \<and> pending_revoked_uuids v' = pending_revoked_uuids v \<and> version v \<le> version v'"
    and "map v_uuid (vless_subs (sync_access_state u later s)) = map v_uuid (vless_subs s)"
proof -
  have v: "v \<in> set (vless_subs s)"
    using assms(2) by (auto simp: get_vless_sub_def dest: find_SomeD)
  obtain w where "find (\<lambda>w. v_id w = v_id v) (vless_subs s) = Some w"
    using v by (cases "find (\<lambda>w. v_id w = v_id v) (vless_subs s)") (auto simp: find_None_iff)
  then have row: "get_vless_row (v_id v) s = Some v"
    using same_row [OF assms(1) v, of w] by (auto simp: get_vless_row_def dest: find_SomeD)
  let ?on = "check_vpn_access u later"
  let ?v = "v\<lparr>v_is_active := ?on, version := (if version v = 0 then 1 else version v) + 1\<rparr>"
  have sync: "vless_subs (sync_access_state u later s) =
      (if v_is_active v \<noteq> ?on then update_rows (\<lambda>w. v_id w = v_id v) (\<lambda>_. ?v) (vless_subs s) else vless_subs s)"
    using assms(2) by (simp add: sync_access_state_def Let_def)
  show "map v_uuid (vless_subs (sync_access_state u later s)) = map v_uuid (vless_subs s)"
    unfolding sync using same_row [OF assms(1) v] by (auto intro!: map_update_rows_in; metis)
  have "get_vless_row (v_id v) (sync_access_state u later s) = Some (if v_is_active v \<noteq> ?on then ?v else v)"
    using row find_update_rows [of "\<lambda>w. v_id w = v_id v" "\<lambda>w. v_id w = v_id v" "\<lambda>_. ?v" "vless_subs s"]
    by (simp add: get_vless_row_def sync)
  then show "\<exists>v'. get_vless_row (v_id v) (sync_access_state u later s) = Some v' \<and> v_id v' = v_id v \<and> v_uuid v' = v_uuid v
     \<and> pending_revoked_uuids v' = pending_revoked_uuids v \<and> version v \<le> version v'"
    by auto
qed

lemma version_less: "version v < next_version v"
  by (simp add: next_version_def)

text \<open>C20. A day after the end of a subscription that is not permanent the credential is gone: the row gets the fresh UUID, no device, is switched
  off under a higher version, and the old UUID waits in the outbox until every node has confirmed that
  it revoked it, with the tasks for that queued.\<close>

theorem retention_takes_credential:
  assumes "get_user s uid = Some u" and "retention_over now u"
    and "\<not> is_permanent_subscription (subscription_end u) later"
    and "one_row_each s" and "get_vless_sub uid s = Some v" and "has_devices v"
    and "list_all (\<lambda>w. v_uuid w \<noteq> new_uuid) (vless_subs s)" and "v_uuid v \<noteq> []"
  shows "\<exists>t w ts. remove_devices now later new_uuid uid s = Inr (True, t) \<and> get_vless_row (v_id v) t = Some w
     \<and> v_uuid w = new_uuid \<and> v_active_hwids w = [] \<and> \<not> v_is_active w \<and> version v < version w
     \<and> List.member (pending_revoked_uuids w) (v_uuid v)
     \<and> tasks t = ts @ [Deprovision_vless (v_uuid v) (version w) (v_id v), Sync_vless uid False]"
proof -
  have uid: "u_id u = uid"
    using assms(1) by (rule get_user_id)
  let ?s = "sync_access_state u later s"
  obtain v' where v': "get_vless_row (v_id v) ?s = Some v'" "v_id v' = v_id v" "v_uuid v' = v_uuid v"
    "pending_revoked_uuids v' = pending_revoked_uuids v" "version v \<le> version v'"
    using sync_row(1) [OF assms(4)] assms(5) uid by blast
  have "new_uuid \<notin> set (map v_uuid (vless_subs ?s))"
    using assms(5,7) sync_row(2) [OF assms(4), of u v later] uid by (auto simp: list_all_iff)
  then have fresh: "list_all (\<lambda>w. v_uuid w \<noteq> new_uuid) (vless_subs ?s)"
    by (auto simp: list_all_iff)
  let ?w = "credential_taken new_uuid v'"
  let ?t = "set_vless ?w ?s"
  let ?off = "?w\<lparr>v_is_active := False\<rparr>"
  have w: "v_id ?w = v_id v" "v_id ?off = v_id v"
    using v'(2) by (simp_all add: credential_taken_def)
  then have row: "get_vless_row (v_id v) ?t = Some ?w"
    using get_vless_row_set [of "v_id v" ?s ?w] v'(1) by simp
  have off: "get_vless_row (v_id v) (set_vless ?off ?t) = Some ?off"
    using get_vless_row_set [of "v_id v" ?t ?off] row w by simp
  let ?r = "log_action 0 CLEANUP_DEVICE_DELETE ''user'' uid
      [''profiles_deleted'' \<mapsto> JInt 0, ''vless_deleted'' \<mapsto> JBool True, ''reason'' \<mapsto> JStr ''grace_delete'']
      (queue_removal uid (v_uuid v) ?off (set_vless ?off ?t))"
  have "remove_devices now later new_uuid uid s = Inr (True, ?r)"
    using assms(1-3,5,6) take_credential_row [OF v'(1) fresh] row v'(3)
    by (simp add: remove_devices_def Let_def and_then_def)
  moreover have "get_vless_row (v_id v) ?r = Some ?off"
    using off by (simp add: get_vless_row_def log_action_def queue_removal_def)
  moreover have "version v < version ?off"
    using v'(5) version_less [of v'] by (simp add: credential_taken_def)
  moreover have "List.member (pending_revoked_uuids ?off) (v_uuid v)"
    using v'(3,4) assms(8) by (simp add: credential_taken_def add_pending_def)
  moreover have "tasks ?r = tasks (set_vless ?off ?t)
      @ [Deprovision_vless (v_uuid v) (version ?off) (v_id v), Sync_vless uid False]"
    using assms(8) w by (simp add: log_action_def queue_removal_def)
  ultimately show ?thesis
    by (auto simp: credential_taken_def)
qed

subsection \<open>Concrete cases\<close>

definition gone_row :: vless_sub where
  "gone_row = \<lparr>v_id = 5, v_user_id = 1, v_token = ''token-of-user-one'', v_uuid = ''old'', v_is_active = True, version = 3,
     v_active_hwids = [], pending_revoked_uuids = [], traffic_down = 0, traffic_up = 0,
     node_traffic_snapshots = Map.empty, v_last_synced_at = None, last_synced_version = 3, v_created_at = 0\<rparr>"

text \<open>User 1's subscription has ended at 0; user 2 has a permanent one and is under a financial hold.\<close>

definition gone_db :: db where
  "gone_db = empty_db\<lparr>users := [(sample_user 1 None)\<lparr>subscription_end := Some 0\<rparr>,
       (sample_user 2 None)\<lparr>subscription_end := Some PERMANENT_END_DATE, financial_hold := True\<rparr>],
     vless_subs := [gone_row, gone_row\<lparr>v_id := 6, v_user_id := 2, v_uuid := ''other''\<rparr>]\<rparr>"

lemma gone_db_rows:
  "users gone_db = [(sample_user 1 None)\<lparr>subscription_end := Some 0\<rparr>,
     (sample_user 2 None)\<lparr>subscription_end := Some PERMANENT_END_DATE, financial_hold := True\<rparr>]"
  "vless_subs gone_db = [gone_row, gone_row\<lparr>v_id := 6, v_user_id := 2, v_uuid := ''other''\<rparr>]"
  by (simp_all add: gone_db_def)

lemma gone_db_facts:
  "distinct (map u_id (users gone_db))" "one_row_each gone_db"
  "get_user gone_db 1 = Some ((sample_user 1 None)\<lparr>subscription_end := Some 0\<rparr>)"
  "get_user gone_db 2 = Some ((sample_user 2 None)\<lparr>subscription_end := Some PERMANENT_END_DATE, financial_hold := True\<rparr>)"
  "get_vless_sub 1 gone_db = Some gone_row"
  by (simp_all add: gone_db_rows one_row_each_def get_user_def get_vless_sub_def sample_user_def gone_row_def)

theorem old_rows_deleted_witness: "delete_old id (\<lambda>i. i < 3) [1, 2, 3, 4] = (2, [3, 4 :: int])"
  using old_rows_deleted [of id "[1, 2, 3, 4]" "\<lambda>i. i < 3"] by simp

theorem network_grace_exact_witness:
  "has_vless v_is_active (cleanup_expired_vless_network_grace (days_us 2) (\<lambda>_. days_us 2) gone_db) (sample_user 2 None)
   \<and> \<not> has_vless v_is_active (cleanup_expired_vless_network_grace (days_us 2) (\<lambda>_. days_us 2) gone_db) (sample_user 1 None)"
proof -
  have id: "has_vless p s (u\<lparr>subscription_end := a\<rparr>) = has_vless p s u"
    "has_vless p s (u\<lparr>financial_hold := b\<rparr>) = has_vless p s u" for p s u a b
    by (simp_all add: has_vless_def)
  have "length (filter (\<lambda>u. network_over (days_us 2) u \<and> has_vless v_is_active gone_db u) (users gone_db)) \<le> 50"
    by (rule order_trans [OF length_filter_le]) (simp add: gone_db_rows)
  moreover have "list_all (\<lambda>u. days_us 2 \<le> (\<lambda>_. days_us 2) (u_id u)) (users gone_db)"
    by (simp add: list_all_iff)
  note network_grace_exact [OF gone_db_facts(1,2) calculation this]
  from this [OF gone_db_facts(3)] this [OF gone_db_facts(4)] show ?thesis
    by (simp add: id network_over_def is_permanent_subscription_def PERMANENT_END_DATE_def days_us_def hours_us_def
        usec_per_day_def VPN_ACCESS_GRACE_HOURS_def sample_user_def)
      (simp add: has_vless_def gone_db_rows gone_row_def sample_user_def)
qed

theorem retention_takes_credential_witness:
  "\<exists>t w. remove_devices (days_us 2) (days_us 2) ''new'' 1 gone_db = Inr (True, t) \<and> get_vless_row 5 t = Some w
     \<and> v_uuid w = ''new'' \<and> List.member (pending_revoked_uuids w) ''old''"
proof -
  have "retention_over (days_us 2) ((sample_user 1 None)\<lparr>subscription_end := Some 0\<rparr>)"
    by (simp add: retention_over_def sample_user_def days_us_def hours_us_def usec_per_day_def GRACE_PERIOD_HOURS_def)
  moreover have "\<not> is_permanent_subscription (subscription_end ((sample_user 1 None)\<lparr>subscription_end := Some 0\<rparr>)) (days_us 2)"
    by (simp add: is_permanent_subscription_def PERMANENT_END_DATE_def days_us_def usec_per_day_def)
  moreover have "has_devices gone_row" "list_all (\<lambda>w. v_uuid w \<noteq> ''new'') (vless_subs gone_db)" "v_uuid gone_row \<noteq> []"
    "v_id gone_row = 5" "v_uuid gone_row = ''old''"
    by (simp_all add: has_devices_def gone_db_rows gone_row_def)
  ultimately show ?thesis
    using retention_takes_credential [OF gone_db_facts(3) _ _ gone_db_facts(2,5), of "days_us 2" "days_us 2" "''new''"]
    by auto
qed

end
