(* ===== verification/Feeds.thy ===== *)
theory Feeds
  imports Rate_Limits VLESS_Sync WI_Devices "HOL-Library.Sublist"
begin

section \<open>bot/handlers/vless\_web.py and white\_internet\_web.py\<close>

text \<open>
  The endpoints client programs fetch their configuration from: who is answered with links, who with a
  notice or a page, and what a request changes.  A request has its address, the token of its path and its
  headers.  The clocks, the host name in a URL (\<open>urllib\<close>), the metadata of the device and the settings of
  the environment are arguments.  The texts, the pages, the headers that decorate an answer and the rendering of a link
  are not modelled.
\<close>

subsection \<open>Requests and answers\<close>

record http_request =
  rq_ip :: string
  rq_token :: string
  rq_headers :: "string \<Rightarrow> string option"

definition header :: "http_request \<Rightarrow> string \<Rightarrow> string" where
  "header r name = (case rq_headers r name of None \<Rightarrow> [] | Some v \<Rightarrow> v)"

definition first_text :: "string \<Rightarrow> string \<Rightarrow> string" where
  "first_text x y = (if x = [] then y else x)"

definition is_brace :: "char \<Rightarrow> bool" where
  "is_brace c \<longleftrightarrow> c = CHR ''{'' \<or> c = CHR ''}''"

definition raw_hwid :: "http_request \<Rightarrow> string" where
  "raw_hwid r =
     (let h = py_strip (first_text (header r ''X-Hwid'')
            (first_text (header r ''X-Device-Hwid'') (header r ''X-Device-Id''))) in
      rev (dropWhile is_brace (rev (dropWhile is_brace h))))"

text \<open>\<open>^[a-zA-Z0-9\_\-:]\{3,128\}$\<close>, whose end also matches before a last line break.\<close>

definition hwid_pattern :: "string \<Rightarrow> bool" where
  "hwid_pattern h \<longleftrightarrow>
     (let h = (if h \<noteq> [] \<and> List.last h = CHR 0x0A then butlast h else h) in
      3 \<le> length h \<and> length h \<le> 128 \<and> list_all hwid_char h)"

definition has_text :: "string \<Rightarrow> string \<Rightarrow> bool" where
  "has_text s p \<longleftrightarrow> list_ex (starts_with p) (suffixes s)"

definition api_tokens :: "string list" where
  "api_tokens = [''curl/'', ''wget/'', ''python-requests'', ''urllib'', ''httpx'', ''xray/'', ''v2ray'', ''sing-box'',
     ''clash'', ''incy'', ''happ'']"

definition browser_tokens :: "string list" where
  "browser_tokens = [''mozilla/'', ''chrome/'', ''safari/'', ''applewebkit/'', ''mobile/'', ''android'', ''iphone'']"

definition is_browser_request :: "http_request \<Rightarrow> bool" where
  "is_browser_request r \<longleftrightarrow>
     (let ua = py_lower (header r ''User-Agent'') in
      raw_hwid r = [] \<and> \<not> list_ex (has_text ua) api_tokens
      \<and> (has_text (py_lower (header r ''Accept'')) ''text/html'' \<or> list_ex (has_text ua) browser_tokens))"

datatype reason_inactive = Paused | Subscription_Expired | Subscription_Disabled | Traffic_Exhausted | Trial_Exhausted

text \<open>\<open>Links\<close> has what is served, the devices registered and their limit; \<open>Retry_After\<close> is an answer 503.\<close>

datatype 'a feed_answer =
    Feed_Too_Many_Requests int
  | Feed_Not_Found
  | Invalid_Hwid
  | Feed_Forbidden
  | Page_Pending
  | Page_Inactive reason_inactive
  | Page_Active string int
  | Notice_Inactive reason_inactive
  | Notice_Device_Limit int int
  | Hwid_Required
  | Retry_After int
  | Links 'a int int

subsection \<open>What both feeds check first\<close>

record feed_limiters =
  by_ip :: http_limiter
  by_token :: http_limiter

definition new_feed_limiters :: feed_limiters where
  "new_feed_limiters = \<lparr>by_ip = new_http_limiter 60 15 10000, by_token = new_http_limiter 30 10 10000\<rparr>"

text \<open>\<open>None\<close>: the request goes on to the tables.\<close>

definition feed_gate :: "rat \<Rightarrow> http_request \<Rightarrow> feed_limiters \<Rightarrow> 'a feed_answer option \<times> feed_limiters" where
  "feed_gate tick r l =
     (let ((allowed, wait), ips) = check_rate (rq_ip r) tick (by_ip l); l = l\<lparr>by_ip := ips\<rparr>;
          token = py_strip (rq_token r) in
      if \<not> allowed then (Some (Feed_Too_Many_Requests wait), l)
      else if length token < 16 then (Some Feed_Not_Found, l)
      else
        let ((allowed, wait), toks) = check_rate token tick (by_token l); l = l\<lparr>by_token := toks\<rparr> in
        if \<not> allowed then (Some (Feed_Too_Many_Requests wait), l)
        else if raw_hwid r \<noteq> [] \<and> \<not> hwid_pattern (raw_hwid r) then (Some Invalid_Hwid, l)
        else (None, l))"

subsection \<open>The links of a VPN subscription\<close>

text \<open>The regular expression of a domain name, as the labels between the dots.\<close>

definition alnum :: "char \<Rightarrow> bool" where
  "alnum c \<longleftrightarrow> hwid_char c \<and> c \<noteq> CHR ''_'' \<and> c \<noteq> CHR ''-'' \<and> c \<noteq> CHR '':''"

definition letter :: "char \<Rightarrow> bool" where
  "letter c \<longleftrightarrow> alnum c \<and> \<not> is_digit c"

definition domain_label :: "string \<Rightarrow> bool" where
  "domain_label l \<longleftrightarrow> l \<noteq> [] \<and> length l \<le> 63 \<and> alnum (hd l) \<and> alnum (List.last l)
     \<and> list_all (\<lambda>c. alnum c \<or> c = CHR ''-'') l"

definition top_label :: "string \<Rightarrow> bool" where
  "top_label l \<longleftrightarrow> 2 \<le> length l \<and> length l \<le> 63 \<and> list_all letter l"

definition is_fqdn :: "string \<Rightarrow> bool" where
  "is_fqdn d \<longleftrightarrow>
     (let ls = split_on CHR ''.'' d in
      length d \<le> 253 \<and> 2 \<le> length ls \<and> list_all domain_label (butlast ls) \<and> top_label (List.last ls))"

definition first_truthy :: "meta \<Rightarrow> string \<Rightarrow> string \<Rightarrow> json" where
  "first_truthy m k k' =
     (case m k of
        Some v \<Rightarrow> if truthy v then v else (case m k' of None \<Rightarrow> JNull | Some w \<Rightarrow> w)
      | None \<Rightarrow> (case m k' of None \<Rightarrow> JNull | Some w \<Rightarrow> w))"

text \<open>The domain of a node; only a text can be a domain name.\<close>

definition link_domain_of :: "(string \<Rightarrow> string option) \<Rightarrow> server \<Rightarrow> string option" where
  "link_domain_of hostname n =
     (let given = first_truthy (extra_data n) ''domain'' ''vless_domain'';
          found = (if truthy given then given
                   else if api_url n = [] then JNull
                   else (case hostname (api_url n) of None \<Rightarrow> JNull | Some h \<Rightarrow> JStr h)) in
      case found of
        JStr d \<Rightarrow> (let d = py_lower (py_strip d) in if is_fqdn d then Some d else None)
      | _ \<Rightarrow> None)"

definition in_port_range :: "int \<Rightarrow> int" where
  "in_port_range p = (if 1 \<le> p \<and> p \<le> 65535 \<and> p \<noteq> 10443 then p else 443)"

definition link_port_of :: "meta \<Rightarrow> int" where
  "link_port_of m =
     (case m ''vless_port'' of
        Some (JInt i) \<Rightarrow> in_port_range i
      | Some (JBool b) \<Rightarrow> in_port_range (if b then 1 else 0)
      | Some (JStr t) \<Rightarrow> in_port_range (case parse_int t of None \<Rightarrow> 443 | Some i \<Rightarrow> i)
      | _ \<Rightarrow> 443)"

definition VALID_VLESS_TLS_FINGERPRINTS :: "string list" where
  "VALID_VLESS_TLS_FINGERPRINTS = [''chrome'', ''firefox'', ''safari'', ''ios'', ''android'', ''edge'', ''360'', ''qq'',
     ''random'', ''randomized'']"

definition link_fingerprint_of :: "string \<Rightarrow> meta \<Rightarrow> string" where
  "link_fingerprint_of preset m =
     (let raw = (case first_truthy m ''fp'' ''fingerprint'' of
            JStr t \<Rightarrow> py_lower (py_strip t) | JInt i \<Rightarrow> str_int i | _ \<Rightarrow> []) in
      if List.member VALID_VLESS_TLS_FINGERPRINTS raw then raw else preset)"

record vless_link =
  link_uuid :: string
  link_domain :: string
  link_port :: int
  link_fp :: string

definition vless_link_of ::
  "(string \<Rightarrow> string option) \<Rightarrow> string \<Rightarrow> vless_sub \<Rightarrow> server \<Rightarrow> vless_link option" where
  "vless_link_of hostname preset v n =
     (if \<not> s_is_active n \<or> health_state n \<noteq> ONLINE \<or> lifecycle_status n \<noteq> Life_ACTIVE then None
      else
        (case link_domain_of hostname n of
           None \<Rightarrow> None
         | Some d \<Rightarrow>
             if meta_truthy (extra_data n) ''origin_hidden'' then None
             else Some \<lparr>link_uuid = v_uuid v, link_domain = d, link_port = link_port_of (extra_data n),
                        link_fp = link_fingerprint_of preset (extra_data n)\<rparr>))"

definition generate_vless_links ::
  "(string \<Rightarrow> string option) \<Rightarrow> string \<Rightarrow> vless_sub \<Rightarrow> server list \<Rightarrow> vless_link list" where
  "generate_vless_links hostname preset v ns = List.map_filter (vless_link_of hostname preset v) ns"

subsection \<open>The feed of the VPN\<close>

definition needs_sync :: "vless_sub \<Rightarrow> instant \<Rightarrow> bool" where
  "needs_sync v now \<longleftrightarrow>
     (case v_last_synced_at v of None \<Rightarrow> True | Some t \<Rightarrow> 300 * 1000000 < now - t)
   \<or> pending_revoked_uuids v \<noteq> [] \<or> last_synced_version v < version_or_1 v"

definition tier_of :: "int \<Rightarrow> string" where
  "tier_of limit = (if 5 < limit then ''pro'' else if 2 < limit then ''family'' else ''basic'')"

text \<open>A user without access: the row is switched off, and a synchronisation is queued if it was on.\<close>

definition answer_inactive :: "http_request \<Rightarrow> instant \<Rightarrow> user \<Rightarrow> 'a feed_answer" where
  "answer_inactive r now u =
     (if is_browser_request r
      then Page_Inactive (if financial_hold u
             \<or> (case subscription_end u of None \<Rightarrow> False | Some t \<Rightarrow> now < t) then Paused else Subscription_Expired)
      else Notice_Inactive Subscription_Expired)"

definition switch_off :: "vless_sub \<Rightarrow> db \<Rightarrow> db" where
  "switch_off v s = (if v_is_active v then set_vless (v\<lparr>v_is_active := False, version := next_version v\<rparr>) s else s)"

text \<open>The device registers and gets the links of the nodes that have one.\<close>

definition answer_device ::
  "(string \<Rightarrow> string option) \<Rightarrow> string \<Rightarrow> string \<Rightarrow> (string \<times> json) list \<Rightarrow> instant \<Rightarrow> vless_sub \<Rightarrow> user \<Rightarrow> db
   \<Rightarrow> vless_link list feed_answer \<times> int list \<times> db" where
  "answer_device hostname preset hwid info now v u s =
     (let ns = get_eligible_vless_servers s in
      if generate_vless_links hostname preset v ns = [] then (Retry_After 60, [], s)
      else
        let ((allowed, count, limit), s) = register_vless_hwid (v_id v) hwid None VLESS_HWID_TTL_HOURS info now s in
        if \<not> allowed
        then (Notice_Device_Limit (int (get_active_hwid_count (u_id u) now s))
                (get_effective_device_limit (Some u) s), [], s)
        else (case get_vless_row (v_id v) s of
            None \<Rightarrow> (Retry_After 60, [], s)
          | Some w \<Rightarrow> (Links (generate_vless_links hostname preset w ns) count limit,
                       if needs_sync w now then [u_id u] else [], s)))"

text \<open>The answer, the users whose synchronisation is queued, the limiters and the tables.\<close>

definition vless_feed_tables ::
  "(string \<Rightarrow> string option) \<Rightarrow> string \<Rightarrow> (string \<times> json) list \<Rightarrow> instant \<Rightarrow> http_request \<Rightarrow> db
   \<Rightarrow> vless_link list feed_answer \<times> int list \<times> db" where
  "vless_feed_tables hostname preset info now r s =
     (case get_vless_by_token (py_strip (rq_token r)) s of
        None \<Rightarrow> (Feed_Not_Found, [], s)
      | Some v \<Rightarrow>
          (case get_user_by_id (v_user_id v) s of
             None \<Rightarrow> (Feed_Not_Found, [], s)
           | Some u \<Rightarrow>
               if is_deleted u then (Feed_Not_Found, [], s)
               else if is_banned u then (Feed_Forbidden, [], s)
               else if \<not> v_is_active v \<or> financial_hold u \<or> \<not> check_vpn_access u now
               then (answer_inactive r now u, if v_is_active v then [u_id u] else [], switch_off v s)
               else if raw_hwid r = []
               then (let limit = get_effective_device_limit (Some u) s in
                     (if is_browser_request r then Page_Active (tier_of limit) limit else Hwid_Required, [], s))
               else answer_device hostname preset (raw_hwid r) info now v u s))"

definition vless_subscription_feed_handler ::
  "(string \<Rightarrow> string option) \<Rightarrow> string \<Rightarrow> (string \<times> json) list \<Rightarrow> rat \<Rightarrow> instant \<Rightarrow> http_request \<Rightarrow> feed_limiters \<Rightarrow> db
   \<Rightarrow> vless_link list feed_answer \<times> int list \<times> feed_limiters \<times> db" where
  "vless_subscription_feed_handler hostname preset info tick now r l s =
     (case feed_gate tick r l of
        (Some answer, l) \<Rightarrow> (answer, [], l, s)
      | (None, l) \<Rightarrow>
          (let (answer, queued, s) = vless_feed_tables hostname preset info now r s in (answer, queued, l, s)))"

subsection \<open>The feed of White Internet\<close>

definition quota_left :: "wi_sub \<Rightarrow> int" where
  "quota_left w =
     max 0 (base_traffic_bytes w + extra_traffic_bytes w - max 0 (traffic_used_bytes w - traffic_overage_bytes w))"

text \<open>A node the subscription has converged with, and that serves it.\<close>

definition converged :: "wi_sub \<Rightarrow> server \<Rightarrow> bool" where
  "converged w n \<longleftrightarrow>
     List.member (capabilities n) ''xray_origin''
   \<and> (protocol n = XRAY_PROTOCOL \<or> protocol n = [])
   \<and> actual_version w = desired_version w \<and> last_reconciled_node_epoch w = xray_instance_epoch n"

definition node_serves :: "wi_sub \<Rightarrow> server \<Rightarrow> bool" where
  "node_serves w n \<longleftrightarrow>
     (s_is_active n \<and> health_state n = ONLINE)
   \<or> (provisioning_status w = Node_ACTIVE \<and> 0 < actual_version w)"

text \<open>The reason why a subscription is not served, in the order of the checks.\<close>

definition wi_inactive :: "wi_sub \<Rightarrow> instant \<Rightarrow> reason_inactive option" where
  "wi_inactive w now =
     (if w_status w = WI_DISABLED then Some Subscription_Disabled
      else if w_status w = WI_EXPIRED \<or> expires_at w \<le> now then Some Subscription_Expired
      else if w_status w = WI_EXHAUSTED \<or> quota_left w \<le> 0
      then Some (if is_trial w then Trial_Exhausted else Traffic_Exhausted)
      else None)"

definition page_reason :: "reason_inactive \<Rightarrow> reason_inactive" where
  "page_reason x = (if x = Trial_Exhausted then Traffic_Exhausted else x)"

text \<open>\<open>public_domain\<close> reads the domain of the content network from the data of the node.\<close>

definition wi_answer_device ::
  "(meta \<Rightarrow> string option) \<Rightarrow> string \<Rightarrow> (string \<times> json) list \<Rightarrow> instant \<Rightarrow> wi_sub \<Rightarrow> db
   \<Rightarrow> pyerr + string feed_answer \<times> db" where
  "wi_answer_device public_domain hwid info now w s =
     (case (case origin_node_id w of None \<Rightarrow> None | Some i \<Rightarrow> if i = 0 then None else get_server s i) of
        None \<Rightarrow> Inr (Retry_After 5, s)
      | Some n \<Rightarrow>
          if \<not> converged w n \<or> \<not> node_serves w n then Inr (Retry_After 5, s)
          else (case public_domain (extra_data n) of
              None \<Rightarrow> Inr (Retry_After 60, s)
            | Some d \<Rightarrow>
                and_then (register_hwid_atomic (w_id w) hwid (max 1 (w_device_limit w)) WHITE_INTERNET_HWID_TTL_HOURS
                    info now s)
                  (\<lambda>(allowed, count, limit) s.
                     Inr (if allowed then Links d count limit else Notice_Device_Limit count limit, s))))"

definition wi_feed_tables ::
  "(meta \<Rightarrow> string option) \<Rightarrow> (string \<times> json) list \<Rightarrow> instant \<Rightarrow> http_request \<Rightarrow> db
   \<Rightarrow> pyerr + string feed_answer \<times> db" where
  "wi_feed_tables public_domain info now r s =
     (case get_wi_by_token (py_strip (rq_token r)) s of
        None \<Rightarrow> Inr (Feed_Not_Found, s)
      | Some w \<Rightarrow>
          (case get_user_by_id (w_user_id w) s of
             None \<Rightarrow> Inr (Feed_Forbidden, s)
           | Some u \<Rightarrow>
               if is_banned u \<or> is_deleted u then Inr (Feed_Forbidden, s)
               else if w_status w = WI_PENDING
               then Inr (if is_browser_request r then Page_Pending else Retry_After 5, s)
               else (case wi_inactive w now of
                   Some x \<Rightarrow> Inr (if is_browser_request r then Page_Inactive (page_reason x) else Notice_Inactive x, s)
                 | None \<Rightarrow>
                     if raw_hwid r = []
                     then Inr (if is_browser_request r
                               then Page_Active ''white_internet'' (effective_device_limit w) else Hwid_Required, s)
                     else wi_answer_device public_domain (raw_hwid r) info now w s)))"

definition white_internet_subscription_feed_handler ::
  "(meta \<Rightarrow> string option) \<Rightarrow> (string \<times> json) list \<Rightarrow> rat \<Rightarrow> instant \<Rightarrow> http_request \<Rightarrow> feed_limiters \<Rightarrow> db
   \<Rightarrow> pyerr + string feed_answer \<times> feed_limiters \<times> db" where
  "white_internet_subscription_feed_handler public_domain info tick now r l s =
     (case feed_gate tick r l of
        (Some answer, l) \<Rightarrow> Inr (answer, l, s)
      | (None, l) \<Rightarrow>
          and_then (wi_feed_tables public_domain info now r s) (\<lambda>answer s. Inr (answer, l, s)))"

end
