(* ===== verification/Feed_Theorems.thy ===== *)
theory Feed_Theorems
  imports Feeds VLESS_Theorems Delivery_Theorems Servers_Theorems
begin

section \<open>Who the feeds serve\<close>

subsection \<open>The VPN\<close>

lemma key_of_map_of: "map_of xs k = Some x \<Longrightarrow> k \<in> fst ` set xs"
  by (force dest: map_of_SomeD)

lemma keys_of_dict_set: "k \<in> fst ` set (dict_set k v xs)"
  using key_of_map_of [of "dict_set k v xs" k v] by simp

lemma refresh_None_not_pruned: "refresh_vless_hwid prev info pruned now = None \<Longrightarrow> \<not> pruned"
  by (auto simp: refresh_vless_hwid_def Let_def split: json.splits option.splits if_splits)

text \<open>A registration that succeeds leaves the device among at most as many as the limit of the user.\<close>

lemma register_vless_True:
  assumes "register_vless_hwid i hwid None ttl info now s = ((True, n, limit), t)"
  shows "\<exists>v w. get_vless_row i s = Some v \<and> get_vless_row i t = Some w \<and> v_uuid w = v_uuid v
     \<and> limit = get_effective_device_limit (get_user s (v_user_id v)) s
     \<and> clean_hwid hwid \<in> fst ` set (v_active_hwids w) \<and> int (length (v_active_hwids w)) \<le> limit"
proof -
  obtain v where v: "get_vless_row i s = Some v"
    using assms by (auto simp: register_vless_hwid_def split: option.split_asm if_split_asm)
  let ?u = "get_user s (v_user_id v)"
  define lim where "lim = get_effective_device_limit ?u s"
  define act where "act = lru_prune lim (prune_stale_hwids (v_active_hwids v) ttl now)"
  have lim: "0 < lim"
    using assms v by (auto simp: register_vless_hwid_def Let_def lim_def split: if_split_asm)
  have len: "int (length act) \<le> lim"
    unfolding act_def by (rule length_lru_prune [OF lim])
  have run: "(case map_of act (clean_hwid hwid) of
       Some prev \<Rightarrow>
         (case refresh_vless_hwid prev info (length act \<noteq> length (v_active_hwids v)) now of
            None \<Rightarrow> ((True, int (length act), lim), s)
          | Some val \<Rightarrow> ((True, int (length act), lim),
              set_vless (v\<lparr>v_active_hwids := dict_set (clean_hwid hwid) val act\<rparr>) s))
     | None \<Rightarrow>
         if lim \<le> int (length act) then ((False, int (length act), lim), s)
         else
           let registered = dict_set (clean_hwid hwid) (JObj (enrich info [(''last_seen'', JTime now)])) act in
           ((True, int (length registered), lim), set_vless (v\<lparr>v_active_hwids := registered\<rparr>) s)) = ((True, n, limit), t)"
    using assms v lim
    by (simp add: register_vless_hwid_def Let_def lim_def [symmetric] act_def [symmetric] split: if_split_asm)
  have saved: "get_vless_row i (set_vless (v\<lparr>v_active_hwids := hs\<rparr>) s) = Some (v\<lparr>v_active_hwids := hs\<rparr>)" for hs
    using get_vless_row_set [of i s "v\<lparr>v_active_hwids := hs\<rparr>"] v get_vless_row_id [OF v] by simp
  show ?thesis
  proof (cases "map_of act (clean_hwid hwid)")
    case None
    then have t: "t = set_vless (v\<lparr>v_active_hwids := dict_set (clean_hwid hwid)
        (JObj (enrich info [(''last_seen'', JTime now)])) act\<rparr>) s" "limit = lim" "int (length act) < lim"
      using run by (auto simp: Let_def split: if_split_asm)
    have "int (length (dict_set (clean_hwid hwid) (JObj (enrich info [(''last_seen'', JTime now)])) act)) \<le> lim"
      using t(3) by (simp add: length_dict_set)
    then show ?thesis
      using v saved t(1,2) keys_of_dict_set by (auto simp: lim_def)
  next
    case (Some prev)
    note known = this
    have key: "clean_hwid hwid \<in> fst ` set act"
      by (rule key_of_map_of [OF known])
    show ?thesis
    proof (cases "refresh_vless_hwid prev info (length act \<noteq> length (v_active_hwids v)) now")
      case None
      then have "length act = length (v_active_hwids v)"
        using refresh_None_not_pruned by blast
      moreover have "fst ` set act \<subseteq> fst ` set (v_active_hwids v)"
        using image_mono [OF set_lru_prune [of lim "prune_stale_hwids (v_active_hwids v) ttl now"], of fst]
        by (force simp: act_def prune_stale_hwids_def)
      ultimately show ?thesis
        using known None run v key len by (auto simp: lim_def)
    next
      case (Some val)
      then have t: "t = set_vless (v\<lparr>v_active_hwids := dict_set (clean_hwid hwid) val act\<rparr>) s" "limit = lim"
        using known run by auto
      have "length (dict_set (clean_hwid hwid) val act) = length act"
        using key by (simp add: length_dict_set)
      then show ?thesis
        using v saved t keys_of_dict_set len by (auto simp: lim_def)
    qed
  qed
qed

lemma links_uuid: "list_all (\<lambda>k. link_uuid k = v_uuid v) (generate_vless_links hostname preset v ns)"
  by (induction ns) (auto simp: generate_vless_links_def vless_link_of_def List.map_filter_simps Let_def
      split: option.split if_split_asm)

text \<open>C17. The VPN feed hands out links to nobody else: only for the token of a subscription that is switched on, whose user has access
  now and is neither banned, deleted nor under a hold, to a device that is then registered, with no more
  devices registered than the tariff allows, and every link carries the UUID of that subscription.\<close>

theorem vpn_links_entitled:
  assumes "vless_subscription_feed_handler hostname preset info tick now r l s = (Links ls n limit, queued, l', t)"
    and "distinct (map v_id (vless_subs s))"
  shows "\<exists>v u w. get_vless_by_token (py_strip (rq_token r)) s = Some v \<and> v_is_active v
     \<and> get_user_by_id (v_user_id v) s = Some u \<and> check_vpn_access u now
     \<and> get_vless_row (v_id v) t = Some w \<and> clean_hwid (raw_hwid r) \<in> fst ` set (v_active_hwids w)
     \<and> int (length (v_active_hwids w)) \<le> get_effective_device_limit (Some u) s
     \<and> list_all (\<lambda>k. link_uuid k = v_uuid v) ls"
proof -
  have tables: "vless_feed_tables hostname preset info now r s = (Links ls n limit, queued, t)"
    using assms(1) by (auto simp: vless_subscription_feed_handler_def feed_gate_def Let_def
        split: prod.split_asm option.split_asm if_split_asm)
  obtain v where v: "get_vless_by_token (py_strip (rq_token r)) s = Some v"
    using tables by (auto simp: vless_feed_tables_def split: option.split_asm)
  obtain u where u: "get_user_by_id (v_user_id v) s = Some u"
    using tables v by (auto simp: vless_feed_tables_def split: option.split_asm)
  have ok: "v_is_active v" "check_vpn_access u now"
    and device: "answer_device hostname preset (raw_hwid r) info now v u s = (Links ls n limit, queued, t)"
    using tables v u by (auto simp: vless_feed_tables_def answer_inactive_def Let_def split: if_split_asm)
  obtain count lim s1 where reg: "register_vless_hwid (v_id v) (raw_hwid r) None VLESS_HWID_TTL_HOURS info now s
      = ((True, count, lim), s1)"
    and rest: "(case get_vless_row (v_id v) s1 of None \<Rightarrow> (Retry_After 60, [], s1)
       | Some w \<Rightarrow> (Links (generate_vless_links hostname preset w (get_eligible_vless_servers s)) count lim,
           if needs_sync w now then [u_id u] else [], s1)) = (Links ls n limit, queued, t)"
    using device by (auto simp: answer_device_def Let_def split: if_split_asm prod.split_asm)
  obtain v0 w where row: "get_vless_row (v_id v) s = Some v0" "get_vless_row (v_id v) s1 = Some w" "v_uuid w = v_uuid v0"
    "lim = get_effective_device_limit (get_user s (v_user_id v0)) s"
    "clean_hwid (raw_hwid r) \<in> fst ` set (v_active_hwids w)" "int (length (v_active_hwids w)) \<le> lim"
    using register_vless_True [OF reg] by blast
  have "v \<in> set (vless_subs s)" "v0 \<in> set (vless_subs s)" "v_id v0 = v_id v"
    using v row(1) by (auto simp: get_vless_by_token_def get_vless_row_def dest: find_SomeD split: if_split_asm)
  then have "v0 = v"
    using assms(2) by (auto simp: distinct_map dest: inj_onD)
  moreover have "get_user s (v_user_id v) = Some u"
    using u by (auto simp: get_user_by_id_def split: if_split_asm)
  moreover have "t = s1" "ls = generate_vless_links hostname preset w (get_eligible_vless_servers s)"
    using rest row(2) by auto
  ultimately show ?thesis
    using v u ok row links_uuid [of w] by auto
qed

subsection \<open>White Internet\<close>

lemma register_hwid_row:
  assumes "register_hwid_atomic i hwid m ttl info now s = Inr ((True, n, limit), t)"
  shows "\<exists>v w. get_wi_row i s = Some v \<and> get_wi_row i t = Some w \<and> w_device_limit w = w_device_limit v"
proof -
  obtain v where v: "get_wi_row i s = Some v"
    using assms by (auto simp: register_hwid_atomic_def split: option.split_asm)
  have saved: "get_wi_row i t = Some (v\<lparr>w_active_hwids := hs\<rparr>)" if "save_wi (v\<lparr>w_active_hwids := hs\<rparr>) s = Inr (x, t)" for hs x
    using get_wi_row_save [OF that] get_wi_row_id [OF v] v by simp
  have "t = s \<or> (\<exists>hs x. save_wi (v\<lparr>w_active_hwids := hs\<rparr>) s = Inr (x, t))"
    using assms v by (auto simp: register_hwid_atomic_def Let_def returned split: option.split_asm if_split_asm)
  then show ?thesis
    using v saved by auto
qed

text \<open>C18. The White Internet feed hands out links to nobody else: only for the token of an active subscription that has not
  ended and has traffic left, of a user neither banned nor deleted, once its node has confirmed the
  version and the generation it should run, to a device that is then registered among at most as
  many as the subscription's own device limit, which is the limit the answer shows.\<close>

theorem wi_links_entitled:
  assumes "white_internet_subscription_feed_handler public_domain info tick now r l s = Inr (Links d n limit, l', t)"
    and "distinct (map w_id (wi_subs s))"
  shows "\<exists>w u node v. get_wi_by_token (py_strip (rq_token r)) s = Some w \<and> w_status w = WI_ACTIVE
     \<and> now < expires_at w \<and> 0 < quota_left w
     \<and> get_user_by_id (w_user_id w) s = Some u \<and> \<not> is_banned u \<and> \<not> is_deleted u
     \<and> get_server s (the (origin_node_id w)) = Some node \<and> converged w node \<and> node_serves w node
     \<and> get_wi_row (w_id w) t = Some v \<and> take 128 (py_strip (raw_hwid r)) \<in> fst ` set (w_active_hwids v)
     \<and> int (length (w_active_hwids v)) \<le> effective_device_limit w \<and> limit = effective_device_limit w"
proof -
  have tables: "wi_feed_tables public_domain info now r s = Inr (Links d n limit, t)"
    using assms by (auto simp: white_internet_subscription_feed_handler_def feed_gate_def Let_def returned
        split: prod.split_asm option.split_asm if_split_asm)
  obtain w where w: "get_wi_by_token (py_strip (rq_token r)) s = Some w"
    using tables by (auto simp: wi_feed_tables_def split: option.split_asm)
  then have "w \<in> set (wi_subs s)"
    by (auto simp: get_wi_by_token_def dest: find_SomeD split: if_split_asm)
  then have own: "v0 = w" if "get_wi_row (w_id w) s = Some v0" for v0
    using that assms(2) by (auto simp: get_wi_row_def distinct_map dest: inj_onD find_SomeD)
  obtain u where u: "get_user_by_id (w_user_id w) s = Some u"
    using tables w by (auto simp: wi_feed_tables_def split: option.split_asm)
  have ok: "\<not> is_banned u" "\<not> is_deleted u" "w_status w \<noteq> WI_PENDING" "wi_inactive w now = None"
    and device: "wi_answer_device public_domain (raw_hwid r) info now w s = Inr (Links d n limit, t)"
    using tables w u by (auto simp: wi_feed_tables_def Let_def split: if_split_asm option.split_asm)
  have "w_status w \<noteq> WI_DISABLED" "w_status w \<noteq> WI_EXPIRED" "w_status w \<noteq> WI_EXHAUSTED"
    and left: "now < expires_at w" "0 < quota_left w"
    using ok(4) by (simp_all add: wi_inactive_def split: if_split_asm)
  then have status: "w_status w = WI_ACTIVE" "now < expires_at w" "0 < quota_left w"
    using ok(3) by (cases "w_status w"; simp)+
  obtain node where node: "get_server s (the (origin_node_id w)) = Some node" "converged w node" "node_serves w node"
    using device by (auto simp: wi_answer_device_def split: option.split_asm if_split_asm)
  obtain count lim where reg: "register_hwid_atomic (w_id w) (raw_hwid r) (max 1 (w_device_limit w))
      WHITE_INTERNET_HWID_TTL_HOURS info now s = Inr ((True, count, lim), t)" and "limit = lim"
    using device by (auto simp: wi_answer_device_def returned split: option.split_asm if_split_asm)
  obtain v where v: "get_wi_row (w_id w) t = Some v" "w_device_limit v = w_device_limit w"
    using register_hwid_row [OF reg] own by blast
  then have "limit = effective_device_limit w"
    using registration_within_limit [OF reg v(1)] \<open>limit = lim\<close> by (auto simp: effective_device_limit_def)
  then show ?thesis
    using w u ok status node v registration_within_limit [OF reg v(1)] \<open>limit = lim\<close> by auto
qed

subsection \<open>Concrete cases\<close>

text \<open>User 1, whose phone asks for both of its subscriptions.\<close>

definition feed_row :: vless_sub where
  "feed_row = \<lparr>v_id = 5, v_user_id = 1, v_token = ''token-of-user-one'', v_uuid = ''uuid-5'', v_is_active = True, version = 1,
     v_active_hwids = [], pending_revoked_uuids = [], traffic_down = 0, traffic_up = 0,
     node_traffic_snapshots = Map.empty, v_last_synced_at = None, last_synced_version = 1, v_created_at = 0\<rparr>"

definition feed_node :: server where
  "feed_node = (sample_node 1)\<lparr>capabilities := [''xray_origin'', ''vless''], extra_data := [''domain'' \<mapsto> JStr ''Node.example.org'']\<rparr>"

definition feed_wi :: wi_sub where
  "feed_wi = sample_wi\<lparr>w_token := ''token-of-user-one'', w_user_id := 1, origin_node_id := Some 1, actual_version := 1, desired_version := 1,
     last_reconciled_node_epoch := Some ''e1''\<rparr>"

definition feed_db :: db where
  "feed_db = empty_db\<lparr>users := [(sample_user 1 None)\<lparr>subscription_end := Some (days_us 30), u_device_limit := 2\<rparr>],
     vless_subs := [feed_row], servers := [feed_node], wi_subs := [feed_wi]\<rparr>"

definition phone_request :: http_request where
  "phone_request = \<lparr>rq_ip = ''10.0.0.1'', rq_token = ''token-of-user-one'',
     rq_headers = [''X-Hwid'' \<mapsto> ''{phone-1}'', ''User-Agent'' \<mapsto> ''INCY/1.0'']\<rparr>"

lemma first_check:
  assumes "1 \<le> burst" and "0 < entries_max"
  shows "\<exists>m. check_rate key now (new_http_limiter per_minute burst entries_max) = ((True, 0), m)"
  using assms by (simp add: check_rate_def new_http_limiter_def refilled_def Let_def)

lemma phone_parts: "16 \<le> length (py_strip (rq_token phone_request))" "hwid_pattern (raw_hwid phone_request)"
  by code_simp+

lemma phone_gate: "\<exists>l. feed_gate 100 phone_request new_feed_limiters = (None, l)"
proof -
  obtain m m' where "check_rate (rq_ip phone_request) 100 (by_ip new_feed_limiters) = ((True, 0), m)"
    "check_rate (py_strip (rq_token phone_request)) 100 (by_token new_feed_limiters) = ((True, 0), m')"
    using first_check [where burst = 15 and entries_max = 10000 and key = "rq_ip phone_request" and now = 100 and per_minute = 60]
      first_check [where burst = 10 and entries_max = 10000 and key = "py_strip (rq_token phone_request)" and now = 100 and per_minute = 30]
    by (auto simp: new_feed_limiters_def)
  then show ?thesis
    using phone_parts by (simp add: feed_gate_def)
qed

definition is_links :: "'a feed_answer \<Rightarrow> bool" where
  "is_links x \<longleftrightarrow> (case x of Links ls n limit \<Rightarrow> True | _ \<Rightarrow> False)"

lemma phone_vpn: "is_links (fst (vless_feed_tables (\<lambda>_. None) ''firefox'' [] 0 phone_request feed_db))"
  by code_simp

lemma phone_wi: "\<exists>x t. wi_feed_tables (\<lambda>_. Some ''cdn.example.org'') [] 0 phone_request feed_db = Inr (x, t) \<and> is_links x"
  unfolding returns [symmetric] by code_simp

theorem vpn_links_entitled_witness:
  "\<exists>ls n limit queued l' t w. vless_subscription_feed_handler (\<lambda>_. None) ''firefox'' [] 100 0 phone_request new_feed_limiters feed_db
       = (Links ls n limit, queued, l', t)
     \<and> get_vless_row 5 t = Some w \<and> clean_hwid (raw_hwid phone_request) \<in> fst ` set (v_active_hwids w)
     \<and> list_all (\<lambda>k. link_uuid k = ''uuid-5'') ls"
proof -
  obtain x queued t where run: "vless_feed_tables (\<lambda>_. None) ''firefox'' [] 0 phone_request feed_db = (x, queued, t)"
    by (rule prod_cases3)
  obtain ls n limit where "x = Links ls n limit"
    using phone_vpn run by (auto simp: is_links_def split: feed_answer.split_asm)
  moreover obtain l' where "feed_gate 100 phone_request new_feed_limiters = (None :: vless_link list feed_answer option, l')"
    using phone_gate by blast
  ultimately have served: "vless_subscription_feed_handler (\<lambda>_. None) ''firefox'' [] 100 0 phone_request new_feed_limiters feed_db
      = (Links ls n limit, queued, l', t)"
    using run by (simp add: vless_subscription_feed_handler_def)
  have rows: "vless_subs feed_db = [feed_row]" "v_id feed_row = 5" "v_uuid feed_row = ''uuid-5''"
    by (simp_all add: feed_db_def feed_row_def)
  then have "distinct (map v_id (vless_subs feed_db))"
    by simp
  from vpn_links_entitled [OF served this] served rows show ?thesis
    by (auto simp: get_vless_by_token_def split: if_split_asm)
qed

theorem wi_links_entitled_witness:
  "\<exists>d n limit l' t w. white_internet_subscription_feed_handler (\<lambda>_. Some ''cdn.example.org'') [] 100 0 phone_request new_feed_limiters feed_db
       = Inr (Links d n limit, l', t) \<and> limit = 1
     \<and> get_wi_by_token (py_strip (rq_token phone_request)) feed_db = Some w \<and> w_status w = WI_ACTIVE \<and> 0 < quota_left w"
proof -
  obtain x t where run: "wi_feed_tables (\<lambda>_. Some ''cdn.example.org'') [] 0 phone_request feed_db = Inr (x, t)" "is_links x"
    using phone_wi by blast
  obtain d n limit where "x = Links d n limit"
    using run(2) by (auto simp: is_links_def split: feed_answer.split_asm)
  moreover obtain l' where "feed_gate 100 phone_request new_feed_limiters = (None :: string feed_answer option, l')"
    using phone_gate by blast
  ultimately have served: "white_internet_subscription_feed_handler (\<lambda>_. Some ''cdn.example.org'') [] 100 0 phone_request
      new_feed_limiters feed_db = Inr (Links d n limit, l', t)"
    using run(1) by (simp add: white_internet_subscription_feed_handler_def)
  have rows: "wi_subs feed_db = [feed_wi]"
    by (simp add: feed_db_def)
  have own: "w_device_limit feed_wi = 1"
    by code_simp
  have "distinct (map w_id (wi_subs feed_db))"
    by (simp add: rows)
  from wi_links_entitled [OF served this] served rows own show ?thesis
    by (auto simp: effective_device_limit_def get_wi_by_token_def split: if_split_asm)
qed

end
