(* ===== verification/Revocation_Theorems.thy ===== *)
theory Revocation_Theorems
  imports VLESS_Sync_Theorems Access_Cleanup Banning
begin

section \<open>When a revoked credential is forgotten\<close>

text \<open>
  Everything that takes a UUID out of the outbox of a VPN subscription: the synchronisation of a user,
  the task that deprovisions an old credential, the sweep of the cleanup worker, and the unban, which
  puts the current credential back in service.
\<close>

subsection \<open>The rows keep their keys\<close>

lemma set_vless_ids [simp]: "map v_id (vless_subs (set_vless w s)) = map v_id (vless_subs s)"
  by (simp add: set_vless_def) (rule map_update_rows, simp)

lemma bump_version_ids: "map v_id (vless_subs (snd (bump_subscription_version i s))) = map v_id (vless_subs s)"
  by (simp add: bump_subscription_version_def Let_def split: option.split)

lemma sync_user_ids:
  "map v_id (vless_subs (snd (sync_user_to_nodes net uid active now s))) = map v_id (vless_subs s)"
proof (cases "get_vless_sub uid s")
  case (Some v)
  have "bump_subscription_version (v_id v) s = (w, t) \<Longrightarrow> map v_id (vless_subs t) = map v_id (vless_subs s)" for w t
    using bump_version_ids [of "v_id v" s] by simp
  then show ?thesis
    using Some by (auto simp: sync_user_to_nodes_def Let_def split: prod.split option.split)
qed (simp add: sync_user_to_nodes_def)

lemma sync_users_keep_pending:
  assumes "distinct (map v_id (vless_subs s))"
  shows "keeps_pending s (fold (\<lambda>uid s. snd (sync_user_to_nodes net uid None (clock uid) s)) uids s)"
  using assms
proof (induction uids arbitrary: s)
  case (Cons uid uids)
  let ?t = "snd (sync_user_to_nodes net uid None (clock uid) s)"
  have "distinct (map v_id (vless_subs ?t))"
    using Cons.prems by (simp only: sync_user_ids)
  then show ?case
    using keeps_pending_trans [OF sync_user_keeps_pending [OF Cons.prems] Cons.IH] by simp
qed simp

lemma sync_nodes_rows:
  "vless_subs (fold (\<lambda>i s. snd (sync_all_active_to_server net busy (healthy i) i (clock i) s)) is s) = vless_subs s"
proof (induction "is" arbitrary: s)
  case (Cons i "is")
  have "vless_subs (snd (sync_all_active_to_server net busy (healthy i) i (clock i) s)) = vless_subs s"
    by (auto simp: sync_all_active_to_server_def set_server_def Let_def split: option.split)
  with Cons show ?case
    by simp
qed simp

lemma pop_pending_ids: "map v_id (vless_subs (pop_pending_revoked_uuid i x s)) = map v_id (vless_subs s)"
  by (simp add: pop_pending_revoked_uuid_def split: option.split)

subsection \<open>The retries\<close>

lemma retries_frame:
  "servers (fold (retry_revocation net i ver) us s) = servers s
   \<and> map v_id (vless_subs (fold (retry_revocation net i ver) us s)) = map v_id (vless_subs s)"
proof (induction us arbitrary: s)
  case (Cons u us)
  have "servers (retry_revocation net i ver u s) = servers s
      \<and> map v_id (vless_subs (retry_revocation net i ver u s)) = map v_id (vless_subs s)"
    by (simp add: retry_revocation_def pop_pending_ids)
  with Cons [of "retry_revocation net i ver u s"] show ?case
    by simp
qed simp

lemma retries_row:
  assumes "map_option pending_revoked_uuids (get_vless_row j s) = Some pend"
  shows "\<exists>pend'. map_option pending_revoked_uuids (get_vless_row j (fold (retry_revocation net i ver) us s)) = Some pend'"
  using assms
proof (induction us arbitrary: s pend)
  case (Cons u us)
  have "\<exists>p. map_option pending_revoked_uuids (get_vless_row j (retry_revocation net i ver u s)) = Some p"
    using Cons.prems pop_pending_row [of j i u s] by (cases "j = i") (auto simp: retry_revocation_def)
  then show ?case
    using Cons.IH by auto
qed auto

lemma retried_items_confirmed:
  assumes "x \<in> set pend" and "map_option pending_revoked_uuids (get_vless_row j s) = Some pend"
    and "map_option pending_revoked_uuids (get_vless_row j (fold (retry_item net) items s)) = Some pend'"
    and "x \<notin> set pend'"
  shows "\<exists>ver. revoked_everywhere net x ver s"
  using assms
proof (induction items arbitrary: s pend)
  case (Cons p items)
  let ?t = "retry_item net p s"
  obtain pend1 where pend1: "map_option pending_revoked_uuids (get_vless_row j ?t) = Some pend1"
    using retries_row [OF Cons.prems(2)] unfolding retry_item_def by blast
  show ?case
  proof (cases "x \<in> set pend1")
    case True
    have "servers ?t = servers s"
      using retries_frame by (simp add: retry_item_def)
    moreover have "\<exists>ver. revoked_everywhere net x ver ?t"
      using Cons.IH [OF True pend1] Cons.prems(3,4) by simp
    ultimately show ?thesis
      using revoked_everywhere_cong [of ?t s net x] by auto
  next
    case False
    then show ?thesis
      using retries_leave_unconfirmed [OF Cons.prems(1,2) pend1 [unfolded retry_item_def]] by blast
  qed
qed auto

lemma items_frame:
  "servers (fold (retry_item net) items s) = servers s
   \<and> map v_id (vless_subs (fold (retry_item net) items s)) = map v_id (vless_subs s)"
proof (induction items arbitrary: s)
  case (Cons p items)
  then show ?case
    using retries_frame [where us = "fst (snd p)"] by (simp add: retry_item_def)
qed simp

subsection \<open>The operations\<close>

inductive outbox_step :: "node_net \<Rightarrow> db \<Rightarrow> db \<Rightarrow> bool" where
  synchronise: "outbox_step net s (run_ensure_synced net uid active now s)"
| deprovision: "outbox_step net s (run_deprovision net old_uuid ver i now s)"
| sweep: "outbox_step net s (sweep_vless_pending_revocations net clock busy healthy oldest s)"
| unban: "unban_user_row admin u now s = Inr (r, t) \<Longrightarrow> outbox_step net s t"

lemma ensure_synced_confirmed:
  assumes "distinct (map v_id (vless_subs s))"
    and "get_vless_row i s = Some v" and "x \<in> set (pending_revoked_uuids v)"
    and "get_vless_row i (run_ensure_synced net uid active now s) = Some v'"
    and "x \<notin> set (pending_revoked_uuids v')"
  shows "\<exists>ver. revoked_everywhere net x ver s"
proof -
  let ?t = "snd (sync_user_to_nodes net uid active now s)"
  have keep: "keeps_pending s ?t"
    by (rule sync_user_keeps_pending [OF assms(1)])
  have before: "map_option pending_revoked_uuids (get_vless_row i ?t) = Some (pending_revoked_uuids v)"
    using keep assms(2) by (simp add: keeps_pending_def)
  have after: "map_option pending_revoked_uuids (get_vless_row i (run_ensure_synced net uid active now s))
      = Some (pending_revoked_uuids v')"
    by (simp add: assms(4))
  obtain w where w: "get_vless_sub uid ?t = Some w"
    using before after assms(3,5) by (cases "get_vless_sub uid ?t") (auto simp: run_ensure_synced_def)
  have "revoked_everywhere net x (Some (version_or_1 w)) ?t"
  proof (cases "extract_node_targets (get_revocation_target_servers ?t) = []")
    case True
    then show ?thesis
      using before after assms(3,5) w by (auto simp: run_ensure_synced_def)
  next
    case False
    then show ?thesis
      using after w
      by (intro retries_leave_unconfirmed [OF assms(3) before _ assms(5)])
        (simp add: run_ensure_synced_def)
  qed
  then have "revoked_everywhere net x (Some (version_or_1 w)) s"
    using keep by (simp add: keeps_pending_def revoked_everywhere_cong [of ?t s])
  then show ?thesis
    by blast
qed

lemma deprovision_confirmed:
  assumes "get_vless_row j s = Some v" and "x \<in> set (pending_revoked_uuids v)"
    and "get_vless_row j (run_deprovision net old_uuid ver sub_id now s) = Some v'"
    and "x \<notin> set (pending_revoked_uuids v')"
  shows "revoked_everywhere net x ver s"
proof -
  obtain i where i: "sub_id = Some i"
    using assms by (cases sub_id) (auto simp: run_deprovision_def)
  have confirmed: "\<not> (i = 0 \<or> extract_node_targets (get_revocation_target_servers s) = []
      \<or> \<not> revoked_everywhere net old_uuid ver s)"
    by (rule ccontr) (use assms i in \<open>auto simp: run_deprovision_def\<close>)
  let ?t = "pop_pending_revoked_uuid i old_uuid s"
  have "map_option pending_revoked_uuids (get_vless_row j (run_deprovision net old_uuid ver sub_id now s))
      = map_option pending_revoked_uuids (get_vless_row j ?t)"
  proof (cases "get_vless_row i ?t")
    case (Some w)
    have "keeps_pending ?t (set_vless (w\<lparr>v_last_synced_at := a, last_synced_version := n\<rparr>) ?t)" for a n
      using Some get_vless_row_id [OF Some] by (intro keeps_pending_set [of w]) simp_all
    then show ?thesis
      using Some i confirmed by (simp add: run_deprovision_def keeps_pending_def Let_def split: option.split)
  qed (use i confirmed in \<open>simp add: run_deprovision_def Let_def\<close>)
  then have "x = old_uuid"
    using assms pop_pending_row [of j i old_uuid s] by (auto split: if_split_asm)
  with confirmed show ?thesis
    by blast
qed

lemma sweep_confirmed:
  assumes "distinct (map v_id (vless_subs s))"
    and "get_vless_row j s = Some v" and "x \<in> set (pending_revoked_uuids v)"
    and "get_vless_row j (sweep_vless_pending_revocations net clock busy healthy oldest s) = Some v'"
    and "x \<notin> set (pending_revoked_uuids v')"
  shows "\<exists>ver. revoked_everywhere net x ver s"
proof -
  define retried where "retried = (if extract_node_targets (get_revocation_target_servers s) = [] then s
      else fold (retry_item net) (pending_items (oldest s)) s)"
  define synced where "synced = fold (\<lambda>uid s. snd (sync_user_to_nodes net uid None (clock uid) s))
      (out_of_sync_users (oldest retried)) retried"
  have "map v_id (vless_subs retried) = map v_id (vless_subs s)"
    using items_frame by (simp add: retried_def)
  then have "keeps_pending retried synced"
    unfolding synced_def using assms(1) by (intro sync_users_keep_pending) simp
  moreover have "get_vless_row j synced = Some v'"
    using assms(4) sync_nodes_rows
    by (simp add: sweep_vless_pending_revocations_def Let_def retried_def synced_def get_vless_row_def)
  ultimately have after: "map_option pending_revoked_uuids (get_vless_row j retried) = Some (pending_revoked_uuids v')"
    by (metis keeps_pending_def option.simps(9))
  have before: "map_option pending_revoked_uuids (get_vless_row j s) = Some (pending_revoked_uuids v)"
    by (simp add: assms(2))
  show ?thesis
  proof (cases "extract_node_targets (get_revocation_target_servers s) = []")
    case True
    then show ?thesis
      using before after assms(3,5) by (auto simp: retried_def)
  next
    case False
    then show ?thesis
      using retried_items_confirmed [OF assms(3) before _ assms(5)] after by (simp add: retried_def)
  qed
qed

lemma unban_back_in_service:
  assumes "distinct (map v_id (vless_subs s))"
    and "get_vless_row j s = Some v" and "x \<in> set (pending_revoked_uuids v)"
    and "unban_user_row admin u0 now s = Inr (r, t)" and "get_vless_row j t = Some v'"
    and "x \<notin> set (pending_revoked_uuids v')"
  shows "v_uuid v' = x \<and> v_is_active v'"
proof -
  have "get_vless_row j t \<noteq> get_vless_row j s"
    using assms(2,3,5,6) by auto
  then obtain u where t: "vless_subs t = vless_subs (restore_vless u now (set_user u s))"
    using assms(4)
    by (auto simp: unban_user_row_def log_action_def Let_def split: option.split_asm if_split_asm)
  let ?s = "set_user u s"
  have row: "get_vless_row j ?s = Some v"
    using assms(2) by (simp add: get_vless_row_def)
  have after: "get_vless_row j (restore_vless u now ?s) = Some v'"
    using assms(5) t by (simp add: get_vless_row_def)
  obtain w where w: "get_vless_sub (u_id u) ?s = Some w" "check_vpn_access u now"
    using row after assms(3,6) by (cases "get_vless_sub (u_id u) ?s") (auto simp: restore_vless_def split: if_split_asm)
  have same: "get_vless_row (v_id w) ?s = Some w"
    using assms(1) w(1) by (intro get_vless_sub_row) simp_all
  let ?w = "w\<lparr>v_is_active := True, version := next_version w,
      pending_revoked_uuids := (if v_uuid w \<noteq> [] then filter (\<lambda>x. x \<noteq> v_uuid w) (pending_revoked_uuids w)
        else pending_revoked_uuids w)\<rparr>"
  have "get_vless_row j (set_vless ?w ?s) = Some v'"
    using after w by (simp add: restore_vless_def Let_def get_vless_row_def)
  then have "v' = (if j = v_id w then ?w else v)"
    using row by (simp add: get_vless_row_upd split: if_split_asm)
  then show ?thesis
    using assms(3,6) row same by (auto split: if_split_asm)
qed

text \<open>C34. A revoked credential is forgotten only when it is dead: when an operation takes a UUID out of
  the outbox of a VPN subscription, be it the synchronisation of a user, the task that deprovisions an
  old credential or the sweep of the cleanup worker, every active node that may hold it, reachable or
  not, has confirmed in that very operation that it is disabled.  The only other way out is an unban
  that puts the same UUID back in service.  A node that is being decommissioned is not asked.\<close>

theorem revocation_forgotten_when_confirmed:
  assumes "outbox_step net s t" and "distinct (map v_id (vless_subs s))"
    and "get_vless_row i s = Some v" and "x \<in> set (pending_revoked_uuids v)"
    and "get_vless_row i t = Some v'" and "x \<notin> set (pending_revoked_uuids v')"
  shows "(\<forall>n\<in>set (get_revocation_target_servers s).
      \<exists>ver r. net (s_id n) x False ver = Some r \<and> confirms_disabled r)
    \<or> v_uuid v' = x \<and> v_is_active v'"
proof -
  have confirmed: ?thesis if "\<exists>ver. revoked_everywhere net x ver s"
    using that revoked_everywhere_confirms by blast
  from assms(1) show ?thesis
  proof cases
    case synchronise
    then show ?thesis
      using ensure_synced_confirmed [OF assms(2-4) _ assms(6)] assms(5) confirmed by blast
  next
    case deprovision
    then show ?thesis
      using deprovision_confirmed [OF assms(3,4) _ assms(6)] assms(5) confirmed by blast
  next
    case sweep
    then show ?thesis
      using sweep_confirmed [OF assms(2-4) _ assms(6)] assms(5) confirmed by blast
  next
    case unban
    then show ?thesis
      using unban_back_in_service [OF assms(2-4) _ assms(5,6)] by blast
  qed
qed

subsection \<open>A credential leaves the outbox\<close>

text \<open>A node that applies every request, and one VLESS node that has a revoked client.\<close>

definition obedient :: node_net where
  "obedient i u active ver = Some \<lparr>rs_result = APPLIED, rs_error = None, rs_epoch = JNull,
     rs_inbounds = [JStr ''VLESS-in''], rs_all_verified = True, rs_raw = []\<rparr>"

definition revoking_db :: db where
  "revoking_db = billed_db\<lparr>servers := [(sample_node 3)\<lparr>protocol := ''vless''\<rparr>]\<rparr>"

abbreviation swept_db :: db where
  "swept_db \<equiv> sweep_vless_pending_revocations obedient (\<lambda>_. 0) [] (\<lambda>_. True) vless_subs revoking_db"

theorem revocation_forgotten_when_confirmed_witness:
  "\<exists>v'. get_vless_row 1 swept_db = Some v' \<and> ''u0'' \<notin> set (pending_revoked_uuids v')
     \<and> ((\<forall>n\<in>set (get_revocation_target_servers revoking_db).
          \<exists>ver r. obedient (s_id n) ''u0'' False ver = Some r \<and> confirms_disabled r)
        \<or> v_uuid v' = ''u0'' \<and> v_is_active v')"
proof -
  have "case get_vless_row 1 swept_db of None \<Rightarrow> False
      | Some v' \<Rightarrow> \<not> List.member (pending_revoked_uuids v') ''u0''"
    by code_simp
  then obtain v' where v': "get_vless_row 1 swept_db = Some v'" "''u0'' \<notin> set (pending_revoked_uuids v')"
    by (auto simp: List.member_iff split: option.split_asm)
  have row: "get_vless_row 1 revoking_db = Some vless_row"
    by (simp add: revoking_db_def billed_db_def get_vless_row_def vless_row_def)
  have "distinct (map v_id (vless_subs revoking_db))" "''u0'' \<in> set (pending_revoked_uuids vless_row)"
    by (simp_all add: revoking_db_def billed_db_def vless_row_def)
  from revocation_forgotten_when_confirmed [OF sweep this(1) row this(2) v'] v' show ?thesis
    by blast
qed

end
